(* ===== verification/Prelude.thy ===== *)
theory Prelude
  imports Main "HOL-Library.State_Monad"
begin

text \<open>
  The library every other theory of the development rests on: the weakest-precondition calculus for
  the state monad in which the effectful Go code is written, the collections of hints
  (\<^theory_text>\<open>wp_simps\<close> rewrites a weakest precondition into the conditions of the
  branches, \<^theory_text>\<open>keeps_intros\<close> proves that a program keeps an invariant by
  following its syntax), and generic lemmas on lists.
\<close>

named_theorems wp_simps
named_theorems keeps_intros

section \<open>Weakest preconditions\<close>

text \<open>
  \<open>wp m Q w\<close> says that running \<open>m\<close> in the world \<open>w\<close> ends with a result and a world that satisfy
  \<open>Q\<close>. A program of the model is total, so this is total correctness.
\<close>

definition wp :: "('w, 'a) state \<Rightarrow> ('a \<Rightarrow> 'w \<Rightarrow> bool) \<Rightarrow> 'w \<Rightarrow> bool" where
  "wp m Q w = (case run_state m w of (a, w') \<Rightarrow> Q a w')"

lemma wpD: "wp m Q w \<Longrightarrow> run_state m w = (a, w') \<Longrightarrow> Q a w'"
  by (simp add: wp_def)

lemma wpI: "(\<And>a w'. run_state m w = (a, w') \<Longrightarrow> Q a w') \<Longrightarrow> wp m Q w"
  by (auto simp: wp_def split: prod.splits)

lemma wp_mono: "wp m R w \<Longrightarrow> (\<And>a w'. R a w' \<Longrightarrow> Q a w') \<Longrightarrow> wp m Q w"
  by (auto simp: wp_def split: prod.splits)

lemma wp_conj: "wp m Q w \<Longrightarrow> wp m R w \<Longrightarrow> wp m (\<lambda>a w'. Q a w' \<and> R a w') w"
  by (auto simp: wp_def split: prod.splits)

lemma wp_True [wp_simps]: "wp m (\<lambda>_ _. True) w"
  by (auto simp: wp_def split: prod.splits)

lemma wp_return [wp_simps]: "wp (State_Monad.return a) Q w = Q a w"
  by (simp add: wp_def)

lemma wp_bind [wp_simps]: "wp (State_Monad.bind m f) Q w = wp m (\<lambda>a. wp (f a) Q) w"
  by (simp add: wp_def split: prod.splits)

lemma wp_if [wp_simps]: "wp (if b then m else n) Q w = (if b then wp m Q w else wp n Q w)"
  by simp

lemma wp_sum [wp_simps]:
  "wp (case s of Inl e \<Rightarrow> f e | Inr v \<Rightarrow> g v) Q w
   = (case s of Inl e \<Rightarrow> wp (f e) Q w | Inr v \<Rightarrow> wp (g v) Q w)"
  by (cases s) simp_all

lemma wp_option [wp_simps]:
  "wp (case x of None \<Rightarrow> m | Some v \<Rightarrow> f v) Q w
   = (case x of None \<Rightarrow> wp m Q w | Some v \<Rightarrow> wp (f v) Q w)"
  by (cases x) simp_all

lemma wp_prod [wp_simps]:
  "wp (case p of (a, b) \<Rightarrow> f a b) Q w = (case p of (a, b) \<Rightarrow> wp (f a b) Q w)"
  by (cases p) simp_all

lemma wp_list [wp_simps]:
  "wp (case xs of [] \<Rightarrow> m | y # ys \<Rightarrow> f y ys) Q w
   = (case xs of [] \<Rightarrow> wp m Q w | y # ys \<Rightarrow> wp (f y ys) Q w)"
  by (cases xs) simp_all

text \<open>The rule for a step that reads or changes the world by a function of it.\<close>

lemma wp_State [wp_simps]: "wp (State f) Q w = (case f w of (a, w') \<Rightarrow> Q a w')"
  by (simp add: wp_def)

text \<open>The rules for one step, and for one step whose error the Go code looks at at once.\<close>

lemma wp_step:
  "wp m R w \<Longrightarrow> (\<And>a w'. R a w' \<Longrightarrow> wp (f a) Q w') \<Longrightarrow> wp (State_Monad.bind m f) Q w"
  by (auto simp: wp_bind elim!: wp_mono)

lemma wp_try:
  assumes "wp m R w" and "\<And>e w'. R (Inl e) w' \<Longrightarrow> wp (f e) Q w'" and "\<And>v w'. R (Inr v) w' \<Longrightarrow> wp (g v) Q w'"
  shows "wp (State_Monad.bind m (\<lambda>x. case x of Inl e \<Rightarrow> f e | Inr v \<Rightarrow> g v)) Q w"
  by (rule wp_step [OF assms(1)]) (auto simp: assms(2,3) split: sum.splits)

lemma wp_ifI: "(b \<Longrightarrow> wp m Q w) \<Longrightarrow> (\<not> b \<Longrightarrow> wp n Q w) \<Longrightarrow> wp (if b then m else n) Q w"
  by simp

lemma wp_returnI: "Q a w \<Longrightarrow> wp (State_Monad.return a) Q w"
  by (simp add: wp_return)

section \<open>Invariants\<close>

text \<open>\<open>keeps I m\<close>: every run of \<open>m\<close> that starts in \<open>I\<close> ends in \<open>I\<close>, whatever it returns.\<close>

definition keeps :: "('w \<Rightarrow> bool) \<Rightarrow> ('w, 'a) state \<Rightarrow> bool" where
  "keeps I m \<longleftrightarrow> (\<forall>w. I w \<longrightarrow> wp m (\<lambda>_. I) w)"

lemma keepsI: "(\<And>w. I w \<Longrightarrow> wp m (\<lambda>_. I) w) \<Longrightarrow> keeps I m"
  by (simp add: keeps_def)

lemma keepsD: "keeps I m \<Longrightarrow> I w \<Longrightarrow> wp m (\<lambda>_. I) w"
  by (simp add: keeps_def)

lemma keeps_run: "keeps I m \<Longrightarrow> I w \<Longrightarrow> run_state m w = (a, w') \<Longrightarrow> I w'"
  by (auto dest: keepsD wpD)

lemma keeps_return [keeps_intros]: "keeps I (State_Monad.return a)"
  by (simp add: keeps_def wp_return)

lemma keeps_bind [keeps_intros]:
  "keeps I m \<Longrightarrow> (\<And>a. keeps I (f a)) \<Longrightarrow> keeps I (State_Monad.bind m f)"
  by (auto simp: keeps_def wp_bind elim!: wp_mono)

lemma keeps_if [keeps_intros]: "(b \<Longrightarrow> keeps I m) \<Longrightarrow> (\<not> b \<Longrightarrow> keeps I n) \<Longrightarrow> keeps I (if b then m else n)"
  by simp

lemma keeps_sum [keeps_intros]:
  "(\<And>e. s = Inl e \<Longrightarrow> keeps I (f e)) \<Longrightarrow> (\<And>v. s = Inr v \<Longrightarrow> keeps I (g v)) \<Longrightarrow>
   keeps I (case s of Inl e \<Rightarrow> f e | Inr v \<Rightarrow> g v)"
  by (cases s) simp_all

lemma keeps_option [keeps_intros]:
  "(x = None \<Longrightarrow> keeps I m) \<Longrightarrow> (\<And>v. x = Some v \<Longrightarrow> keeps I (f v)) \<Longrightarrow>
   keeps I (case x of None \<Rightarrow> m | Some v \<Rightarrow> f v)"
  by (cases x) simp_all

lemma keeps_prod [keeps_intros]:
  "(\<And>a b. p = (a, b) \<Longrightarrow> keeps I (f a b)) \<Longrightarrow> keeps I (case p of (a, b) \<Rightarrow> f a b)"
  by (cases p) simp_all

lemma keeps_list [keeps_intros]:
  "(xs = [] \<Longrightarrow> keeps I m) \<Longrightarrow> (\<And>y ys. xs = y # ys \<Longrightarrow> keeps I (f y ys)) \<Longrightarrow>
   keeps I (case xs of [] \<Rightarrow> m | y # ys \<Rightarrow> f y ys)"
  by (cases xs) simp_all

lemma keeps_Let [keeps_intros]: "keeps I (f x) \<Longrightarrow> keeps I (let y = x in f y)"
  by simp

lemma keeps_conj: "keeps I m \<Longrightarrow> keeps J m \<Longrightarrow> keeps (\<lambda>w. I w \<and> J w) m"
  by (auto simp: keeps_def intro: wp_conj)

section \<open>Lists\<close>

lemma append_eq_prefix_cases:
  "p @ q = r @ s \<Longrightarrow> (\<exists>t. r = p @ t \<and> q = t @ s) \<or> (\<exists>t. p = r @ t \<and> s = t @ q)"
  by (auto simp: append_eq_append_conv2)

lemma butlast_snoc_eq: "xs \<noteq> [] \<Longrightarrow> butlast xs @ [last xs] = xs"
  by simp

lemma filter_id: "(\<And>x. x \<in> set xs \<Longrightarrow> P x) \<Longrightarrow> filter P xs = xs"
  by (induction xs) auto

end
