(* ===== verification/GoText.thy ===== *)
theory GoText
  imports Prelude
begin

text \<open>
  The parts of Go's \<^verbatim>\<open>strings\<close>, \<^verbatim>\<open>strconv\<close>, \<^verbatim>\<open>encoding/hex\<close> and \<^verbatim>\<open>fmt\<close> packages that the program
  calls, on strings as lists of bytes: splitting and joining, prefixes, case folding, hexadecimal
  and decimal output, and the quoted form \<^verbatim>\<open>%q\<close>.
\<close>

section \<open>Splitting and joining\<close>

text \<open>\<^verbatim>\<open>strings.Split(s, sep)\<close> for a separator of one byte.\<close>

fun split_on :: "char \<Rightarrow> string \<Rightarrow> string list" where
  "split_on c [] = [[]]"
| "split_on c (x # xs) =
     (if x = c then [] # split_on c xs
      else (case split_on c xs of [] \<Rightarrow> [[x]] | y # ys \<Rightarrow> (x # y) # ys))"

text \<open>\<^verbatim>\<open>strings.Join(parts, sep)\<close>.\<close>

fun join_with :: "string \<Rightarrow> string list \<Rightarrow> string" where
  "join_with sep [] = []"
| "join_with sep [x] = x"
| "join_with sep (x # y # zs) = x @ sep @ join_with sep (y # zs)"

lemma split_on_not_Nil [simp]: "split_on c s \<noteq> []"
  by (induction s) (auto split: list.splits)

lemma split_on_free: "c \<notin> set s \<Longrightarrow> split_on c s = [s]"
  by (induction s) auto

lemma split_on_append: "split_on c (a @ c # b) = split_on c a @ split_on c b"
proof (induction a)
  case (Cons x a)
  then show ?case by (cases "split_on c a") (auto split: list.splits)
qed simp

lemma split_on_parts_free: "p \<in> set (split_on c s) \<Longrightarrow> c \<notin> set p"
  by (induction s arbitrary: p) (auto split: list.splits if_splits)

lemma split_on_parts_subset: "p \<in> set (split_on c s) \<Longrightarrow> set p \<subseteq> set s"
proof (induction s arbitrary: p)
  case (Cons x s)
  show ?case
  proof (cases "x = c")
    case True
    with Cons show ?thesis by auto
  next
    case False
    obtain y ys where y: "split_on c s = y # ys" by (cases "split_on c s") auto
    with Cons.prems False have "p = x # y \<or> p \<in> set ys" by auto
    with y Cons.IH[of y] Cons.IH[of p] show ?thesis by auto
  qed
qed simp

lemma join_with_append:
  "xs \<noteq> [] \<Longrightarrow> ys \<noteq> [] \<Longrightarrow> join_with sep (xs @ ys) = join_with sep xs @ sep @ join_with sep ys"
proof (induction sep xs rule: join_with.induct)
  case (2 sep x)
  then show ?case by (cases ys) auto
qed auto

lemma join_with_extend_last: "join_with sep (xs @ [y]) @ t = join_with sep (xs @ [y @ t])"
proof (induction xs)
  case (Cons x xs)
  then show ?case by (cases xs) simp_all
qed simp

lemma split_on_join_with:
  "(\<And>p. p \<in> set ps \<Longrightarrow> c \<notin> set p) \<Longrightarrow> ps \<noteq> [] \<Longrightarrow> split_on c (join_with [c] ps) = ps"
proof (induction "[c]" ps rule: join_with.induct)
  case (3 x y zs)
  then show ?case by (simp add: split_on_append split_on_free)
qed (auto simp: split_on_free)

lemma join_with_split_on: "join_with [c] (split_on c s) = s"
proof (induction s)
  case (Cons x s)
  obtain y ys where y: "split_on c s = y # ys" by (cases "split_on c s") auto
  with Cons show ?case by (cases ys) auto
qed simp

section \<open>Prefixes and positions\<close>

definition has_prefix :: "string \<Rightarrow> string \<Rightarrow> bool" where
  "has_prefix p s \<longleftrightarrow> take (length p) s = p"

text \<open>\<^verbatim>\<open>strings.TrimPrefix(s, p)\<close>: at most one occurrence is removed.\<close>

definition trim_prefix :: "string \<Rightarrow> string \<Rightarrow> string" where
  "trim_prefix p s = (if has_prefix p s then drop (length p) s else s)"

text \<open>\<^verbatim>\<open>strings.IndexByte\<close> and \<^verbatim>\<open>strings.LastIndexByte\<close>, with \<open>None\<close> for Go's \<open>-1\<close>.\<close>

fun index_byte :: "char \<Rightarrow> string \<Rightarrow> nat option" where
  "index_byte c [] = None"
| "index_byte c (x # xs) = (if x = c then Some 0 else map_option Suc (index_byte c xs))"

fun last_index_byte :: "char \<Rightarrow> string \<Rightarrow> nat option" where
  "last_index_byte c [] = None"
| "last_index_byte c (x # xs) =
     (case last_index_byte c xs of
        Some i \<Rightarrow> Some (Suc i)
      | None \<Rightarrow> if x = c then Some 0 else None)"

text \<open>\<^verbatim>\<open>strings.Cut(s, c)\<close> without its third result: what is before and after the first \<open>c\<close>.\<close>

fun cut_byte :: "char \<Rightarrow> string \<Rightarrow> string \<times> string" where
  "cut_byte c [] = ([], [])"
| "cut_byte c (x # xs) = (if x = c then ([], xs) else (case cut_byte c xs of (a, b) \<Rightarrow> (x # a, b)))"

lemma index_byte_None: "index_byte c s = None \<longleftrightarrow> c \<notin> set s"
  by (induction s) auto

lemma last_index_byte_None: "last_index_byte c s = None \<longleftrightarrow> c \<notin> set s"
  by (induction s) (auto split: option.splits)

lemma index_byte_append: "c \<notin> set a \<Longrightarrow> index_byte c (a @ c # b) = Some (length a)"
  by (induction a) auto

lemma last_index_byte_append: "c \<notin> set b \<Longrightarrow> last_index_byte c (a @ c # b) = Some (length a)"
proof (induction a)
  case Nil
  then show ?case by (simp add: last_index_byte_None [THEN iffD2])
qed simp

lemma cut_byte_free: "c \<notin> set s \<Longrightarrow> cut_byte c s = (s, [])"
  by (induction s) auto

lemma cut_byte_append: "c \<notin> set a \<Longrightarrow> cut_byte c (a @ c # b) = (a, b)"
  by (induction a) auto

section \<open>Case folding, hexadecimal and decimal output\<close>

definition byte :: "char \<Rightarrow> nat" where
  "byte c = of_char c"

definition ascii_lower :: "char \<Rightarrow> char" where
  "ascii_lower c = (if 65 \<le> byte c \<and> byte c \<le> 90 then char_of (byte c + 32) else c)"

text \<open>
  \<^verbatim>\<open>strings.EqualFold\<close>. One side of every comparison in the program is the output of
  \<^verbatim>\<open>hex.EncodeToString\<close>, whose letters have no case variant outside ASCII, so folding ASCII
  letters decides the comparison.
\<close>

definition equal_fold :: "string \<Rightarrow> string \<Rightarrow> bool" where
  "equal_fold a b \<longleftrightarrow> map ascii_lower a = map ascii_lower b"

lemma equal_fold_refl [simp]: "equal_fold a a"
  by (simp add: equal_fold_def)

lemma equal_fold_sym: "equal_fold a b \<longleftrightarrow> equal_fold b a"
  by (auto simp: equal_fold_def)

lemma equal_fold_trans: "equal_fold a b \<Longrightarrow> equal_fold b c \<Longrightarrow> equal_fold a c"
  by (simp add: equal_fold_def)

definition hex_digit :: "nat \<Rightarrow> char" where
  "hex_digit n = ''0123456789abcdef'' ! n"

definition hex_byte :: "char \<Rightarrow> string" where
  "hex_byte c = [hex_digit (byte c div 16), hex_digit (byte c mod 16)]"

text \<open>\<^verbatim>\<open>hex.EncodeToString\<close>.\<close>

definition hex_encode :: "string \<Rightarrow> string" where
  "hex_encode s = concat (map hex_byte s)"

lemma length_hex_encode: "length (hex_encode s) = 2 * length s"
  by (induction s) (auto simp: hex_encode_def hex_byte_def)

fun digits :: "nat \<Rightarrow> string" where
  "digits n = (if n < 10 then [char_of (48 + n)] else digits (n div 10) @ [char_of (48 + n mod 10)])"

declare digits.simps [simp del]

text \<open>\<^verbatim>\<open>strconv.Itoa\<close> and the verb \<^verbatim>\<open>%d\<close>.\<close>

definition itoa :: "int \<Rightarrow> string" where
  "itoa i = (if i < 0 then CHR ''-'' # digits (nat (- i)) else digits (nat i))"

lemma digits_not_Nil [simp]: "digits n \<noteq> []"
  by (subst digits.simps) simp

section \<open>Quoting\<close>

definition backslash :: char where
  "backslash = CHR 0x5C"

definition newline :: char where
  "newline = CHR 0x0A"

definition quote_byte :: "char \<Rightarrow> string" where
  "quote_byte c =
     (if c = CHR 0x22 \<or> c = backslash then [backslash, c]
      else if byte c = 7 then [backslash, CHR ''a'']
      else if byte c = 8 then [backslash, CHR ''b'']
      else if byte c = 12 then [backslash, CHR ''f'']
      else if byte c = 10 then [backslash, CHR ''n'']
      else if byte c = 13 then [backslash, CHR ''r'']
      else if byte c = 9 then [backslash, CHR ''t'']
      else if byte c = 11 then [backslash, CHR ''v'']
      else if byte c < 32 \<or> byte c = 127 then [backslash, CHR ''x''] @ hex_byte c
      else [c])"

text \<open>
  The verb \<^verbatim>\<open>%q\<close>. Bytes above 127 are copied, as Go does for the bytes of a printable character.
\<close>

definition quote :: "string \<Rightarrow> string" where
  "quote s = CHR 0x22 # concat (map quote_byte s) @ [CHR 0x22]"

end
