(* ===== verification/GoPath.thy ===== *)
theory GoPath
  imports GoText
begin

text \<open>
  Go's \<^verbatim>\<open>path\<close> package and the part of \<^verbatim>\<open>path/filepath\<close> the program calls, which is the same on
  the Linux images the program ships in: \<^verbatim>\<open>Clean\<close>, \<^verbatim>\<open>Join\<close>, \<^verbatim>\<open>Base\<close> and \<^verbatim>\<open>Dir\<close>. The lemmas relate a
  joined path to its list of components, and show that joining safe components onto a rooted
  directory stays below that directory.
\<close>

definition slash :: char where
  "slash = CHR 0x2F"

definition rooted :: "string \<Rightarrow> bool" where
  "rooted s \<longleftrightarrow> s \<noteq> [] \<and> hd s = slash"

section \<open>Clean\<close>

text \<open>
  One element of the path: an empty element and \<^verbatim>\<open>.\<close> disappear, \<^verbatim>\<open>..\<close> removes the element before it,
  disappears at the root of a rooted path, and is kept at the front of a relative one.
\<close>

definition clean_step :: "bool \<Rightarrow> string list \<Rightarrow> string \<Rightarrow> string list" where
  "clean_step r out c =
     (if c = [] \<or> c = ''.'' then out
      else if c = ''..'' then
        (if out \<noteq> [] \<and> last out \<noteq> ''..'' then butlast out
         else if r then out
         else out @ [''..''])
      else out @ [c])"

definition clean_comps :: "string \<Rightarrow> string list" where
  "clean_comps s = foldl (clean_step (rooted s)) [] (split_on slash s)"

definition Clean :: "string \<Rightarrow> string" where
  "Clean s =
     (if rooted s then slash # join_with [slash] (clean_comps s)
      else if clean_comps s = [] then ''.''
      else join_with [slash] (clean_comps s))"

section \<open>Join, Base and Dir\<close>

text \<open>\<^verbatim>\<open>Join\<close> skips empty elements and cleans the rest; of nothing it makes the empty string.\<close>

definition Join :: "string list \<Rightarrow> string" where
  "Join es = (case dropWhile (\<lambda>e. e = []) es of [] \<Rightarrow> [] | f # fs \<Rightarrow> Clean (join_with [slash] (f # fs)))"

text \<open>\<^verbatim>\<open>path.Base\<close>: trailing slashes removed, then what follows the last slash.\<close>

definition Base :: "string \<Rightarrow> string" where
  "Base s =
     (if s = [] then ''.''
      else let t = rev (dropWhile (\<lambda>c. c = slash) (rev s));
               b = last (split_on slash t)
           in if b = [] then [slash] else b)"

text \<open>\<^verbatim>\<open>filepath.Dir\<close>: everything up to and including the last slash, cleaned.\<close>

definition Dir :: "string \<Rightarrow> string" where
  "Dir s = Clean (case last_index_byte slash s of None \<Rightarrow> [] | Some i \<Rightarrow> take (Suc i) s)"

section \<open>Safe components\<close>

text \<open>
  A safe component is a name that a directory can hold: it is not empty, is neither of the two
  names that walk the tree, and holds no slash.
\<close>

definition safe_component :: "string \<Rightarrow> bool" where
  "safe_component c \<longleftrightarrow> c \<noteq> [] \<and> c \<noteq> ''.'' \<and> c \<noteq> ''..'' \<and> slash \<notin> set c"

text \<open>The components of a path as the kernel sees them: empty elements and \<^verbatim>\<open>.\<close> do not count.\<close>

definition comps :: "string \<Rightarrow> string list" where
  "comps s = filter (\<lambda>c. c \<noteq> [] \<and> c \<noteq> ''.'') (split_on slash s)"

lemma safe_componentD:
  assumes "safe_component c"
  shows "c \<noteq> []" and "c \<noteq> ''.''" and "c \<noteq> ''..''" and "slash \<notin> set c"
  using assms by (auto simp: safe_component_def)

lemma clean_step_safe [simp]: "safe_component c \<Longrightarrow> clean_step r out c = out @ [c]"
  by (simp add: clean_step_def safe_component_def)

lemma foldl_clean_step_safe:
  "(\<And>c. c \<in> set cs \<Longrightarrow> safe_component c) \<Longrightarrow> foldl (clean_step r) out cs = out @ cs"
  by (induction cs arbitrary: out) auto

lemma clean_step_True_safe:
  assumes "\<forall>c \<in> set out. safe_component c" and "slash \<notin> set c"
  shows "\<forall>c \<in> set (clean_step True out c). safe_component c"
  using assms by (auto simp: clean_step_def safe_component_def dest: in_set_butlastD)

lemma foldl_clean_step_True_safe:
  assumes "\<forall>c \<in> set out. safe_component c" and "\<forall>c \<in> set cs. slash \<notin> set c"
  shows "\<forall>c \<in> set (foldl (clean_step True) out cs). safe_component c"
  using assms
proof (induction cs arbitrary: out)
  case (Cons c cs)
  then have "\<forall>c \<in> set (clean_step True out c). safe_component c"
    by (intro clean_step_True_safe) simp_all
  then have "\<forall>c \<in> set (foldl (clean_step True) (clean_step True out c) cs). safe_component c"
    using Cons.prems(2) by (intro Cons.IH) simp_all
  then show ?case by simp
qed simp

text \<open>A rooted path cleans to safe components only: no \<^verbatim>\<open>..\<close> is left.\<close>

lemma clean_comps_rooted_safe: "rooted s \<Longrightarrow> c \<in> set (clean_comps s) \<Longrightarrow> safe_component c"
  using foldl_clean_step_True_safe [of "[]" "split_on slash s"]
  by (auto simp: clean_comps_def dest: split_on_parts_free)

lemma split_on_join_safe:
  "(\<And>c. c \<in> set cs \<Longrightarrow> safe_component c) \<Longrightarrow>
   split_on slash (join_with [slash] cs) = (if cs = [] then [[]] else cs)"
  by (cases "cs = []") (simp_all add: split_on_join_with safe_componentD(4))

lemma comps_join_safe:
  assumes "\<And>c. c \<in> set cs \<Longrightarrow> safe_component c"
  shows "comps (slash # join_with [slash] cs) = cs"
proof -
  have "comps (slash # join_with [slash] cs)
      = filter (\<lambda>c. c \<noteq> [] \<and> c \<noteq> ''.'') (split_on slash (join_with [slash] cs))"
    by (simp add: comps_def)
  also have "\<dots> = filter (\<lambda>c. c \<noteq> [] \<and> c \<noteq> ''.'') cs"
    using assms by (simp add: split_on_join_safe)
  also have "\<dots> = cs"
    using assms by (intro filter_id) (auto dest: safe_componentD)
  finally show ?thesis .
qed

lemma comps_Clean_rooted: "rooted s \<Longrightarrow> comps (Clean s) = clean_comps s"
  by (simp add: Clean_def comps_join_safe clean_comps_rooted_safe)

lemma rooted_Clean: "rooted s \<Longrightarrow> rooted (Clean s)"
  by (simp add: Clean_def rooted_def)

lemma clean_comps_of_safe:
  assumes "\<And>c. c \<in> set cs \<Longrightarrow> safe_component c"
  shows "clean_comps (slash # join_with [slash] cs) = cs"
proof -
  have "clean_comps (slash # join_with [slash] cs)
      = foldl (clean_step True) [] (split_on slash (join_with [slash] cs))"
    by (simp add: clean_comps_def rooted_def clean_step_def)
  also have "\<dots> = cs"
    using assms
    by (cases "cs = []") (simp_all add: split_on_join_safe clean_step_def foldl_clean_step_safe)
  finally show ?thesis .
qed

text \<open>Cleaning twice changes nothing.\<close>

lemma Clean_idem_rooted: "rooted s \<Longrightarrow> Clean (Clean s) = Clean s"
  using clean_comps_of_safe [of "clean_comps s"] clean_comps_rooted_safe [of s]
  by (simp add: Clean_def rooted_def)

lemma rooted_append: "rooted s \<Longrightarrow> rooted (s @ t)"
  by (cases s) (auto simp: rooted_def)

section \<open>Joining safe components below a rooted directory\<close>

lemma clean_comps_append:
  assumes "rooted d" and "\<And>c. c \<in> set cs \<Longrightarrow> safe_component c" and "cs \<noteq> []"
  shows "clean_comps (d @ slash # join_with [slash] cs) = clean_comps d @ cs"
proof -
  have r: "rooted (d @ slash # join_with [slash] cs)"
    using assms(1) by (rule rooted_append)
  have "clean_comps (d @ slash # join_with [slash] cs)
      = foldl (clean_step True) [] (split_on slash d @ split_on slash (join_with [slash] cs))"
    using r by (simp add: clean_comps_def split_on_append)
  also have "split_on slash (join_with [slash] cs) = cs"
    using assms(2,3) by (simp add: split_on_join_safe)
  finally show ?thesis
    using assms(1,2) by (simp add: clean_comps_def foldl_clean_step_safe)
qed

lemma Join_rooted:
  assumes "rooted d" and "\<And>c. c \<in> set cs \<Longrightarrow> safe_component c" and "cs \<noteq> []"
  shows "Join (d # cs) = slash # join_with [slash] (clean_comps d @ cs)"
proof -
  have d: "d \<noteq> []" using assms(1) by (auto simp: rooted_def)
  have "Join (d # cs) = Clean (join_with [slash] (d # cs))"
    using d by (simp add: Join_def)
  also have "join_with [slash] (d # cs) = d @ slash # join_with [slash] cs"
    using assms(3) by (cases cs) auto
  also have "Clean \<dots> = slash # join_with [slash] (clean_comps d @ cs)"
    using assms by (simp add: Clean_def clean_comps_append rooted_append)
  finally show ?thesis .
qed

lemma comps_Join_rooted:
  assumes "rooted d" and "\<And>c. c \<in> set cs \<Longrightarrow> safe_component c" and "cs \<noteq> []"
  shows "comps (Join (d # cs)) = clean_comps d @ cs"
  using assms by (subst Join_rooted) (auto intro!: comps_join_safe dest: clean_comps_rooted_safe)

lemma rooted_Join:
  assumes "rooted d" and "\<And>c. c \<in> set cs \<Longrightarrow> safe_component c" and "cs \<noteq> []"
  shows "rooted (Join (d # cs))"
  using assms by (subst Join_rooted) (auto simp: rooted_def)

lemma clean_comps_Join_rooted:
  assumes "rooted d" and "\<And>c. c \<in> set cs \<Longrightarrow> safe_component c" and "cs \<noteq> []"
  shows "clean_comps (Join (d # cs)) = clean_comps d @ cs"
  using assms
  by (subst Join_rooted) (auto intro!: clean_comps_of_safe dest: clean_comps_rooted_safe)

section \<open>Dir of a joined path\<close>

lemma last_slash_join:
  assumes "cs \<noteq> []" and "safe_component c"
  shows "last_index_byte slash (slash # join_with [slash] (cs @ [c]))
         = Some (Suc (length (join_with [slash] cs)))"
  using assms last_index_byte_append [of slash c "slash # join_with [slash] cs"]
  by (simp add: join_with_append safe_componentD(4))

lemma Dir_join_safe:
  assumes cs: "\<And>c. c \<in> set cs \<Longrightarrow> safe_component c" and c: "safe_component c"
  shows "Dir (slash # join_with [slash] (cs @ [c])) = slash # join_with [slash] cs"
proof (cases "cs = []")
  case True
  have "last_index_byte slash (slash # c) = Some 0"
    using safe_componentD(4) [OF c] last_index_byte_append [of slash c "[]"] by simp
  then show ?thesis using True by (simp add: Dir_def Clean_def rooted_def clean_comps_def clean_step_def)
next
  case False
  let ?j = "join_with [slash] cs"
  have "Dir (slash # join_with [slash] (cs @ [c]))
      = Clean (take (Suc (Suc (length ?j))) (slash # join_with [slash] (cs @ [c])))"
    using last_slash_join [OF False c] by (simp only: Dir_def option.case)
  also have "take (Suc (Suc (length ?j))) (slash # join_with [slash] (cs @ [c])) = (slash # ?j) @ [slash]"
    using False by (simp add: join_with_append)
  also have "Clean ((slash # ?j) @ [slash]) = slash # ?j"
  proof -
    have "clean_comps ((slash # ?j) @ slash # []) = cs"
    proof -
      have "clean_comps ((slash # ?j) @ slash # [])
          = foldl (clean_step True) [] (split_on slash (slash # ?j) @ [[]])"
        by (simp only: clean_comps_def split_on_append) (simp add: rooted_def)
      also have "\<dots> = foldl (clean_step True) [] (split_on slash (slash # ?j))"
        by (simp add: clean_step_def)
      also have "\<dots> = clean_comps (slash # ?j)"
        by (simp add: clean_comps_def rooted_def)
      also have "\<dots> = cs" using cs by (rule clean_comps_of_safe)
      finally show ?thesis .
    qed
    then show ?thesis by (simp add: Clean_def rooted_def)
  qed
  finally show ?thesis .
qed

lemma Dir_Join_rooted:
  assumes "rooted d" and "\<And>c. c \<in> set cs \<Longrightarrow> safe_component c" and "safe_component c"
  shows "Dir (Join (d # cs @ [c])) = slash # join_with [slash] (clean_comps d @ cs)"
proof -
  have "Join (d # cs @ [c]) = slash # join_with [slash] ((clean_comps d @ cs) @ [c])"
    using assms Join_rooted [of d "cs @ [c]"] by auto
  then show ?thesis
    using assms by (simp only:) (rule Dir_join_safe, auto dest: clean_comps_rooted_safe)
qed

section \<open>Base\<close>

text \<open>What \<^verbatim>\<open>Base\<close> returns holds no slash, unless it is the single slash itself, and is never empty.\<close>

lemma Base_cases: "Base s = [slash] \<or> (Base s \<noteq> [] \<and> slash \<notin> set (Base s))"
proof (cases "s = []")
  case True
  then show ?thesis by (simp add: Base_def slash_def)
next
  case False
  let ?t = "rev (dropWhile (\<lambda>c. c = slash) (rev s))"
  have "slash \<notin> set (last (split_on slash ?t))"
    by (rule split_on_parts_free [of _ _ ?t]) simp
  with False show ?thesis by (simp add: Base_def Let_def)
qed

lemma Base_of_safe:
  assumes "safe_component c"
  shows "Base (d @ slash # c) = c"
proof -
  have ne: "c \<noteq> []" and nm: "slash \<notin> set c" using assms by (auto dest: safe_componentD)
  then have "last c \<noteq> slash" by (metis last_in_set)
  then have "dropWhile (\<lambda>x. x = slash) (rev (d @ slash # c)) = rev (d @ slash # c)"
    using ne by (cases c rule: rev_cases) auto
  then show ?thesis
    using ne nm by (simp add: Base_def Let_def split_on_append split_on_free)
qed

end
