(* ===== verification/GoUrl.thy ===== *)
theory GoUrl
  imports GoPath
begin

text \<open>
  Go's \<^verbatim>\<open>net/url.Parse\<close> as far as its callers look: whether it fails, with the text of the error,
  and the decoded \<^verbatim>\<open>Path\<close> of the URL. The steps are those of the library: the fragment is cut, control
  bytes are refused, the scheme is read, the query is cut, the authority is checked, and what is left
  is the percent-encoded path. The address inside a bracketed IP literal is not checked further.
\<close>

section \<open>Percent decoding\<close>

definition is_digit :: "char \<Rightarrow> bool" where
  "is_digit c \<longleftrightarrow> 48 \<le> byte c \<and> byte c \<le> 57"

definition is_alpha :: "char \<Rightarrow> bool" where
  "is_alpha c \<longleftrightarrow> (97 \<le> byte c \<and> byte c \<le> 122) \<or> (65 \<le> byte c \<and> byte c \<le> 90)"

definition is_hex :: "char \<Rightarrow> bool" where
  "is_hex c \<longleftrightarrow> is_digit c \<or> (97 \<le> byte c \<and> byte c \<le> 102) \<or> (65 \<le> byte c \<and> byte c \<le> 70)"

definition unhex :: "char \<Rightarrow> nat" where
  "unhex c = (if is_digit c then byte c - 48
              else if 97 \<le> byte c then byte c - 87
              else byte c - 55)"

definition percent :: char where
  "percent = CHR 0x25"

text \<open>Bytes that \<^verbatim>\<open>unescape\<close> accepts unencoded in a host name.\<close>

definition host_byte :: "char \<Rightarrow> bool" where
  "host_byte c \<longleftrightarrow> is_alpha c \<or> is_digit c \<or> 128 \<le> byte c
     \<or> c \<in> set ''-_.~!$&()*+,;=:[]<>'' \<or> c = CHR 0x22 \<or> c = CHR 0x27"

definition escape_error :: "string \<Rightarrow> string" where
  "escape_error s = ''invalid URL escape '' @ quote (take 3 s)"

text \<open>\<^verbatim>\<open>unescape\<close>; the flag is set for a host, where only non-ASCII bytes and \<^verbatim>\<open>%25\<close> may be encoded.\<close>

fun unescape :: "bool \<Rightarrow> string \<Rightarrow> string + string" where
  "unescape h [] = Inr []"
| "unescape h (c # cs) =
     (if c = percent then
        (case cs of
           a # b # rest \<Rightarrow>
             if is_hex a \<and> is_hex b \<and> \<not> (h \<and> unhex a < 8 \<and> [a, b] \<noteq> ''25'') then
               (case unescape h rest of
                  Inl e \<Rightarrow> Inl e
                | Inr t \<Rightarrow> Inr (char_of (16 * unhex a + unhex b) # t))
             else Inl (escape_error (c # cs))
         | _ \<Rightarrow> Inl (escape_error (c # cs)))
      else if h \<and> \<not> host_byte c then Inl (''invalid character '' @ quote [c] @ '' in host name'')
      else (case unescape h cs of Inl e \<Rightarrow> Inl e | Inr t \<Rightarrow> Inr (c # t)))"

lemma unescape_plain: "percent \<notin> set s \<Longrightarrow> unescape False s = Inr s"
  by (induction s) auto

section \<open>Scheme and authority\<close>

text \<open>\<^verbatim>\<open>getScheme\<close>: the flag says that a byte has been read already.\<close>

fun scan_scheme :: "bool \<Rightarrow> string \<Rightarrow> string \<Rightarrow> string \<Rightarrow> string + string \<times> string" where
  "scan_scheme started acc raw [] = Inr ([], raw)"
| "scan_scheme started acc raw (c # cs) =
     (if is_alpha c then scan_scheme True (acc @ [c]) raw cs
      else if is_digit c \<or> c \<in> set ''+-.'' then
        (if started then scan_scheme True (acc @ [c]) raw cs else Inr ([], raw))
      else if c = CHR '':'' then
        (if started then Inr (acc, cs) else Inl ''missing protocol scheme'')
      else Inr ([], raw))"

definition get_scheme :: "string \<Rightarrow> string + string \<times> string" where
  "get_scheme raw = scan_scheme False [] raw raw"

definition valid_optional_port :: "string \<Rightarrow> bool" where
  "valid_optional_port p \<longleftrightarrow> p = [] \<or> (hd p = CHR '':'' \<and> list_all is_digit (tl p))"

definition parse_host :: "string \<Rightarrow> string + string" where
  "parse_host host =
     (if has_prefix ''['' host then
        (case last_index_byte (CHR '']'') host of
           None \<Rightarrow> Inl ''missing '' 
         | Some i \<Rightarrow>
             if valid_optional_port (drop (Suc i) host) then unescape True host
             else Inl (''invalid port '' @ quote (drop (Suc i) host) @ '' after host''))
      else
        (case index_byte (CHR '':'') host of
           None \<Rightarrow> unescape True host
         | Some i \<Rightarrow>
             if valid_optional_port (drop i host) then unescape True host
             else Inl (''invalid port '' @ quote (drop i host) @ '' after host'')))"

definition userinfo_byte :: "char \<Rightarrow> bool" where
  "userinfo_byte c \<longleftrightarrow> is_alpha c \<or> is_digit c
     \<or> c \<in> set ''-._:~!$&()*+,;=%@'' \<or> c = CHR 0x27"

text \<open>\<^verbatim>\<open>parseAuthority\<close>: only its failures matter here.\<close>

definition check_authority :: "string \<Rightarrow> string option" where
  "check_authority a =
     (case last_index_byte (CHR ''@'') a of
        None \<Rightarrow> (case parse_host a of Inl e \<Rightarrow> Some e | Inr _ \<Rightarrow> None)
      | Some i \<Rightarrow>
          (case parse_host (drop (Suc i) a) of
             Inl e \<Rightarrow> Some e
           | Inr _ \<Rightarrow>
               let ui = take i a in
               if \<not> list_all userinfo_byte ui then Some ''net/url: invalid userinfo''
               else (case unescape False ui of Inl e \<Rightarrow> Some e | Inr _ \<Rightarrow> None)))"

section \<open>Parse\<close>

definition has_ctl_byte :: "string \<Rightarrow> bool" where
  "has_ctl_byte s \<longleftrightarrow> list_ex (\<lambda>c. byte c < 32 \<or> byte c = 127) s"

text \<open>\<^verbatim>\<open>parse\<close> after the scheme and the query are gone: the authority, then the path.\<close>

definition parse_hier :: "string \<Rightarrow> string \<Rightarrow> string + string" where
  "parse_hier scheme rest =
     (if (scheme \<noteq> [] \<or> \<not> has_prefix ''///'' rest) \<and> has_prefix ''//'' rest then
        (let auth = takeWhile (\<lambda>c. c \<noteq> slash) (drop 2 rest);
             path = dropWhile (\<lambda>c. c \<noteq> slash) (drop 2 rest)
         in case check_authority auth of
              Some e \<Rightarrow> Inl e
            | None \<Rightarrow> unescape False path)
      else unescape False rest)"

definition parse_ref :: "string \<Rightarrow> string + string" where
  "parse_ref raw =
     (if has_ctl_byte raw then Inl ''net/url: invalid control character in URL''
      else if raw = ''*'' then Inr ''*''
      else
        (case get_scheme raw of
           Inl e \<Rightarrow> Inl e
         | Inr (scheme, rest0) \<Rightarrow>
             let rest = fst (cut_byte (CHR ''?'') rest0) in
             if \<not> has_prefix [slash] rest \<and> scheme \<noteq> [] then Inr []
             else if \<not> has_prefix [slash] rest \<and> CHR '':'' \<in> set (fst (cut_byte slash rest)) then
               Inl ''first path segment in URL cannot contain colon''
             else parse_hier scheme rest))"

text \<open>\<^verbatim>\<open>url.Parse\<close>: the text of the error, or the decoded path.\<close>

definition url_parse :: "string \<Rightarrow> string + string" where
  "url_parse raw =
     (case cut_byte (CHR ''#'') raw of
        (u, frag) \<Rightarrow>
          (case parse_ref u of
             Inl e \<Rightarrow> Inl (''parse '' @ quote u @ '': '' @ e)
           | Inr path \<Rightarrow>
               (case unescape False frag of
                  Inl e \<Rightarrow> Inl (''parse '' @ quote raw @ '': '' @ e)
                | Inr _ \<Rightarrow> Inr path)))"

section \<open>Plain https URLs\<close>

text \<open>
  A URL of the form \<^verbatim>\<open>https://host/path\<close>, with a host of letters, digits, dots and dashes and a path
  without bytes that mean something to the parser, parses to its path.
\<close>

definition plain_host_byte :: "char \<Rightarrow> bool" where
  "plain_host_byte c \<longleftrightarrow> is_alpha c \<or> is_digit c \<or> c = CHR ''.'' \<or> c = CHR ''-''"

definition plain_path_byte :: "char \<Rightarrow> bool" where
  "plain_path_byte c \<longleftrightarrow> 33 \<le> byte c \<and> byte c \<le> 126 \<and> c \<noteq> percent \<and> c \<noteq> CHR ''?'' \<and> c \<noteq> CHR ''#''"

lemma plain_host_byte_facts:
  assumes "plain_host_byte c"
  shows "c \<noteq> slash" "c \<noteq> CHR '':''" "c \<noteq> CHR ''@''" "c \<noteq> CHR ''#''" "c \<noteq> CHR ''?''" "c \<noteq> percent"
    "c \<noteq> CHR ''[''" "host_byte c" "32 \<le> byte c" "byte c \<noteq> 127"
  using assms
  by (auto simp: plain_host_byte_def is_alpha_def is_digit_def host_byte_def byte_def slash_def
      percent_def)

lemma unescape_plain_host: "list_all plain_host_byte h \<Longrightarrow> unescape True h = Inr h"
  by (induction h) (auto dest: plain_host_byte_facts)

lemma plain_hostD: "list_all plain_host_byte h \<Longrightarrow> c \<in> set h \<Longrightarrow> plain_host_byte c"
  by (simp add: list_all_iff)

lemma plain_pathD: "list_all plain_path_byte p \<Longrightarrow> c \<in> set p \<Longrightarrow> plain_path_byte c"
  by (simp add: list_all_iff)

lemma check_authority_plain:
  assumes h: "list_all plain_host_byte h"
  shows "check_authority h = None"
proof -
  have at: "last_index_byte (CHR ''@'') h = None"
    using h by (auto simp: last_index_byte_None dest: plain_hostD plain_host_byte_facts)
  have co: "index_byte (CHR '':'') h = None"
    using h by (auto simp: index_byte_None dest: plain_hostD plain_host_byte_facts)
  have "\<not> has_prefix ''['' h"
    using h by (cases h) (auto simp: has_prefix_def dest: plain_host_byte_facts)
  then have "parse_host h = Inr h"
    using co unescape_plain_host [OF h] by (simp add: parse_host_def)
  then show ?thesis using at by (simp add: check_authority_def)
qed

lemma scan_https:
  "get_scheme (''https:'' @ r) = Inr (''https'', r)"
  by (simp add: get_scheme_def is_alpha_def is_digit_def byte_def)

lemma url_parse_https:
  assumes h: "list_all plain_host_byte h" and p: "list_all plain_path_byte p" and r: "rooted p"
  shows "url_parse (''https://'' @ h @ p) = Inr p"
proof -
  let ?u = "''https://'' @ h @ p"
  have hc: "c \<noteq> CHR ''#'' \<and> c \<noteq> CHR ''?'' \<and> c \<noteq> slash \<and> 32 \<le> byte c \<and> byte c \<noteq> 127" if "c \<in> set h" for c
    using plain_hostD [OF h that] by (auto dest: plain_host_byte_facts)
  have pc: "c \<noteq> CHR ''#'' \<and> c \<noteq> CHR ''?'' \<and> c \<noteq> percent \<and> 32 \<le> byte c \<and> byte c \<noteq> 127" if "c \<in> set p" for c
    using plain_pathD [OF p that] by (simp add: plain_path_byte_def)
  have "CHR ''#'' \<notin> set ?u" using hc pc by auto
  then have cut: "cut_byte (CHR ''#'') ?u = (?u, [])" by (rule cut_byte_free)
  have ctl: "\<not> has_ctl_byte ?u"
    using hc pc by (fastforce simp: has_ctl_byte_def list_ex_iff byte_def)
  have sch: "get_scheme ?u = Inr (''https'', ''//'' @ h @ p)"
    using scan_https [of "''//'' @ h @ p"] by simp
  have q: "cut_byte (CHR ''?'') (''//'' @ h @ p) = (''//'' @ h @ p, [])"
    using hc pc by (intro cut_byte_free) auto
  have "dropWhile (\<lambda>c. c \<noteq> slash) (h @ p) = p"
    using hc r by (subst dropWhile_append2) (auto simp: rooted_def dropWhile_eq_self_iff)
  moreover have "takeWhile (\<lambda>c. c \<noteq> slash) (h @ p) = h"
    using hc r by (subst takeWhile_append2) (auto simp: rooted_def takeWhile_eq_Nil_iff)
  ultimately have "parse_hier ''https'' (''//'' @ h @ p) = Inr p"
    using check_authority_plain [OF h] unescape_plain [of p] pc
    by (auto simp: parse_hier_def has_prefix_def)
  then have "parse_ref ?u = Inr p"
    using ctl sch q by (auto simp: parse_ref_def has_prefix_def slash_def)
  then show ?thesis using cut by (simp add: url_parse_def)
qed

end
