(* ===== verification/Urlutil.thy ===== *)
theory Urlutil
  imports GoUrl
begin

text \<open>
  \<^verbatim>\<open>internal/urlutil\<close>: the file name under which the content of a URL is stored and served, and the
  interface its callers rely on. The locale \<open>filename_source\<close> holds what the two controllers and the
  HTTP server need of the function (it always names one directory entry) and proves once, from
  that alone, where the paths built from it lie.
\<close>

section \<open>FilenameFromURL\<close>

definition FilenameFromURL :: "string \<Rightarrow> string" where
  "FilenameFromURL rawURL =
     (case url_parse rawURL of
        Inl err \<Rightarrow> ''artifact''
      | Inr p \<Rightarrow>
          let name = Base p in
          if name = [] \<or> name = ''.'' \<or> name = [slash] \<or> name = ''..'' then ''artifact'' else name)"

lemma safe_artifact: "safe_component ''artifact''"
  by (simp add: safe_component_def slash_def)

lemma filename_safe: "safe_component (FilenameFromURL u)"
proof (cases "url_parse u")
  case (Inr p)
  show ?thesis
    using Base_cases [of p] safe_artifact
    by (auto simp: FilenameFromURL_def Inr Let_def safe_component_def)
qed (simp add: FilenameFromURL_def safe_artifact)

section \<open>The interface\<close>

locale filename_source =
  fixes filename :: "string \<Rightarrow> string"
  assumes one_entry: "safe_component (filename u)"
begin

lemma tmp_safe: "safe_component (filename u @ ''.tmp'')"
  using one_entry [of u] by (auto simp: safe_component_def slash_def)

lemma tmp_other: "filename u @ ''.tmp'' \<noteq> filename u"
  by simp

lemma joined_below:
  assumes "rooted d" and "\<And>c. c \<in> set cs \<Longrightarrow> safe_component c"
  shows "comps (Join (d # cs @ [filename u])) = clean_comps d @ cs @ [filename u]"
  using assms one_entry by (subst comps_Join_rooted) auto

lemma joined_tmp_below:
  assumes "rooted d" and "\<And>c. c \<in> set cs \<Longrightarrow> safe_component c"
  shows "comps (Join (d # cs @ [filename u]) @ ''.tmp'') = clean_comps d @ cs @ [filename u @ ''.tmp'']"
proof -
  let ?pre = "clean_comps d @ cs"
  have "Join (d # cs @ [filename u]) = slash # join_with [slash] (?pre @ [filename u])"
    using assms one_entry Join_rooted [of d "cs @ [filename u]"] by auto
  then have eq: "Join (d # cs @ [filename u]) @ ''.tmp''
      = slash # join_with [slash] (?pre @ [filename u @ ''.tmp''])"
    using join_with_extend_last [of "[slash]" ?pre "filename u" "''.tmp''"] by simp
  have "comps (slash # join_with [slash] (?pre @ [filename u @ ''.tmp''])) = ?pre @ [filename u @ ''.tmp'']"
    using assms tmp_safe by (intro comps_join_safe) (auto dest: clean_comps_rooted_safe)
  with eq show ?thesis by simp
qed

lemma joined_dir:
  assumes "rooted d" and "\<And>c. c \<in> set cs \<Longrightarrow> safe_component c" and "cs \<noteq> []"
  shows "Dir (Join (d # cs @ [filename u])) = Join (d # cs)"
  using assms one_entry by (subst Dir_Join_rooted) (auto simp: Join_rooted)

end

interpretation url_filename: filename_source FilenameFromURL
  by unfold_locales (rule filename_safe)

section \<open>Properties\<close>

text \<open>
  C25. Whatever string is given as a URL, the file name derived from it is a single directory entry:
  it is not empty, is neither \<^verbatim>\<open>.\<close> nor \<^verbatim>\<open>..\<close>, and holds no slash, even when the URL is malformed or
  hides a slash behind percent encoding. So it cannot lead out of the directory it is joined to.
\<close>

theorem FilenameFromURL_single_entry:
  "FilenameFromURL u \<noteq> [] \<and> FilenameFromURL u \<noteq> ''.'' \<and> FilenameFromURL u \<noteq> ''..''
   \<and> slash \<notin> set (FilenameFromURL u)"
  using filename_safe [of u] by (simp add: safe_component_def)

text \<open>
  On a plain https URL the file name is what follows the last slash of the path, as the tests of
  the package expect.
\<close>

theorem FilenameFromURL_plain:
  assumes "list_all plain_host_byte host" and "list_all plain_path_byte dir"
    and "dir = [] \<or> rooted dir" and "list_all plain_path_byte name" and "safe_component name"
  shows "FilenameFromURL (''https://'' @ host @ dir @ slash # name) = name"
proof -
  have "rooted (dir @ slash # name)" using assms(3) by (auto simp: rooted_def)
  moreover have "list_all plain_path_byte (dir @ slash # name)"
    using assms(2,4) by (simp add: plain_path_byte_def byte_def slash_def percent_def)
  ultimately have "url_parse (''https://'' @ host @ dir @ slash # name) = Inr (dir @ slash # name)"
    by (intro url_parse_https assms(1))
  then show ?thesis
    using Base_of_safe [OF assms(5)] safe_componentD [OF assms(5)]
    by (auto simp: FilenameFromURL_def Let_def)
qed

theorem FilenameFromURL_plain_witness:
  "FilenameFromURL ''https://example.com/a/b/initrd.img'' = ''initrd.img''"
proof -
  have "FilenameFromURL (''https://'' @ ''example.com'' @ ''/a/b'' @ slash # ''initrd.img'') = ''initrd.img''"
    by (rule FilenameFromURL_plain) code_simp+
  then show ?thesis by (simp add: slash_def)
qed

end
