(* ===== verification/RegexpLite.thy ===== *)
theory RegexpLite
  imports GoUrl
begin

text \<open>
  The regular expressions of the program and of the API's validation patterns: a syntax for them, the
  strings each of them describes, and an executable matcher by derivatives that decides it. All the
  expressions are anchored at both ends and their classes are ASCII, so a match is a match of the
  whole string, byte by byte.
\<close>

datatype re = RNone | REps | RCls string | RSeq re re | RAlt re re | RStar re

definition ROpt :: "re \<Rightarrow> re" where
  "ROpt r = RAlt REps r"

fun RRep :: "nat \<Rightarrow> re \<Rightarrow> re" where
  "RRep n r = (if n = 0 then REps else RSeq r (RRep (n - 1) r))"

declare RRep.simps [simp del]

text \<open>A literal string.\<close>

definition RLit :: "string \<Rightarrow> re" where
  "RLit s = foldr (\<lambda>c r. RSeq (RCls [c]) r) s REps"

section \<open>The strings an expression describes\<close>

inductive in_re :: "re \<Rightarrow> string \<Rightarrow> bool" where
  eps: "in_re REps []"
| cls: "c \<in> set cs \<Longrightarrow> in_re (RCls cs) [c]"
| seq: "in_re r s \<Longrightarrow> in_re r' s' \<Longrightarrow> in_re (RSeq r r') (s @ s')"
| altl: "in_re r s \<Longrightarrow> in_re (RAlt r r') s"
| altr: "in_re r' s \<Longrightarrow> in_re (RAlt r r') s"
| star0: "in_re (RStar r) []"
| starS: "in_re r s \<Longrightarrow> in_re (RStar r) s' \<Longrightarrow> in_re (RStar r) (s @ s')"

inductive_cases in_RNone: "in_re RNone s"
inductive_cases in_RStar: "in_re (RStar r) s"

inductive_simps in_REps [simp]: "in_re REps s"
inductive_simps in_RCls [simp]: "in_re (RCls cs) s"
inductive_simps in_RSeq: "in_re (RSeq r r') s"
inductive_simps in_RAlt [simp]: "in_re (RAlt r r') s"

lemma not_in_RNone [simp]: "\<not> in_re RNone s"
  by (auto elim: in_RNone)

section \<open>The matcher\<close>

fun nullable :: "re \<Rightarrow> bool" where
  "nullable RNone = False"
| "nullable REps = True"
| "nullable (RCls cs) = False"
| "nullable (RSeq r r') = (nullable r \<and> nullable r')"
| "nullable (RAlt r r') = (nullable r \<or> nullable r')"
| "nullable (RStar r) = True"

text \<open>Sequences and alternatives that drop the trivial cases, which keeps derivatives small.\<close>

definition seq_of :: "re \<Rightarrow> re \<Rightarrow> re" where
  "seq_of r r' = (if r = RNone then RNone else if r = REps then r' else RSeq r r')"

definition alt_of :: "re \<Rightarrow> re \<Rightarrow> re" where
  "alt_of r r' = (if r = RNone then r' else if r' = RNone then r else RAlt r r')"

fun deriv :: "char \<Rightarrow> re \<Rightarrow> re" where
  "deriv c RNone = RNone"
| "deriv c REps = RNone"
| "deriv c (RCls cs) = (if c \<in> set cs then REps else RNone)"
| "deriv c (RSeq r r') =
     (if nullable r then alt_of (seq_of (deriv c r) r') (deriv c r') else seq_of (deriv c r) r')"
| "deriv c (RAlt r r') = alt_of (deriv c r) (deriv c r')"
| "deriv c (RStar r) = seq_of (deriv c r) (RStar r)"

definition matches :: "re \<Rightarrow> string \<Rightarrow> bool" where
  "matches r s = nullable (fold deriv s r)"

lemma in_seq_of [simp]: "in_re (seq_of r r') s \<longleftrightarrow> in_re (RSeq r r') s"
  by (auto simp: seq_of_def in_RSeq)

lemma in_alt_of [simp]: "in_re (alt_of r r') s \<longleftrightarrow> in_re (RAlt r r') s"
  by (auto simp: alt_of_def)

lemma nullable_iff: "nullable r \<longleftrightarrow> in_re r []"
  by (induction r) (auto simp: in_RSeq intro: star0)

lemma seq_Cons:
  "in_re (RSeq r r') (c # s) \<longleftrightarrow>
   (\<exists>a b. s = a @ b \<and> in_re r (c # a) \<and> in_re r' b) \<or> (in_re r [] \<and> in_re r' (c # s))"
proof
  assume "in_re (RSeq r r') (c # s)"
  then obtain u v where uv: "c # s = u @ v" "in_re r u" "in_re r' v" by (auto simp: in_RSeq)
  then show "(\<exists>a b. s = a @ b \<and> in_re r (c # a) \<and> in_re r' b) \<or> (in_re r [] \<and> in_re r' (c # s))"
    by (cases u) auto
next
  assume "(\<exists>a b. s = a @ b \<and> in_re r (c # a) \<and> in_re r' b) \<or> (in_re r [] \<and> in_re r' (c # s))"
  then show "in_re (RSeq r r') (c # s)"
    by (auto dest: seq [of r _ r'])
qed

lemma star_Cons_D:
  "in_re q t \<Longrightarrow> q = RStar r \<Longrightarrow> t = c # s \<Longrightarrow> \<exists>a b. s = a @ b \<and> in_re r (c # a) \<and> in_re (RStar r) b"
proof (induction arbitrary: c s rule: in_re.induct)
  case (starS r' u v)
  then show ?case by (cases u) auto
qed auto

lemma star_Cons:
  "in_re (RStar r) (c # s) \<longleftrightarrow> (\<exists>a b. s = a @ b \<and> in_re r (c # a) \<and> in_re (RStar r) b)"
  using starS [of r "c # _"] by (auto dest: star_Cons_D)

lemma deriv_iff: "in_re (deriv c r) s \<longleftrightarrow> in_re r (c # s)"
proof (induction r arbitrary: s)
  case (RSeq r1 r2)
  then show ?case by (subst seq_Cons) (auto simp: nullable_iff in_RSeq)
next
  case (RStar r)
  then show ?case by (auto simp: in_RSeq star_Cons)
qed auto

text \<open>The matcher decides membership.\<close>

lemma matches_iff: "matches r s \<longleftrightarrow> in_re r s"
proof -
  have "nullable (fold deriv s r) \<longleftrightarrow> in_re r s" for r
    by (induction s arbitrary: r) (simp_all add: nullable_iff deriv_iff)
  then show ?thesis by (simp add: matches_def)
qed

section \<open>Facts about whole classes of expressions\<close>

fun alphabet :: "re \<Rightarrow> char set" where
  "alphabet RNone = {}"
| "alphabet REps = {}"
| "alphabet (RCls cs) = set cs"
| "alphabet (RSeq r r') = alphabet r \<union> alphabet r'"
| "alphabet (RAlt r r') = alphabet r \<union> alphabet r'"
| "alphabet (RStar r) = alphabet r"

lemma in_re_alphabet: "in_re r s \<Longrightarrow> set s \<subseteq> alphabet r"
  by (induction rule: in_re.induct) auto

lemma in_RStar_RCls: "in_re (RStar (RCls cs)) s \<longleftrightarrow> set s \<subseteq> set cs"
proof
  assume "set s \<subseteq> set cs"
  then show "in_re (RStar (RCls cs)) s"
  proof (induction s)
    case (Cons c s)
    then show ?case using starS [of "RCls cs" "[c]" s] by simp
  qed (simp add: star0)
qed (use in_re_alphabet in fastforce)

lemma RRep_Suc: "RRep (Suc n) r = RSeq r (RRep n r)"
  by (simp add: RRep.simps [of "Suc n"])

lemma RRep_0: "RRep 0 r = REps"
  by (simp add: RRep.simps [of 0])

lemma in_RRep_RCls: "in_re (RRep n (RCls cs)) s \<longleftrightarrow> length s = n \<and> set s \<subseteq> set cs"
proof (induction n arbitrary: s)
  case 0
  then show ?case by (auto simp: RRep_0)
next
  case (Suc n)
  show ?case
  proof (cases s)
    case Nil
    then show ?thesis by (auto simp: RRep_Suc in_RSeq)
  next
    case (Cons c t)
    then show ?thesis using Suc by (auto simp: RRep_Suc seq_Cons)
  qed
qed

section \<open>Classes\<close>

definition digit_class :: string where
  "digit_class = ''0123456789''"

definition lower_class :: string where
  "lower_class = ''abcdefghijklmnopqrstuvwxyz''"

definition upper_class :: string where
  "upper_class = ''ABCDEFGHIJKLMNOPQRSTUVWXYZ''"

definition hex_class :: string where
  "hex_class = digit_class @ ''abcdef'' @ ''ABCDEF''"

end
