(* ===== verification/ApiTypes.thy ===== *)
theory ApiTypes
  imports RegexpLite "HOL-Library.Word"
begin

text \<open>
  The resources of \<^verbatim>\<open>api/v1alpha1\<close>: one record per Go struct, one datatype per phase type (with a
  constructor for the empty string, Go's zero value), and the validation rules that the
  \<^verbatim>\<open>kubebuilder\<close> markers attach to the fields, as executable predicates. A time is a number of
  nanoseconds, an \<^verbatim>\<open>int32\<close> a word of 32 bits.
\<close>

section \<open>Metadata\<close>

text \<open>The parts of \<^verbatim>\<open>metav1.ObjectMeta\<close> the program and its client use.\<close>

record ObjectMeta =
  om_name :: string
  om_namespace :: string
  om_resourceVersion :: nat

type_synonym MetaTime = nat

section \<open>BootArtifact\<close>

datatype BootArtifactPhase =
    BootArtifactPhaseUnset
  | BootArtifactPhasePending
  | BootArtifactPhaseDownloading
  | BootArtifactPhaseReady
  | BootArtifactPhaseError

record BootArtifactSpec =
  ba_URL :: string
  ba_SHA256 :: "string option"
  ba_SHA512 :: "string option"

record BootArtifactStatus =
  ba_Phase :: BootArtifactPhase
  ba_Message :: string
  ba_FailureCount :: "32 word"
  ba_LastFailureTime :: "MetaTime option"
  ba_LastChecked :: "MetaTime option"

record BootArtifact =
  ba_meta :: ObjectMeta
  ba_Spec :: BootArtifactSpec
  ba_Status :: BootArtifactStatus

text \<open>Whether \<open>s\<close> contains \<open>t\<close>, as the rule \<^verbatim>\<open>self.contains\<close> has it.\<close>

fun contains :: "string \<Rightarrow> string \<Rightarrow> bool" where
  "contains t [] = (t = [])"
| "contains t (c # s) = (has_prefix t (c # s) \<or> contains t s)"

definition sha256_re :: re where
  "sha256_re = RRep 64 (RCls hex_class)"

definition sha512_re :: re where
  "sha512_re = RRep 128 (RCls hex_class)"

definition valid_BootArtifactSpec :: "BootArtifactSpec \<Rightarrow> bool" where
  "valid_BootArtifactSpec s \<longleftrightarrow>
     has_prefix ''https://'' (ba_URL s) \<and> \<not> contains ''/..'' (ba_URL s)
     \<and> (ba_SHA256 s \<noteq> None \<or> ba_SHA512 s \<noteq> None)
     \<and> \<not> (ba_SHA256 s \<noteq> None \<and> ba_SHA512 s \<noteq> None)
     \<and> (case ba_SHA256 s of None \<Rightarrow> True | Some h \<Rightarrow> matches sha256_re h)
     \<and> (case ba_SHA512 s of None \<Rightarrow> True | Some h \<Rightarrow> matches sha512_re h)"

section \<open>BootConfig\<close>

datatype BootConfigPhase =
    BootConfigPhaseUnset
  | BootConfigPhasePending
  | BootConfigPhaseReady
  | BootConfigPhaseError

record BootConfigISOSpec =
  iso_ArtifactRef :: string
  iso_KernelPath :: string
  iso_InitrdPath :: string

record BootConfigNetbootSpec =
  nb_KernelRef :: string
  nb_InitrdRef :: string
  nb_FirmwareRef :: string

record BootConfigSpec =
  bc_Netboot :: "BootConfigNetbootSpec option"
  bc_ISO :: "BootConfigISOSpec option"
  bc_KernelArgs :: string

record BootConfigStatus =
  bc_Phase :: BootConfigPhase
  bc_Message :: string

record BootConfig =
  bc_meta :: ObjectMeta
  bc_Spec :: BootConfigSpec
  bc_Status :: BootConfigStatus

definition valid_BootConfigSpec :: "BootConfigSpec \<Rightarrow> bool" where
  "valid_BootConfigSpec s \<longleftrightarrow>
     (bc_Netboot s \<noteq> None) \<noteq> (bc_ISO s \<noteq> None)
     \<and> (case bc_Netboot s of None \<Rightarrow> True | Some nb \<Rightarrow> nb_KernelRef nb \<noteq> [] \<and> nb_InitrdRef nb \<noteq> [])
     \<and> (case bc_ISO s of
          None \<Rightarrow> True
        | Some i \<Rightarrow> iso_ArtifactRef i \<noteq> [] \<and> iso_KernelPath i \<noteq> [] \<and> iso_InitrdPath i \<noteq> [])"

section \<open>Machine\<close>

record MachineSpec =
  mach_MAC :: string

record Machine =
  mach_meta :: ObjectMeta
  mach_Spec :: MachineSpec

text \<open>\<^verbatim>\<open>^([0-9A-Fa-f]{2}-){5}([0-9A-Fa-f]{2})$\<close>, the pattern of the field and of the HTTP server.\<close>

definition mac_re :: re where
  "mac_re = RSeq (RRep 5 (RSeq (RRep 2 (RCls hex_class)) (RCls ''-''))) (RRep 2 (RCls hex_class))"

definition valid_MachineSpec :: "MachineSpec \<Rightarrow> bool" where
  "valid_MachineSpec s \<longleftrightarrow> matches mac_re (mach_MAC s)"

section \<open>Provision\<close>

datatype ProvisionPhase =
    ProvisionPhaseUnset
  | ProvisionPhasePending
  | ProvisionPhaseWaitingForBootSource
  | ProvisionPhaseInProgress
  | ProvisionPhaseComplete
  | ProvisionPhaseFailed
  | ProvisionPhaseConfigError

text \<open>The string constants behind the phases: \<^verbatim>\<open>string(p.Status.Phase)\<close>.\<close>

fun phase_string :: "ProvisionPhase \<Rightarrow> string" where
  "phase_string ProvisionPhaseUnset = ''''"
| "phase_string ProvisionPhasePending = ''Pending''"
| "phase_string ProvisionPhaseWaitingForBootSource = ''WaitingForBootSource''"
| "phase_string ProvisionPhaseInProgress = ''InProgress''"
| "phase_string ProvisionPhaseComplete = ''Complete''"
| "phase_string ProvisionPhaseFailed = ''Failed''"
| "phase_string ProvisionPhaseConfigError = ''ConfigError''"

lemma phase_string_inj [simp]: "phase_string a = phase_string b \<longleftrightarrow> a = b"
  by (cases a; cases b) simp_all

text \<open>The phases in the order the source declares them.\<close>

fun phase_rank :: "ProvisionPhase \<Rightarrow> nat" where
  "phase_rank ProvisionPhaseUnset = 0"
| "phase_rank ProvisionPhasePending = 1"
| "phase_rank ProvisionPhaseWaitingForBootSource = 2"
| "phase_rank ProvisionPhaseInProgress = 3"
| "phase_rank ProvisionPhaseComplete = 4"
| "phase_rank ProvisionPhaseFailed = 5"
| "phase_rank ProvisionPhaseConfigError = 6"

lemma phase_rank_inj: "phase_rank a = phase_rank b \<Longrightarrow> a = b"
  by (cases a; cases b) simp_all

instantiation ProvisionPhase :: linorder
begin

definition less_eq_ProvisionPhase :: "ProvisionPhase \<Rightarrow> ProvisionPhase \<Rightarrow> bool" where
  "less_eq_ProvisionPhase a b \<longleftrightarrow> phase_rank a \<le> phase_rank b"

definition less_ProvisionPhase :: "ProvisionPhase \<Rightarrow> ProvisionPhase \<Rightarrow> bool" where
  "less_ProvisionPhase a b \<longleftrightarrow> phase_rank a < phase_rank b"

instance
  by standard (auto simp: less_eq_ProvisionPhase_def less_ProvisionPhase_def dest: phase_rank_inj)

end

record ProvisionSpec =
  pr_MachineRef :: string
  pr_BootConfigRef :: string
  pr_ProvisionAutomationRef :: string
  pr_ConfigMaps :: "string list"
  pr_Secrets :: "string list"

record ProvisionStatus =
  pr_Phase :: ProvisionPhase
  pr_Message :: string
  pr_LastUpdated :: "MetaTime option"
  pr_IP :: string

record Provision =
  pr_meta :: ObjectMeta
  pr_Spec :: ProvisionSpec
  pr_Status :: ProvisionStatus

section \<open>ProvisionAutomation\<close>

record ProvisionAutomationSpec =
  pa_Files :: "string \<rightharpoonup> string"

record ProvisionAutomation =
  pa_meta :: ObjectMeta
  pa_Spec :: ProvisionAutomationSpec

text \<open>\<^verbatim>\<open>^[A-Za-z0-9][-A-Za-z0-9_.]*$\<close>\<close>

definition file_name_re :: re where
  "file_name_re =
     RSeq (RCls (upper_class @ lower_class @ digit_class))
          (RStar (RCls (''-'' @ upper_class @ lower_class @ digit_class @ ''_.'')))"

end
