(* ===== verification/FileSys.thy ===== *)
theory FileSys
  imports GoPath "HOL-Library.Char_ord" "HOL-Library.List_Lexorder"
begin

text \<open>
  The file system as the program's calls to package \<^verbatim>\<open>os\<close> see it: a finite map from absolute paths
  (lists of names) to files, directories and symbolic links, the resolution of a path through
  symbolic links, and one pure function per system call, each with the errors Linux returns.
  A directory carries the time it was made; permissions are recorded for files, and a refused
  access is one of the faults that \<^verbatim>\<open>World\<close> injects.
\<close>

section \<open>Nodes and trees\<close>

datatype errno = ENOENT | EEXIST | ENOTDIR | EISDIR | ENOTEMPTY | EINVAL | ELOOP | EBUSY | EACCES | EIO | ENOSPC

type_synonym path = "string list"

text \<open>A file has its bytes, its modification time and its permission bits.\<close>

datatype node = FileN string nat nat | DirN nat | LinkN string

type_synonym fsys = "(path \<times> node) list"

definition look :: "fsys \<Rightarrow> path \<Rightarrow> node option" where
  "look fs p = (if p = [] then Some (DirN 0) else map_of fs p)"

definition del :: "path \<Rightarrow> fsys \<Rightarrow> fsys" where
  "del p fs = filter (\<lambda>(q, n). q \<noteq> p) fs"

definition put :: "path \<Rightarrow> node \<Rightarrow> fsys \<Rightarrow> fsys" where
  "put p n fs = (p, n) # del p fs"

definition below :: "path \<Rightarrow> path \<Rightarrow> bool" where
  "below p q \<longleftrightarrow> take (length p) q = p"

definition del_tree :: "path \<Rightarrow> fsys \<Rightarrow> fsys" where
  "del_tree p fs = filter (\<lambda>(q, n). \<not> below p q) fs"

text \<open>The names in a directory, in the order \<^verbatim>\<open>os.ReadDir\<close> gives them.\<close>

definition children :: "path \<Rightarrow> fsys \<Rightarrow> string list" where
  "children p fs = sort (remdups [last q. (q, n) \<leftarrow> fs, q \<noteq> [] \<and> butlast q = p])"

lemma map_of_filter_key: "map_of (filter (\<lambda>(q, n). P q) fs) p = (if P p then map_of fs p else None)"
  by (induction fs) auto

lemma look_root [simp]: "look fs [] = Some (DirN 0)"
  by (simp add: look_def)

lemma look_del: "look (del p fs) q = (if q \<noteq> [] \<and> q = p then None else look fs q)"
  by (simp add: look_def del_def map_of_filter_key)

lemma look_put: "look (put p n fs) q = (if q \<noteq> [] \<and> q = p then Some n else look fs q)"
  by (simp add: look_def put_def del_def map_of_filter_key)

lemma look_del_tree: "look (del_tree p fs) q = (if q \<noteq> [] \<and> below p q then None else look fs q)"
  by (simp add: look_def del_tree_def map_of_filter_key)

lemma below_refl [simp]: "below p p"
  by (simp add: below_def)

lemma below_append [simp]: "below p (p @ q)"
  by (simp add: below_def)

lemma belowE: "below p q \<Longrightarrow> \<exists>r. q = p @ r"
  unfolding below_def by (metis append_take_drop_id)

lemma below_iff: "below p q \<longleftrightarrow> (\<exists>r. q = p @ r)"
  using belowE by auto

lemma below_trans: "below p q \<Longrightarrow> below q r \<Longrightarrow> below p r"
  by (auto simp: below_iff)

lemma below_snoc: "below q (p @ [c]) \<longleftrightarrow> below q p \<or> q = p @ [c]"
proof
  assume "below q (p @ [c])"
  then obtain r where r: "p @ [c] = q @ r" by (auto simp: below_iff)
  then show "below q p \<or> q = p @ [c]"
    by (cases r rule: rev_cases) (auto simp: below_iff)
qed (auto simp: below_iff)

lemma set_children: "set (children p fs) = {c. look fs (p @ [c]) \<noteq> None}"
proof -
  have "c \<in> set (children p fs) \<longleftrightarrow> (\<exists>n. (p @ [c], n) \<in> set fs)" for c
    by (force simp: children_def image_iff)
  then show ?thesis
    by (auto simp: look_def dest: map_of_SomeD weak_map_of_SomeI)
qed

section \<open>Path resolution\<close>

text \<open>
  \<open>walk fs n follow cur cs\<close> resolves the names \<open>cs\<close> from the directory \<open>cur\<close>, expanding at most \<open>n\<close>
  symbolic links; the last name is expanded when \<open>follow\<close> is set. The result is the path of the
  entry, which exists or could be created there.
\<close>

fun walk :: "fsys \<Rightarrow> nat \<Rightarrow> bool \<Rightarrow> path \<Rightarrow> string list \<Rightarrow> errno + path" where
  "walk fs n follow cur [] = Inr cur"
| "walk fs n follow cur (c # cs) =
     (if c = ''..'' then walk fs n follow (butlast cur) cs
      else (case look fs (cur @ [c]) of
              None \<Rightarrow> if cs = [] then Inr (cur @ [c]) else Inl ENOENT
            | Some (FileN _ _ _) \<Rightarrow> if cs = [] then Inr (cur @ [c]) else Inl ENOTDIR
            | Some (DirN _) \<Rightarrow> walk fs n follow (cur @ [c]) cs
            | Some (LinkN t) \<Rightarrow>
                if cs = [] \<and> \<not> follow then Inr (cur @ [c])
                else (case n of
                        0 \<Rightarrow> Inl ELOOP
                      | Suc m \<Rightarrow> walk fs m follow (if rooted t then [] else cur) (comps t @ cs))))"

text \<open>Linux gives up after 40 links. The process runs in the root directory (\<^verbatim>\<open>WORKDIR /\<close>).\<close>

definition resolve :: "bool \<Rightarrow> fsys \<Rightarrow> string \<Rightarrow> errno + path" where
  "resolve follow fs s =
     (if s = [] then Inl ENOENT
      else if CHR 0x00 \<in> set s then Inl EINVAL
      else walk fs 40 follow [] (comps s))"

definition is_link :: "fsys \<Rightarrow> path \<Rightarrow> bool" where
  "is_link fs p \<longleftrightarrow> (\<exists>t. look fs p = Some (LinkN t))"

text \<open>No symbolic link lies on the way from a directory to a path, nor at its end.\<close>

definition plain :: "fsys \<Rightarrow> path \<Rightarrow> bool" where
  "plain fs p \<longleftrightarrow> (\<forall>q. below q p \<longrightarrow> \<not> is_link fs q)"

definition plain_dir :: "fsys \<Rightarrow> path \<Rightarrow> bool" where
  "plain_dir fs p \<longleftrightarrow> (\<forall>q. below q p \<longrightarrow> (\<exists>t. look fs q = Some (DirN t)))"

lemma plain_dir_plain: "plain_dir fs p \<Longrightarrow> plain fs p"
  by (force simp: plain_def plain_dir_def is_link_def)

lemma plain_below: "plain fs p \<Longrightarrow> below q p \<Longrightarrow> plain fs q"
  by (auto simp: plain_def intro: below_trans)

lemma plain_dir_below: "plain_dir fs p \<Longrightarrow> below q p \<Longrightarrow> plain_dir fs q"
  by (auto simp: plain_dir_def intro: below_trans)

lemma plain_snoc: "plain fs (p @ [c]) \<longleftrightarrow> plain fs p \<and> \<not> is_link fs (p @ [c])"
  by (auto simp: plain_def below_snoc)

lemma plain_dir_snoc: "plain_dir fs (p @ [c]) \<longleftrightarrow> plain_dir fs p \<and> (\<exists>t. look fs (p @ [c]) = Some (DirN t))"
  by (auto simp: plain_dir_def below_snoc)

lemma walk_plain:
  assumes "\<And>c. c \<in> set cs \<Longrightarrow> c \<noteq> ''..''" and "\<And>as. as \<noteq> [] \<Longrightarrow> below as cs \<Longrightarrow> \<not> is_link fs (cur @ as)"
  shows "(\<exists>e. walk fs n follow cur cs = Inl e) \<or> walk fs n follow cur cs = Inr (cur @ cs)"
  using assms
proof (induction cs arbitrary: cur)
  case (Cons c cs)
  have nl: "\<not> is_link fs (cur @ [c])"
    using Cons.prems(2) [of "[c]"] by (simp add: below_def)
  have "(\<exists>e. walk fs n follow (cur @ [c]) cs = Inl e)
      \<or> walk fs n follow (cur @ [c]) cs = Inr ((cur @ [c]) @ cs)"
  proof (rule Cons.IH)
    show "c' \<noteq> ''..''" if "c' \<in> set cs" for c' using Cons.prems(1) that by simp
    show "\<not> is_link fs ((cur @ [c]) @ as)" if "as \<noteq> []" and "below as cs" for as
      using Cons.prems(2) [of "c # as"] that by (simp add: below_def)
  qed
  then show ?case
    using Cons.prems(1) [of c] nl by (auto simp: is_link_def split: option.splits node.splits)
qed simp

lemma walk_link_last:
  assumes "\<And>c. c \<in> set cs \<Longrightarrow> c \<noteq> ''..''" and "cs \<noteq> []"
    and "\<And>as. as \<noteq> [] \<Longrightarrow> below as (butlast cs) \<Longrightarrow> \<not> is_link fs (cur @ as)"
  shows "(\<exists>e. walk fs n False cur cs = Inl e) \<or> walk fs n False cur cs = Inr (cur @ cs)"
  using assms
proof (induction cs arbitrary: cur)
  case (Cons c cs)
  show ?case
  proof (cases "cs = []")
    case True
    then show ?thesis using Cons.prems(1) [of c] by (auto split: option.splits node.splits)
  next
    case False
    have nl: "\<not> is_link fs (cur @ [c])"
      using Cons.prems(3) [of "[c]"] False by (simp add: below_def)
    have "(\<exists>e. walk fs n False (cur @ [c]) cs = Inl e)
        \<or> walk fs n False (cur @ [c]) cs = Inr ((cur @ [c]) @ cs)"
    proof (rule Cons.IH)
      show "c' \<noteq> ''..''" if "c' \<in> set cs" for c' using Cons.prems(1) that by simp
      show "cs \<noteq> []" by fact
      show "\<not> is_link fs ((cur @ [c]) @ as)" if "as \<noteq> []" and "below as (butlast cs)" for as
        using Cons.prems(3) [of "c # as"] that False by (simp add: below_def)
    qed
    then show ?thesis
      using Cons.prems(1) [of c] nl False by (auto simp: is_link_def split: option.splits node.splits)
  qed
qed simp

lemma walk_dirs:
  assumes "\<And>c. c \<in> set cs \<Longrightarrow> c \<noteq> ''..''"
    and "\<And>as. as \<noteq> [] \<Longrightarrow> below as cs \<Longrightarrow> \<exists>t. look fs (cur @ as) = Some (DirN t)"
  shows "walk fs n follow cur (cs @ ds) = walk fs n follow (cur @ cs) ds"
  using assms
proof (induction cs arbitrary: cur)
  case (Cons c cs)
  from Cons.prems(2) [of "[c]"] obtain t where "look fs (cur @ [c]) = Some (DirN t)"
    by (auto simp: below_def)
  moreover have "walk fs n follow (cur @ [c]) (cs @ ds) = walk fs n follow ((cur @ [c]) @ cs) ds"
  proof (rule Cons.IH)
    show "c' \<noteq> ''..''" if "c' \<in> set cs" for c' using Cons.prems(1) that by simp
    show "\<exists>t. look fs ((cur @ [c]) @ as) = Some (DirN t)" if "as \<noteq> []" and "below as cs" for as
      using Cons.prems(2) [of "c # as"] that by (simp add: below_def)
  qed
  ultimately show ?case using Cons.prems(1) [of c] by simp
qed simp

end
