(* ===== verification/Syscalls.thy ===== *)
theory Syscalls
  imports FileSys
begin

text \<open>
  The calls of package \<^verbatim>\<open>os\<close> that the program makes, as functions of the time and the file system,
  with what each of them can change. A handle is the path that opening resolved to.
\<close>

section \<open>The calls\<close>

definition mode_of :: "node \<Rightarrow> nat" where
  "mode_of n = (case n of FileN _ _ m \<Rightarrow> m | _ \<Rightarrow> 493)"

text \<open>\<^verbatim>\<open>FileInfo.ModTime()\<close>.\<close>

definition mod_time :: "node \<Rightarrow> nat" where
  "mod_time n = (case n of FileN _ t _ \<Rightarrow> t | DirN t \<Rightarrow> t | LinkN _ \<Rightarrow> 0)"

definition fs_stat :: "string \<Rightarrow> fsys \<Rightarrow> errno + node" where
  "fs_stat s fs =
     (case resolve True fs s of
        Inl e \<Rightarrow> Inl e
      | Inr p \<Rightarrow> (case look fs p of None \<Rightarrow> Inl ENOENT | Some n \<Rightarrow> Inr n))"

definition fs_open :: "string \<Rightarrow> fsys \<Rightarrow> errno + path" where
  "fs_open s fs =
     (case resolve True fs s of
        Inl e \<Rightarrow> Inl e
      | Inr p \<Rightarrow> (case look fs p of None \<Rightarrow> Inl ENOENT | Some _ \<Rightarrow> Inr p))"

definition fs_read :: "path \<Rightarrow> fsys \<Rightarrow> errno + string" where
  "fs_read p fs =
     (case look fs p of
        Some (FileN c _ _) \<Rightarrow> Inr c
      | Some (DirN _) \<Rightarrow> Inl EISDIR
      | _ \<Rightarrow> Inl ENOENT)"

text \<open>\<^verbatim>\<open>os.Create\<close>: an existing file is emptied, a new one gets mode \<^verbatim>\<open>0644\<close> (\<^verbatim>\<open>0666\<close> less the umask).\<close>

definition fs_create :: "string \<Rightarrow> nat \<Rightarrow> fsys \<Rightarrow> (errno + path) \<times> fsys" where
  "fs_create s t fs =
     (case resolve True fs s of
        Inl e \<Rightarrow> (Inl e, fs)
      | Inr p \<Rightarrow>
          (case look fs p of
             None \<Rightarrow> (Inr p, put p (FileN [] t 420) fs)
           | Some (FileN _ _ m) \<Rightarrow> (Inr p, put p (FileN [] t m) fs)
           | Some _ \<Rightarrow> (Inl EISDIR, fs)))"

definition fs_append :: "path \<Rightarrow> string \<Rightarrow> nat \<Rightarrow> fsys \<Rightarrow> (errno + nat) \<times> fsys" where
  "fs_append p d t fs =
     (case look fs p of
        Some (FileN c _ m) \<Rightarrow> (Inr (length d), put p (FileN (c @ d) t m) fs)
      | _ \<Rightarrow> (Inl EINVAL, fs))"

definition fs_remove :: "string \<Rightarrow> fsys \<Rightarrow> (errno + unit) \<times> fsys" where
  "fs_remove s fs =
     (case resolve False fs s of
        Inl e \<Rightarrow> (Inl e, fs)
      | Inr p \<Rightarrow>
          (if p = [] then (Inl EBUSY, fs)
           else (case look fs p of
                   None \<Rightarrow> (Inl ENOENT, fs)
                 | Some (DirN _) \<Rightarrow> if children p fs = [] then (Inr (), del p fs) else (Inl ENOTEMPTY, fs)
                 | Some _ \<Rightarrow> (Inr (), del p fs))))"

definition fs_remove_all :: "string \<Rightarrow> fsys \<Rightarrow> (errno + unit) \<times> fsys" where
  "fs_remove_all s fs =
     (case resolve False fs s of
        Inl e \<Rightarrow> ((if e = ENOENT then Inr () else Inl e), fs)
      | Inr p \<Rightarrow> if p = [] then (Inl EBUSY, fs) else (Inr (), del_tree p fs))"

text \<open>
  A \<^verbatim>\<open>RemoveAll\<close> that fails on the way has removed some of what is below the entry, deepest first.
\<close>

definition del_some :: "nat \<Rightarrow> path \<Rightarrow> fsys \<Rightarrow> fsys" where
  "del_some k p fs =
     fold del (take k (rev (sort_key length (filter (\<lambda>q. below p q \<and> q \<noteq> p) (map fst fs))))) fs"

definition fs_remove_some :: "string \<Rightarrow> nat \<Rightarrow> fsys \<Rightarrow> fsys" where
  "fs_remove_some s k fs =
     (case resolve False fs s of Inl e \<Rightarrow> fs | Inr p \<Rightarrow> if p = [] then fs else del_some k p fs)"

text \<open>
  \<^verbatim>\<open>os.MkdirAll\<close>, one prefix after the other; the first argument bounds how many are handled, for a
  call that fails on the way.
\<close>

fun mkdir_comps :: "nat \<Rightarrow> path \<Rightarrow> string list \<Rightarrow> fsys \<Rightarrow> (errno + unit) \<times> fsys" where
  "mkdir_comps t dn [] fs = (Inr (), fs)"
| "mkdir_comps t dn (c # cs) fs =
     (case walk fs 40 True [] (dn @ [c]) of
        Inl e \<Rightarrow> (Inl e, fs)
      | Inr p \<Rightarrow>
          (case look fs p of
             Some (DirN _) \<Rightarrow> mkdir_comps t (dn @ [c]) cs fs
           | Some _ \<Rightarrow> (Inl ENOTDIR, fs)
           | None \<Rightarrow>
               if walk fs 40 False [] (dn @ [c]) = Inr p
               then mkdir_comps t (dn @ [c]) cs (put p (DirN t) fs)
               else (Inl EEXIST, fs)))"

definition fs_mkdir_all :: "string \<Rightarrow> nat \<Rightarrow> fsys \<Rightarrow> (errno + unit) \<times> fsys" where
  "fs_mkdir_all s t fs =
     (if s = [] then (Inl ENOENT, fs)
      else if CHR 0x00 \<in> set s then (Inl EINVAL, fs)
      else mkdir_comps t [] (comps s) fs)"

definition fs_mkdir_some :: "string \<Rightarrow> nat \<Rightarrow> nat \<Rightarrow> fsys \<Rightarrow> fsys" where
  "fs_mkdir_some s k t fs = snd (mkdir_comps t [] (take k (comps s)) fs)"

text \<open>\<^verbatim>\<open>os.Rename\<close> of an entry that is not a directory, which is all the program renames.\<close>

definition fs_rename :: "string \<Rightarrow> string \<Rightarrow> fsys \<Rightarrow> (errno + unit) \<times> fsys" where
  "fs_rename old new fs =
     (case resolve False fs new of
        Inl e \<Rightarrow> (Inl e, fs)
      | Inr q \<Rightarrow>
          (case look fs q of
             Some (DirN _) \<Rightarrow> (Inl EEXIST, fs)
           | _ \<Rightarrow>
               (case resolve False fs old of
                  Inl e \<Rightarrow> (Inl e, fs)
                | Inr p \<Rightarrow>
                    (case look fs p of
                       None \<Rightarrow> (Inl ENOENT, fs)
                     | Some (DirN _) \<Rightarrow> (Inl EINVAL, fs)
                     | Some n \<Rightarrow> (Inr (), put q n (del p fs))))))"

definition fs_readlink :: "string \<Rightarrow> fsys \<Rightarrow> errno + string" where
  "fs_readlink s fs =
     (case resolve False fs s of
        Inl e \<Rightarrow> Inl e
      | Inr p \<Rightarrow> (case look fs p of None \<Rightarrow> Inl ENOENT | Some (LinkN t) \<Rightarrow> Inr t | _ \<Rightarrow> Inl EINVAL))"

definition fs_symlink :: "string \<Rightarrow> string \<Rightarrow> fsys \<Rightarrow> (errno + unit) \<times> fsys" where
  "fs_symlink target link fs =
     (if target = [] then (Inl ENOENT, fs)
      else (case resolve False fs link of
              Inl e \<Rightarrow> (Inl e, fs)
            | Inr p \<Rightarrow>
                (case look fs p of
                   Some _ \<Rightarrow> (Inl EEXIST, fs)
                 | None \<Rightarrow> (Inr (), put p (LinkN target) fs))))"

definition fs_read_dir :: "string \<Rightarrow> fsys \<Rightarrow> errno + string list" where
  "fs_read_dir s fs =
     (case resolve True fs s of
        Inl e \<Rightarrow> Inl e
      | Inr p \<Rightarrow>
          (case look fs p of
             None \<Rightarrow> Inl ENOENT
           | Some (DirN _) \<Rightarrow> Inr (children p fs)
           | Some _ \<Rightarrow> Inl ENOTDIR))"

definition fs_chmod :: "string \<Rightarrow> nat \<Rightarrow> fsys \<Rightarrow> (errno + unit) \<times> fsys" where
  "fs_chmod s m fs =
     (case resolve True fs s of
        Inl e \<Rightarrow> (Inl e, fs)
      | Inr p \<Rightarrow>
          (case look fs p of
             None \<Rightarrow> (Inl ENOENT, fs)
           | Some (FileN c t _) \<Rightarrow> (Inr (), put p (FileN c t m) fs)
           | Some _ \<Rightarrow> (Inr (), fs)))"

text \<open>
  \<^verbatim>\<open>os.CreateTemp(dir, pre + "*")\<close>: names are drawn until one is free, at most \<open>n\<close> times; the result is
  the name and the handle.
\<close>

fun create_temp :: "nat \<Rightarrow> (nat \<Rightarrow> nat) \<Rightarrow> nat \<Rightarrow> string \<Rightarrow> string \<Rightarrow> nat \<Rightarrow> fsys \<Rightarrow> (errno + string \<times> path) \<times> fsys"
where
  "create_temp n draws k dir pre t fs =
     (if n = 0 then (Inl EEXIST, fs)
      else let name = dir @ slash # pre @ digits (draws k) in
           (case resolve False fs name of
              Inl e \<Rightarrow> (Inl e, fs)
            | Inr p \<Rightarrow>
                if look fs p = None then (Inr (name, p), put p (FileN [] t 384) fs)
                else create_temp (n - 1) draws (Suc k) dir pre t fs))"

declare create_temp.simps [simp del]

section \<open>What a call can change\<close>

lemma fs_create_frame:
  "fs_create s t fs = (r, fs') \<Longrightarrow> look fs' q \<noteq> look fs q \<Longrightarrow> resolve True fs s = Inr q"
  by (auto simp: fs_create_def look_put split: sum.splits option.splits node.splits if_splits)

lemma fs_append_frame: "fs_append p d t fs = (r, fs') \<Longrightarrow> look fs' q \<noteq> look fs q \<Longrightarrow> q = p"
  by (auto simp: fs_append_def look_put split: option.splits node.splits if_splits)

lemma fs_create_file:
  "fs_create s t fs = (r, fs') \<Longrightarrow> look fs' q \<noteq> look fs q \<Longrightarrow> \<exists>c t m. look fs' q = Some (FileN c t m)"
  by (auto simp: fs_create_def look_put split: sum.splits option.splits node.splits if_splits)

lemma fs_append_file:
  "fs_append p d t fs = (r, fs') \<Longrightarrow> look fs' q \<noteq> look fs q \<Longrightarrow> \<exists>c t m. look fs' q = Some (FileN c t m)"
  by (auto simp: fs_append_def look_put split: option.splits node.splits if_splits)

lemma fs_chmod_file:
  "fs_chmod s m fs = (r, fs') \<Longrightarrow> look fs' q \<noteq> look fs q \<Longrightarrow> \<exists>c t. look fs' q = Some (FileN c t m)"
  by (auto simp: fs_chmod_def look_put split: sum.splits option.splits node.splits if_splits)

text \<open>What a successful call leaves.\<close>

lemma fs_create_ok:
  "fs_create s t fs = (Inr p, fs') \<Longrightarrow> resolve True fs s = Inr p \<and> (\<exists>m. look fs' p = Some (FileN [] t m))"
  by (auto simp: fs_create_def look_put split: sum.splits option.splits node.splits if_splits)

lemma fs_append_ok:
  "fs_append p d t fs = (Inr n, fs') \<Longrightarrow>
   n = length d \<and> (\<exists>c t0 m. look fs p = Some (FileN c t0 m) \<and> look fs' p = Some (FileN (c @ d) t m))"
  by (auto simp: fs_append_def look_put split: option.splits node.splits if_splits)

lemma fs_rename_ok:
  "fs_rename old new fs = (Inr u, fs') \<Longrightarrow>
   \<exists>p q n. resolve False fs old = Inr p \<and> resolve False fs new = Inr q \<and> look fs p = Some n
     \<and> (\<forall>t. n \<noteq> DirN t) \<and> (q = [] \<or> look fs' q = Some n) \<and> fs' = put q n (del p fs)"
  by (auto simp: fs_rename_def look_put split: sum.splits option.splits node.splits if_splits)

lemma fs_remove_frame:
  "fs_remove s fs = (r, fs') \<Longrightarrow> look fs' q \<noteq> look fs q \<Longrightarrow> resolve False fs s = Inr q \<and> look fs' q = None"
  by (auto simp: fs_remove_def look_del split: sum.splits option.splits node.splits if_splits)

lemma fs_remove_all_frame:
  "fs_remove_all s fs = (r, fs') \<Longrightarrow> look fs' q \<noteq> look fs q \<Longrightarrow>
   (\<exists>p. resolve False fs s = Inr p \<and> below p q) \<and> look fs' q = None"
  by (auto simp: fs_remove_all_def look_del_tree split: sum.splits if_splits)

lemma look_fold_del:
  "look (fold del ps fs) q = (if q \<noteq> [] \<and> q \<in> set ps then None else look fs q)"
  by (induction ps arbitrary: fs) (auto simp: look_del)

lemma fs_remove_some_frame:
  assumes "look (fs_remove_some s k fs) q \<noteq> look fs q"
  shows "(\<exists>p. resolve False fs s = Inr p \<and> below p q \<and> q \<noteq> p) \<and> look (fs_remove_some s k fs) q = None"
proof -
  from assms obtain p where p: "resolve False fs s = Inr p"
    and eq: "fs_remove_some s k fs = del_some k p fs"
    by (auto simp: fs_remove_some_def split: sum.splits if_splits)
  let ?ps = "rev (sort_key length (filter (\<lambda>q. below p q \<and> q \<noteq> p) (map fst fs)))"
  have "q \<in> set (take k ?ps) \<and> look (del_some k p fs) q = None"
    using assms unfolding eq del_some_def look_fold_del by (auto split: if_splits)
  then have "q \<in> set ?ps" and "look (del_some k p fs) q = None" by (auto dest: in_set_takeD)
  then show ?thesis using p eq by auto
qed

lemma fs_rename_frame:
  "fs_rename old new fs = (r, fs') \<Longrightarrow> look fs' q \<noteq> look fs q \<Longrightarrow>
   resolve False fs new = Inr q \<or> (resolve False fs old = Inr q \<and> look fs' q = None)"
  by (auto simp: fs_rename_def look_put look_del split: sum.splits option.splits node.splits if_splits)

lemma fs_symlink_frame:
  "fs_symlink target link fs = (r, fs') \<Longrightarrow> look fs' q \<noteq> look fs q \<Longrightarrow>
   resolve False fs link = Inr q \<and> look fs' q = Some (LinkN target)"
  by (auto simp: fs_symlink_def look_put split: sum.splits option.splits if_splits)

lemma fs_chmod_frame:
  "fs_chmod s m fs = (r, fs') \<Longrightarrow> look fs' q \<noteq> look fs q \<Longrightarrow> resolve True fs s = Inr q"
  by (auto simp: fs_chmod_def look_put split: sum.splits option.splits node.splits if_splits)

lemma create_temp_frame:
  "create_temp n draws k dir pre t fs = (r, fs') \<Longrightarrow> look fs' q \<noteq> look fs q \<Longrightarrow>
   look fs q = None \<and> look fs' q = Some (FileN [] t 384)
   \<and> (\<exists>i. r = Inr (dir @ slash # pre @ digits i, q) \<and> resolve False fs (dir @ slash # pre @ digits i) = Inr q)"
proof (induction n draws k dir pre t fs rule: create_temp.induct)
  case (1 n draws k dir pre t fs)
  let ?name = "dir @ slash # pre @ digits (draws k)"
  show ?case
  proof (cases "n = 0")
    case True
    then show ?thesis using "1.prems" by (simp add: create_temp.simps [of 0])
  next
    case False
    show ?thesis
    proof (cases "resolve False fs ?name")
      case (Inl e)
      then show ?thesis using 1 False by (simp add: create_temp.simps [of n])
    next
      case (Inr p)
      show ?thesis
      proof (cases "look fs p = None")
        case True
        have rr: "r = Inr (?name, p)" and ff: "fs' = put p (FileN [] t 384) fs"
          using "1.prems"(1) False Inr True by (simp_all add: create_temp.simps [of n] Let_def)
        then have "q = p" using "1.prems"(2) by (simp add: look_put split: if_splits)
        moreover have "p \<noteq> []" using True by auto
        ultimately show ?thesis using rr ff Inr True by (auto simp: look_put)
      next
        case ne: False
        have "create_temp (n - 1) draws (Suc k) dir pre t fs = (r, fs')"
          using "1.prems"(1) False Inr ne by (simp add: create_temp.simps [of n] Let_def)
        with 1(1) [OF False refl Inr ne] "1.prems"(2) show ?thesis by blast
      qed
    qed
  qed
qed

lemma create_temp_ok:
  "create_temp n draws k dir pre t fs = (Inr (name, p), fs') \<Longrightarrow>
   look fs p = None \<and> fs' = put p (FileN [] t 384) fs
   \<and> (\<exists>i. name = dir @ slash # pre @ digits i) \<and> resolve False fs name = Inr p"
proof (induction n draws k dir pre t fs rule: create_temp.induct)
  case (1 n draws k dir pre t fs)
  show ?case
    using "1.prems" "1.IH"
    by (subst (asm) create_temp.simps) (auto simp: Let_def split: if_splits sum.splits)
qed

lemma create_temp_err: "create_temp n draws k dir pre t fs = (Inl e, fs') \<Longrightarrow> fs' = fs"
proof (induction n draws k dir pre t fs rule: create_temp.induct)
  case (1 n draws k dir pre t fs)
  show ?case
    using "1.prems" "1.IH"
    by (subst (asm) create_temp.simps) (auto simp: Let_def split: if_splits sum.splits)
qed

lemma mkdir_comps_frame:
  "mkdir_comps t dn cs fs = (r, fs') \<Longrightarrow> look fs' q \<noteq> look fs q \<Longrightarrow>
   look fs q = None \<and> look fs' q = Some (DirN t)"
proof (induction t dn cs fs arbitrary: r rule: mkdir_comps.induct)
  case (2 t dn c cs fs)
  show ?case
  proof (cases "walk fs 40 True [] (dn @ [c])")
    case (Inl e)
    then show ?thesis using "2.prems" by simp
  next
    case (Inr p)
    show ?thesis
    proof (cases "look fs p")
      case None
      show ?thesis
      proof (cases "walk fs 40 False [] (dn @ [c]) = Inr p")
        case True
        have mk: "mkdir_comps t (dn @ [c]) cs (put p (DirN t) fs) = (r, fs')"
          using "2.prems"(1) Inr None True by simp
        note IH = "2.IH"(1) [OF Inr None True mk]
        show ?thesis
        proof (cases "q = p")
          case True
          then have "look (put p (DirN t) fs) q = Some (DirN t)"
            using None by (auto simp: look_put)
          then show ?thesis using IH None True by fastforce
        next
          case False
          then show ?thesis using IH "2.prems"(2) by (simp add: look_put)
        qed
      next
        case False
        then show ?thesis using "2.prems" Inr None by simp
      qed
    next
      case (Some n)
      then show ?thesis
        using "2.prems" "2.IH"(2) [OF Inr] Inr by (cases n) auto
    qed
  qed
qed simp

lemma fs_mkdir_all_frame:
  "fs_mkdir_all s t fs = (r, fs') \<Longrightarrow> look fs' q \<noteq> look fs q \<Longrightarrow>
   look fs q = None \<and> look fs' q = Some (DirN t)"
  by (auto simp: fs_mkdir_all_def dest: mkdir_comps_frame split: if_splits)

lemma fs_mkdir_some_frame:
  "look (fs_mkdir_some s k t fs) q \<noteq> look fs q \<Longrightarrow>
   look fs q = None \<and> look (fs_mkdir_some s k t fs) q = Some (DirN t)"
  unfolding fs_mkdir_some_def by (rule mkdir_comps_frame [OF prod.collapse [symmetric]])

end
