(* ===== verification/World.thy ===== *)
theory World
  imports ApiTypes Syscalls
begin

text \<open>
  The world the program runs in and the calls it makes to it. Three things surround the code:
  the operating system (modelled: \<open>Syscalls\<close>), made to fail and to take time by an arbitrary
  schedule; the Kubernetes API server behind \<^verbatim>\<open>client.Client\<close> (not modelled: a record of
  operations over an opaque state, a parameter of every definition that calls it); and the clock.
  Two ghost fields record what happened: every state the file system went through, and every status
  the program wrote, with the file system at that moment. Theorems hold for all schedules and all
  servers unless a named hypothesis says otherwise.
\<close>

section \<open>Errors\<close>

text \<open>\<^verbatim>\<open>*os.PathError\<close> and \<^verbatim>\<open>*os.LinkError\<close>.\<close>

datatype os_error = PathError string string errno | LinkError string string string errno

definition errno_text :: "errno \<Rightarrow> string" where
  "errno_text e =
     (case e of
        ENOENT \<Rightarrow> ''no such file or directory''
      | EEXIST \<Rightarrow> ''file exists''
      | ENOTDIR \<Rightarrow> ''not a directory''
      | EISDIR \<Rightarrow> ''is a directory''
      | ENOTEMPTY \<Rightarrow> ''directory not empty''
      | EINVAL \<Rightarrow> ''invalid argument''
      | ELOOP \<Rightarrow> ''too many levels of symbolic links''
      | EBUSY \<Rightarrow> ''device or resource busy''
      | EACCES \<Rightarrow> ''permission denied''
      | EIO \<Rightarrow> ''input/output error''
      | ENOSPC \<Rightarrow> ''no space left on device'')"

fun os_errno :: "os_error \<Rightarrow> errno" where
  "os_errno (PathError op p e) = e"
| "os_errno (LinkError op a b e) = e"

fun os_error_text :: "os_error \<Rightarrow> string" where
  "os_error_text (PathError op p e) = op @ '' '' @ p @ '': '' @ errno_text e"
| "os_error_text (LinkError op a b e) = op @ '' '' @ a @ '' '' @ b @ '': '' @ errno_text e"

definition os_IsNotExist :: "os_error \<Rightarrow> bool" where
  "os_IsNotExist e \<longleftrightarrow> os_errno e = ENOENT"

text \<open>
  What the API server answers when it refuses: the reasons the code tells apart, and the text.
\<close>

datatype api_error = ApiNotFound string | ApiConflict string | ApiOther string

text \<open>
  Go errors: those of the API and of the operating system, the package's own sentinels and plain
  texts, and \<^verbatim>\<open>fmt.Errorf\<close> with one \<^verbatim>\<open>%w\<close>, which keeps the wrapped error below a prefix and a suffix.
\<close>

datatype sentinel = ErrMultipleMachines | ErrMultipleProvisions | ErrInvalidPhaseTransition | ErrFileNotFound

datatype go_error =
    ApiErr api_error
  | OsErr os_error
  | Sentinel sentinel
  | PlainErr string
  | Wrapped string go_error string

fun sentinel_text :: "sentinel \<Rightarrow> string" where
  "sentinel_text ErrMultipleMachines = ''multiple machines''"
| "sentinel_text ErrMultipleProvisions = ''multiple pending provisions''"
| "sentinel_text ErrInvalidPhaseTransition = ''invalid phase transition''"
| "sentinel_text ErrFileNotFound = ''file not found''"

fun api_error_text :: "api_error \<Rightarrow> string" where
  "api_error_text (ApiNotFound s) = s"
| "api_error_text (ApiConflict s) = s"
| "api_error_text (ApiOther s) = s"

text \<open>\<^verbatim>\<open>err.Error()\<close>.\<close>

fun error_text :: "go_error \<Rightarrow> string" where
  "error_text (ApiErr e) = api_error_text e"
| "error_text (OsErr e) = os_error_text e"
| "error_text (Sentinel s) = sentinel_text s"
| "error_text (PlainErr s) = s"
| "error_text (Wrapped pre e post) = pre @ error_text e @ post"

text \<open>\<^verbatim>\<open>apierrors.IsNotFound\<close>, \<^verbatim>\<open>apierrors.IsConflict\<close> and \<^verbatim>\<open>errors.Is\<close> look through wrapping.\<close>

fun IsNotFound :: "go_error \<Rightarrow> bool" where
  "IsNotFound (ApiErr (ApiNotFound _)) = True"
| "IsNotFound (Wrapped _ e _) = IsNotFound e"
| "IsNotFound _ = False"

fun IsConflict :: "go_error \<Rightarrow> bool" where
  "IsConflict (ApiErr (ApiConflict _)) = True"
| "IsConflict (Wrapped _ e _) = IsConflict e"
| "IsConflict _ = False"

fun errors_Is :: "go_error \<Rightarrow> sentinel \<Rightarrow> bool" where
  "errors_Is (Sentinel s) t = (s = t)"
| "errors_Is (Wrapped _ e _) t = errors_Is e t"
| "errors_Is _ t = False"

section \<open>The API server\<close>

text \<open>
  The operations of \<^verbatim>\<open>client.Client\<close> that the program calls. An object is named by its namespace and
  its name; a list is restricted to a namespace and, with \<^verbatim>\<open>MatchingFields\<close>, to the objects that
  an index maps to given values. A status update takes the object, with the resource version the
  caller read, and gives back the object as the server stored it.
\<close>

record 's Client =
  Get_BootArtifact :: "string \<Rightarrow> string \<Rightarrow> 's \<Rightarrow> (api_error + BootArtifact) \<times> 's"
  Get_BootConfig :: "string \<Rightarrow> string \<Rightarrow> 's \<Rightarrow> (api_error + BootConfig) \<times> 's"
  Get_Provision :: "string \<Rightarrow> string \<Rightarrow> 's \<Rightarrow> (api_error + Provision) \<times> 's"
  Get_ProvisionAutomation :: "string \<Rightarrow> string \<Rightarrow> 's \<Rightarrow> (api_error + ProvisionAutomation) \<times> 's"
  Get_ConfigMap :: "string \<Rightarrow> string \<Rightarrow> 's \<Rightarrow> (api_error + (string \<rightharpoonup> string)) \<times> 's"
  Get_Secret :: "string \<Rightarrow> string \<Rightarrow> 's \<Rightarrow> (api_error + (string \<rightharpoonup> string)) \<times> 's"
  List_BootConfigs :: "string \<Rightarrow> 's \<Rightarrow> (api_error + BootConfig list) \<times> 's"
  List_Machines :: "string \<Rightarrow> (string \<times> string) list \<Rightarrow> 's \<Rightarrow> (api_error + Machine list) \<times> 's"
  List_Provisions :: "string \<Rightarrow> (string \<times> string) list \<Rightarrow> 's \<Rightarrow> (api_error + Provision list) \<times> 's"
  Update_BootArtifact_status :: "BootArtifact \<Rightarrow> 's \<Rightarrow> (api_error + BootArtifact) \<times> 's"
  Update_BootConfig_status :: "BootConfig \<Rightarrow> 's \<Rightarrow> (api_error + BootConfig) \<times> 's"
  Update_Provision_status :: "Provision \<Rightarrow> 's \<Rightarrow> (api_error + Provision) \<times> 's"

section \<open>The world\<close>

text \<open>
  What happens to a system call: it is carried out after a delay, or it fails after a delay with an
  error, having done a part of its work.
\<close>

datatype os_event = Runs nat | Fails nat errno nat

datatype status_write =
    ArtifactStatus BootArtifact
  | ConfigStatus BootConfig
  | ProvStatus Provision

record 's world =
  w_fs :: fsys
  w_sched :: "os_event list"
  w_clock :: nat
  w_draws :: "nat \<Rightarrow> nat"
  w_draw :: nat
  w_api :: 's
  w_trace :: "fsys list"
  w_writes :: "(status_write \<times> fsys) list"
  w_events :: "(string \<times> string) list"

type_synonym ('s, 'a) io = "('s world, 'a) state"

definition next_event :: "'s world \<Rightarrow> os_event" where
  "next_event w = (case w_sched w of [] \<Rightarrow> Runs 0 | e # es \<Rightarrow> e)"

fun delay_of :: "os_event \<Rightarrow> nat" where
  "delay_of (Runs d) = d"
| "delay_of (Fails d e k) = d"

definition advance :: "'s world \<Rightarrow> 's world" where
  "advance w = w\<lparr>w_sched := tl (w_sched w), w_clock := w_clock w + delay_of (next_event w)\<rparr>"

definition set_fs :: "fsys \<Rightarrow> 's world \<Rightarrow> 's world" where
  "set_fs f w = w\<lparr>w_fs := f, w_trace := f # w_trace w\<rparr>"

definition map_err :: "('e \<Rightarrow> 'f) \<Rightarrow> 'e + 'a \<Rightarrow> 'f + 'a" where
  "map_err g r = (case r of Inl e \<Rightarrow> Inl (g e) | Inr v \<Rightarrow> Inr v)"

lemma map_err_simps [simp]: "map_err g (Inl e) = Inl (g e)" "map_err g (Inr v) = Inr v"
  by (simp_all add: map_err_def)

text \<open>
  A system call: what it does to the time and the file system when it runs, and what a failing call
  leaves behind.
\<close>

definition os_call ::
  "(errno \<Rightarrow> os_error) \<Rightarrow> (nat \<Rightarrow> nat \<Rightarrow> fsys \<Rightarrow> fsys) \<Rightarrow> (nat \<Rightarrow> fsys \<Rightarrow> (errno + 'a) \<times> fsys)
   \<Rightarrow> ('s, os_error + 'a) io" where
  "os_call mk part eff =
     State (\<lambda>w.
       let w1 = advance w in
       (case next_event w of
          Runs d \<Rightarrow> (case eff (w_clock w1) (w_fs w) of (r, f) \<Rightarrow> (map_err mk r, set_fs f w1))
        | Fails d e k \<Rightarrow> (Inl (mk e), set_fs (part k (w_clock w1) (w_fs w)) w1)))"

definition read_only :: "nat \<Rightarrow> nat \<Rightarrow> fsys \<Rightarrow> fsys" where
  "read_only k t fs = fs"

section \<open>Package os\<close>

definition os_Stat :: "string \<Rightarrow> ('s, os_error + node) io" where
  "os_Stat s = os_call (PathError ''stat'' s) read_only (\<lambda>t fs. (fs_stat s fs, fs))"

definition os_Open :: "string \<Rightarrow> ('s, os_error + path) io" where
  "os_Open s = os_call (PathError ''open'' s) read_only (\<lambda>t fs. (fs_open s fs, fs))"

text \<open>Reading an open file to its end; a failing read yields nothing the program keeps.\<close>

definition os_ReadAll :: "string \<Rightarrow> path \<Rightarrow> ('s, os_error + string) io" where
  "os_ReadAll s h = os_call (PathError ''read'' s) read_only (\<lambda>t fs. (fs_read h fs, fs))"

definition os_Create :: "string \<Rightarrow> ('s, os_error + path) io" where
  "os_Create s = os_call (PathError ''open'' s) read_only (fs_create s)"

text \<open>Writing to an open file; a failing write leaves a prefix of the data.\<close>

definition os_Write :: "string \<Rightarrow> path \<Rightarrow> string \<Rightarrow> ('s, os_error + nat) io" where
  "os_Write s h d =
     os_call (PathError ''write'' s) (\<lambda>k t fs. snd (fs_append h (take k d) t fs)) (fs_append h d)"

definition os_Sync :: "string \<Rightarrow> ('s, os_error + unit) io" where
  "os_Sync s = os_call (PathError ''sync'' s) read_only (\<lambda>t fs. (Inr (), fs))"

definition os_Close :: "string \<Rightarrow> ('s, os_error + unit) io" where
  "os_Close s = os_call (PathError ''close'' s) read_only (\<lambda>t fs. (Inr (), fs))"

definition os_Remove :: "string \<Rightarrow> ('s, os_error + unit) io" where
  "os_Remove s = os_call (PathError ''remove'' s) read_only (\<lambda>t. fs_remove s)"

definition os_RemoveAll :: "string \<Rightarrow> ('s, os_error + unit) io" where
  "os_RemoveAll s =
     os_call (PathError ''unlinkat'' s) (\<lambda>k t. fs_remove_some s k) (\<lambda>t. fs_remove_all s)"

definition os_MkdirAll :: "string \<Rightarrow> ('s, os_error + unit) io" where
  "os_MkdirAll s = os_call (PathError ''mkdir'' s) (fs_mkdir_some s) (fs_mkdir_all s)"

definition os_Rename :: "string \<Rightarrow> string \<Rightarrow> ('s, os_error + unit) io" where
  "os_Rename a b = os_call (LinkError ''rename'' a b) read_only (\<lambda>t. fs_rename a b)"

definition os_Readlink :: "string \<Rightarrow> ('s, os_error + string) io" where
  "os_Readlink s = os_call (PathError ''readlink'' s) read_only (\<lambda>t fs. (fs_readlink s fs, fs))"

definition os_Symlink :: "string \<Rightarrow> string \<Rightarrow> ('s, os_error + unit) io" where
  "os_Symlink target link =
     os_call (LinkError ''symlink'' target link) read_only (\<lambda>t. fs_symlink target link)"

definition os_ReadDir :: "string \<Rightarrow> ('s, os_error + string list) io" where
  "os_ReadDir s = os_call (PathError ''open'' s) read_only (\<lambda>t fs. (fs_read_dir s fs, fs))"

definition os_Chmod :: "string \<Rightarrow> nat \<Rightarrow> ('s, os_error + unit) io" where
  "os_Chmod s m = os_call (PathError ''chmod'' s) read_only (\<lambda>t. fs_chmod s m)"

text \<open>The draws of one call are a block of their own in the stream of random numbers.\<close>

definition os_CreateTemp :: "string \<Rightarrow> string \<Rightarrow> ('s, os_error + string \<times> path) io" where
  "os_CreateTemp dir pre =
     State (\<lambda>w.
       let w1 = w\<lparr>w_draw := w_draw w + 10000\<rparr> in
       run_state
         (os_call (PathError ''createtemp'' (dir @ slash # pre @ ''*'')) read_only
            (create_temp 10000 (w_draws w) (w_draw w) dir pre)) w1)"

section \<open>The API client, the clock and the event recorder\<close>

definition api_call :: "('s \<Rightarrow> 'a \<times> 's) \<Rightarrow> ('s, 'a) io" where
  "api_call f = State (\<lambda>w. case f (w_api w) of (r, s) \<Rightarrow> (r, w\<lparr>w_api := s\<rparr>))"

text \<open>A status update is recorded with the file system it was made in, whatever the server answers.\<close>

definition api_write :: "status_write \<Rightarrow> ('s \<Rightarrow> 'a \<times> 's) \<Rightarrow> ('s, 'a) io" where
  "api_write x f =
     State (\<lambda>w. case f (w_api w) of
       (r, s) \<Rightarrow> (r, w\<lparr>w_api := s, w_writes := (x, w_fs w) # w_writes w\<rparr>))"

definition metav1_Now :: "('s, MetaTime) io" where
  "metav1_Now = State (\<lambda>w. (w_clock w, w))"

definition record_event :: "string \<Rightarrow> string \<Rightarrow> ('s, unit) io" where
  "record_event reason note = State (\<lambda>w. ((), w\<lparr>w_events := (reason, note) # w_events w\<rparr>))"

end
