(* ===== verification/ArtifactController.thy ===== *)
theory ArtifactController
  imports Urlutil World
begin

text \<open>
  \<^verbatim>\<open>internal/controller/bootartifact_controller.go\<close>: the reconciler that keeps the file of every
  BootArtifact downloaded and verified. The HTTP client and the two digests are parameters, fields of
  the reconciler; a body may end in a read error, and may be shorter or longer than announced.
\<close>

section \<open>The reconciler and what surrounds it\<close>

text \<open>What \<^verbatim>\<open>HTTPClient.Do\<close> gives: an error, or a status, the announced length (-1 when unknown), the
  bytes of the body and the error that reading it ends with, if any.\<close>

datatype http_reply = HttpError string | HttpReply int int string "string option"

record 's BootArtifactReconciler =
  bar_Client :: "'s Client"
  bar_DataDir :: string
  bar_HTTPClient :: "string \<Rightarrow> http_reply"
  bar_Recorder :: bool
  bar_sha256 :: "string \<Rightarrow> string"
  bar_sha512 :: "string \<Rightarrow> string"

text \<open>
  What a reconciler returns: \<^verbatim>\<open>ctrl.Result\<close> with \<^verbatim>\<open>RequeueAfter\<close> in nanoseconds (0 for none), an error,
  which makes the manager retry, or a panic.
\<close>

datatype ctrl_out = Result int | ReconcileError go_error | ReconcilePanic

definition Second :: int where
  "Second = 1000000000"

section \<open>Paths and digests\<close>

definition filePath :: "'s BootArtifactReconciler \<Rightarrow> BootArtifact \<Rightarrow> string" where
  "filePath r artifact =
     (let filename = FilenameFromURL (ba_URL (ba_Spec artifact)) in
      Join [bar_DataDir r, ''artifacts'', om_name (ba_meta artifact), filename])"

definition expectedHash :: "BootArtifact \<Rightarrow> string" where
  "expectedHash artifact =
     (case ba_SHA256 (ba_Spec artifact) of
        Some h \<Rightarrow> h
      | None \<Rightarrow>
          (case ba_SHA512 (ba_Spec artifact) of
             Some h \<Rightarrow> h
           | None \<Rightarrow> []))"

definition sum_bytes :: "'s BootArtifactReconciler \<Rightarrow> bool \<Rightarrow> string \<Rightarrow> string" where
  "sum_bytes r useSHA256 c = hex_encode ((if useSHA256 then bar_sha256 r else bar_sha512 r) c)"

definition hashFile :: "'s BootArtifactReconciler \<Rightarrow> string \<Rightarrow> bool \<Rightarrow> ('s, os_error + string) io" where
  "hashFile r p useSHA256 = do {
     f \<leftarrow> os_Open p;
     (case f of
        Inl err \<Rightarrow> State_Monad.return (Inl err)
      | Inr h \<Rightarrow> do {
          d \<leftarrow> os_ReadAll p h;
          (case d of
             Inl err \<Rightarrow> State_Monad.return (Inl err)
           | Inr c \<Rightarrow> State_Monad.return (Inr (sum_bytes r useSHA256 c)))
        })
   }"

definition syncDir :: "string \<Rightarrow> ('s, os_error + unit) io" where
  "syncDir p = do {
     d \<leftarrow> os_Open p;
     (case d of
        Inl err \<Rightarrow> State_Monad.return (Inl err)
      | Inr _ \<Rightarrow> os_Sync p)
   }"

section \<open>Status\<close>

definition BootArtifact_setReady :: "'s BootArtifactReconciler \<Rightarrow> BootArtifact \<Rightarrow> ('s, go_error + unit) io" where
  "BootArtifact_setReady r artifact = do {
     now \<leftarrow> metav1_Now;
     let a = artifact\<lparr>ba_Status := (ba_Status artifact)\<lparr>
               ba_Phase := BootArtifactPhaseReady,
               ba_Message := [],
               ba_FailureCount := 0,
               ba_LastFailureTime := None,
               ba_LastChecked := Some now\<rparr>\<rparr>;
     u \<leftarrow> api_write (ArtifactStatus a) (Update_BootArtifact_status (bar_Client r) a);
     (case u of
        Inl err \<Rightarrow> State_Monad.return (Inl (Wrapped ''updating status: '' (ApiErr err) []))
      | Inr _ \<Rightarrow> State_Monad.return (Inr ()))
   }"

text \<open>
  \<^verbatim>\<open>time.Duration(1<<min(artifact.Status.FailureCount, 6)) * 5 * time.Second\<close>: the shift is of an
  \<^verbatim>\<open>int64\<close>, and a negative shift count panics.
\<close>

definition backoff :: "32 word \<Rightarrow> int option" where
  "backoff failureCount =
     (let k = (if sint failureCount < 6 then sint failureCount else 6) in
      if k < 0 then None
      else Some (sint (push_bit (nat k) (1 :: 64 word) * 5 * word_of_int Second)))"

definition BootArtifact_setFailure ::
  "'s BootArtifactReconciler \<Rightarrow> BootArtifact \<Rightarrow> string \<Rightarrow> ('s, ctrl_out) io" where
  "BootArtifact_setFailure r artifact message = do {
     now \<leftarrow> metav1_Now;
     let a = artifact\<lparr>ba_Status := (ba_Status artifact)\<lparr>
               ba_Phase := BootArtifactPhaseError,
               ba_Message := message,
               ba_FailureCount := ba_FailureCount (ba_Status artifact) + 1,
               ba_LastFailureTime := Some now\<rparr>\<rparr>;
     u \<leftarrow> api_write (ArtifactStatus a) (Update_BootArtifact_status (bar_Client r) a);
     (case u of
        Inl err \<Rightarrow> State_Monad.return (ReconcileError (Wrapped ''updating status: '' (ApiErr err) []))
      | Inr a' \<Rightarrow>
          State_Monad.return
            (case backoff (ba_FailureCount (ba_Status a')) of
               None \<Rightarrow> ReconcilePanic
             | Some d \<Rightarrow> Result d))
   }"

section \<open>An existing file\<close>

definition verifyExisting ::
  "'s BootArtifactReconciler \<Rightarrow> BootArtifact \<Rightarrow> string \<Rightarrow> ('s, go_error + bool) io" where
  "verifyExisting r artifact fp = do {
     hf \<leftarrow> hashFile r fp (ba_SHA256 (ba_Spec artifact) \<noteq> None);
     (case hf of
        Inl err \<Rightarrow>
          if os_IsNotExist err then State_Monad.return (Inr False)
          else State_Monad.return (Inl (Wrapped ''hashing existing file: '' (OsErr err) []))
      | Inr computedHash \<Rightarrow>
          let expected = expectedHash artifact in
          if \<not> equal_fold computedHash expected then do {
            _ \<leftarrow> (if bar_Recorder r
                 then record_event ''HashMismatch''
                        (''Existing file hash mismatch: expected '' @ expected @ '' got ''
                         @ computedHash @ '', re-downloading'')
                 else State_Monad.return ());
            _ \<leftarrow> os_Remove fp;
            State_Monad.return (Inr False)
          }
          else if ba_Phase (ba_Status artifact) \<noteq> BootArtifactPhaseReady then do {
            e \<leftarrow> BootArtifact_setReady r artifact;
            (case e of
               Inl err \<Rightarrow> State_Monad.return (Inl err)
             | Inr _ \<Rightarrow> State_Monad.return (Inr True))
          }
          else State_Monad.return (Inr True))
   }"

section \<open>Downloading\<close>

text \<open>
  \<^verbatim>\<open>io.Copy(tmpFile, io.TeeReader(resp.Body, h))\<close>: the bytes of the body are written, then the error
  that ends the body, if any, is returned; a failing write comes first.
\<close>

definition io_Copy :: "string \<Rightarrow> path \<Rightarrow> string \<Rightarrow> string option \<Rightarrow> ('s, string + nat) io" where
  "io_Copy p h body rerr = do {
     n \<leftarrow> os_Write p h body;
     State_Monad.return
       (case n of
          Inl err \<Rightarrow> Inl (os_error_text err)
        | Inr k \<Rightarrow> (case rerr of Some e \<Rightarrow> Inl e | None \<Rightarrow> Inr k))
   }"

text \<open>What follows the verified write: the rename, the directory sync and the status.\<close>

definition publish ::
  "'s BootArtifactReconciler \<Rightarrow> BootArtifact \<Rightarrow> string \<Rightarrow> string \<Rightarrow> ('s, ctrl_out) io" where
  "publish r artifact fp tmpPath = do {
     rn \<leftarrow> os_Rename tmpPath fp;
     (case rn of
        Inl err \<Rightarrow> BootArtifact_setFailure r artifact (''renaming file: '' @ os_error_text err)
      | Inr _ \<Rightarrow> do {
          sd \<leftarrow> syncDir (Dir fp);
          (case sd of
             Inl err \<Rightarrow> BootArtifact_setFailure r artifact (''syncing directory: '' @ os_error_text err)
           | Inr _ \<Rightarrow> do {
               e \<leftarrow> BootArtifact_setReady r artifact;
               (case e of
                  Inl err \<Rightarrow> State_Monad.return (ReconcileError err)
                | Inr _ \<Rightarrow> State_Monad.return (Result 0))
             })
        })
   }"

text \<open>The body of a reply with status 200: written, flushed, compared, published.\<close>

definition store_body ::
  "'s BootArtifactReconciler \<Rightarrow> BootArtifact \<Rightarrow> string \<Rightarrow> string \<Rightarrow> int \<Rightarrow> string \<Rightarrow> string option
   \<Rightarrow> ('s, ctrl_out) io" where
  "store_body r artifact fp tmpPath contentLength body rerr = do {
     tf \<leftarrow> os_Create tmpPath;
     (case tf of
        Inl err \<Rightarrow> BootArtifact_setFailure r artifact (''creating temp file: '' @ os_error_text err)
      | Inr h \<Rightarrow> do {
          cp \<leftarrow> io_Copy tmpPath h body rerr;
          (case cp of
             Inl err \<Rightarrow> do {
               _ \<leftarrow> os_Close tmpPath;
               BootArtifact_setFailure r artifact (''writing file: '' @ err)
             }
           | Inr written \<Rightarrow>
               if 0 \<le> contentLength \<and> int written \<noteq> contentLength then do {
                 _ \<leftarrow> os_Close tmpPath;
                 BootArtifact_setFailure r artifact
                   (''Content-Length mismatch: expected '' @ itoa contentLength @ '' bytes, got ''
                    @ itoa (int written))
               }
               else do {
                 sy \<leftarrow> os_Sync tmpPath;
                 (case sy of
                    Inl err \<Rightarrow> do {
                      _ \<leftarrow> os_Close tmpPath;
                      BootArtifact_setFailure r artifact (''syncing temp file: '' @ os_error_text err)
                    }
                  | Inr _ \<Rightarrow> do {
                      cl \<leftarrow> os_Close tmpPath;
                      (case cl of
                         Inl err \<Rightarrow>
                           BootArtifact_setFailure r artifact (''closing temp file: '' @ os_error_text err)
                       | Inr _ \<Rightarrow>
                           let computedHash = sum_bytes r (ba_SHA256 (ba_Spec artifact) \<noteq> None) body;
                               expected = expectedHash artifact
                           in if \<not> equal_fold computedHash expected
                              then BootArtifact_setFailure r artifact
                                     (''hash mismatch: expected '' @ expected @ '' got '' @ computedHash)
                              else publish r artifact fp tmpPath)
                    })
               })
        })
   }"

text \<open>The part of \<^verbatim>\<open>download\<close> that the deferred removal of the temporary file encloses.\<close>

definition fetch ::
  "'s BootArtifactReconciler \<Rightarrow> BootArtifact \<Rightarrow> string \<Rightarrow> string \<Rightarrow> ('s, ctrl_out) io" where
  "fetch r artifact fp tmpPath =
     (case url_parse (ba_URL (ba_Spec artifact)) of
        Inl err \<Rightarrow> BootArtifact_setFailure r artifact (''creating request: '' @ err)
      | Inr _ \<Rightarrow>
          (case bar_HTTPClient r (ba_URL (ba_Spec artifact)) of
             HttpError err \<Rightarrow> BootArtifact_setFailure r artifact (''download failed: '' @ err)
           | HttpReply status contentLength body rerr \<Rightarrow>
               if status \<noteq> 200
               then BootArtifact_setFailure r artifact (''download failed: HTTP '' @ itoa status)
               else store_body r artifact fp tmpPath contentLength body rerr))"

definition download ::
  "'s BootArtifactReconciler \<Rightarrow> BootArtifact \<Rightarrow> string \<Rightarrow> ('s, ctrl_out) io" where
  "download r artifact fp = do {
     let a = artifact\<lparr>ba_Status := (ba_Status artifact)\<lparr>
               ba_Phase := BootArtifactPhaseDownloading,
               ba_Message := ''Downloading''\<rparr>\<rparr>;
     u \<leftarrow> api_write (ArtifactStatus a) (Update_BootArtifact_status (bar_Client r) a);
     (case u of
        Inl err \<Rightarrow> State_Monad.return (ReconcileError (Wrapped ''updating status: '' (ApiErr err) []))
      | Inr a1 \<Rightarrow> do {
          g \<leftarrow> api_call (Get_BootArtifact (bar_Client r) (om_namespace (ba_meta a1)) (om_name (ba_meta a1)));
          (case g of
             Inl err \<Rightarrow>
               State_Monad.return (ReconcileError (Wrapped ''re-fetching artifact: '' (ApiErr err) []))
           | Inr a2 \<Rightarrow> do {
               mk \<leftarrow> os_MkdirAll (Dir fp);
               (case mk of
                  Inl err \<Rightarrow>
                    BootArtifact_setFailure r a2 (''creating directory: '' @ os_error_text err)
                | Inr _ \<Rightarrow> do {
                    out \<leftarrow> fetch r a2 fp (fp @ ''.tmp'');
                    _ \<leftarrow> os_Remove (fp @ ''.tmp'');
                    State_Monad.return out
                  })
             })
        })
   }"

section \<open>Reconcile\<close>

definition BootArtifact_Reconcile :: "'s BootArtifactReconciler \<Rightarrow> string \<Rightarrow> string \<Rightarrow> ('s, ctrl_out) io" where
  "BootArtifact_Reconcile r ns name = do {
     g \<leftarrow> api_call (Get_BootArtifact (bar_Client r) ns name);
     (case g of
        Inl err \<Rightarrow>
          State_Monad.return
            (if IsNotFound (ApiErr err) then Result 0 else ReconcileError (ApiErr err))
      | Inr artifact \<Rightarrow>
          let fp = filePath r artifact in do {
            st \<leftarrow> os_Stat fp;
            (case st of
               Inr _ \<Rightarrow> do {
                 v \<leftarrow> verifyExisting r artifact fp;
                 (case v of
                    Inl err \<Rightarrow> State_Monad.return (ReconcileError err)
                  | Inr ok \<Rightarrow> if ok then State_Monad.return (Result 0) else download r artifact fp)
               }
             | Inl err \<Rightarrow>
                 if \<not> os_IsNotExist err
                 then BootArtifact_setFailure r artifact (''stat file: '' @ os_error_text err)
                 else download r artifact fp)
          })
   }"

end
