(* ===== verification/WorldRules.thy ===== *)
theory WorldRules
  imports World
begin

text \<open>
  The proof rules for the calls of \<open>World\<close>: one rule for a system call under an arbitrary schedule,
  the invariants that hold of every file system a run goes through and of every status it writes,
  and how paths without symbolic links resolve.
\<close>

section \<open>One system call\<close>

text \<open>A schedule without faults.\<close>

definition calm :: "'s world \<Rightarrow> bool" where
  "calm w \<longleftrightarrow> list_all (\<lambda>e. case e of Runs _ \<Rightarrow> True | Fails _ _ _ \<Rightarrow> False) (w_sched w)"

text \<open>What no system call touches, and how it moves the rest.\<close>

definition stepped :: "'s world \<Rightarrow> 's world \<Rightarrow> bool" where
  "stepped w w' \<longleftrightarrow>
     w_api w' = w_api w \<and> w_writes w' = w_writes w \<and> w_events w' = w_events w
     \<and> w_clock w \<le> w_clock w' \<and> (calm w \<longrightarrow> calm w')
     \<and> w_trace w' = w_fs w' # w_trace w"

lemma calm_advance: "calm w \<Longrightarrow> calm (advance w)"
  by (cases "w_sched w") (auto simp: calm_def advance_def)

lemma calm_next: "calm w \<Longrightarrow> \<exists>d. next_event w = Runs d"
  by (cases "w_sched w") (auto simp: calm_def next_event_def split: os_event.splits)

lemma stepped_set_fs: "stepped w (set_fs f (advance w))"
  using calm_advance [of w] by (auto simp: stepped_def set_fs_def advance_def calm_def)

lemma wp_os_call:
  assumes ok: "\<And>r w'. stepped w w' \<Longrightarrow> eff (w_clock w') (w_fs w) = (r, w_fs w') \<Longrightarrow> Q (map_err mk r) w'"
    and fault: "\<And>e k w'. stepped w w' \<Longrightarrow> \<not> calm w \<Longrightarrow> w_fs w' = part k (w_clock w') (w_fs w) \<Longrightarrow> Q (Inl (mk e)) w'"
  shows "wp (os_call mk part eff) Q w"
proof (cases "next_event w")
  case (Runs d)
  obtain r f where rf: "eff (w_clock (advance w)) (w_fs w) = (r, f)" by force
  have "Q (map_err mk r) (set_fs f (advance w))"
    by (rule ok [OF stepped_set_fs]) (simp add: rf set_fs_def)
  then show ?thesis using Runs rf by (simp add: os_call_def wp_State Let_def)
next
  case (Fails d e k)
  then have nc: "\<not> calm w" by (auto dest: calm_next)
  have "Q (Inl (mk e)) (set_fs (part k (w_clock (advance w)) (w_fs w)) (advance w))"
    by (rule fault [OF stepped_set_fs nc]) (simp add: set_fs_def)
  then show ?thesis using Fails by (simp add: os_call_def wp_State Let_def)
qed

section \<open>Invariants of a run\<close>

text \<open>
  \<open>run_inv J R w0 w\<close>: since \<open>w0\<close>, every file system satisfied \<open>J\<close>, and every status written satisfied
  \<open>R\<close> in the file system of its moment.
\<close>

definition run_inv ::
  "(fsys \<Rightarrow> bool) \<Rightarrow> (status_write \<Rightarrow> fsys \<Rightarrow> bool) \<Rightarrow> 's world \<Rightarrow> 's world \<Rightarrow> bool" where
  "run_inv J R w0 w \<longleftrightarrow>
     J (w_fs w)
     \<and> (\<exists>tr. w_trace w = tr @ w_trace w0 \<and> (\<forall>f \<in> set tr. J f))
     \<and> (\<exists>ws. w_writes w = ws @ w_writes w0 \<and> (\<forall>(x, f) \<in> set ws. R x f))"

lemma run_inv_refl: "J (w_fs w) \<Longrightarrow> run_inv J R w w"
  by (simp add: run_inv_def)

lemma run_inv_fs: "run_inv J R w0 w \<Longrightarrow> J (w_fs w)"
  by (simp add: run_inv_def)

lemma run_inv_step: "run_inv J R w0 w \<Longrightarrow> stepped w w' \<Longrightarrow> J (w_fs w') \<Longrightarrow> run_inv J R w0 w'"
  unfolding run_inv_def stepped_def
  by (metis (no_types, lifting) append_Cons set_ConsD)

lemma run_inv_write:
  assumes "run_inv J R w0 w" and "R x (w_fs w)" and "w_fs w' = w_fs w" and "w_trace w' = w_trace w"
    and "w_writes w' = (x, w_fs w) # w_writes w"
  shows "run_inv J R w0 w'"
proof -
  obtain ws where ws: "w_writes w = ws @ w_writes w0" "\<forall>(x, f) \<in> set ws. R x f"
    using assms(1) by (auto simp: run_inv_def)
  then have "w_writes w' = ((x, w_fs w) # ws) @ w_writes w0 \<and> (\<forall>(x, f) \<in> set ((x, w_fs w) # ws). R x f)"
    using assms(2,5) by simp
  then show ?thesis using assms(1,3,4) unfolding run_inv_def by metis
qed

lemma keeps_os_call:
  assumes "\<And>t f r f'. J f \<Longrightarrow> eff t f = (r, f') \<Longrightarrow> J f'" and "\<And>k t f. J f \<Longrightarrow> J (part k t f)"
  shows "keeps (run_inv J R w0) (os_call mk part eff)"
  by (intro keepsI wp_os_call)
    (metis assms(1) run_inv_fs run_inv_step, metis assms(2) run_inv_fs run_inv_step)

lemma keeps_read_only:
  "keeps (run_inv J R w0) (os_call mk read_only (\<lambda>t fs. (g fs, fs)))"
  by (rule keeps_os_call) (auto simp: read_only_def)

lemma wp_read_only:
  assumes "run_inv J R w0 w"
    and "\<And>x w'. run_inv J R w0 w' \<Longrightarrow> w_fs w' = w_fs w \<Longrightarrow>
      x = map_err mk (g (w_fs w)) \<or> (\<exists>e. x = Inl (mk e)) \<Longrightarrow> Q x w'"
  shows "wp (os_call mk read_only (\<lambda>t fs. (g fs, fs))) Q w"
proof (rule wp_os_call)
  fix x w' assume st: "stepped w w'" and eff: "(g (w_fs w), w_fs w) = (x, w_fs w')"
  from eff have x: "g (w_fs w) = x" and fs: "w_fs w' = w_fs w" by (metis Pair_inject)+
  have "run_inv J R w0 w'"
    using run_inv_step [OF assms(1) st] run_inv_fs [OF assms(1)] fs by simp
  then show "Q (map_err mk x) w'" by (rule assms(2)) (simp_all add: x fs)
next
  fix e k w' assume st: "stepped w w'" and eff: "w_fs w' = read_only k (w_clock w') (w_fs w)"
  then have fs: "w_fs w' = w_fs w" by (simp add: read_only_def)
  have "run_inv J R w0 w'"
    using run_inv_step [OF assms(1) st] run_inv_fs [OF assms(1)] fs by simp
  then show "Q (Inl (mk e)) w'" by (rule assms(2)) (auto simp: fs)
qed

lemma keeps_os_Stat [keeps_intros]: "keeps (run_inv J R w0) (os_Stat s)"
  unfolding os_Stat_def by (rule keeps_read_only)

lemma keeps_os_Open [keeps_intros]: "keeps (run_inv J R w0) (os_Open s)"
  unfolding os_Open_def by (rule keeps_read_only)

lemma keeps_os_ReadAll [keeps_intros]: "keeps (run_inv J R w0) (os_ReadAll s h)"
  unfolding os_ReadAll_def by (rule keeps_read_only)

lemma keeps_os_Sync [keeps_intros]: "keeps (run_inv J R w0) (os_Sync s)"
  unfolding os_Sync_def by (rule keeps_read_only)

lemma keeps_os_Close [keeps_intros]: "keeps (run_inv J R w0) (os_Close s)"
  unfolding os_Close_def by (rule keeps_read_only)

lemma keeps_os_Readlink [keeps_intros]: "keeps (run_inv J R w0) (os_Readlink s)"
  unfolding os_Readlink_def by (rule keeps_read_only)

lemma keeps_os_ReadDir [keeps_intros]: "keeps (run_inv J R w0) (os_ReadDir s)"
  unfolding os_ReadDir_def by (rule keeps_read_only)

lemma keeps_api_call [keeps_intros]: "keeps (run_inv J R w0) (api_call f)"
  by (intro keepsI) (auto simp: api_call_def wp_State run_inv_def split: prod.splits)

lemma keeps_metav1_Now [keeps_intros]: "keeps (run_inv J R w0) metav1_Now"
  by (intro keepsI) (simp add: metav1_Now_def wp_State)

lemma keeps_record_event [keeps_intros]: "keeps (run_inv J R w0) (record_event a b)"
  by (intro keepsI) (simp add: record_event_def wp_State run_inv_def)

lemma keeps_api_write [keeps_intros]:
  assumes "\<And>f. J f \<Longrightarrow> R x f"
  shows "keeps (run_inv J R w0) (api_write x g)"
proof (rule keepsI)
  fix w assume inv: "run_inv J R w0 w"
  show "wp (api_write x g) (\<lambda>_. run_inv J R w0) w"
    unfolding api_write_def wp_State
    by (cases "g (w_api w)") (auto intro!: run_inv_write [OF inv] assms run_inv_fs [OF inv])
qed

text \<open>Flushing and closing change nothing.\<close>

lemma Sync_spec: "run_inv J R w0 w \<Longrightarrow> wp (os_Sync p) (\<lambda>x w'. run_inv J R w0 w' \<and> w_fs w' = w_fs w) w"
  unfolding os_Sync_def by (rule wp_read_only) auto

lemma Close_spec: "run_inv J R w0 w \<Longrightarrow> wp (os_Close p) (\<lambda>x w'. run_inv J R w0 w' \<and> w_fs w' = w_fs w) w"
  unfolding os_Close_def by (rule wp_read_only) auto

section \<open>Resolving paths without links\<close>

definition no_dotdot :: "path \<Rightarrow> bool" where
  "no_dotdot p \<longleftrightarrow> ''..'' \<notin> set p"

lemma resolve_plain:
  assumes "resolve follow fs s = Inr q" and "no_dotdot (comps s)" and "plain fs (comps s)"
  shows "q = comps s"
proof -
  have "(\<exists>e. walk fs 40 follow [] (comps s) = Inl e) \<or> walk fs 40 follow [] (comps s) = Inr ([] @ comps s)"
    by (rule walk_plain) (use assms(2,3) in \<open>auto simp: no_dotdot_def plain_def\<close>)
  then show ?thesis using assms(1) by (auto simp: resolve_def split: if_splits)
qed

lemma resolve_nofollow:
  assumes "resolve False fs s = Inr q" and "comps s = d @ [f]" and "no_dotdot (d @ [f])" and "plain fs d"
  shows "q = d @ [f]"
proof -
  have "(\<exists>e. walk fs 40 False [] (d @ [f]) = Inl e) \<or> walk fs 40 False [] (d @ [f]) = Inr ([] @ d @ [f])"
    by (rule walk_link_last) (use assms(3,4) in \<open>auto simp: no_dotdot_def plain_def\<close>)
  then show ?thesis using assms(1,2) by (auto simp: resolve_def split: if_splits)
qed

lemma resolve_in_dir:
  assumes "s \<noteq> []" and "CHR 0x00 \<notin> set s" and "comps s = d @ [f]" and "no_dotdot (d @ [f])"
    and "plain_dir fs d"
  shows "resolve follow fs s = walk fs 40 follow d [f]"
proof -
  have "walk fs 40 follow [] (d @ [f]) = walk fs 40 follow ([] @ d) [f]"
    by (rule walk_dirs) (use assms(4,5) in \<open>auto simp: no_dotdot_def plain_dir_def\<close>)
  then show ?thesis using assms(1-3) by (simp add: resolve_def)
qed

text \<open>A path that resolves has directories all the way to its last name.\<close>

lemma walk_Inr_dirs:
  assumes "walk fs n follow cur (cs @ [f]) = Inr q" and "no_dotdot (cs @ [f])"
    and "\<And>as. as \<noteq> [] \<Longrightarrow> below as cs \<Longrightarrow> \<not> is_link fs (cur @ as)"
    and "as \<noteq> []" and "below as cs"
  shows "\<exists>t. look fs (cur @ as) = Some (DirN t)"
  using assms
proof (induction cs arbitrary: cur as)
  case Nil
  then show ?case by (auto simp: below_def)
next
  case (Cons c cs)
  have cdd: "c \<noteq> ''..''" using Cons.prems(2) by (auto simp: no_dotdot_def)
  have nl: "\<not> is_link fs (cur @ [c])"
    using Cons.prems(3) [of "[c]"] by (simp add: below_def)
  then obtain t where dir: "look fs (cur @ [c]) = Some (DirN t)"
    and rec: "walk fs n follow (cur @ [c]) (cs @ [f]) = Inr q"
    using Cons.prems(1) cdd by (auto simp: is_link_def split: option.splits node.splits if_splits)
  from Cons.prems(4,5) obtain bs where as: "as = c # bs" "below bs cs"
    by (cases as) (auto simp: below_def)
  show ?case
  proof (cases "bs = []")
    case True
    then show ?thesis using dir as by simp
  next
    case False
    have "\<exists>t. look fs ((cur @ [c]) @ bs) = Some (DirN t)"
    proof (rule Cons.IH [OF rec _ _ False as(2)])
      show "no_dotdot (cs @ [f])" using Cons.prems(2) by (simp add: no_dotdot_def)
      show "\<not> is_link fs ((cur @ [c]) @ as')" if "as' \<noteq> []" and "below as' cs" for as'
        using Cons.prems(3) [of "c # as'"] that by (simp add: below_def)
    qed
    then show ?thesis using as by simp
  qed
qed

lemma resolve_Inr_plain_dir:
  assumes "resolve follow fs s = Inr q" and "comps s = d @ [f]" and "no_dotdot (d @ [f])" and "plain fs d"
  shows "plain_dir fs d"
  unfolding plain_dir_def
proof (intro allI impI)
  fix p assume p: "below p d"
  show "\<exists>t. look fs p = Some (DirN t)"
  proof (cases "p = []")
    case False
    have "\<exists>t. look fs ([] @ p) = Some (DirN t)"
      by (rule walk_Inr_dirs [of fs 40 follow "[]" d f q])
        (use assms p False in \<open>auto simp: resolve_def plain_def split: if_splits\<close>)
    then show ?thesis by simp
  qed simp
qed

section \<open>Reading a file by name\<close>

definition read_file :: "string \<Rightarrow> fsys \<Rightarrow> string option" where
  "read_file s fs =
     (case fs_open s fs of
        Inl _ \<Rightarrow> None
      | Inr h \<Rightarrow> (case fs_read h fs of Inl _ \<Rightarrow> None | Inr c \<Rightarrow> Some c))"

lemma resolve_Inr_nonempty: "resolve follow fs s = Inr q \<Longrightarrow> s \<noteq> [] \<and> CHR 0x00 \<notin> set s"
  by (auto simp: resolve_def split: if_splits)

lemma read_file_plain:
  assumes "s \<noteq> []" and "CHR 0x00 \<notin> set s" and "comps s = d @ [f]" and "no_dotdot (d @ [f])"
    and "plain_dir fs d" and "look fs (d @ [f]) = Some (FileN c t m)"
  shows "read_file s fs = Some c"
proof -
  have "resolve True fs s = Inr (d @ [f])"
    using assms resolve_in_dir [OF assms(1-5)] by (auto simp: no_dotdot_def)
  then show ?thesis using assms(6) by (simp add: read_file_def fs_open_def fs_read_def)
qed

section \<open>Making directories\<close>

lemma plain_put_dir: "plain fs p \<Longrightarrow> plain (put q (DirN t) fs) p"
  by (auto simp: plain_def is_link_def look_put)

lemma walk_plain_prefix:
  assumes "walk fs 40 follow [] (dn @ [c]) = Inr p" and "plain fs (dn @ c # cs)" and "no_dotdot (dn @ c # cs)"
  shows "p = dn @ [c]"
proof -
  have "(\<exists>e. walk fs 40 follow [] (dn @ [c]) = Inl e) \<or> walk fs 40 follow [] (dn @ [c]) = Inr ([] @ dn @ [c])"
  proof (rule walk_plain)
    show "c' \<noteq> ''..''" if "c' \<in> set (dn @ [c])" for c'
      using that assms(3) by (auto simp: no_dotdot_def)
    show "\<not> is_link fs ([] @ as)" if "as \<noteq> []" and "below as (dn @ [c])" for as
      using that(2) assms(2) below_trans [OF that(2), of "dn @ c # cs"] by (simp add: plain_def below_iff)
  qed
  then show ?thesis using assms(1) by simp
qed

lemma mkdir_comps_where:
  assumes "mkdir_comps t dn cs fs = (r, fs')" and "look fs' q \<noteq> look fs q"
    and "plain fs (dn @ cs)" and "no_dotdot (dn @ cs)"
  shows "below q (dn @ cs)"
  using assms
proof (induction t dn cs fs arbitrary: r rule: mkdir_comps.induct)
  case (2 t dn c cs fs)
  show ?case
  proof (cases "walk fs 40 True [] (dn @ [c])")
    case (Inl e)
    then show ?thesis using "2.prems" by simp
  next
    case (Inr p)
    note p = walk_plain_prefix [OF Inr "2.prems"(3,4)]
    show ?thesis
    proof (cases "look fs p")
      case None
      show ?thesis
      proof (cases "walk fs 40 False [] (dn @ [c]) = Inr p")
        case True
        have mk: "mkdir_comps t (dn @ [c]) cs (put p (DirN t) fs) = (r, fs')"
          using "2.prems"(1) Inr None True by simp
        show ?thesis
        proof (cases "q = p")
          case True
          then show ?thesis using p by (simp add: below_iff)
        next
          case False
          then have "look fs' q \<noteq> look (put p (DirN t) fs) q" using "2.prems"(2) by (simp add: look_put)
          from "2.IH"(1) [OF Inr None True mk this] show ?thesis
            using "2.prems"(3,4) by (simp add: plain_put_dir)
        qed
      next
        case False
        then show ?thesis using "2.prems" Inr None by simp
      qed
    next
      case (Some n)
      then show ?thesis
        using "2.prems" "2.IH"(2) [OF Inr] Inr by (cases n) auto
    qed
  qed
qed simp

lemma fs_mkdir_all_where:
  assumes "fs_mkdir_all s t fs = (r, fs')" and "look fs' q \<noteq> look fs q"
    and "plain fs (comps s)" and "no_dotdot (comps s)"
  shows "below q (comps s)"
  using assms mkdir_comps_where [of t "[]" "comps s"] by (auto simp: fs_mkdir_all_def split: if_splits)

lemma fs_mkdir_some_where:
  assumes "look (fs_mkdir_some s k t fs) q \<noteq> look fs q"
    and "plain fs (comps s)" and "no_dotdot (comps s)"
  shows "below q (comps s)"
proof -
  have tk: "below (take k (comps s)) (comps s)" by (metis append_take_drop_id below_append)
  have "below q ([] @ take k (comps s))"
  proof (rule mkdir_comps_where [OF prod.collapse [symmetric]])
    show "look (snd (mkdir_comps t [] (take k (comps s)) fs)) q \<noteq> look fs q"
      using assms(1) by (simp add: fs_mkdir_some_def)
    show "plain fs ([] @ take k (comps s))" using plain_below [OF assms(2) tk] by simp
    show "no_dotdot ([] @ take k (comps s))"
      using assms(3) by (auto simp: no_dotdot_def dest: in_set_takeD)
  qed
  then show ?thesis using below_trans [OF _ tk] by simp
qed

end
