(* ===== verification/ArtifactCorrect.thy ===== *)
theory ArtifactCorrect
  imports ArtifactController WorldRules
begin

text \<open>
  What makes the BootArtifact reconciler correct: a file is only ever published after its digest was
  compared, in every intermediate state and under every fault; nothing outside the artifact's own
  directory is touched; the status says Ready only of verified content; and the back-off between
  attempts is positive, grows and is capped.
\<close>

section \<open>Back-off\<close>

lemma backoff_eq:
  "backoff n = (if sint n < 0 then None else Some (5 * Second * 2 ^ nat (min (sint n) 6)))"
proof (cases "sint n < 0")
  case True
  then show ?thesis by (simp add: backoff_def)
next
  case False
  then have "min (sint n) 6 \<in> {0, 1, 2, 3, 4, 5, 6}" by auto
  moreover have "(if sint n < 6 then sint n else 6) = min (sint n) 6" by simp
  ultimately show ?thesis
    using False by (auto simp: backoff_def Second_def Let_def push_bit_eq_mult)
qed

lemma backoff_pos: "backoff n = Some d \<Longrightarrow> 0 < d"
  by (auto simp: backoff_eq Second_def split: if_splits)

section \<open>Digests\<close>

definition digest_ok :: "'s BootArtifactReconciler \<Rightarrow> BootArtifact \<Rightarrow> string \<Rightarrow> bool" where
  "digest_ok r a c \<longleftrightarrow> equal_fold (sum_bytes r (ba_SHA256 (ba_Spec a) \<noteq> None) c) (expectedHash a)"

lemma digest_ok_status [simp]: "digest_ok r (a\<lparr>ba_Status := s\<rparr>) c \<longleftrightarrow> digest_ok r a c"
  by (simp add: digest_ok_def expectedHash_def split: option.split)

text \<open>Some version of the object that the server gives under this name.\<close>

definition served :: "'s BootArtifactReconciler \<Rightarrow> string \<Rightarrow> string \<Rightarrow> BootArtifact \<Rightarrow> bool" where
  "served r ns name a \<longleftrightarrow> (\<exists>s s'. Get_BootArtifact (bar_Client r) ns name s = (Inr a, s'))"

section \<open>The paths of an artifact\<close>

definition art_paths :: "string \<Rightarrow> path \<Rightarrow> string \<Rightarrow> bool" where
  "art_paths fp d f \<longleftrightarrow>
     comps fp = d @ [f] \<and> comps (fp @ ''.tmp'') = d @ [f @ ''.tmp''] \<and> comps (Dir fp) = d
     \<and> no_dotdot (d @ [f, f @ ''.tmp''])"

definition art_dir :: "'s BootArtifactReconciler \<Rightarrow> string \<Rightarrow> path" where
  "art_dir r name = clean_comps (bar_DataDir r) @ [''artifacts'', name]"

lemma safe_artifacts: "safe_component ''artifacts''"
  by (simp add: safe_component_def slash_def)

lemma filePath_paths:
  assumes "rooted (bar_DataDir r)" and "safe_component (om_name (ba_meta a))"
  shows "art_paths (filePath r a) (art_dir r (om_name (ba_meta a))) (FilenameFromURL (ba_URL (ba_Spec a)))"
proof -
  let ?n = "om_name (ba_meta a)" and ?u = "ba_URL (ba_Spec a)" and ?cs = "[''artifacts'', om_name (ba_meta a)]"
  have cs: "safe_component c" if "c \<in> set ?cs" for c
    using that assms(2) safe_artifacts by auto
  have fp: "filePath r a = Join (bar_DataDir r # ?cs @ [FilenameFromURL ?u])"
    by (simp add: filePath_def)
  have "comps (Dir (filePath r a)) = art_dir r ?n"
    using url_filename.joined_dir [OF assms(1), of ?cs] cs comps_Join_rooted [OF assms(1), of ?cs]
    by (simp add: fp art_dir_def)
  moreover have "no_dotdot (art_dir r ?n @ [FilenameFromURL ?u, FilenameFromURL ?u @ ''.tmp''])"
  proof -
    have "safe_component c" if "c \<in> set (art_dir r ?n @ [FilenameFromURL ?u, FilenameFromURL ?u @ ''.tmp''])" for c
      using that cs clean_comps_rooted_safe [OF assms(1)] url_filename.one_entry url_filename.tmp_safe
      by (auto simp: art_dir_def)
    then show ?thesis unfolding no_dotdot_def by (metis safe_componentD(3))
  qed
  ultimately show ?thesis
    using url_filename.joined_below [OF assms(1), of ?cs ?u] url_filename.joined_tmp_below [OF assms(1), of ?cs ?u] cs
    by (simp add: art_paths_def fp art_dir_def)
qed

section \<open>The invariant of the file system\<close>

text \<open>
  Relative to the file system \<open>fs0\<close> at the start: no links on the way; the only paths that differ are
  the file, its temporary file and directories made on the way; the temporary file is what it was, gone or a
  file; and the file is what it was, gone, or a file below real directories whose content is good.
\<close>

definition art_inv :: "(string \<Rightarrow> bool) \<Rightarrow> path \<Rightarrow> string \<Rightarrow> fsys \<Rightarrow> fsys \<Rightarrow> bool" where
  "art_inv good d f fs0 fs \<longleftrightarrow>
     plain fs d \<and> \<not> is_link fs (d @ [f @ ''.tmp''])
     \<and> (look fs (d @ [f @ ''.tmp'']) = look fs0 (d @ [f @ ''.tmp'']) \<or> look fs (d @ [f @ ''.tmp'']) = None
        \<or> (\<exists>c t m. look fs (d @ [f @ ''.tmp'']) = Some (FileN c t m)))
     \<and> (\<forall>q. look fs q \<noteq> look fs0 q \<longrightarrow>
          q = d @ [f] \<or> q = d @ [f @ ''.tmp'']
          \<or> (below q d \<and> look fs0 q = None \<and> (\<exists>t. look fs q = Some (DirN t))))
     \<and> (look fs (d @ [f]) = look fs0 (d @ [f]) \<or> look fs (d @ [f]) = None
        \<or> (\<exists>c t m. look fs (d @ [f]) = Some (FileN c t m) \<and> good c \<and> plain_dir fs d))"

text \<open>The changes that keep it.\<close>

definition art_change :: "(string \<Rightarrow> bool) \<Rightarrow> path \<Rightarrow> string \<Rightarrow> fsys \<Rightarrow> fsys \<Rightarrow> bool" where
  "art_change good d f fs fs' \<longleftrightarrow>
     (\<forall>q. look fs' q \<noteq> look fs q \<longrightarrow>
        (q = d @ [f @ ''.tmp''] \<and> (look fs' q = None \<or> (\<exists>c t m. look fs' q = Some (FileN c t m))))
        \<or> (q = d @ [f] \<and> (look fs' q = None \<or> (\<exists>c t m. look fs' q = Some (FileN c t m) \<and> good c \<and> plain_dir fs' d)))
        \<or> (below q d \<and> look fs q = None \<and> (\<exists>t. look fs' q = Some (DirN t))))"

lemma below_longer: "\<not> below (d @ [x]) d"
  by (auto simp: below_iff)

lemma art_change_dir:
  assumes "art_change good d f fs fs'" and "plain_dir fs d"
  shows "plain_dir fs' d"
  unfolding plain_dir_def
proof (intro allI impI)
  fix q assume q: "below q d"
  then obtain t where t: "look fs q = Some (DirN t)" using assms(2) unfolding plain_dir_def by blast
  have "q \<noteq> d @ [x]" for x using q below_longer by blast
  then have "look fs' q = look fs q" using assms(1) t unfolding art_change_def by (metis option.distinct(1))
  then show "\<exists>t. look fs' q = Some (DirN t)" using t by simp
qed

lemma art_inv_change:
  assumes inv: "art_inv good d f fs0 fs" and ch: "art_change good d f fs fs'"
  shows "art_inv good d f fs0 fs'"
  unfolding art_inv_def
proof (intro conjI)
  have nl: "\<not> is_link fs' q" if "\<not> is_link fs q" and "q \<noteq> d @ [f]" for q
    using ch that unfolding art_change_def is_link_def by (cases "look fs' q = look fs q") auto
  show "plain fs' d"
    using inv nl below_longer unfolding art_inv_def plain_def by metis
  show "\<not> is_link fs' (d @ [f @ ''.tmp''])"
    using inv nl unfolding art_inv_def by simp
  show "look fs' (d @ [f @ ''.tmp'']) = look fs0 (d @ [f @ ''.tmp'']) \<or> look fs' (d @ [f @ ''.tmp'']) = None
        \<or> (\<exists>c t m. look fs' (d @ [f @ ''.tmp'']) = Some (FileN c t m))"
  proof (cases "look fs' (d @ [f @ ''.tmp'']) = look fs (d @ [f @ ''.tmp''])")
    case True
    then show ?thesis using inv unfolding art_inv_def by simp
  next
    case False
    from ch [unfolded art_change_def, rule_format, OF False] show ?thesis using below_longer [of d] by auto
  qed
  show "\<forall>q. look fs' q \<noteq> look fs0 q \<longrightarrow>
          q = d @ [f] \<or> q = d @ [f @ ''.tmp'']
          \<or> (below q d \<and> look fs0 q = None \<and> (\<exists>t. look fs' q = Some (DirN t)))"
  proof (intro allI impI)
    fix q assume q: "look fs' q \<noteq> look fs0 q"
    show "q = d @ [f] \<or> q = d @ [f @ ''.tmp'']
          \<or> (below q d \<and> look fs0 q = None \<and> (\<exists>t. look fs' q = Some (DirN t)))"
    proof (cases "look fs' q = look fs q")
      case True
      then show ?thesis using inv q unfolding art_inv_def by simp
    next
      case False
      then show ?thesis using ch inv unfolding art_change_def art_inv_def by (metis option.distinct(1))
    qed
  qed
  show "look fs' (d @ [f]) = look fs0 (d @ [f]) \<or> look fs' (d @ [f]) = None
        \<or> (\<exists>c t m. look fs' (d @ [f]) = Some (FileN c t m) \<and> good c \<and> plain_dir fs' d)"
  proof (cases "look fs' (d @ [f]) = look fs (d @ [f])")
    case True
    then show ?thesis using inv art_change_dir [OF ch] unfolding art_inv_def by auto
  next
    case False
    then show ?thesis using ch below_longer unfolding art_change_def by fastforce
  qed
qed

lemma art_inv_plain_tmp: "art_inv good d f fs0 fs \<Longrightarrow> plain fs (d @ [f @ ''.tmp''])"
  by (simp add: art_inv_def plain_snoc)

lemma tmp_noteq_file [simp]: "d @ [f @ ''.tmp''] \<noteq> d @ [f]"
  by simp

section \<open>The calls of the reconciler keep it\<close>

lemma change_create_tmp:
  assumes "art_paths fp d f" and "art_inv good d f fs0 fs" and "fs_create (fp @ ''.tmp'') t fs = (r, fs')"
  shows "art_change good d f fs fs'"
  unfolding art_change_def
proof (intro allI impI)
  fix q assume q: "look fs' q \<noteq> look fs q"
  have "q = comps (fp @ ''.tmp'')"
    by (rule resolve_plain [OF fs_create_frame [OF assms(3) q]])
      (use assms(1) art_inv_plain_tmp [OF assms(2)] in \<open>auto simp: art_paths_def no_dotdot_def\<close>)
  then show "(q = d @ [f @ ''.tmp''] \<and> (look fs' q = None \<or> (\<exists>c t m. look fs' q = Some (FileN c t m))))
        \<or> (q = d @ [f] \<and> (look fs' q = None \<or> (\<exists>c t m. look fs' q = Some (FileN c t m) \<and> good c \<and> plain_dir fs' d)))
        \<or> (below q d \<and> look fs q = None \<and> (\<exists>t. look fs' q = Some (DirN t)))"
    using assms(1) fs_create_file [OF assms(3) q] by (auto simp: art_paths_def is_link_def)
qed

lemma change_append_tmp:
  assumes "fs_append (d @ [f @ ''.tmp'']) c t fs = (r, fs')"
  shows "art_change good d f fs fs'"
  unfolding art_change_def
  using fs_append_frame [OF assms] fs_append_file [OF assms] by (fastforce simp: is_link_def)

lemma change_remove_tmp:
  assumes "art_paths fp d f" and "art_inv good d f fs0 fs" and "fs_remove (fp @ ''.tmp'') fs = (r, fs')"
  shows "art_change good d f fs fs'"
  unfolding art_change_def
proof (intro allI impI)
  fix q assume q: "look fs' q \<noteq> look fs q"
  have "q = d @ [f @ ''.tmp'']"
    by (rule resolve_nofollow [of fs "fp @ ''.tmp''"])
      (use assms(1,2) fs_remove_frame [OF assms(3) q] in \<open>auto simp: art_paths_def art_inv_def no_dotdot_def\<close>)
  then show "(q = d @ [f @ ''.tmp''] \<and> (look fs' q = None \<or> (\<exists>c t m. look fs' q = Some (FileN c t m))))
        \<or> (q = d @ [f] \<and> (look fs' q = None \<or> (\<exists>c t m. look fs' q = Some (FileN c t m) \<and> good c \<and> plain_dir fs' d)))
        \<or> (below q d \<and> look fs q = None \<and> (\<exists>t. look fs' q = Some (DirN t)))"
    using fs_remove_frame [OF assms(3) q] by (auto simp: is_link_def)
qed

lemma change_remove_file:
  assumes "art_paths fp d f" and "art_inv good d f fs0 fs" and "fs_remove fp fs = (r, fs')"
  shows "art_change good d f fs fs'"
  unfolding art_change_def
proof (intro allI impI)
  fix q assume q: "look fs' q \<noteq> look fs q"
  have "q = d @ [f]"
    by (rule resolve_nofollow [of fs fp])
      (use assms(1,2) fs_remove_frame [OF assms(3) q] in \<open>auto simp: art_paths_def art_inv_def no_dotdot_def\<close>)
  then show "(q = d @ [f @ ''.tmp''] \<and> (look fs' q = None \<or> (\<exists>c t m. look fs' q = Some (FileN c t m))))
        \<or> (q = d @ [f] \<and> (look fs' q = None \<or> (\<exists>c t m. look fs' q = Some (FileN c t m) \<and> good c \<and> plain_dir fs' d)))
        \<or> (below q d \<and> look fs q = None \<and> (\<exists>t. look fs' q = Some (DirN t)))"
    using fs_remove_frame [OF assms(3) q] by auto
qed

lemma change_mkdir:
  assumes "art_paths fp d f" and "art_inv good d f fs0 fs"
  shows "fs_mkdir_all (Dir fp) t fs = (r, fs') \<Longrightarrow> art_change good d f fs fs'"
    and "art_change good d f fs (fs_mkdir_some (Dir fp) k t fs)"
proof -
  have pl: "plain fs (comps (Dir fp))" and nd: "no_dotdot (comps (Dir fp))"
    using assms by (auto simp: art_paths_def art_inv_def no_dotdot_def)
  have d: "comps (Dir fp) = d" using assms(1) by (simp add: art_paths_def)
  show "art_change good d f fs fs'" if mk: "fs_mkdir_all (Dir fp) t fs = (r, fs')"
    unfolding art_change_def
    using fs_mkdir_all_where [OF mk _ pl nd] fs_mkdir_all_frame [OF mk] d by blast
  show "art_change good d f fs (fs_mkdir_some (Dir fp) k t fs)"
    unfolding art_change_def
    using fs_mkdir_some_where [OF _ pl nd] fs_mkdir_some_frame d by blast
qed

text \<open>The rename publishes: the temporary file must hold good content.\<close>

lemma change_rename:
  assumes "art_paths fp d f" and "art_inv good d f fs0 fs" and "fs_rename (fp @ ''.tmp'') fp fs = (r, fs')"
    and "look fs (d @ [f @ ''.tmp'']) = Some (FileN c t m)" and "good c"
  shows "art_change good d f fs fs'"
    and "r = Inr u \<Longrightarrow> look fs' (d @ [f]) = Some (FileN c t m) \<and> plain_dir fs' d \<and> fp \<noteq> [] \<and> CHR 0x00 \<notin> set fp"
proof -
  have nd: "no_dotdot (d @ [f])" "no_dotdot (d @ [f @ ''.tmp''])" and pl: "plain fs d"
    using assms(1,2) by (auto simp: art_paths_def art_inv_def no_dotdot_def)
  have new: "q = d @ [f]" if "resolve False fs fp = Inr q" for q
    using resolve_nofollow [OF that _ nd(1) pl] assms(1) by (simp add: art_paths_def)
  have old: "q = d @ [f @ ''.tmp'']" if "resolve False fs (fp @ ''.tmp'') = Inr q" for q
    using resolve_nofollow [OF that _ nd(2) pl] assms(1) by (simp add: art_paths_def)
  have ok: "fs' = put (d @ [f]) (FileN c t m) (del (d @ [f @ ''.tmp'']) fs) \<and> plain_dir fs' d \<and> fp \<noteq> [] \<and> CHR 0x00 \<notin> set fp"
    if r: "r = Inr u" for u
  proof -
    obtain p q n where pq: "resolve False fs (fp @ ''.tmp'') = Inr p" "resolve False fs fp = Inr q"
      "look fs p = Some n" and fs': "fs' = put q n (del p fs)"
      using fs_rename_ok [of "fp @ ''.tmp''" fp fs u fs'] assms(3) r by blast
    have n: "n = FileN c t m" using pq old assms(4) by auto
    have eq: "fs' = put (d @ [f]) (FileN c t m) (del (d @ [f @ ''.tmp'']) fs)"
      using fs' new [OF pq(2)] old [OF pq(1)] n by simp
    have "plain_dir fs d"
      using resolve_Inr_plain_dir [OF pq(2) _ nd(1) pl] assms(1) by (simp add: art_paths_def)
    then have "plain_dir fs' d"
      unfolding plain_dir_def eq by (auto simp: look_put look_del below_longer)
    then show ?thesis using eq resolve_Inr_nonempty [OF pq(2)] by simp
  qed
  show "art_change good d f fs fs'"
  proof (cases r)
    case (Inl e)
    then have "fs' = fs"
      using assms(3) by (auto simp: fs_rename_def split: sum.splits option.splits node.splits)
    then show ?thesis by (simp add: art_change_def)
  next
    case (Inr u)
    then have "look fs' q = look (put (d @ [f]) (FileN c t m) (del (d @ [f @ ''.tmp'']) fs)) q" "plain_dir fs' d" for q
      using ok by blast+
    then show ?thesis
      using assms(5) by (auto simp: art_change_def look_put look_del)
  qed
  assume "r = Inr u"
  then show "look fs' (d @ [f]) = Some (FileN c t m) \<and> plain_dir fs' d \<and> fp \<noteq> [] \<and> CHR 0x00 \<notin> set fp"
    using ok by (auto simp: look_put)
qed

section \<open>Runs\<close>

text \<open>A status that says Ready is written over a file that was verified against the artifact.\<close>

definition ready_ok :: "'s BootArtifactReconciler \<Rightarrow> string \<Rightarrow> status_write \<Rightarrow> fsys \<Rightarrow> bool" where
  "ready_ok r fp x fs \<longleftrightarrow>
     (case x of
        ArtifactStatus a \<Rightarrow>
          ba_Phase (ba_Status a) = BootArtifactPhaseReady \<longrightarrow>
          (\<exists>c. read_file fp fs = Some c \<and> digest_ok r a c)
      | _ \<Rightarrow> True)"

abbreviation art_run ::
  "'s BootArtifactReconciler \<Rightarrow> string \<Rightarrow> (string \<Rightarrow> bool) \<Rightarrow> path \<Rightarrow> string \<Rightarrow> 's world \<Rightarrow> 's world \<Rightarrow> bool"
where
  "art_run r fp good d f w0 \<equiv> run_inv (art_inv good d f (w_fs w0)) (ready_ok r fp) w0"

text \<open>The file is in place, below real directories, with content \<open>c\<close>.\<close>

definition in_place :: "string \<Rightarrow> path \<Rightarrow> string \<Rightarrow> string \<Rightarrow> fsys \<Rightarrow> bool" where
  "in_place fp d f c fs \<longleftrightarrow>
     fp \<noteq> [] \<and> CHR 0x00 \<notin> set fp \<and> plain_dir fs d \<and> (\<exists>t m. look fs (d @ [f]) = Some (FileN c t m))"

lemma in_place_read: "art_paths fp d f \<Longrightarrow> in_place fp d f c fs \<Longrightarrow> read_file fp fs = Some c"
  unfolding in_place_def art_paths_def no_dotdot_def
  by (auto intro!: read_file_plain [of fp d f] simp: no_dotdot_def)

lemma in_place_change_tmp:
  assumes "in_place fp d f c fs" and "\<And>q. look fs' q \<noteq> look fs q \<Longrightarrow> q = d @ [f @ ''.tmp'']"
  shows "in_place fp d f c fs'"
proof -
  have same: "look fs' q = look fs q" if "q \<noteq> d @ [f @ ''.tmp'']" for q using assms(2) that by blast
  have "plain_dir fs' d"
    unfolding plain_dir_def
  proof (intro allI impI)
    fix q assume q: "below q d"
    then have "look fs' q = look fs q" using same [of q] below_longer by metis
    then show "\<exists>t. look fs' q = Some (DirN t)"
      using q assms(1) by (auto simp: in_place_def plain_dir_def)
  qed
  then show ?thesis using assms(1) same [of "d @ [f]"] by (auto simp: in_place_def)
qed

lemma keeps_Create_tmp [keeps_intros]:
  "art_paths fp d f \<Longrightarrow> keeps (art_run r fp good d f w0) (os_Create (fp @ ''.tmp''))"
  unfolding os_Create_def
  by (rule keeps_os_call) (auto simp: read_only_def intro: art_inv_change change_create_tmp)

lemma keeps_Remove_tmp [keeps_intros]:
  "art_paths fp d f \<Longrightarrow> keeps (art_run r fp good d f w0) (os_Remove (fp @ ''.tmp''))"
  unfolding os_Remove_def
  by (rule keeps_os_call) (auto simp: read_only_def intro: art_inv_change change_remove_tmp)

lemma keeps_Remove_file [keeps_intros]:
  "art_paths fp d f \<Longrightarrow> keeps (art_run r fp good d f w0) (os_Remove fp)"
  unfolding os_Remove_def
  by (rule keeps_os_call) (auto simp: read_only_def intro: art_inv_change change_remove_file)

lemma keeps_MkdirAll_dir [keeps_intros]:
  "art_paths fp d f \<Longrightarrow> keeps (art_run r fp good d f w0) (os_MkdirAll (Dir fp))"
  unfolding os_MkdirAll_def
  by (rule keeps_os_call) (auto intro: art_inv_change change_mkdir)

lemma keeps_setFailure [keeps_intros]:
  "keeps (art_run r fp good d f w0) (BootArtifact_setFailure r a msg)"
  unfolding BootArtifact_setFailure_def Let_def
  by (intro keeps_intros) (simp add: ready_ok_def)

lemma setFailure_not_done: "wp (BootArtifact_setFailure r a msg) (\<lambda>out w'. out \<noteq> Result 0) w"
  unfolding BootArtifact_setFailure_def Let_def
  by (auto simp: wp_simps metav1_Now_def api_write_def dest: backoff_pos split: prod.splits sum.splits option.splits)

lemma setFailure_spec:
  "art_run r fp good d f w0 w \<Longrightarrow>
   wp (BootArtifact_setFailure r a msg) (\<lambda>out w'. art_run r fp good d f w0 w' \<and> out \<noteq> Result 0) w"
  by (intro wp_conj keepsD [OF keeps_setFailure] setFailure_not_done)

lemma setReady_spec:
  assumes "art_run r fp good d f w0 w" and "read_file fp (w_fs w) = Some c" and "digest_ok r a c"
  shows "wp (BootArtifact_setReady r a) (\<lambda>x w'. art_run r fp good d f w0 w' \<and> w_fs w' = w_fs w) w"
proof -
  let ?a = "a\<lparr>ba_Status := (ba_Status a)\<lparr>ba_Phase := BootArtifactPhaseReady, ba_Message := [],
    ba_FailureCount := 0, ba_LastFailureTime := None, ba_LastChecked := Some (w_clock w)\<rparr>\<rparr>"
  have "ready_ok r fp (ArtifactStatus ?a) (w_fs w)"
    using assms(2,3) by (simp add: ready_ok_def)
  then show ?thesis
    unfolding BootArtifact_setReady_def Let_def
    by (auto simp: wp_simps metav1_Now_def api_write_def split: prod.splits sum.splits
        intro!: run_inv_write [OF assms(1)])
qed

lemma syncDir_spec:
  "run_inv J R w0 w \<Longrightarrow> wp (syncDir p) (\<lambda>x w'. run_inv J R w0 w' \<and> w_fs w' = w_fs w) w"
  unfolding syncDir_def os_Open_def os_Sync_def
  by (rule wp_step, rule wp_read_only [where Q = "\<lambda>x w'. run_inv J R w0 w' \<and> w_fs w' = w_fs w"])
    (auto simp: wp_simps split: sum.splits intro!: wp_read_only)

lemma publish_spec:
  assumes P: "art_paths fp d f" and inv: "art_run r fp good d f w0 w"
    and tmp: "look (w_fs w) (d @ [f @ ''.tmp'']) = Some (FileN c t m)"
    and good: "good c" and dig: "digest_ok r a c"
  shows "wp (publish r a fp (fp @ ''.tmp''))
    (\<lambda>out w'. art_run r fp good d f w0 w' \<and> (out = Result 0 \<longrightarrow> in_place fp d f c (w_fs w'))) w"
proof -
  have J: "art_inv good d f (w_fs w0) (w_fs w)" using inv by (rule run_inv_fs)
  have rename: "wp (os_Rename (fp @ ''.tmp'') fp)
      (\<lambda>x w'. art_run r fp good d f w0 w' \<and> (\<forall>u. x = Inr u \<longrightarrow> in_place fp d f c (w_fs w'))) w"
    unfolding os_Rename_def
  proof (rule wp_os_call)
    fix x w' assume st: "stepped w w'" and eff: "fs_rename (fp @ ''.tmp'') fp (w_fs w) = (x, w_fs w')"
    have "art_inv good d f (w_fs w0) (w_fs w')"
      by (rule art_inv_change [OF J change_rename(1) [OF P J eff tmp good]])
    moreover have "in_place fp d f c (w_fs w')" if "map_err g x = Inr u" for g :: "errno \<Rightarrow> os_error" and u
      using change_rename(2) [OF P J eff tmp good] that
      by (cases x) (auto simp: in_place_def map_err_def)
    ultimately show "art_run r fp good d f w0 w' \<and>
        (\<forall>u. map_err (LinkError ''rename'' (fp @ ''.tmp'') fp) x = Inr u \<longrightarrow> in_place fp d f c (w_fs w'))"
      using run_inv_step [OF inv st] by blast
  next
    fix e k w' assume st: "stepped w w'" and eff: "w_fs w' = read_only k (w_clock w') (w_fs w)"
    then show "art_run r fp good d f w0 w' \<and>
        (\<forall>u. Inl (LinkError ''rename'' (fp @ ''.tmp'') fp e) = Inr u \<longrightarrow> in_place fp d f c (w_fs w'))"
      using run_inv_step [OF inv st] J by (simp add: read_only_def)
  qed
  show ?thesis
    unfolding publish_def
  proof (rule wp_try [OF rename], goal_cases)
    case (1 err w1)
    then show ?case by (auto intro: wp_mono [OF setFailure_spec])
  next
    case (2 u w1)
    then have inv1: "art_run r fp good d f w0 w1" and pl: "in_place fp d f c (w_fs w1)" by auto
    show ?case
    proof (rule wp_try [OF syncDir_spec [OF inv1]], goal_cases)
      case (1 err w2)
      then show ?case by (auto intro: wp_mono [OF setFailure_spec])
    next
      case (2 u w2)
      then have "read_file fp (w_fs w2) = Some c" using in_place_read [OF P pl] by simp
      with 2 show ?case
        by (intro wp_try [OF setReady_spec [OF _ _ dig]] wp_returnI) (use pl in auto)
    qed
  qed
qed

end
