(* ===== verification/ArtifactRuns.thy ===== *)
theory ArtifactRuns
  imports ArtifactCorrect
begin

text \<open>
  The rules of the reconciler's routines from the temporary file up to \<^verbatim>\<open>Reconcile\<close>: each keeps the
  invariant of a run, and a result that asks for no retry leaves verified content in place.
\<close>

section \<open>The temporary file\<close>

definition tmp_has :: "path \<Rightarrow> string \<Rightarrow> string \<Rightarrow> fsys \<Rightarrow> bool" where
  "tmp_has d f c fs \<longleftrightarrow> (\<exists>t m. look fs (d @ [f @ ''.tmp'']) = Some (FileN c t m))"

lemma Create_tmp_spec:
  assumes P: "art_paths fp d f" and inv: "art_run r fp good d f w0 w"
  shows "wp (os_Create (fp @ ''.tmp''))
    (\<lambda>x w'. art_run r fp good d f w0 w'
       \<and> (\<forall>h. x = Inr h \<longrightarrow> h = d @ [f @ ''.tmp''] \<and> tmp_has d f [] (w_fs w'))) w"
  unfolding os_Create_def
proof (rule wp_os_call)
  fix x w' assume st: "stepped w w'" and eff: "fs_create (fp @ ''.tmp'') (w_clock w') (w_fs w) = (x, w_fs w')"
  have J: "art_inv good d f (w_fs w0) (w_fs w)" using inv by (rule run_inv_fs)
  have "art_run r fp good d f w0 w'"
    by (rule run_inv_step [OF inv st art_inv_change [OF J change_create_tmp [OF P J eff]]])
  moreover have "h = d @ [f @ ''.tmp''] \<and> tmp_has d f [] (w_fs w')" if h: "x = Inr h" for h
  proof -
    have ok: "resolve True (w_fs w) (fp @ ''.tmp'') = Inr h" "\<exists>m. look (w_fs w') h = Some (FileN [] (w_clock w') m)"
      using fs_create_ok eff h by blast+
    have "h = comps (fp @ ''.tmp'')"
      by (rule resolve_plain [OF ok(1)]) (use P art_inv_plain_tmp [OF J] in \<open>auto simp: art_paths_def no_dotdot_def\<close>)
    then show ?thesis using P ok(2) by (auto simp: art_paths_def tmp_has_def)
  qed
  ultimately show "art_run r fp good d f w0 w'
      \<and> (\<forall>h. map_err (PathError ''open'' (fp @ ''.tmp'')) x = Inr h
             \<longrightarrow> h = d @ [f @ ''.tmp''] \<and> tmp_has d f [] (w_fs w'))"
    by (cases x) auto
next
  fix e k w' assume "stepped w w'" and "w_fs w' = read_only k (w_clock w') (w_fs w)"
  then show "art_run r fp good d f w0 w'
      \<and> (\<forall>h. Inl (PathError ''open'' (fp @ ''.tmp'') e) = Inr h
             \<longrightarrow> h = d @ [f @ ''.tmp''] \<and> tmp_has d f [] (w_fs w'))"
    using run_inv_step [OF inv] run_inv_fs [OF inv] by (simp add: read_only_def)
qed

lemma Write_tmp_spec:
  assumes inv: "art_run r fp good d f w0 w" and tmp: "tmp_has d f [] (w_fs w)"
  shows "wp (os_Write p (d @ [f @ ''.tmp'']) body)
    (\<lambda>x w'. art_run r fp good d f w0 w'
       \<and> (\<forall>n. x = Inr n \<longrightarrow> n = length body \<and> tmp_has d f body (w_fs w'))) w"
  unfolding os_Write_def
proof (rule wp_os_call)
  have J: "art_inv good d f (w_fs w0) (w_fs w)" using inv by (rule run_inv_fs)
  fix x w' assume st: "stepped w w'"
    and eff: "fs_append (d @ [f @ ''.tmp'']) body (w_clock w') (w_fs w) = (x, w_fs w')"
  have "art_run r fp good d f w0 w'"
    by (rule run_inv_step [OF inv st art_inv_change [OF J change_append_tmp [OF eff]]])
  then show "art_run r fp good d f w0 w'
      \<and> (\<forall>n. map_err (PathError ''write'' p) x = Inr n \<longrightarrow> n = length body \<and> tmp_has d f body (w_fs w'))"
    using tmp eff fs_append_ok [of "d @ [f @ ''.tmp'']" body "w_clock w'" "w_fs w"]
    by (cases x) (auto simp: tmp_has_def)
next
  have J: "art_inv good d f (w_fs w0) (w_fs w)" using inv by (rule run_inv_fs)
  fix e k w' assume st: "stepped w w'"
    and eff: "w_fs w' = snd (fs_append (d @ [f @ ''.tmp'']) (take k body) (w_clock w') (w_fs w))"
  obtain x where x: "fs_append (d @ [f @ ''.tmp'']) (take k body) (w_clock w') (w_fs w) = (x, w_fs w')"
    using eff by (metis prod.collapse)
  show "art_run r fp good d f w0 w'
      \<and> (\<forall>n. Inl (PathError ''write'' p e) = Inr n \<longrightarrow> n = length body \<and> tmp_has d f body (w_fs w'))"
    using run_inv_step [OF inv st art_inv_change [OF J change_append_tmp [OF x]]] by simp
qed

lemma io_Copy_spec:
  assumes "art_run r fp good d f w0 w" and "tmp_has d f [] (w_fs w)"
  shows "wp (io_Copy p (d @ [f @ ''.tmp'']) body rerr)
    (\<lambda>x w'. art_run r fp good d f w0 w'
       \<and> (\<forall>n. x = Inr n \<longrightarrow> n = length body \<and> rerr = None \<and> tmp_has d f body (w_fs w'))) w"
  unfolding io_Copy_def
  by (rule wp_step [OF Write_tmp_spec [OF assms]]) (auto simp: wp_return split: sum.splits option.splits)

abbreviation done_ok ::
  "'s BootArtifactReconciler \<Rightarrow> string \<Rightarrow> (string \<Rightarrow> bool) \<Rightarrow> path \<Rightarrow> string \<Rightarrow> 's world
   \<Rightarrow> ctrl_out \<Rightarrow> 's world \<Rightarrow> bool"
where
  "done_ok r fp good d f w0 \<equiv> (\<lambda>out w'. art_run r fp good d f w0 w'
     \<and> (out = Result 0 \<longrightarrow> (\<exists>c. in_place fp d f c (w_fs w') \<and> good c)))"

lemma setFailure_done:
  "art_run r fp good d f w0 w \<Longrightarrow> wp (BootArtifact_setFailure r a msg) (done_ok r fp good d f w0) w"
  by (rule wp_mono [OF setFailure_spec]) auto

lemma Close_setFailure_done:
  "art_run r fp good d f w0 w \<Longrightarrow>
   wp (State_Monad.bind (os_Close p) (\<lambda>_. BootArtifact_setFailure r a msg)) (done_ok r fp good d f w0) w"
  by (rule wp_step [OF Close_spec]) (auto intro: setFailure_done)

lemma publish_done:
  assumes "art_paths fp d f" and "art_run r fp good d f w0 w"
    and "look (w_fs w) (d @ [f @ ''.tmp'']) = Some (FileN c t m)"
    and "digest_ok r a c \<Longrightarrow> good c" and "digest_ok r a c"
  shows "wp (publish r a fp (fp @ ''.tmp'')) (done_ok r fp good d f w0) w"
  by (rule wp_mono [OF publish_spec [OF assms(1-3) assms(4) [OF assms(5)] assms(5)]]) (use assms(4,5) in auto)

section \<open>Downloading\<close>

lemma store_body_spec:
  assumes P: "art_paths fp d f" and inv: "art_run r fp good d f w0 w"
    and good: "\<And>c. digest_ok r a c \<Longrightarrow> good c"
  shows "wp (store_body r a fp (fp @ ''.tmp'') len body rerr) (done_ok r fp good d f w0) w"
  unfolding store_body_def
proof (rule wp_try [OF Create_tmp_spec [OF P inv]], goal_cases)
  case (1 e w1)
  then show ?case by (auto intro: setFailure_done)
next
  case (2 h w1)
  then have h: "h = d @ [f @ ''.tmp'']" and 2: "art_run r fp good d f w0 w1" "tmp_has d f [] (w_fs w1)" by auto
  show ?case
    unfolding h
  proof (rule wp_try [OF io_Copy_spec [OF 2]], goal_cases)
    case (1 e w2)
    then show ?case by (auto intro: Close_setFailure_done)
  next
    case (2 n w2)
    then have inv2: "art_run r fp good d f w0 w2" and tmp: "tmp_has d f body (w_fs w2)" by auto
    show ?case
    proof (intro wp_ifI, goal_cases)
      case 1
      then show ?case using inv2 by (auto intro: Close_setFailure_done)
    next
      case 2
      show ?case
      proof (rule wp_try [OF Sync_spec [OF inv2]], goal_cases)
        case (1 e w3)
        then show ?case by (auto intro: Close_setFailure_done)
      next
        case (2 u w3)
        then have inv3: "art_run r fp good d f w0 w3" and fs3: "w_fs w3 = w_fs w2" by auto
        show ?case
        proof (rule wp_try [OF Close_spec [OF inv3]], goal_cases)
          case (1 e w4)
          then show ?case by (auto intro: setFailure_done)
        next
          case (2 u w4)
          then have inv4: "art_run r fp good d f w0 w4" and tmp4: "tmp_has d f body (w_fs w4)"
            using fs3 tmp by auto
          then obtain t m where tm: "look (w_fs w4) (d @ [f @ ''.tmp'']) = Some (FileN body t m)"
            by (auto simp: tmp_has_def)
          show ?case
            unfolding Let_def wp_if digest_ok_def [symmetric]
            using setFailure_done [OF inv4] publish_done [OF P inv4 tm good] by simp
        qed
      qed
    qed
  qed
qed


lemma fetch_spec:
  assumes "art_paths fp d f" and "art_run r fp good d f w0 w" and "\<And>c. digest_ok r a c \<Longrightarrow> good c"
  shows "wp (fetch r a fp (fp @ ''.tmp'')) (done_ok r fp good d f w0) w"
  unfolding fetch_def
  using store_body_spec [OF assms] setFailure_done [OF assms(2)]
  by (auto split: sum.splits http_reply.splits)

lemma Remove_tmp_done:
  assumes P: "art_paths fp d f" and "done_ok r fp good d f w0 out w"
  shows "wp (State_Monad.bind (os_Remove (fp @ ''.tmp'')) (\<lambda>_. State_Monad.return out)) (done_ok r fp good d f w0) w"
proof -
  have inv: "art_run r fp good d f w0 w" using assms(2) by simp
  have J: "art_inv good d f (w_fs w0) (w_fs w)" using inv by (rule run_inv_fs)
  have "wp (os_Remove (fp @ ''.tmp''))
     (\<lambda>_ w'. \<forall>c. in_place fp d f c (w_fs w) \<longrightarrow> in_place fp d f c (w_fs w')) w"
    unfolding os_Remove_def
  proof (rule wp_os_call)
    fix x w' assume eff: "fs_remove (fp @ ''.tmp'') (w_fs w) = (x, w_fs w')"
    have "q = d @ [f @ ''.tmp'']" if "look (w_fs w') q \<noteq> look (w_fs w) q" for q
      by (rule resolve_nofollow [of "w_fs w" "fp @ ''.tmp''"])
        (use fs_remove_frame [OF eff that] P J in \<open>auto simp: art_paths_def art_inv_def no_dotdot_def\<close>)
    then show "\<forall>c. in_place fp d f c (w_fs w) \<longrightarrow> in_place fp d f c (w_fs w')"
      using in_place_change_tmp by blast
  qed (simp add: read_only_def)
  then show ?thesis
    unfolding wp_bind wp_return
    by (rule wp_mono [OF wp_conj [OF keepsD [OF keeps_Remove_tmp [OF P] inv]]]) (use assms(2) in auto)
qed

lemma keeps_downloading:
  "keeps (art_run r fp good d f w0)
     (api_write (ArtifactStatus (a\<lparr>ba_Status := (ba_Status a)\<lparr>ba_Phase := BootArtifactPhaseDownloading, ba_Message := m\<rparr>\<rparr>)) g)"
  by (rule keeps_api_write) (simp add: ready_ok_def)

text \<open>What is re-fetched after the status write is an object that the server serves.\<close>

definition any_served :: "'s BootArtifactReconciler \<Rightarrow> string \<Rightarrow> bool" where
  "any_served r c \<longleftrightarrow> (\<exists>ns name a. served r ns name a \<and> digest_ok r a c)"

lemma download_spec:
  assumes P: "art_paths fp d f" and inv: "art_run r fp good d f w0 w" and good: "\<And>c. any_served r c \<Longrightarrow> good c"
  shows "wp (download r a fp) (done_ok r fp good d f w0) w"
  unfolding download_def Let_def
proof (rule wp_try [OF keepsD [OF keeps_downloading inv]], goal_cases)
  case (1 e w1)
  then show ?case by (auto simp: wp_return)
next
  case (2 a1 w1)
  have "wp (api_call (Get_BootArtifact (bar_Client r) (om_namespace (ba_meta a1)) (om_name (ba_meta a1))))
      (\<lambda>x w'. \<forall>a2. x = Inr a2 \<longrightarrow> served r (om_namespace (ba_meta a1)) (om_name (ba_meta a1)) a2) w1"
    by (auto simp: api_call_def wp_State served_def split: prod.splits)
  note get = wp_conj [OF keepsD [OF keeps_api_call 2] this]
  show ?case
  proof (rule wp_try [OF get], goal_cases)
    case (1 e w2)
    then show ?case by (auto simp: wp_return)
  next
    case (2 a2 w2)
    then have inv2: "art_run r fp good d f w0 w2" and g2: "\<And>c. digest_ok r a2 c \<Longrightarrow> good c"
      using good by (auto simp: any_served_def)
    show ?case
    proof (rule wp_try [OF keepsD [OF keeps_MkdirAll_dir [OF P] inv2]], goal_cases)
      case (1 e w3)
      then show ?case by (auto intro: setFailure_done)
    next
      case (2 u w3)
      show ?case by (rule wp_step [OF fetch_spec [OF P 2 g2] Remove_tmp_done [OF P]])
    qed
  qed
qed

section \<open>An existing file\<close>

lemma hashFile_spec:
  assumes "run_inv J R w0 w"
  shows "wp (hashFile r p b)
     (\<lambda>x w'. run_inv J R w0 w' \<and> w_fs w' = w_fs w
        \<and> (\<forall>h. x = Inr h \<longrightarrow> (\<exists>c. read_file p (w_fs w) = Some c \<and> h = sum_bytes r b c))) w"
  unfolding hashFile_def os_Open_def
proof (rule wp_try [OF wp_read_only [OF assms, where Q = "\<lambda>x w'. run_inv J R w0 w' \<and> w_fs w' = w_fs w
      \<and> (\<forall>h. x = Inr h \<longrightarrow> fs_open p (w_fs w) = Inr h)"]], goal_cases)
  case (1 x w')
  then show ?case by (auto simp: map_err_def split: sum.splits)
next
  case (2 e w')
  then show ?case by (simp add: wp_return)
next
  case (3 h w')
  then have inv: "run_inv J R w0 w'" and fs: "w_fs w' = w_fs w" "fs_open p (w_fs w) = Inr h" by auto
  show ?case
    unfolding os_ReadAll_def
    by (rule wp_try [OF wp_read_only [OF inv, where Q = "\<lambda>x w'. run_inv J R w0 w' \<and> w_fs w' = w_fs w
        \<and> (\<forall>c. x = Inr c \<longrightarrow> read_file p (w_fs w) = Some c)"]])
      (use fs in \<open>auto simp: wp_return read_file_def map_err_def split: sum.splits\<close>)
qed


lemma verifyExisting_spec:
  assumes P: "art_paths fp d f" and inv: "art_run r fp good d f w0 w"
  shows "wp (verifyExisting r a fp)
     (\<lambda>x w'. art_run r fp good d f w0 w'
        \<and> (x = Inr True \<longrightarrow> (\<exists>c. read_file fp (w_fs w') = Some c \<and> digest_ok r a c))) w"
  unfolding verifyExisting_def Let_def
proof (rule wp_try [OF hashFile_spec [OF inv]], goal_cases)
  case (1 e w1)
  then show ?case by (auto simp: wp_return)
next
  case (2 h w1)
  then obtain c where inv1: "art_run r fp good d f w0 w1"
    and c: "read_file fp (w_fs w1) = Some c" "h = sum_bytes r (ba_SHA256 (ba_Spec a) \<noteq> None) c" by auto
  show ?case
  proof (intro wp_ifI, goal_cases)
    case 1
    have ev: "keeps (art_run r fp good d f w0)
       (if bar_Recorder r then record_event x y else State_Monad.return ())" for x y
      by (intro keeps_intros)
    show ?case
      by (rule wp_step [OF keepsD [OF ev inv1]], rule wp_step [OF keepsD [OF keeps_Remove_file [OF P]]])
        (auto simp: wp_return)
  next
    case 2
    then have dig: "digest_ok r a c" using c by (simp add: digest_ok_def)
    show ?case
      by (rule wp_try [OF setReady_spec [OF inv1 c(1) dig]]) (use c(1) dig in \<open>auto simp: wp_return\<close>)
  next
    case 3
    then show ?case using inv1 c by (auto simp: wp_return digest_ok_def)
  qed
qed

section \<open>Reconcile\<close>

lemma Reconcile_spec:
  assumes get: "Get_BootArtifact (bar_Client r) ns name (w_api w0) = (Inr a, s1)"
    and P: "art_paths (filePath r a) d f"
    and pl: "plain (w_fs w0) d" "\<not> is_link (w_fs w0) (d @ [f @ ''.tmp''])"
  shows "wp (BootArtifact_Reconcile r ns name)
     (\<lambda>out w'. art_run r (filePath r a) (any_served r) d f w0 w'
        \<and> (out = Result 0 \<longrightarrow> (\<exists>c. read_file (filePath r a) (w_fs w') = Some c \<and> any_served r c))) w0"
proof -
  let ?I = "art_run r (filePath r a) (any_served r) d f w0"
  let ?Q = "\<lambda>out w'. ?I w' \<and> (out = Result 0 \<longrightarrow> (\<exists>c. read_file (filePath r a) (w_fs w') = Some c \<and> any_served r c))"
  have sv: "served r ns name a" using get by (auto simp: served_def)
  have "art_inv (any_served r) d f (w_fs w0) (w_fs w0)"
    using pl by (simp add: art_inv_def)
  then have "?I w0" by (rule run_inv_refl)
  then have get': "wp (api_call (Get_BootArtifact (bar_Client r) ns name)) (\<lambda>x w'. x = Inr a \<and> ?I w') w0"
    using get by (simp add: api_call_def wp_State run_inv_def)
  have dl: "wp (download r a (filePath r a)) ?Q w" if "?I w" for w
    by (rule wp_mono [OF download_spec [OF P that]]) (auto dest: in_place_read [OF P])
  have ve: "wp (verifyExisting r a (filePath r a)) (\<lambda>x w'. ?I w'
      \<and> (x = Inr True \<longrightarrow> (\<exists>c. read_file (filePath r a) (w_fs w') = Some c \<and> any_served r c))) w" if "?I w" for w
    by (rule wp_mono [OF verifyExisting_spec [OF P that]]) (use sv in \<open>auto simp: any_served_def\<close>)
  have sf: "wp (BootArtifact_setFailure r a msg) ?Q w" if "?I w" for w msg
    by (rule wp_mono [OF setFailure_spec [OF that]]) auto
  show ?thesis
    unfolding BootArtifact_Reconcile_def Let_def
  proof (rule wp_try [OF get'], goal_cases)
    case (2 a' w1)
    then have a': "a' = a" and inv: "?I w1" by auto
    show ?case
      unfolding a'
    proof (rule wp_try [OF keepsD [OF keeps_os_Stat inv]], goal_cases)
      case (1 e w2)
      then show ?case using sf dl by simp
    next
      case (2 n w2)
      show ?case by (rule wp_try [OF ve [OF 2]]) (auto simp: wp_return dl)
    qed
  qed simp
qed

end
