(* ===== verification/CalmRules.thy ===== *)
theory CalmRules
  imports WorldRules
begin

text \<open>
  Runs under a schedule without faults, where the system calls succeed whenever the file system lets
  them: the rule for a call, and what the calls do below real directories.
\<close>

section \<open>Calls that do not fail\<close>

text \<open>Only the time, the schedule, the ghost trace and the file system move.\<close>

definition quiet :: "'s world \<Rightarrow> 's world \<Rightarrow> bool" where
  "quiet w w' \<longleftrightarrow>
     calm w' \<and> w_api w' = w_api w \<and> w_writes w' = w_writes w \<and> w_clock w \<le> w_clock w'"

lemma quiet_refl [simp]: "quiet w w \<longleftrightarrow> calm w"
  by (simp add: quiet_def)

lemma quiet_trans [trans]: "quiet w w' \<Longrightarrow> quiet w' w'' \<Longrightarrow> quiet w w''"
  by (simp add: quiet_def)

lemma quiet_calm: "quiet w w' \<Longrightarrow> calm w'"
  by (simp add: quiet_def)

lemma wp_calm:
  assumes "calm w"
    and "\<And>x w'. quiet w w' \<Longrightarrow> eff (w_clock w') (w_fs w) = (x, w_fs w') \<Longrightarrow> Q (map_err mk x) w'"
  shows "wp (os_call mk part eff) Q w"
  by (rule wp_os_call) (use assms in \<open>auto simp: stepped_def quiet_def\<close>)

lemma wp_calm_read:
  assumes "calm w" and "\<And>w'. quiet w w' \<Longrightarrow> w_fs w' = w_fs w \<Longrightarrow> Q (map_err mk (g (w_fs w))) w'"
  shows "wp (os_call mk part (\<lambda>t fs. (g fs, fs))) Q w"
  by (rule wp_calm [OF assms(1)]) (use assms(2) in auto)

text \<open>A call that reads continues with what it read.\<close>

lemma wp_calm_read_bind:
  assumes "calm w" and "\<And>w'. quiet w w' \<Longrightarrow> w_fs w' = w_fs w \<Longrightarrow> wp (k (map_err mk (g (w_fs w)))) Q w'"
  shows "wp (State_Monad.bind (os_call mk part (\<lambda>t fs. (g fs, fs))) k) Q w"
  unfolding wp_bind by (rule wp_calm_read [OF assms(1)]) (rule assms(2))

lemma wp_calm_bind:
  assumes "calm w"
    and "\<And>x w'. quiet w w' \<Longrightarrow> eff (w_clock w') (w_fs w) = (x, w_fs w') \<Longrightarrow> wp (k (map_err mk x)) Q w'"
  shows "wp (State_Monad.bind (os_call mk part eff) k) Q w"
  unfolding wp_bind by (rule wp_calm [OF assms(1)]) (rule assms(2))

lemma wp_api_call_bind:
  "f (w_api w) = (x, s) \<Longrightarrow> wp (k x) Q (w\<lparr>w_api := s\<rparr>) \<Longrightarrow> wp (State_Monad.bind (api_call f) k) Q w"
  by (simp add: wp_bind api_call_def wp_State)

section \<open>Directories that exist or can be made\<close>

definition open_way :: "fsys \<Rightarrow> path \<Rightarrow> bool" where
  "open_way fs p \<longleftrightarrow> (\<forall>q. below q p \<longrightarrow> look fs q = None \<or> (\<exists>t. look fs q = Some (DirN t)))"

lemma open_way_plain: "open_way fs p \<Longrightarrow> plain fs p"
  by (force simp: open_way_def plain_def is_link_def)

lemma open_way_put_dir: "open_way fs p \<Longrightarrow> open_way (put q (DirN t) fs) p"
  by (auto simp: open_way_def look_put)

lemma mkdir_comps_ok:
  assumes "plain_dir fs dn" and "open_way fs (dn @ cs)" and "no_dotdot (dn @ cs)"
  shows "\<exists>fs'. mkdir_comps t dn cs fs = (Inr (), fs') \<and> plain_dir fs' (dn @ cs)"
  using assms
proof (induction t dn cs fs rule: mkdir_comps.induct)
  case (2 t dn c cs fs)
  have walk: "walk fs 40 follow [] (dn @ [c]) = walk fs 40 follow ([] @ dn) [c]" for follow
    by (rule walk_dirs) (use "2.prems" in \<open>auto simp: no_dotdot_def plain_dir_def\<close>)
  have c: "c \<noteq> ''..''" using "2.prems"(3) by (auto simp: no_dotdot_def)
  have at: "below (dn @ [c]) (dn @ c # cs)" by (simp add: below_iff)
  show ?case
  proof (cases "look fs (dn @ [c])")
    case None
    then have w: "walk fs 40 follow [] (dn @ [c]) = Inr (dn @ [c])" for follow using walk c by simp
    have "plain_dir (put (dn @ [c]) (DirN t) fs) (dn @ [c])"
      using "2.prems"(1) by (auto simp: plain_dir_def below_snoc look_put)
    then show ?thesis
      using "2.IH"(1) [OF w None w] open_way_put_dir [OF "2.prems"(2)] "2.prems"(3) w None by simp
  next
    case (Some n)
    then obtain u where n: "look fs (dn @ [c]) = Some (DirN u)"
      using "2.prems"(2) at unfolding open_way_def by force
    then have w: "walk fs 40 True [] (dn @ [c]) = Inr (dn @ [c])" using walk c by simp
    have "plain_dir fs (dn @ [c])" using "2.prems"(1) n by (simp add: plain_dir_snoc)
    then show ?thesis using "2.IH"(2) [OF w n] "2.prems"(2,3) w n by simp
  qed
qed simp

lemma plain_dir_root [simp]: "plain_dir fs []"
  by (auto simp: plain_dir_def below_iff)

lemma fs_mkdir_all_ok:
  assumes "s \<noteq> []" and "CHR 0x00 \<notin> set s" and "open_way fs (comps s)" and "no_dotdot (comps s)"
    and "fs_mkdir_all s t fs = (r, fs')"
  shows "r = Inr () \<and> plain_dir fs' (comps s)"
  using mkdir_comps_ok [of fs "[]" "comps s" t] assms by (auto simp: fs_mkdir_all_def)

section \<open>Files below real directories\<close>

text \<open>The name \<open>s\<close> stands for the entry \<open>f\<close> of the real directory \<open>d\<close>.\<close>

definition names :: "string \<Rightarrow> path \<Rightarrow> string \<Rightarrow> bool" where
  "names s d f \<longleftrightarrow> s \<noteq> [] \<and> CHR 0x00 \<notin> set s \<and> comps s = d @ [f] \<and> no_dotdot (d @ [f])"

lemma names_resolve:
  assumes "names s d f" and "plain_dir fs d" and "\<not> is_link fs (d @ [f]) \<or> \<not> follow"
  shows "resolve follow fs s = Inr (d @ [f])"
proof -
  have "resolve follow fs s = walk fs 40 follow d [f]"
    using assms by (intro resolve_in_dir) (auto simp: names_def)
  then show ?thesis
    using assms by (auto simp: names_def no_dotdot_def is_link_def split: option.splits node.splits)
qed

lemma walk_missing:
  assumes "\<And>as. as \<noteq> [] \<Longrightarrow> below as ds \<Longrightarrow> look fs (cur @ as) = None \<or> (\<exists>t. look fs (cur @ as) = Some (DirN t))"
    and "look fs (cur @ ds @ [f]) = None" and "no_dotdot (ds @ [f])"
  shows "walk fs n follow cur (ds @ [f]) = Inl ENOENT \<or> walk fs n follow cur (ds @ [f]) = Inr (cur @ ds @ [f])"
  using assms
proof (induction ds arbitrary: cur)
  case Nil
  then show ?case by (auto simp: no_dotdot_def)
next
  case (Cons c cs)
  have c: "c \<noteq> ''..''" using Cons.prems(3) by (auto simp: no_dotdot_def)
  have "walk fs n follow (cur @ [c]) (cs @ [f]) = Inl ENOENT
      \<or> walk fs n follow (cur @ [c]) (cs @ [f]) = Inr ((cur @ [c]) @ cs @ [f])"
  proof (rule Cons.IH)
    show "look fs ((cur @ [c]) @ as) = None \<or> (\<exists>t. look fs ((cur @ [c]) @ as) = Some (DirN t))"
      if "as \<noteq> []" "below as cs" for as
      using Cons.prems(1) [of "c # as"] that by (simp add: below_def)
    show "look fs ((cur @ [c]) @ cs @ [f]) = None" using Cons.prems(2) by simp
    show "no_dotdot (cs @ [f])" using Cons.prems(3) by (simp add: no_dotdot_def)
  qed
  then show ?case
    using Cons.prems(1) [of "[c]"] c by (auto simp: below_def)
qed

lemma names_missing:
  assumes "names s d f" and "open_way fs d" and "look fs (d @ [f]) = None"
  shows "fs_stat s fs = Inl ENOENT"
  using assms walk_missing [of d fs "[]" f 40 True]
  by (auto simp: fs_stat_def resolve_def names_def open_way_def)

lemma fs_remove_file:
  assumes "names s d f" and "plain_dir fs d" and "\<forall>t. look fs (d @ [f]) \<noteq> Some (DirN t)"
    and "fs_remove s fs = (r, fs')"
  shows "look fs' q = (if q = d @ [f] then None else look fs q)"
  using names_resolve [OF assms(1,2), of False] assms(3,4)
  by (auto simp: fs_remove_def look_del split: option.splits node.splits)

lemma read_file_names:
  assumes "names s d f" and "plain_dir fs d" and "look fs (d @ [f]) = Some (FileN c t m)"
  shows "fs_stat s fs = Inr (FileN c t m)" and "fs_open s fs = Inr (d @ [f])" and "fs_read (d @ [f]) fs = Inr c"
    and "read_file s fs = Some c"
  using names_resolve [OF assms(1,2), of True] assms(3)
  by (auto simp: fs_stat_def fs_open_def fs_read_def read_file_def is_link_def)

lemma read_file_stat:
  "read_file s fs = Some c \<Longrightarrow> \<exists>n. fs_stat s fs = Inr n"
  by (auto simp: read_file_def fs_open_def fs_stat_def split: sum.splits option.splits)

section \<open>Calls without faults\<close>

lemma Sync_calm: "calm w \<Longrightarrow> wp (os_Sync p) (\<lambda>x w'. x = Inr () \<and> quiet w w' \<and> w_fs w' = w_fs w) w"
  unfolding os_Sync_def by (rule wp_calm_read) auto

lemma Close_calm: "calm w \<Longrightarrow> wp (os_Close p) (\<lambda>x w'. x = Inr () \<and> quiet w w' \<and> w_fs w' = w_fs w) w"
  unfolding os_Close_def by (rule wp_calm_read) auto

lemma Remove_file_calm:
  assumes "calm w" and "names s d f" and "plain_dir (w_fs w) d" and "\<forall>t. look (w_fs w) (d @ [f]) \<noteq> Some (DirN t)"
  shows "wp (os_Remove s)
    (\<lambda>x w'. quiet w w' \<and> (\<forall>q. look (w_fs w') q = (if q = d @ [f] then None else look (w_fs w) q))) w"
  unfolding os_Remove_def
  by (rule wp_calm [OF assms(1)]) (auto simp: fs_remove_file [OF assms(2-4)])

end
