(* ===== verification/ArtifactLive.thy ===== *)
theory ArtifactLive
  imports ArtifactRuns CalmRules
begin

text \<open>
  The reconciler makes progress: without faults, with a server that stores what it is given and a
  reply whose body has the announced length and digest, one call of \<^verbatim>\<open>Reconcile\<close> puts the file in
  place, reports Ready and leaves no temporary file; with a wrong body it reports the failure and
  leaves the file as it was; and on a file that is already verified it writes nothing.
\<close>

section \<open>The surroundings\<close>

text \<open>
  A server that holds an object accepts an update of its status and serves what it stored; to get an object
  changes nothing of it.
\<close>

definition holds :: "'s Client \<Rightarrow> BootArtifact \<Rightarrow> 's \<Rightarrow> bool" where
  "holds c a s \<longleftrightarrow> (\<exists>b s'. Get_BootArtifact c (om_namespace (ba_meta a)) (om_name (ba_meta a)) s = (Inr b, s')
     \<and> ba_meta b = ba_meta a \<and> ba_Spec b = ba_Spec a)"

definition same_key :: "BootArtifact \<Rightarrow> BootArtifact \<Rightarrow> bool" where
  "same_key a b \<longleftrightarrow> om_namespace (ba_meta a) = om_namespace (ba_meta b) \<and> om_name (ba_meta a) = om_name (ba_meta b)"

definition good_server :: "'s Client \<Rightarrow> bool" where
  "good_server c \<longleftrightarrow>
     (\<forall>a s. holds c a s \<longrightarrow> (\<exists>a' s'. Update_BootArtifact_status c a s = (Inr a', s')
        \<and> ba_Spec a' = ba_Spec a \<and> ba_Status a' = ba_Status a \<and> same_key a' a
        \<and> (\<exists>s''. Get_BootArtifact c (om_namespace (ba_meta a')) (om_name (ba_meta a')) s' = (Inr a', s''))))
     \<and> (\<forall>ns n s a s'. Get_BootArtifact c ns n s = (Inr a, s') \<longrightarrow> holds c a s')"

text \<open>The server is good and holds the artifact that is worked on.\<close>

definition serving :: "'s BootArtifactReconciler \<Rightarrow> BootArtifact \<Rightarrow> 's world \<Rightarrow> bool" where
  "serving r a w \<longleftrightarrow> good_server (bar_Client r) \<and> holds (bar_Client r) a (w_api w)"

lemma holds_status [simp]: "holds c (a\<lparr>ba_Status := st\<rparr>) s \<longleftrightarrow> holds c a s"
  by (simp add: holds_def)

lemma same_key_status [simp]:
  "same_key (a\<lparr>ba_Status := st\<rparr>) b \<longleftrightarrow> same_key a b" "same_key b (a\<lparr>ba_Status := st\<rparr>) \<longleftrightarrow> same_key b a" "same_key a a"
  by (simp_all add: same_key_def)

lemma serving_api: "serving r a w \<Longrightarrow> w_api w' = w_api w \<Longrightarrow> serving r a w'"
  by (simp add: serving_def)

lemma serving_quiet: "serving r a w \<Longrightarrow> quiet w w' \<Longrightarrow> serving r a w'"
  by (simp add: serving_def quiet_def)

lemma serving_update:
  assumes "serving r a w"
  obtains a' s' s'' where "Update_BootArtifact_status (bar_Client r) (a\<lparr>ba_Status := st\<rparr>) (w_api w) = (Inr a', s')"
    "ba_Spec a' = ba_Spec a" "ba_Status a' = st" "same_key a' a"
    "Get_BootArtifact (bar_Client r) (om_namespace (ba_meta a')) (om_name (ba_meta a')) s' = (Inr a', s'')"
proof -
  from assms have "holds (bar_Client r) (a\<lparr>ba_Status := st\<rparr>) (w_api w)" by (simp add: serving_def)
  then obtain a' s' s'' where "Update_BootArtifact_status (bar_Client r) (a\<lparr>ba_Status := st\<rparr>) (w_api w) = (Inr a', s')"
    "ba_Spec a' = ba_Spec (a\<lparr>ba_Status := st\<rparr>)" "ba_Status a' = ba_Status (a\<lparr>ba_Status := st\<rparr>)" "same_key a' (a\<lparr>ba_Status := st\<rparr>)"
    "Get_BootArtifact (bar_Client r) (om_namespace (ba_meta a')) (om_name (ba_meta a')) s' = (Inr a', s'')"
    using assms unfolding serving_def good_server_def by meson
  then show thesis by (intro that) simp_all
qed

lemma serving_got:
  assumes "good_server (bar_Client r)" and "Get_BootArtifact (bar_Client r) ns n s = (Inr a, s')" and "w_api w = s'"
  shows "serving r a w"
  using assms unfolding serving_def good_server_def by meson

definition reply_ok :: "'s BootArtifactReconciler \<Rightarrow> string \<Rightarrow> string \<Rightarrow> bool" where
  "reply_ok r url body \<longleftrightarrow>
     (\<exists>p. url_parse url = Inr p)
     \<and> (\<exists>len. bar_HTTPClient r url = HttpReply 200 len body None \<and> (0 \<le> len \<longrightarrow> len = int (length body)))"

text \<open>The names that the program passes to the operating system.\<close>

definition art_names :: "string \<Rightarrow> path \<Rightarrow> string \<Rightarrow> bool" where
  "art_names fp d f \<longleftrightarrow>
     art_paths fp d f \<and> fp \<noteq> [] \<and> CHR 0x00 \<notin> set fp \<and> Dir fp \<noteq> [] \<and> CHR 0x00 \<notin> set (Dir fp)"

lemma art_namesD:
  assumes "art_names fp d f"
  shows "art_paths fp d f" and "names fp d f" and "names (fp @ ''.tmp'') d (f @ ''.tmp'')"
    and "comps (Dir fp) = d" and "no_dotdot d" and "Dir fp \<noteq> []" and "CHR 0x00 \<notin> set (Dir fp)"
  using assms by (auto simp: art_names_def art_paths_def names_def no_dotdot_def)

lemma set_join_subset: "set (join_with [slash] cs) \<subseteq> set (join_with [slash] (cs @ [c]))"
  by (cases "cs = []") (auto simp: join_with_append)

lemma filePath_names:
  assumes "rooted (bar_DataDir r)" and "safe_component (om_name (ba_meta a))"
    and "CHR 0x00 \<notin> set (filePath r a)"
  shows "art_names (filePath r a) (art_dir r (om_name (ba_meta a))) (FilenameFromURL (ba_URL (ba_Spec a)))"
proof -
  let ?cs = "[''artifacts'', om_name (ba_meta a)]" and ?f = "FilenameFromURL (ba_URL (ba_Spec a))"
  have cs: "safe_component c" if "c \<in> set ?cs" for c using that assms(2) safe_artifacts by auto
  have eq: "filePath r a = Join (bar_DataDir r # ?cs @ [?f])" by (simp add: filePath_def)
  have fp: "filePath r a = slash # join_with [slash] ((clean_comps (bar_DataDir r) @ ?cs) @ [?f])"
    unfolding eq using Join_rooted [OF assms(1), of "?cs @ [?f]"] cs filename_safe by auto
  have dir: "Dir (filePath r a) = slash # join_with [slash] (clean_comps (bar_DataDir r) @ ?cs)"
    unfolding eq by (rule Dir_Join_rooted [OF assms(1) cs filename_safe])
  have "set (Dir (filePath r a)) \<subseteq> set (slash # join_with [slash] ((clean_comps (bar_DataDir r) @ ?cs) @ [?f]))"
    using set_join_subset [of "clean_comps (bar_DataDir r) @ ?cs" ?f] by (simp only: dir) auto
  then have "CHR 0x00 \<notin> set (Dir (filePath r a))"
    using assms(3) by (simp only: fp [symmetric]) blast
  then show ?thesis
    using filePath_paths [OF assms(1,2)] assms(3) dir fp by (simp add: art_names_def)
qed

section \<open>Storing a body\<close>

lemma open_dir_ok:
  assumes "s \<noteq> []" and "CHR 0x00 \<notin> set s" and "plain_dir fs (comps s)" and "no_dotdot (comps s)"
  shows "\<exists>h. fs_open s fs = Inr h"
proof -
  have "walk fs 40 True [] (comps s @ []) = walk fs 40 True ([] @ comps s) []"
    by (rule walk_dirs) (use assms in \<open>auto simp: no_dotdot_def plain_dir_def\<close>)
  moreover have "\<exists>t. look fs (comps s) = Some (DirN t)" using assms(3) by (simp add: plain_dir_def)
  ultimately show ?thesis using assms(1,2) by (auto simp: fs_open_def resolve_def)
qed

definition ready_status :: "BootArtifactStatus \<Rightarrow> bool" where
  "ready_status s \<longleftrightarrow>
     ba_Phase s = BootArtifactPhaseReady \<and> ba_Message s = [] \<and> ba_FailureCount s = 0
     \<and> ba_LastFailureTime s = None \<and> ba_LastChecked s \<noteq> None"

text \<open>The last status written says that the artifact is Ready, and it is what the server did last.\<close>

definition last_ready :: "'s BootArtifactReconciler \<Rightarrow> BootArtifact \<Rightarrow> 's world \<Rightarrow> bool" where
  "last_ready r a w \<longleftrightarrow> (\<exists>b fs ws. w_writes w = (ArtifactStatus b, fs) # ws \<and> ready_status (ba_Status b) \<and> same_key b a
     \<and> (\<exists>b' s. Update_BootArtifact_status (bar_Client r) b s = (Inr b', w_api w)))"

lemma setReady_calm:
  assumes "calm w" and "serving r a w"
  shows "wp (BootArtifact_setReady r a) (\<lambda>x w'. x = Inr () \<and> calm w' \<and> w_fs w' = w_fs w \<and> last_ready r a w') w"
proof -
  obtain a' s' where "Update_BootArtifact_status (bar_Client r) (a\<lparr>ba_Status := (ba_Status a)\<lparr>ba_Phase := BootArtifactPhaseReady,
      ba_Message := [], ba_FailureCount := 0, ba_LastFailureTime := None, ba_LastChecked := Some (w_clock w)\<rparr>\<rparr>) (w_api w) = (Inr a', s')"
    by (rule serving_update [OF assms(2)])
  then show ?thesis
    using assms(1) unfolding BootArtifact_setReady_def Let_def
    by (auto simp: wp_simps metav1_Now_def api_write_def calm_def last_ready_def ready_status_def)
qed

lemma syncDir_calm:
  assumes "calm w" and "fs_open s (w_fs w) = Inr h"
  shows "wp (syncDir s) (\<lambda>x w'. x = Inr () \<and> quiet w w' \<and> w_fs w' = w_fs w) w"
  unfolding syncDir_def os_Open_def os_Sync_def
  by (rule wp_calm_read_bind [OF assms(1)])
    (use assms(2) in \<open>auto simp: quiet_def intro!: wp_calm_read\<close>)

text \<open>The file is in place.\<close>

definition stored :: "path \<Rightarrow> string \<Rightarrow> string \<Rightarrow> 's world \<Rightarrow> bool" where
  "stored d f c w \<longleftrightarrow> calm w \<and> plain_dir (w_fs w) d \<and> (\<exists>t m. look (w_fs w) (d @ [f]) = Some (FileN c t m))"

lemma publish_calm:
  assumes N: "art_names fp d f" and "calm w" and srv: "serving r a w"
    and pl: "plain_dir (w_fs w) d" and slot: "\<forall>t. look (w_fs w) (d @ [f]) \<noteq> Some (DirN t)"
    and tmp: "look (w_fs w) (d @ [f @ ''.tmp'']) = Some (FileN c t m)"
  shows "wp (publish r a fp (fp @ ''.tmp''))
    (\<lambda>out w'. out = Result 0 \<and> stored d f c w' \<and> last_ready r a w' \<and> look (w_fs w') (d @ [f @ ''.tmp'']) = None) w"
proof -
  note nm = art_namesD [OF N]
  let ?fs = "put (d @ [f]) (FileN c t m) (del (d @ [f @ ''.tmp'']) (w_fs w))"
  have old: "resolve False (w_fs w) (fp @ ''.tmp'') = Inr (d @ [f @ ''.tmp''])"
    and new: "resolve False (w_fs w) fp = Inr (d @ [f])"
    using names_resolve [OF nm(3) pl] names_resolve [OF nm(2) pl] by auto
  have rn: "fs_rename (fp @ ''.tmp'') fp (w_fs w) = (Inr (), ?fs)"
    using slot tmp by (auto simp: fs_rename_def old new split: option.splits node.splits)
  have pl': "plain_dir ?fs d"
    using pl below_longer by (auto simp: plain_dir_def look_put look_del)
  obtain h where h: "fs_open (Dir fp) ?fs = Inr h"
    using open_dir_ok [of "Dir fp" ?fs] nm pl' by auto
  show ?thesis
    unfolding publish_def os_Rename_def
  proof (rule wp_calm_bind [OF \<open>calm w\<close>], goal_cases)
    case (1 x w1)
    then have x: "x = Inr ()" and fs1: "w_fs w1 = ?fs" and c1: "calm w1" and q1: "quiet w w1"
      using rn by (auto simp: quiet_def)
    show ?case
      unfolding x map_err_simps sum.case
    proof (rule wp_try [OF syncDir_calm [OF c1 h [folded fs1]]], goal_cases)
      case (2 u w2)
      then have c2: "calm w2" and fs2: "w_fs w2 = ?fs" and s2: "serving r a w2"
        using fs1 serving_quiet [OF srv quiet_trans [OF q1]] by (auto dest: quiet_calm)
      show ?case
        by (rule wp_try [OF setReady_calm [OF c2 s2]])
          (use fs2 pl' in \<open>auto simp: wp_return stored_def look_put look_del\<close>)
    qed simp
  qed
qed


lemma io_Copy_calm:
  assumes "calm w" and "look (w_fs w) h = Some (FileN [] t m)"
  shows "wp (io_Copy p h body None)
    (\<lambda>x w'. x = Inr (length body) \<and> quiet w w' \<and> (\<exists>t. w_fs w' = put h (FileN body t m) (w_fs w))) w"
  unfolding io_Copy_def os_Write_def
  by (rule wp_calm_bind [OF assms(1)])
    (use assms(2) in \<open>auto simp: fs_append_def wp_return dest!: sym [where t = "w_fs _"]\<close>)

text \<open>Whatever the old temporary file held, what is hashed is what is stored.\<close>

lemma store_body_calm:
  assumes N: "art_names fp d f" and c: "calm w" and srv: "serving r a w"
    and pl: "plain_dir (w_fs w) d" and slot: "\<forall>t. look (w_fs w) (d @ [f]) \<noteq> Some (DirN t)"
    and tmp: "look (w_fs w) (d @ [f @ ''.tmp'']) = None \<or> (\<exists>c t m. look (w_fs w) (d @ [f @ ''.tmp'']) = Some (FileN c t m))"
    and len: "0 \<le> len \<longrightarrow> len = int (length body)" and dig: "digest_ok r a body"
  shows "wp (store_body r a fp (fp @ ''.tmp'') len body None)
    (\<lambda>out w'. out = Result 0 \<and> stored d f body w' \<and> last_ready r a w' \<and> look (w_fs w') (d @ [f @ ''.tmp'']) = None) w"
proof -
  let ?p = "d @ [f @ ''.tmp'']"
  note nm = art_namesD [OF N]
  have "\<not> is_link (w_fs w) ?p" using tmp by (auto simp: is_link_def)
  then have res: "resolve True (w_fs w) (fp @ ''.tmp'') = Inr ?p" using names_resolve [OF nm(3) pl] by simp
  have dirs: "plain_dir (put ?p (FileN c t m) (w_fs w)) d" for c t m
    using pl below_longer by (auto simp: plain_dir_def look_put)
  show ?thesis
    unfolding store_body_def os_Create_def
  proof (rule wp_calm_bind [OF c], goal_cases)
    case (1 x w1)
    then obtain t m where x: "x = Inr ?p" and fs1: "w_fs w1 = put ?p (FileN [] t m) (w_fs w)" and c1: "calm w1" and p1: "w_api w1 = w_api w"
      using tmp res by (auto simp: fs_create_def quiet_def dest!: sym [where t = "w_fs w1"])
    then have e1: "look (w_fs w1) ?p = Some (FileN [] t m)" by (simp add: look_put)
    show ?case
      unfolding x map_err_simps sum.case
    proof (rule wp_try [OF io_Copy_calm [OF c1 e1]], goal_cases)
      case (2 n w2)
      then obtain t' where n: "n = length body" and c2: "calm w2" and p2: "w_api w2 = w_api w1"
        and fs2: "w_fs w2 = put ?p (FileN body t' m) (w_fs w1)" by (auto simp: quiet_def)
      show ?case
        unfolding n
      proof (intro wp_ifI, goal_cases)
        case 2
        show ?case
        proof (rule wp_try [OF Sync_calm [OF c2]], goal_cases)
          case (2 u w3)
          then have c3: "calm w3" and fs3: "w_fs w3 = w_fs w2" and p3: "w_api w3 = w_api w2" by (auto simp: quiet_def)
          show ?case
          proof (rule wp_try [OF Close_calm [OF c3]], goal_cases)
            case (2 u w4)
            then have c4: "calm w4" and fs4: "w_fs w4 = put ?p (FileN body t' m) (put ?p (FileN [] t m) (w_fs w))"
              and p4: "w_api w4 = w_api w"
              using fs1 fs2 fs3 p1 p2 p3 by (auto simp: quiet_def)
            have "plain_dir (w_fs w4) d" using dirs pl below_longer by (auto simp: fs4 plain_dir_def look_put)
            moreover have "look (w_fs w4) ?p = Some (FileN body t' m)" by (simp add: fs4 look_put)
            moreover have "\<forall>t. look (w_fs w4) (d @ [f]) \<noteq> Some (DirN t)" using slot by (simp add: fs4 look_put)
            ultimately show ?case
              using publish_calm [OF N c4 serving_api [OF srv p4]] dig by (simp add: digest_ok_def Let_def)
          qed simp
        qed simp
      qed (use len in auto)
    qed simp
  qed
qed


section \<open>Downloading\<close>

lemma stored_remove:
  assumes "stored d f c w" and "calm w'"
    and "\<forall>q. look (w_fs w') q = (if q = d @ [f @ ''.tmp''] then None else look (w_fs w) q)"
  shows "stored d f c w'"
  using assms below_longer by (auto simp: stored_def plain_dir_def)

text \<open>The way to the file is open: what lies on it is a directory or can be made.\<close>

definition art_slot :: "fsys \<Rightarrow> path \<Rightarrow> string \<Rightarrow> bool" where
  "art_slot fs d f \<longleftrightarrow>
     open_way fs d \<and> (\<forall>t. look fs (d @ [f]) \<noteq> Some (DirN t))
     \<and> (look fs (d @ [f @ ''.tmp'']) = None \<or> (\<exists>c t m. look fs (d @ [f @ ''.tmp'']) = Some (FileN c t m)))"

lemma art_slot_mkdir:
  assumes "art_slot fs d f" and "fs_mkdir_all s t fs = (r, fs')" and "comps s = d" and "no_dotdot d"
  shows "\<forall>t. look fs' (d @ [f]) \<noteq> Some (DirN t)"
    and "look fs' (d @ [f @ ''.tmp'']) = None \<or> (\<exists>c t m. look fs' (d @ [f @ ''.tmp'']) = Some (FileN c t m))"
proof -
  have "look fs' (d @ [x]) = look fs (d @ [x])" for x
    using fs_mkdir_all_where [OF assms(2), of "d @ [x]"] assms open_way_plain below_longer
    by (auto simp: art_slot_def)
  then show "\<forall>t. look fs' (d @ [f]) \<noteq> Some (DirN t)"
    and "look fs' (d @ [f @ ''.tmp'']) = None \<or> (\<exists>c t m. look fs' (d @ [f @ ''.tmp'']) = Some (FileN c t m))"
    using assms(1) by (simp_all add: art_slot_def)
qed

text \<open>The directory of the artifact gets made, and nothing in the way of the two files.\<close>

lemma slot_MkdirAll_calm:
  assumes N: "art_names fp d f" and slot: "art_slot fs d f" and c: "calm w" "w_fs w = fs"
  shows "wp (os_MkdirAll (Dir fp))
      (\<lambda>x w'. x = Inr () \<and> calm w' \<and> plain_dir (w_fs w') d \<and> (\<forall>t. look (w_fs w') (d @ [f]) \<noteq> Some (DirN t))
        \<and> (look (w_fs w') (d @ [f @ ''.tmp'']) = None \<or> (\<exists>c t m. look (w_fs w') (d @ [f @ ''.tmp'']) = Some (FileN c t m)))
        \<and> (\<forall>q. \<not> below q d \<longrightarrow> look (w_fs w') q = look fs q) \<and> w_api w' = w_api w) w"
  unfolding os_MkdirAll_def
proof (rule wp_calm [OF c(1)], goal_cases)
  case (1 x w')
  note nm = art_namesD [OF N]
  from 1 c(2) have eff: "fs_mkdir_all (Dir fp) (w_clock w') fs = (x, w_fs w')" by simp
  have pl: "plain fs (comps (Dir fp))" using slot nm(4) open_way_plain by (simp add: art_slot_def)
  have "x = Inr () \<and> plain_dir (w_fs w') d"
    using fs_mkdir_all_ok [OF nm(6,7) _ _ eff] slot nm(4,5) by (simp add: art_slot_def)
  moreover have "look (w_fs w') q = look fs q" if "\<not> below q d" for q
    using fs_mkdir_all_where [OF eff _ pl] that nm(4,5) by metis
  ultimately show ?case
    using art_slot_mkdir [OF slot eff nm(4,5)] 1(1) by (simp add: quiet_def)
qed

text \<open>
  The end of \<^verbatim>\<open>download\<close>: the directory, \<open>fetch\<close>, and the deferred removal of the temporary file.
\<close>

lemma download_tail:
  assumes N: "art_names fp d f" and slot: "art_slot fs d f" and c: "calm w" "w_fs w = fs" and srv: "serving r a w"
    and fetch: "\<And>w1. calm w1 \<Longrightarrow> plain_dir (w_fs w1) d \<Longrightarrow> \<forall>t. look (w_fs w1) (d @ [f]) \<noteq> Some (DirN t) \<Longrightarrow>
      look (w_fs w1) (d @ [f @ ''.tmp'']) = None \<or> (\<exists>c t m. look (w_fs w1) (d @ [f @ ''.tmp'']) = Some (FileN c t m)) \<Longrightarrow>
      \<forall>q. \<not> below q d \<longrightarrow> look (w_fs w1) q = look fs q \<Longrightarrow> serving r a w1 \<Longrightarrow>
      wp (fetch r a fp (fp @ ''.tmp''))
        (\<lambda>out w'. \<Phi> out w' \<and> calm w' \<and> plain_dir (w_fs w') d \<and> (\<forall>t. look (w_fs w') (d @ [f @ ''.tmp'']) \<noteq> Some (DirN t))) w1"
    and remove: "\<And>out w2 w3. \<Phi> out w2 \<Longrightarrow> quiet w2 w3 \<Longrightarrow>
      \<forall>q. look (w_fs w3) q = (if q = d @ [f @ ''.tmp''] then None else look (w_fs w2) q) \<Longrightarrow> \<Psi> out w3"
  shows "wp (State_Monad.bind (os_MkdirAll (Dir fp)) (\<lambda>mk. case mk of
        Inl err \<Rightarrow> BootArtifact_setFailure r a (''creating directory: '' @ os_error_text err)
      | Inr _ \<Rightarrow> State_Monad.bind (fetch r a fp (fp @ ''.tmp'')) (\<lambda>out.
          State_Monad.bind (os_Remove (fp @ ''.tmp'')) (\<lambda>_. State_Monad.return out)))) \<Psi> w"
proof (rule wp_try [OF slot_MkdirAll_calm [OF N slot c]], goal_cases)
  case (2 u w1)
  let ?p = "d @ [f @ ''.tmp'']"
  have "wp (fetch r a fp (fp @ ''.tmp''))
      (\<lambda>out w'. \<Phi> out w' \<and> calm w' \<and> plain_dir (w_fs w') d \<and> (\<forall>t. look (w_fs w') ?p \<noteq> Some (DirN t))) w1"
    by (rule fetch) (use 2 srv in \<open>auto simp: serving_def\<close>)
  then show ?case
  proof (rule wp_step, goal_cases)
    case (1 out w2)
    have "wp (os_Remove (fp @ ''.tmp''))
        (\<lambda>x w'. quiet w2 w' \<and> (\<forall>q. look (w_fs w') q = (if q = ?p then None else look (w_fs w2) q))) w2"
      by (rule Remove_file_calm [OF _ art_namesD(3) [OF N]]) (use 1 in auto)
    then show ?case
      unfolding wp_bind wp_return by (rule wp_mono) (use 1 remove in auto)
  qed
qed simp

text \<open>
  What \<^verbatim>\<open>download\<close> does around \<open>fetch\<close>: the status, the directory, and the removal of the temporary file.
\<close>

lemma download_around:
  assumes N: "art_names fp d f" and c: "calm w" and srv: "serving r a w"
    and slot: "art_slot (w_fs w) d f"
    and fetch: "\<And>a1 w1. ba_Spec a1 = ba_Spec a \<Longrightarrow> ba_FailureCount (ba_Status a1) = ba_FailureCount (ba_Status a) \<Longrightarrow>
      calm w1 \<Longrightarrow> plain_dir (w_fs w1) d \<Longrightarrow> \<forall>t. look (w_fs w1) (d @ [f]) \<noteq> Some (DirN t) \<Longrightarrow>
      look (w_fs w1) (d @ [f @ ''.tmp'']) = None \<or> (\<exists>c t m. look (w_fs w1) (d @ [f @ ''.tmp'']) = Some (FileN c t m)) \<Longrightarrow>
      \<forall>q. \<not> below q d \<longrightarrow> look (w_fs w1) q = look (w_fs w) q \<Longrightarrow> serving r a1 w1 \<Longrightarrow> same_key a1 a \<Longrightarrow>
      wp (fetch r a1 fp (fp @ ''.tmp''))
        (\<lambda>out w'. \<Phi> out w' \<and> calm w' \<and> plain_dir (w_fs w') d \<and> (\<forall>t. look (w_fs w') (d @ [f @ ''.tmp'']) \<noteq> Some (DirN t))) w1"
    and remove: "\<And>out w2 w3. \<Phi> out w2 \<Longrightarrow> quiet w2 w3 \<Longrightarrow>
      \<forall>q. look (w_fs w3) q = (if q = d @ [f @ ''.tmp''] then None else look (w_fs w2) q) \<Longrightarrow> \<Psi> out w3"
  shows "wp (download r a fp) \<Psi> w"
proof -
  let ?a = "a\<lparr>ba_Status := (ba_Status a)\<lparr>ba_Phase := BootArtifactPhaseDownloading, ba_Message := ''Downloading''\<rparr>\<rparr>"
  obtain a1 s1 s2 where upd: "Update_BootArtifact_status (bar_Client r) ?a (w_api w) = (Inr a1, s1)"
    and a1: "ba_Spec a1 = ba_Spec a" "ba_Status a1 = ba_Status ?a" "same_key a1 a"
    and get: "Get_BootArtifact (bar_Client r) (om_namespace (ba_meta a1)) (om_name (ba_meta a1)) s1 = (Inr a1, s2)"
    by (rule serving_update [OF srv, of "ba_Status ?a"]) simp
  have good: "good_server (bar_Client r)" using srv by (simp add: serving_def)
  have w1: "wp (api_write (ArtifactStatus ?a) (Update_BootArtifact_status (bar_Client r) ?a))
      (\<lambda>x w'. x = Inr a1 \<and> w_api w' = s1 \<and> w_fs w' = w_fs w \<and> calm w') w"
    using upd c by (simp add: api_write_def wp_State calm_def)
  have w2: "wp (api_call (Get_BootArtifact (bar_Client r) (om_namespace (ba_meta a1)) (om_name (ba_meta a1))))
      (\<lambda>x w'. x = Inr a1 \<and> w_fs w' = w_fs w \<and> calm w' \<and> serving r a1 w') w'"
    if "w_api w' = s1" "w_fs w' = w_fs w" "calm w'" for w'
    using get that serving_got [OF good get, of "w'\<lparr>w_api := s2\<rparr>"] by (simp add: api_call_def wp_State calm_def serving_def)
  show ?thesis
    unfolding download_def Let_def
  proof (rule wp_try [OF w1], goal_cases)
    case (2 v w')
    then have v: "v = a1" and w': "w_api w' = s1" "w_fs w' = w_fs w" "calm w'" by auto
    show ?case
      unfolding v
    proof (rule wp_try [OF w2 [OF w']], goal_cases)
      case (2 v w'')
      then have v: "v = a1" by simp
      show ?case unfolding v by (rule download_tail [OF N slot, where \<Phi> = \<Phi>]) (use 2 a1 fetch remove in auto)
    qed simp
  qed simp
qed

lemma digest_ok_Spec: "ba_Spec a1 = ba_Spec a \<Longrightarrow> digest_ok r a1 c \<longleftrightarrow> digest_ok r a c"
  unfolding digest_ok_def expectedHash_def by metis

lemma download_calm:
  assumes N: "art_names fp d f" and c: "calm w" and srv: "serving r a w"
    and slot: "art_slot (w_fs w) d f" and rep: "reply_ok r (ba_URL (ba_Spec a)) body" and dig: "digest_ok r a body"
  shows "wp (download r a fp)
    (\<lambda>out w'. out = Result 0 \<and> stored d f body w' \<and> last_ready r a w' \<and> look (w_fs w') (d @ [f @ ''.tmp'']) = None) w"
proof (rule download_around [OF N c srv slot, where \<Phi> = "\<lambda>out w'. out = Result 0 \<and> stored d f body w' \<and> last_ready r a w'"], goal_cases)
  case (1 a1 w1)
  obtain p len where url: "url_parse (ba_URL (ba_Spec a1)) = Inr p"
    and http: "bar_HTTPClient r (ba_URL (ba_Spec a1)) = HttpReply 200 len body None"
    and len: "0 \<le> len \<longrightarrow> len = int (length body)"
    using rep by (auto simp: reply_ok_def 1(1))
  have "wp (store_body r a1 fp (fp @ ''.tmp'') len body None)
      (\<lambda>out w'. out = Result 0 \<and> stored d f body w' \<and> last_ready r a1 w' \<and> look (w_fs w') (d @ [f @ ''.tmp'']) = None) w1"
    by (rule store_body_calm [OF N 1(3) 1(8) 1(4-6) len]) (rule digest_ok_Spec [THEN iffD2, OF 1(1) dig])
  then show ?case
    unfolding fetch_def using 1(9) by (auto simp: url http stored_def last_ready_def same_key_def elim!: wp_mono)
next
  case (2 out w2 w3)
  then show ?case using stored_remove [of d f body w2 w3] by (auto simp: quiet_def last_ready_def)
qed

section \<open>Reconcile\<close>

lemma hashFile_calm:
  assumes "calm w" and "names s d f" and "plain_dir (w_fs w) d" and "look (w_fs w) (d @ [f]) = Some (FileN c t m)"
  shows "wp (hashFile r s b) (\<lambda>x w'. x = Inr (sum_bytes r b c) \<and> quiet w w' \<and> w_fs w' = w_fs w) w"
  unfolding hashFile_def os_Open_def os_ReadAll_def
  using read_file_names [OF assms(2-4)]
  by (intro wp_calm_read_bind [OF assms(1)])
    (auto simp: wp_return quiet_def intro!: wp_calm_read_bind)

text \<open>A verified file is left alone; a Ready status is not even written again.\<close>

lemma verifyExisting_ready:
  assumes "calm w" and "names fp d f" and "plain_dir (w_fs w) d" and "look (w_fs w) (d @ [f]) = Some (FileN c t m)"
    and dig: "digest_ok r a c" and "ba_Phase (ba_Status a) = BootArtifactPhaseReady"
  shows "wp (verifyExisting r a fp) (\<lambda>x w'. x = Inr True \<and> quiet w w' \<and> w_fs w' = w_fs w) w"
  unfolding verifyExisting_def
  by (rule wp_try [OF hashFile_calm [OF assms(1-4)]])
    (use assms(6) dig in \<open>auto simp: wp_return digest_ok_def Let_def\<close>)

lemma verifyExisting_mismatch:
  assumes c: "calm w" and N: "names fp d f" and pl: "plain_dir (w_fs w) d" and fl: "look (w_fs w) (d @ [f]) = Some (FileN c t m)"
    and dig: "\<not> digest_ok r a c"
  shows "wp (verifyExisting r a fp)
    (\<lambda>x w'. x = Inr False \<and> calm w' \<and> w_api w' = w_api w
      \<and> (\<forall>q. look (w_fs w') q = (if q = d @ [f] then None else look (w_fs w) q))) w"
  unfolding verifyExisting_def
proof (rule wp_try [OF hashFile_calm [OF c N pl fl]], goal_cases)
  case (2 h w1)
  then have h: "h = sum_bytes r (ba_SHA256 (ba_Spec a) \<noteq> None) c" and q: "quiet w w1" and fs: "w_fs w1 = w_fs w"
    by auto
  have neq: "\<not> equal_fold h (expectedHash a)" using dig by (simp add: digest_ok_def h)
  have ev: "wp (if bar_Recorder r then record_event x y else State_Monad.return ()) (\<lambda>_ w'. quiet w w' \<and> w_fs w' = w_fs w) w1"
    for x y using q fs by (auto simp: record_event_def wp_State wp_return quiet_def calm_def)
  show ?case
    unfolding Let_def
  proof (simp only: neq simp_thms if_True, rule wp_step [OF ev], goal_cases)
    case (1 u w2)
    have "wp (os_Remove fp)
        (\<lambda>x w'. quiet w2 w' \<and> (\<forall>q. look (w_fs w') q = (if q = d @ [f] then None else look (w_fs w2) q))) w2"
      by (rule Remove_file_calm [OF _ N]) (use 1 pl fl in \<open>auto simp: quiet_def\<close>)
    then show ?case
      unfolding wp_bind wp_return
      by (rule wp_mono) (use 1 in \<open>auto simp: quiet_def\<close>)
  qed
qed simp

lemma w_fs_api: "w_fs (w\<lparr>w_api := s\<rparr>) = w_fs w"
  by simp

lemma Reconcile_downloads:
  assumes get: "Get_BootArtifact (bar_Client r) ns name (w_api w) = (Inr a, s1)"
    and N: "art_names (filePath r a) d f" and c: "calm w" and srv: "good_server (bar_Client r)"
    and slot: "art_slot (w_fs w) d f"
    and old: "look (w_fs w) (d @ [f]) = None
      \<or> (\<exists>c t m. plain_dir (w_fs w) d \<and> look (w_fs w) (d @ [f]) = Some (FileN c t m) \<and> \<not> digest_ok r a c)"
    and rep: "reply_ok r (ba_URL (ba_Spec a)) body" and dig: "digest_ok r a body"
  shows "wp (BootArtifact_Reconcile r ns name)
    (\<lambda>out w'. out = Result 0 \<and> stored d f body w' \<and> last_ready r a w' \<and> look (w_fs w') (d @ [f @ ''.tmp'']) = None) w"
    (is "wp _ ?Q _")
proof -
  note nm = art_namesD [OF N]
  let ?w = "w\<lparr>w_api := s1\<rparr>" and ?fp = "filePath r a"
  have dl: "wp (download r a ?fp) ?Q w'" if "calm w'" "art_slot (w_fs w') d f" "w_api w' = s1" for w'
    by (rule download_calm [OF N that(1) serving_got [OF srv get that(3)] that(2) rep dig])
  have "wp (State_Monad.bind (os_Stat ?fp) (\<lambda>st. case st of
        Inl err \<Rightarrow> if \<not> os_IsNotExist err then BootArtifact_setFailure r a (''stat file: '' @ os_error_text err)
          else download r a ?fp
      | Inr _ \<Rightarrow> State_Monad.bind (verifyExisting r a ?fp) (\<lambda>v. case v of
          Inl err \<Rightarrow> State_Monad.return (ReconcileError err)
        | Inr ok \<Rightarrow> if ok then State_Monad.return (Result 0) else download r a ?fp))) ?Q ?w"
    unfolding os_Stat_def
  proof (rule wp_calm_read_bind, goal_cases)
    case (2 w1)
    then have c1: "calm w1" and fs1: "w_fs w1 = w_fs w" and p1: "w_api w1 = s1" by (auto simp: quiet_def)
    from old show ?case
    proof (elim disjE exE conjE, goal_cases)
      case 1
      then have "fs_stat ?fp (w_fs w) = Inl ENOENT"
        using names_missing [OF nm(2)] slot by (simp add: art_slot_def)
      then show ?case using dl [OF c1 _ p1] slot fs1 by (simp add: os_IsNotExist_def)
    next
      case (2 c t m)
      have pl1: "plain_dir (w_fs w1) d" "look (w_fs w1) (d @ [f]) = Some (FileN c t m)" using 2 fs1 by simp_all
      show ?case
        unfolding read_file_names(1) [OF nm(2) 2(1,2)] w_fs_api map_err_simps sum.case
      proof (rule wp_try [OF verifyExisting_mismatch [OF c1 nm(2) pl1 2(3)]], goal_cases)
        case (2 ok w2)
        then have ok: "ok = False" and c2: "calm w2" and p2: "w_api w2 = s1"
          and fs2: "\<And>q. look (w_fs w2) q = (if q = d @ [f] then None else look (w_fs w1) q)" using p1 by auto
        have "art_slot (w_fs w2) d f"
          using slot fs1 by (auto simp: art_slot_def open_way_def fs2)
        then show ?case using dl [OF c2 _ p2] by (simp add: ok)
      qed simp
    qed
  qed (use c in \<open>simp add: calm_def\<close>)
  then show ?thesis
    unfolding BootArtifact_Reconcile_def Let_def
    by (intro wp_api_call_bind [where f = "Get_BootArtifact (bar_Client r) ns name", OF get]) simp
qed


section \<open>A reply that cannot be used\<close>

text \<open>Every way a reply can be wrong: no reply, another status, a body cut short, of another length or
  of another digest.\<close>

definition reply_bad :: "'s BootArtifactReconciler \<Rightarrow> BootArtifact \<Rightarrow> bool" where
  "reply_bad r a \<longleftrightarrow>
     (case url_parse (ba_URL (ba_Spec a)) of
        Inl _ \<Rightarrow> True
      | Inr _ \<Rightarrow>
          (case bar_HTTPClient r (ba_URL (ba_Spec a)) of
             HttpError _ \<Rightarrow> True
           | HttpReply status len body rerr \<Rightarrow>
               status \<noteq> 200 \<or> rerr \<noteq> None \<or> (0 \<le> len \<and> int (length body) \<noteq> len) \<or> \<not> digest_ok r a body))"

text \<open>The last status written counts one failure more than \<open>a\<close> had.\<close>

definition last_failed :: "BootArtifact \<Rightarrow> 's world \<Rightarrow> bool" where
  "last_failed a w \<longleftrightarrow>
     (\<exists>a' fs ws. w_writes w = (ArtifactStatus a', fs) # ws
        \<and> ba_Phase (ba_Status a') = BootArtifactPhaseError
        \<and> ba_FailureCount (ba_Status a') = ba_FailureCount (ba_Status a) + 1
        \<and> ba_LastFailureTime (ba_Status a') \<noteq> None)"

definition retry_after :: "BootArtifact \<Rightarrow> ctrl_out" where
  "retry_after a =
     (case backoff (ba_FailureCount (ba_Status a) + 1) of None \<Rightarrow> ReconcilePanic | Some d \<Rightarrow> Result d)"

lemma setFailure_calm:
  assumes "calm w" and "serving r a w"
  shows "wp (BootArtifact_setFailure r a msg)
    (\<lambda>out w'. out = retry_after a \<and> calm w' \<and> w_fs w' = w_fs w \<and> last_failed a w') w"
proof -
  let ?a = "a\<lparr>ba_Status := (ba_Status a)\<lparr>ba_Phase := BootArtifactPhaseError, ba_Message := msg,
    ba_FailureCount := ba_FailureCount (ba_Status a) + 1, ba_LastFailureTime := Some (w_clock w)\<rparr>\<rparr>"
  obtain a' s' where upd: "Update_BootArtifact_status (bar_Client r) ?a (w_api w) = (Inr a', s')"
    and "ba_Status a' = ba_Status ?a"
    by (rule serving_update [OF assms(2)]) simp
  then show ?thesis
    using assms(1) unfolding BootArtifact_setFailure_def Let_def
    by (auto simp: wp_simps metav1_Now_def api_write_def calm_def retry_after_def last_failed_def)
qed

abbreviation failed_like :: "BootArtifact \<Rightarrow> path \<Rightarrow> string \<Rightarrow> fsys \<Rightarrow> ctrl_out \<Rightarrow> 's world \<Rightarrow> bool" where
  "failed_like a d f fs out w \<equiv>
     out = retry_after a \<and> calm w \<and> last_failed a w
     \<and> (\<forall>q. q \<noteq> d @ [f @ ''.tmp''] \<longrightarrow> look (w_fs w) q = look fs q)
     \<and> (\<forall>t. look (w_fs w) (d @ [f @ ''.tmp'']) \<noteq> Some (DirN t))"

lemma setFailure_like:
  assumes "calm w" and "serving r a w"
    and "\<And>q. q \<noteq> d @ [f @ ''.tmp''] \<Longrightarrow> look (w_fs w) q = look fs q"
    and "\<And>t. look (w_fs w) (d @ [f @ ''.tmp'']) \<noteq> Some (DirN t)"
  shows "wp (BootArtifact_setFailure r a msg) (failed_like a d f fs) w"
  by (rule wp_mono [OF setFailure_calm [OF assms(1,2)]]) (use assms(3,4) in auto)

text \<open>The copy of the body into the new temporary file: whole, or the error of the reader.\<close>

lemma io_Copy_created:
  assumes c: "calm w1" and fs1: "w_fs w1 = put p (FileN [] t m) fs" and p: "p \<noteq> []"
  shows "wp (io_Copy s p body rerr) (\<lambda>x w'. calm w' \<and> w_api w' = w_api w1
     \<and> (\<forall>q. q \<noteq> p \<longrightarrow> look (w_fs w') q = look fs q) \<and> (\<forall>t. look (w_fs w') p \<noteq> Some (DirN t))
     \<and> (\<forall>n. x = Inr n \<longrightarrow> n = length body \<and> rerr = None)) w1"
  unfolding io_Copy_def os_Write_def
  by (rule wp_calm_bind [OF c])
    (auto simp: fs1 p fs_append_def wp_return look_put quiet_def split: option.splits dest!: sym [where t = "w_fs _"])

lemma store_body_bad:
  assumes N: "art_names fp d f" and c: "calm w" and srv: "serving r a w"
    and pl: "plain_dir (w_fs w) d"
    and tmp: "look (w_fs w) (d @ [f @ ''.tmp'']) = None \<or> (\<exists>c t m. look (w_fs w) (d @ [f @ ''.tmp'']) = Some (FileN c t m))"
    and bad: "rerr \<noteq> None \<or> (0 \<le> len \<and> int (length body) \<noteq> len) \<or> \<not> digest_ok r a body"
  shows "wp (store_body r a fp (fp @ ''.tmp'') len body rerr) (failed_like a d f (w_fs w)) w"
proof -
  let ?p = "d @ [f @ ''.tmp'']"
  let ?S2 = "\<lambda>w'. calm w' \<and> w_api w' = w_api w \<and> (\<forall>q. q \<noteq> ?p \<longrightarrow> look (w_fs w') q = look (w_fs w) q) \<and> (\<forall>t. look (w_fs w') ?p \<noteq> Some (DirN t))"
  note nm = art_namesD [OF N]
  have "\<not> is_link (w_fs w) ?p" using tmp by (auto simp: is_link_def)
  then have res: "resolve True (w_fs w) (fp @ ''.tmp'') = Inr ?p" using names_resolve [OF nm(3) pl] by simp
  have fail: "wp (BootArtifact_setFailure r a msg) (failed_like a d f (w_fs w)) w'" if "?S2 w'" for msg w'
    by (rule setFailure_like) (use that srv in \<open>auto simp: serving_def\<close>)
  have closed: "wp (os_Close s) (\<lambda>x w'. x = Inr () \<and> ?S2 w') w'" if "?S2 w'" for s w'
    by (rule wp_mono [OF Close_calm]) (use that in \<open>auto simp: quiet_def\<close>)
  have synced: "wp (os_Sync s) (\<lambda>x w'. x = Inr () \<and> ?S2 w') w'" if "?S2 w'" for s w'
    by (rule wp_mono [OF Sync_calm]) (use that in \<open>auto simp: quiet_def\<close>)
  have cfail: "wp (State_Monad.bind (os_Close s) (\<lambda>_. BootArtifact_setFailure r a msg)) (failed_like a d f (w_fs w)) w'"
    if "?S2 w'" for s msg w'
    by (rule wp_step [OF closed [OF that]]) (rule fail, simp)
  show ?thesis
    unfolding store_body_def os_Create_def
  proof (rule wp_calm_bind [OF c], goal_cases)
    case (1 x w1)
    then obtain t m where x: "x = Inr ?p" and fs1: "w_fs w1 = put ?p (FileN [] t m) (w_fs w)" and c1: "calm w1" and p1: "w_api w1 = w_api w"
      using tmp res by (auto simp: fs_create_def quiet_def dest!: sym [where t = "w_fs w1"])
    have cp: "wp (io_Copy s ?p body rerr)
        (\<lambda>x w'. ?S2 w' \<and> (\<forall>n. x = Inr n \<longrightarrow> n = length body \<and> rerr = None)) w1" for s
      by (rule wp_mono [OF io_Copy_created [OF c1 fs1]]) (use p1 in auto)
    show ?case
      unfolding x map_err_simps sum.case
    proof (rule wp_try [OF cp], goal_cases)
      case (1 e w2)
      then show ?case by (intro cfail) simp
    next
      case (2 n w2)
      then have S2: "?S2 w2" and n: "n = length body" and re: "rerr = None" by auto
      show ?case
        unfolding n
      proof (intro wp_ifI, goal_cases)
        case 1
        then show ?case using cfail [OF S2] by simp
      next
        case 2
        then have dig: "\<not> digest_ok r a body" using bad re by auto
        show ?case
        proof (rule wp_try [OF synced [OF S2]], goal_cases)
          case (2 u w3)
          show ?case
          proof (rule wp_try [OF closed [OF conjunct2 [OF 2]]], goal_cases)
            case (2 u w4)
            then show ?case using fail [of w4] dig by (simp add: digest_ok_def Let_def)
          qed simp
        qed simp
      qed
    qed
  qed
qed

lemma fetch_bad:
  assumes "art_names fp d f" and c: "calm w" and srv: "serving r a w"
    and "plain_dir (w_fs w) d"
    and tmp: "look (w_fs w) (d @ [f @ ''.tmp'']) = None \<or> (\<exists>c t m. look (w_fs w) (d @ [f @ ''.tmp'']) = Some (FileN c t m))"
    and bad: "reply_bad r a"
  shows "wp (fetch r a fp (fp @ ''.tmp'')) (failed_like a d f (w_fs w)) w"
proof -
  have "wp (BootArtifact_setFailure r a msg) (failed_like a d f (w_fs w)) w" for msg
    by (rule setFailure_like [OF c srv]) (use tmp in auto)
  then show ?thesis
    unfolding fetch_def
    using bad store_body_bad [OF assms(1-5)]
    by (auto simp: reply_bad_def split: sum.splits http_reply.splits)
qed


lemma download_bad:
  assumes N: "art_names fp d f" and c: "calm w" and srv: "serving r a w"
    and slot: "art_slot (w_fs w) d f" and bad: "reply_bad r a"
  shows "wp (download r a fp)
    (\<lambda>out w'. out = retry_after a \<and> last_failed a w' \<and> look (w_fs w') (d @ [f]) = look (w_fs w) (d @ [f])
       \<and> look (w_fs w') (d @ [f @ ''.tmp'']) = None) w"
proof (rule download_around [OF N c srv slot, where \<Phi> = "\<lambda>out w'. out = retry_after a \<and> last_failed a w'
    \<and> look (w_fs w') (d @ [f]) = look (w_fs w) (d @ [f])"], goal_cases)
  case (1 a1 w1)
  have "reply_bad r a1" using bad unfolding reply_bad_def 1(1) digest_ok_Spec [OF 1(1)] .
  from fetch_bad [OF N 1(3) 1(8) 1(4,6) this] show ?case
  proof (rule wp_mono, goal_cases)
    case (1 out w')
    have "retry_after a1 = retry_after a" "last_failed a1 w' = last_failed a w'"
      using \<open>ba_FailureCount (ba_Status a1) = _\<close> by (simp_all add: retry_after_def last_failed_def)
    moreover have "plain_dir (w_fs w') d"
      using 1 \<open>plain_dir (w_fs w1) d\<close> below_longer unfolding plain_dir_def by metis
    ultimately show ?case using 1 \<open>\<forall>q. \<not> below q d \<longrightarrow> _ q\<close> below_longer by auto
  qed
next
  case (2 out w2 w3)
  then show ?case by (auto simp: quiet_def last_failed_def)
qed

lemma Reconcile_fails:
  assumes get: "Get_BootArtifact (bar_Client r) ns name (w_api w) = (Inr a, s1)"
    and N: "art_names (filePath r a) d f" and c: "calm w" and srv: "good_server (bar_Client r)"
    and slot: "art_slot (w_fs w) d f" and old: "look (w_fs w) (d @ [f]) = None"
    and bad: "reply_bad r a"
  shows "wp (BootArtifact_Reconcile r ns name)
    (\<lambda>out w'. out = retry_after a \<and> last_failed a w' \<and> look (w_fs w') (d @ [f]) = None
       \<and> look (w_fs w') (d @ [f @ ''.tmp'']) = None) w"
proof -
  note nm = art_namesD [OF N]
  let ?w = "w\<lparr>w_api := s1\<rparr>" and ?fp = "filePath r a"
  let ?Q = "\<lambda>out w'. out = retry_after a \<and> last_failed a w' \<and> look (w_fs w') (d @ [f]) = None
       \<and> look (w_fs w') (d @ [f @ ''.tmp'']) = None"
  have st: "fs_stat ?fp (w_fs w) = Inl ENOENT"
    using names_missing [OF nm(2)] slot old by (simp add: art_slot_def)
  have dl: "wp (download r a ?fp) ?Q w'" if "calm w'" "w_fs w' = w_fs w" "w_api w' = s1" for w'
    by (rule wp_mono [OF download_bad [OF N that(1) serving_got [OF srv get that(3)] _ bad]]) (use that slot old in auto)
  have "wp (os_Stat ?fp) (\<lambda>x w'. x = Inl (PathError ''stat'' ?fp ENOENT) \<and> calm w' \<and> w_fs w' = w_fs w \<and> w_api w' = s1) ?w"
    unfolding os_Stat_def by (rule wp_calm_read) (use c st in \<open>auto simp: calm_def quiet_def\<close>)
  then show ?thesis
    unfolding BootArtifact_Reconcile_def Let_def
    by (intro wp_api_call_bind [where f = "Get_BootArtifact (bar_Client r) ns name", OF get])
      (auto simp: os_IsNotExist_def intro: dl elim!: wp_try)
qed

end
