(* ===== verification/ArtifactProps.thy ===== *)
theory ArtifactProps
  imports ArtifactLive
begin

text \<open>
  The properties of the BootArtifact reconciler, each applied to a small concrete world: an API
  server that holds one artifact, a mirror that serves three bytes, and the identity as digest.
\<close>

section \<open>A concrete world\<close>

definition sample_spec :: BootArtifactSpec where
  "sample_spec =
     \<lparr>ba_URL = ''https://example.com/kernel'', ba_SHA256 = Some ''616263'', ba_SHA512 = None\<rparr>"

definition sample_artifact :: "BootArtifactPhase \<Rightarrow> BootArtifact" where
  "sample_artifact ph =
     \<lparr>ba_meta = \<lparr>om_name = ''vmlinuz'', om_namespace = ''default'', om_resourceVersion = 1\<rparr>,
      ba_Spec = sample_spec,
      ba_Status = \<lparr>ba_Phase = ph, ba_Message = [], ba_FailureCount = 0,
        ba_LastFailureTime = None, ba_LastChecked = None\<rparr>\<rparr>"

text \<open>A server that holds one artifact, and knows of no other object.\<close>

definition sample_client :: "BootArtifact Client" where
  "sample_client =
     \<lparr>Get_BootArtifact = (\<lambda>ns n s. (Inr s, s)),
      Get_BootConfig = (\<lambda>ns n s. (Inl (ApiNotFound n), s)),
      Get_Provision = (\<lambda>ns n s. (Inl (ApiNotFound n), s)),
      Get_ProvisionAutomation = (\<lambda>ns n s. (Inl (ApiNotFound n), s)),
      Get_ConfigMap = (\<lambda>ns n s. (Inl (ApiNotFound n), s)),
      Get_Secret = (\<lambda>ns n s. (Inl (ApiNotFound n), s)),
      List_BootConfigs = (\<lambda>ns s. (Inr [], s)),
      List_Machines = (\<lambda>ns fs s. (Inr [], s)),
      List_Provisions = (\<lambda>ns fs s. (Inr [], s)),
      Update_BootArtifact_status = (\<lambda>a s. (Inr a, a)),
      Update_BootConfig_status = (\<lambda>b s. (Inr b, s)),
      Update_Provision_status = (\<lambda>p s. (Inr p, s))\<rparr>"

definition sample_reconciler :: "http_reply \<Rightarrow> BootArtifact BootArtifactReconciler" where
  "sample_reconciler reply =
     \<lparr>bar_Client = sample_client, bar_DataDir = ''/data'', bar_HTTPClient = (\<lambda>u. reply),
      bar_Recorder = True, bar_sha256 = (\<lambda>c. c), bar_sha512 = (\<lambda>c. c)\<rparr>"

definition sample_world :: "fsys \<Rightarrow> os_event list \<Rightarrow> 's \<Rightarrow> 's world" where
  "sample_world fs sched s =
     \<lparr>w_fs = fs, w_sched = sched, w_clock = 1, w_draws = (\<lambda>n. n), w_draw = 0, w_api = s,
      w_trace = [], w_writes = [], w_events = []\<rparr>"

abbreviation "sample_reply \<equiv> HttpReply 200 3 ''abc'' None"

definition sample_run :: "http_reply \<Rightarrow> fsys \<Rightarrow> os_event list \<Rightarrow> BootArtifactPhase \<Rightarrow> ctrl_out \<times> BootArtifact world" where
  "sample_run reply fs sched ph =
     run_state (BootArtifact_Reconcile (sample_reconciler reply) ''default'' ''vmlinuz'')
       (sample_world fs sched (sample_artifact ph))"

lemma sample_get:
  "Get_BootArtifact (bar_Client (sample_reconciler reply)) ns n (w_api (sample_world fs sched s)) = (Inr s, s)"
  by (simp add: sample_reconciler_def sample_client_def sample_world_def)

lemma sample_filename: "FilenameFromURL (ba_URL (ba_Spec (sample_artifact ph))) = ''kernel''"
  by (cases ph) code_simp+

lemma sample_name [simp]: "om_name (ba_meta (sample_artifact ph)) = ''vmlinuz''"
  by (simp add: sample_artifact_def)

lemma sample_safe: "safe_component ''vmlinuz''"
  by (simp add: safe_component_def slash_def)

lemma sample_rooted: "rooted (bar_DataDir (sample_reconciler reply))"
  by (simp add: sample_reconciler_def rooted_def slash_def)

lemma sample_filePath: "filePath (sample_reconciler reply) (sample_artifact ph) = ''/data/artifacts/vmlinuz/kernel''"
proof -
  have "Join [''/data'', ''artifacts'', ''vmlinuz'', ''kernel''] = ''/data/artifacts/vmlinuz/kernel''" by code_simp
  then show ?thesis by (simp add: filePath_def sample_filename) (simp add: sample_reconciler_def)
qed

lemma sample_dir: "art_dir (sample_reconciler reply) ''vmlinuz'' = [''data'', ''artifacts'', ''vmlinuz'']"
proof -
  have "clean_comps ''/data'' = [''data'']" by code_simp
  then show ?thesis by (simp add: art_dir_def) (simp add: sample_reconciler_def)
qed

lemma sample_empty: "look [] q = (if q = [] then Some (DirN 0) else None)"
  by (simp add: look_def)

lemma sample_plain: "plain [] d" and sample_tmp: "\<not> is_link [] p"
  by (auto simp: plain_def is_link_def sample_empty)

lemma sample_slot: "f \<noteq> [] \<Longrightarrow> art_slot [] (d) f"
  by (auto simp: art_slot_def open_way_def sample_empty)

lemma sample_server: "good_server (bar_Client (sample_reconciler reply))"
  by (simp add: good_server_def holds_def sample_reconciler_def sample_client_def)

lemma sample_calm: "calm (sample_world fs [] s)"
  by (simp add: calm_def sample_world_def)

lemma sample_names:
  "art_names ''/data/artifacts/vmlinuz/kernel'' [''data'', ''artifacts'', ''vmlinuz''] ''kernel''"
proof -
  have "CHR 0x00 \<notin> set (filePath (sample_reconciler reply) (sample_artifact ph))" for reply ph
    by (simp add: sample_filePath)
  then show ?thesis
    using filePath_names [OF sample_rooted, of "sample_artifact ph" reply] sample_safe
    by (simp add: sample_filePath sample_dir sample_filename)
qed

lemma sample_look: "look [] (comps ''/data/artifacts/vmlinuz/kernel'') = None"
  by code_simp

section \<open>Integrity\<close>

lemma Reconcile_run:
  assumes "Get_BootArtifact (bar_Client r) ns name (w_api w) = (Inr a, s)"
    and "rooted (bar_DataDir r)" and "safe_component (om_name (ba_meta a))"
    and "plain (w_fs w) (art_dir r (om_name (ba_meta a)))"
    and "\<not> is_link (w_fs w) (comps (filePath r a @ ''.tmp''))"
    and "run_state (BootArtifact_Reconcile r ns name) w = (out, w')"
  shows "art_run r (filePath r a) (any_served r) (art_dir r (om_name (ba_meta a))) (FilenameFromURL (ba_URL (ba_Spec a))) w w'"
    and "out = Result 0 \<Longrightarrow> \<exists>c. read_file (filePath r a) (w_fs w') = Some c \<and> any_served r c"
  using wpD [OF Reconcile_spec [OF assms(1) filePath_paths [OF assms(2,3)] assms(4)] assms(6)]
    assms(5) filePath_paths [OF assms(2,3)] by (auto simp: art_paths_def)

text \<open>
  C4. Integrity of published files. Whatever faults the operating system injects, whatever the
  server answers and whatever the mirror sends, in every state the file system goes through the
  file of the artifact is what it was before, absent, or a file whose digest equals, ignoring case,
  the digest that some version of the object served by the API declares. A body that was not
  verified is never visible under the published name.
\<close>

theorem Reconcile_integrity:
  assumes "Get_BootArtifact (bar_Client r) ns name (w_api w) = (Inr a, s)"
    and "rooted (bar_DataDir r)" and "safe_component (om_name (ba_meta a))"
    and "plain (w_fs w) (art_dir r (om_name (ba_meta a)))"
    and "\<not> is_link (w_fs w) (comps (filePath r a @ ''.tmp''))"
    and "run_state (BootArtifact_Reconcile r ns name) w = (out, w')"
  shows "\<exists>tr. w_trace w' = tr @ w_trace w
     \<and> (\<forall>fs \<in> set tr. look fs (comps (filePath r a)) = look (w_fs w) (comps (filePath r a))
          \<or> look fs (comps (filePath r a)) = None
          \<or> (\<exists>c t m. look fs (comps (filePath r a)) = Some (FileN c t m) \<and> any_served r c))"
  using Reconcile_run(1) [OF assms] filePath_paths [OF assms(2,3)]
  unfolding run_inv_def art_paths_def art_inv_def by metis

theorem Reconcile_integrity_witness:
  "\<exists>tr. w_trace (snd (sample_run (HttpReply 200 3 ''abd'' None) [] [Runs 2, Fails 1 ENOSPC 1] BootArtifactPhasePending)) = tr
     \<and> (\<forall>fs \<in> set tr. look fs (comps ''/data/artifacts/vmlinuz/kernel'') = look [] (comps ''/data/artifacts/vmlinuz/kernel'')
          \<or> look fs (comps ''/data/artifacts/vmlinuz/kernel'') = None
          \<or> (\<exists>c t m. look fs (comps ''/data/artifacts/vmlinuz/kernel'') = Some (FileN c t m)
               \<and> any_served (sample_reconciler (HttpReply 200 3 ''abd'' None)) c))"
  using Reconcile_integrity [OF sample_get sample_rooted _ _ _
      prod.collapse [symmetric, of "sample_run (HttpReply 200 3 ''abd'' None) [] [Runs 2, Fails 1 ENOSPC 1] BootArtifactPhasePending",
        unfolded sample_run_def]]
  by (simp add: sample_run_def sample_safe sample_filePath sample_dir sample_plain sample_tmp sample_world_def)


text \<open>
  C17. Confinement. Whatever happens, the only paths whose content ever differs from the start are
  the artifact's file, its temporary file, and missing directories on the way that are made: other
  artifacts, boot directories and everything else stay as they are.
\<close>

theorem Reconcile_confined:
  assumes "Get_BootArtifact (bar_Client r) ns name (w_api w) = (Inr a, s)"
    and "rooted (bar_DataDir r)" and "safe_component (om_name (ba_meta a))"
    and "plain (w_fs w) (art_dir r (om_name (ba_meta a)))"
    and "\<not> is_link (w_fs w) (comps (filePath r a @ ''.tmp''))"
    and "run_state (BootArtifact_Reconcile r ns name) w = (out, w')"
  shows "\<exists>tr. w_trace w' = tr @ w_trace w
     \<and> (\<forall>fs \<in> set tr. \<forall>q. look fs q \<noteq> look (w_fs w) q \<longrightarrow>
          q = comps (filePath r a) \<or> q = comps (filePath r a @ ''.tmp'')
          \<or> (below q (art_dir r (om_name (ba_meta a))) \<and> look (w_fs w) q = None \<and> (\<exists>t. look fs q = Some (DirN t))))"
  using Reconcile_run(1) [OF assms] filePath_paths [OF assms(2,3)]
  unfolding run_inv_def art_paths_def art_inv_def by metis

theorem Reconcile_confined_witness:
  "\<exists>tr. w_trace (snd (sample_run sample_reply [] [Runs 2, Runs 1, Runs 0, Fails 1 EIO 2] BootArtifactPhasePending)) = tr
     \<and> (\<forall>fs \<in> set tr. \<forall>q. look fs q \<noteq> look [] q \<longrightarrow>
          q = comps ''/data/artifacts/vmlinuz/kernel'' \<or> q = comps ''/data/artifacts/vmlinuz/kernel.tmp''
          \<or> (below q [''data'', ''artifacts'', ''vmlinuz''] \<and> look [] q = None \<and> (\<exists>t. look fs q = Some (DirN t))))"
  using Reconcile_confined [OF sample_get sample_rooted _ _ _
      prod.collapse [symmetric, of "sample_run sample_reply [] [Runs 2, Runs 1, Runs 0, Fails 1 EIO 2] BootArtifactPhasePending",
        unfolded sample_run_def]]
  by (simp add: sample_run_def sample_safe sample_filePath sample_dir sample_plain sample_tmp sample_world_def)

text \<open>
  C9. Ready is never claimed of anything else. Every status with phase Ready that the reconciler sends
  to the server is sent while the artifact's file can be read and has the digest that the very
  object being written declares.
\<close>

theorem Reconcile_ready_verified:
  assumes "Get_BootArtifact (bar_Client r) ns name (w_api w) = (Inr a, s)"
    and "rooted (bar_DataDir r)" and "safe_component (om_name (ba_meta a))"
    and "plain (w_fs w) (art_dir r (om_name (ba_meta a)))"
    and "\<not> is_link (w_fs w) (comps (filePath r a @ ''.tmp''))"
    and "run_state (BootArtifact_Reconcile r ns name) w = (out, w')"
  shows "\<exists>ws. w_writes w' = ws @ w_writes w
     \<and> (\<forall>a' fs. (ArtifactStatus a', fs) \<in> set ws \<and> ba_Phase (ba_Status a') = BootArtifactPhaseReady \<longrightarrow>
          (\<exists>c. read_file (filePath r a) fs = Some c \<and> digest_ok r a' c))"
  using Reconcile_run(1) [OF assms] unfolding run_inv_def ready_ok_def by fastforce

theorem Reconcile_ready_verified_witness:
  "\<exists>ws. w_writes (snd (sample_run sample_reply [] [] BootArtifactPhasePending)) = ws
     \<and> (\<forall>a' fs. (ArtifactStatus a', fs) \<in> set ws \<and> ba_Phase (ba_Status a') = BootArtifactPhaseReady \<longrightarrow>
          (\<exists>c. read_file ''/data/artifacts/vmlinuz/kernel'' fs = Some c \<and> digest_ok (sample_reconciler sample_reply) a' c))"
  using Reconcile_ready_verified [OF sample_get sample_rooted _ _ _
      prod.collapse [symmetric, of "sample_run sample_reply [] [] BootArtifactPhasePending", unfolded sample_run_def]]
  by (simp add: sample_run_def sample_safe sample_filePath sample_plain sample_tmp sample_world_def)

text \<open>
  C10. The reconciler only stops asking to be called again when the work is done: if it returns the
  empty result for an artifact that exists, its file is on disk with a verified digest. Every other
  end is a positive delay, an error that makes the manager retry, or a panic.
\<close>

theorem Reconcile_done_verified:
  assumes "Get_BootArtifact (bar_Client r) ns name (w_api w) = (Inr a, s)"
    and "rooted (bar_DataDir r)" and "safe_component (om_name (ba_meta a))"
    and "plain (w_fs w) (art_dir r (om_name (ba_meta a)))"
    and "\<not> is_link (w_fs w) (comps (filePath r a @ ''.tmp''))"
    and "run_state (BootArtifact_Reconcile r ns name) w = (Result 0, w')"
  shows "\<exists>c. read_file (filePath r a) (w_fs w') = Some c \<and> any_served r c"
  by (rule Reconcile_run(2) [OF assms refl])

lemma sample_run_ok: "fst (sample_run sample_reply [] [] BootArtifactPhasePending) = Result 0"
  by code_simp

theorem Reconcile_done_verified_witness:
  "\<exists>c. read_file ''/data/artifacts/vmlinuz/kernel'' (w_fs (snd (sample_run sample_reply [] [] BootArtifactPhasePending))) = Some c
     \<and> any_served (sample_reconciler sample_reply) c"
proof -
  let ?run = "sample_run sample_reply [] [] BootArtifactPhasePending"
  have "run_state (BootArtifact_Reconcile (sample_reconciler sample_reply) ''default'' ''vmlinuz'')
      (sample_world [] [] (sample_artifact BootArtifactPhasePending)) = (Result 0, snd ?run)"
    using prod.collapse [of ?run] sample_run_ok by (metis sample_run_def)
  from Reconcile_done_verified [OF sample_get sample_rooted _ _ _ this] show ?thesis
    by (simp add: sample_safe sample_filePath sample_plain sample_tmp sample_world_def)
qed

section \<open>Progress\<close>

text \<open>
  C19. A download succeeds when it can: when no call fails, the server stores what it is given, the
  mirror answers 200 with the announced number of bytes and the declared digest, and the file is
  missing or has a wrong digest, then one call of Reconcile ends with the empty result, the file
  holds exactly the body, Ready with a failure count of zero is the last status written, and the
  temporary file is gone.
\<close>

theorem Reconcile_downloads_file:
  assumes "Get_BootArtifact (bar_Client r) ns name (w_api w) = (Inr a, s)"
    and "rooted (bar_DataDir r)" and "safe_component (om_name (ba_meta a))" and "CHR 0x00 \<notin> set (filePath r a)"
    and "calm w" and "good_server (bar_Client r)"
    and "art_slot (w_fs w) (art_dir r (om_name (ba_meta a))) (FilenameFromURL (ba_URL (ba_Spec a)))"
    and "look (w_fs w) (comps (filePath r a)) = None
      \<or> (\<exists>c t m. plain_dir (w_fs w) (art_dir r (om_name (ba_meta a)))
           \<and> look (w_fs w) (comps (filePath r a)) = Some (FileN c t m) \<and> \<not> digest_ok r a c)"
    and "reply_ok r (ba_URL (ba_Spec a)) body" and "digest_ok r a body"
    and "run_state (BootArtifact_Reconcile r ns name) w = (out, w')"
  shows "out = Result 0 \<and> read_file (filePath r a) (w_fs w') = Some body \<and> last_ready r a w'
     \<and> look (w_fs w') (comps (filePath r a @ ''.tmp'')) = None"
proof -
  note N = filePath_names [OF assms(2-4)]
  note nm = art_namesD [OF N]
  let ?d = "art_dir r (om_name (ba_meta a))" and ?f = "FilenameFromURL (ba_URL (ba_Spec a))"
  have co: "comps (filePath r a) = ?d @ [?f]" "comps (filePath r a @ ''.tmp'') = ?d @ [?f @ ''.tmp'']"
    using nm(2,3) by (auto simp: names_def)
  have "out = Result 0 \<and> stored ?d ?f body w' \<and> last_ready r a w' \<and> look (w_fs w') (?d @ [?f @ ''.tmp'']) = None"
    using wpD [OF Reconcile_downloads [OF assms(1) N assms(5-7) _ assms(9,10)] assms(11)] assms(8) co by simp
  then show ?thesis
    using read_file_names(4) [OF nm(2)] co by (auto simp: stored_def)
qed

theorem Reconcile_downloads_file_witness:
  "fst (sample_run sample_reply [] [] BootArtifactPhasePending) = Result 0
     \<and> read_file ''/data/artifacts/vmlinuz/kernel'' (w_fs (snd (sample_run sample_reply [] [] BootArtifactPhasePending))) = Some ''abc''
     \<and> last_ready (sample_reconciler sample_reply) (sample_artifact BootArtifactPhasePending) (snd (sample_run sample_reply [] [] BootArtifactPhasePending))
     \<and> look (w_fs (snd (sample_run sample_reply [] [] BootArtifactPhasePending))) (comps ''/data/artifacts/vmlinuz/kernel.tmp'') = None"
proof -
  have "digest_ok (sample_reconciler sample_reply) (sample_artifact BootArtifactPhasePending) ''abc''" by code_simp
  moreover have "reply_ok (sample_reconciler sample_reply) (ba_URL (ba_Spec (sample_artifact BootArtifactPhasePending))) ''abc''"
  proof -
    have "url_parse ''https://example.com/kernel'' = Inr ''/kernel''" by code_simp
    then show ?thesis by (simp add: reply_ok_def sample_artifact_def sample_spec_def) (simp add: sample_reconciler_def)
  qed
  ultimately show ?thesis
    using Reconcile_downloads_file [OF sample_get sample_rooted _ _ sample_calm sample_server _ _ _ _
        prod.collapse [symmetric, of "sample_run sample_reply [] [] BootArtifactPhasePending", unfolded sample_run_def]]
    by (simp add: sample_run_def sample_safe sample_filePath sample_filename sample_dir sample_slot sample_world_def sample_look)
qed

text \<open>
  C20. A download that cannot succeed fails cleanly: with no reply, another status, a body cut short
  or of another length, or a wrong digest, the result is the back-off of one more failure, the last
  status written is Error with the failure counted, and neither the file nor the temporary file is
  left behind.
\<close>

theorem Reconcile_bad_reply:
  assumes "Get_BootArtifact (bar_Client r) ns name (w_api w) = (Inr a, s)"
    and "rooted (bar_DataDir r)" and "safe_component (om_name (ba_meta a))" and "CHR 0x00 \<notin> set (filePath r a)"
    and "calm w" and "good_server (bar_Client r)"
    and "art_slot (w_fs w) (art_dir r (om_name (ba_meta a))) (FilenameFromURL (ba_URL (ba_Spec a)))"
    and "look (w_fs w) (comps (filePath r a)) = None" and "reply_bad r a"
    and "run_state (BootArtifact_Reconcile r ns name) w = (out, w')"
  shows "out = retry_after a \<and> last_failed a w' \<and> look (w_fs w') (comps (filePath r a)) = None
     \<and> look (w_fs w') (comps (filePath r a @ ''.tmp'')) = None"
proof -
  note N = filePath_names [OF assms(2-4)]
  have "comps (filePath r a) = art_dir r (om_name (ba_meta a)) @ [FilenameFromURL (ba_URL (ba_Spec a))]"
    "comps (filePath r a @ ''.tmp'') = art_dir r (om_name (ba_meta a)) @ [FilenameFromURL (ba_URL (ba_Spec a)) @ ''.tmp'']"
    using art_namesD(2,3) [OF N] by (auto simp: names_def)
  then show ?thesis
    using wpD [OF Reconcile_fails [OF assms(1) N assms(5-7) _ assms(9)] assms(10)] assms(8) by simp
qed


theorem Reconcile_bad_reply_witness:
  "fst (sample_run (HttpReply 404 9 ''not found'' None) [] [] BootArtifactPhasePending) = retry_after (sample_artifact BootArtifactPhasePending)
     \<and> last_failed (sample_artifact BootArtifactPhasePending) (snd (sample_run (HttpReply 404 9 ''not found'' None) [] [] BootArtifactPhasePending))
     \<and> look (w_fs (snd (sample_run (HttpReply 404 9 ''not found'' None) [] [] BootArtifactPhasePending))) (comps ''/data/artifacts/vmlinuz/kernel'') = None
     \<and> look (w_fs (snd (sample_run (HttpReply 404 9 ''not found'' None) [] [] BootArtifactPhasePending))) (comps ''/data/artifacts/vmlinuz/kernel.tmp'') = None"
proof -
  have "reply_bad (sample_reconciler (HttpReply 404 9 ''not found'' None)) (sample_artifact BootArtifactPhasePending)"
    by code_simp
  then show ?thesis
    using Reconcile_bad_reply [OF sample_get sample_rooted _ _ sample_calm sample_server _ _ _
        prod.collapse [symmetric, of "sample_run (HttpReply 404 9 ''not found'' None) [] [] BootArtifactPhasePending", unfolded sample_run_def]]
    by (simp add: sample_run_def sample_safe sample_filePath sample_filename sample_dir sample_slot sample_world_def sample_look)
qed

text \<open>
  A verified file is left alone: when the file has the declared digest, its status is Ready and
  no call fails, Reconcile returns the empty result, changes no path of the file system in any
  state it goes through, and writes no status.
\<close>

theorem Reconcile_verified_noop:
  assumes "Get_BootArtifact (bar_Client r) ns name (w_api w) = (Inr a, s)"
    and "rooted (bar_DataDir r)" and "safe_component (om_name (ba_meta a))" and "CHR 0x00 \<notin> set (filePath r a)"
    and "calm w" and "plain_dir (w_fs w) (art_dir r (om_name (ba_meta a)))"
    and "look (w_fs w) (comps (filePath r a)) = Some (FileN c t m)" and "digest_ok r a c"
    and "ba_Phase (ba_Status a) = BootArtifactPhaseReady"
    and "run_state (BootArtifact_Reconcile r ns name) w = (out, w')"
  shows "out = Result 0 \<and> w_fs w' = w_fs w \<and> w_writes w' = w_writes w"
proof -
  note nm = art_namesD(2) [OF filePath_names [OF assms(2-4)]]
  let ?d = "art_dir r (om_name (ba_meta a))" and ?f = "FilenameFromURL (ba_URL (ba_Spec a))" and ?w = "w\<lparr>w_api := s\<rparr>"
  have fl: "look (w_fs w) (?d @ [?f]) = Some (FileN c t m)" using assms(7) nm by (simp add: names_def)
  have "wp (os_Stat (filePath r a)) (\<lambda>x w'. x = Inr (FileN c t m) \<and> calm w' \<and> w_fs w' = w_fs w \<and> w_writes w' = w_writes w) ?w"
    unfolding os_Stat_def
    by (rule wp_calm_read)
      (use assms(5) read_file_names(1) [OF nm assms(6) fl] in \<open>auto simp: calm_def quiet_def\<close>)
  then have "wp (BootArtifact_Reconcile r ns name) (\<lambda>out w'. out = Result 0 \<and> w_fs w' = w_fs w \<and> w_writes w' = w_writes w) w"
    unfolding BootArtifact_Reconcile_def Let_def
  proof (intro wp_api_call_bind [where f = "Get_BootArtifact (bar_Client r) ns name", OF assms(1)], simp only: sum.case,
      rule wp_try, goal_cases)
    case (2 n w1)
    have "wp (verifyExisting r a (filePath r a)) (\<lambda>x w'. x = Inr True \<and> quiet w1 w' \<and> w_fs w' = w_fs w1) w1"
      by (rule verifyExisting_ready [OF _ nm _ _ assms(8,9)]) (use 2 assms(6) fl in auto)
    then show ?case by (rule wp_try) (use 2 in \<open>auto simp: wp_return quiet_def\<close>)
  qed auto
  then show ?thesis using assms(10) by (rule wpD)
qed


definition sample_disk :: fsys where
  "sample_disk =
     [([''data''], DirN 0), ([''data'', ''artifacts''], DirN 0), ([''data'', ''artifacts'', ''vmlinuz''], DirN 0),
      ([''data'', ''artifacts'', ''vmlinuz'', ''kernel''], FileN ''abc'' 0 420)]"

lemma sample_disk_dir: "plain_dir sample_disk [''data'', ''artifacts'', ''vmlinuz'']"
proof -
  have "plain_dir sample_disk ((([] @ [''data'']) @ [''artifacts'']) @ [''vmlinuz''])"
    unfolding plain_dir_snoc by (simp add: look_def sample_disk_def)
  then show ?thesis by simp
qed

theorem Reconcile_verified_noop_witness:
  "fst (sample_run (HttpError ''down'') sample_disk [] BootArtifactPhaseReady) = Result 0
     \<and> w_fs (snd (sample_run (HttpError ''down'') sample_disk [] BootArtifactPhaseReady)) = sample_disk
     \<and> w_writes (snd (sample_run (HttpError ''down'') sample_disk [] BootArtifactPhaseReady)) = []"
proof -
  have "digest_ok (sample_reconciler (HttpError ''down'')) (sample_artifact BootArtifactPhaseReady) ''abc''" by code_simp
  moreover have "ba_Phase (ba_Status (sample_artifact BootArtifactPhaseReady)) = BootArtifactPhaseReady"
    by (simp add: sample_artifact_def)
  moreover have "look sample_disk (comps ''/data/artifacts/vmlinuz/kernel'') = Some (FileN ''abc'' 0 420)" by code_simp
  ultimately show ?thesis
    using Reconcile_verified_noop [OF sample_get sample_rooted _ _ sample_calm _ _ _ _
        prod.collapse [symmetric, of "sample_run (HttpError ''down'') sample_disk [] BootArtifactPhaseReady", unfolded sample_run_def]]
      sample_disk_dir
    by (simp add: sample_run_def sample_safe sample_filePath sample_dir sample_world_def)
qed

section \<open>Back-off, digests and paths\<close>

text \<open>
  C36. The delay after the n-th failure in a row is five seconds doubled n times, up to six times: ten
  seconds, twenty, ... and never more than 320 seconds; the 64-bit arithmetic does not overflow. A
  negative count, which the 32-bit counter reaches by wrapping, makes the shift panic.
\<close>

theorem backoff_doubles:
  "backoff n = (if sint n < 0 then None else Some (5 * Second * 2 ^ nat (min (sint n) 6)))"
  by (rule backoff_eq)

text \<open>
  An artifact that passed the API's validation declares exactly one digest, and \<^verbatim>\<open>expectedHash\<close> is
  that one: 64 hexadecimal digits when the reconciler computes SHA-256, 128 when it computes SHA-512.
  The algorithm and the digest compared against never come apart.
\<close>

theorem expectedHash_valid:
  assumes "valid_BootArtifactSpec (ba_Spec a)"
  shows "length (expectedHash a) = (if ba_SHA256 (ba_Spec a) \<noteq> None then 64 else 128)
     \<and> set (expectedHash a) \<subseteq> set hex_class"
  using assms
  by (auto simp: valid_BootArtifactSpec_def expectedHash_def sha256_re_def sha512_re_def matches_iff in_RRep_RCls
      split: option.splits)

theorem expectedHash_valid_witness:
  "length (expectedHash (sample_artifact BootArtifactPhasePending\<lparr>ba_Spec :=
       \<lparr>ba_URL = ''https://example.com/kernel'', ba_SHA256 = None, ba_SHA512 = Some (replicate 128 (CHR ''a''))\<rparr>\<rparr>)) = 128"
proof -
  have "valid_BootArtifactSpec \<lparr>ba_URL = ''https://example.com/kernel'', ba_SHA256 = None, ba_SHA512 = Some (replicate 128 (CHR ''a''))\<rparr>"
    by (simp add: valid_BootArtifactSpec_def sha512_re_def matches_iff in_RRep_RCls has_prefix_def hex_class_def)
  then show ?thesis
    using expectedHash_valid [of "sample_artifact BootArtifactPhasePending\<lparr>ba_Spec :=
       \<lparr>ba_URL = ''https://example.com/kernel'', ba_SHA256 = None, ba_SHA512 = Some (replicate 128 (CHR ''a''))\<rparr>\<rparr>"]
    by simp
qed

text \<open>
  Different artifacts never touch each other's files: the directories of two artifacts with
  different names are disjoint, so no file or temporary file of one lies in the directory of the
  other, and reconciling them in any order or at the same time cannot interfere.
\<close>

theorem filePath_disjoint:
  assumes "rooted (bar_DataDir r)" and "safe_component (om_name (ba_meta a))" and "safe_component (om_name (ba_meta b))"
    and "om_name (ba_meta a) \<noteq> om_name (ba_meta b)"
  shows "below (art_dir r (om_name (ba_meta a))) (comps (filePath r a))
     \<and> below (art_dir r (om_name (ba_meta a))) (comps (filePath r a @ ''.tmp''))
     \<and> \<not> below (art_dir r (om_name (ba_meta b))) (comps (filePath r a))
     \<and> \<not> below (art_dir r (om_name (ba_meta b))) (comps (filePath r a @ ''.tmp''))"
  using filePath_paths [OF assms(1,2)] assms(4)
  by (auto simp: art_paths_def art_dir_def below_def)


theorem filePath_disjoint_witness:
  "\<not> below [''data'', ''artifacts'', ''initrd''] (comps (filePath (sample_reconciler sample_reply) (sample_artifact BootArtifactPhasePending)))"
proof -
  let ?b = "sample_artifact BootArtifactPhasePending\<lparr>ba_meta := \<lparr>om_name = ''initrd'', om_namespace = [], om_resourceVersion = 0\<rparr>\<rparr>"
  have "art_dir (sample_reconciler sample_reply) ''initrd'' = [''data'', ''artifacts'', ''initrd'']"
    using sample_dir [of sample_reply] by (simp add: art_dir_def)
  moreover have "safe_component ''initrd''" by (simp add: safe_component_def slash_def)
  ultimately show ?thesis
    using filePath_disjoint [OF sample_rooted, of "sample_artifact BootArtifactPhasePending" ?b sample_reply] sample_safe
    by simp
qed

end
