(* ===== verification/ConfigController.thy ===== *)
theory ConfigController
  imports ArtifactController
begin

text \<open>
  \<^verbatim>\<open>internal/controller/bootconfig_controller.go\<close>: the reconciler that assembles a boot directory from
  ready artifacts, by symbolic links and concatenation (mode A) or by extraction from an ISO image
  (mode B). The ISO library \<^verbatim>\<open>go-diskfs\<close> is a parameter.
\<close>

section \<open>The reconciler\<close>

text \<open>
  What \<^verbatim>\<open>diskfs.Open\<close> and \<^verbatim>\<open>GetFilesystem\<close> make of the image, given what reading it gave: the text of
  the error of the first, the text of the error of the second, or how a file opens: the text of an
  error, or the bytes of the file and the error that reading it ends with, if any.
\<close>

type_synonym iso_files = "string \<Rightarrow> string + string \<times> string option"

record 's BootConfigReconciler =
  bcr_Client :: "'s Client"
  bcr_DataDir :: string
  bcr_diskfs :: "os_error + string \<Rightarrow> string + (string + iso_files)"

section \<open>Status\<close>

definition BootConfig_update :: "'s BootConfigReconciler \<Rightarrow> BootConfig \<Rightarrow> int \<Rightarrow> ('s, ctrl_out) io" where
  "BootConfig_update r bc requeue = do {
     u \<leftarrow> api_write (ConfigStatus bc) (Update_BootConfig_status (bcr_Client r) bc);
     (case u of
        Inl err \<Rightarrow> State_Monad.return (ReconcileError (Wrapped ''updating status: '' (ApiErr err) []))
      | Inr _ \<Rightarrow> State_Monad.return (Result requeue))
   }"

definition BootConfig_setReady :: "'s BootConfigReconciler \<Rightarrow> BootConfig \<Rightarrow> ('s, ctrl_out) io" where
  "BootConfig_setReady r bc =
     (if bc_Phase (bc_Status bc) = BootConfigPhaseReady then State_Monad.return (Result 0)
      else BootConfig_update r
             (bc\<lparr>bc_Status := (bc_Status bc)\<lparr>bc_Phase := BootConfigPhaseReady, bc_Message := []\<rparr>\<rparr>) 0)"

definition setPending :: "'s BootConfigReconciler \<Rightarrow> BootConfig \<Rightarrow> string \<Rightarrow> ('s, ctrl_out) io" where
  "setPending r bc message =
     (if bc_Phase (bc_Status bc) = BootConfigPhasePending \<and> bc_Message (bc_Status bc) = message
      then State_Monad.return (Result (5 * Second))
      else BootConfig_update r
             (bc\<lparr>bc_Status := (bc_Status bc)\<lparr>bc_Phase := BootConfigPhasePending, bc_Message := message\<rparr>\<rparr>)
             (5 * Second))"

definition setError :: "'s BootConfigReconciler \<Rightarrow> BootConfig \<Rightarrow> string \<Rightarrow> ('s, ctrl_out) io" where
  "setError r bc message =
     (if bc_Phase (bc_Status bc) = BootConfigPhaseError \<and> bc_Message (bc_Status bc) = message
      then State_Monad.return (Result (10 * Second))
      else BootConfig_update r
             (bc\<lparr>bc_Status := (bc_Status bc)\<lparr>bc_Phase := BootConfigPhaseError, bc_Message := message\<rparr>\<rparr>)
             (10 * Second))"

section \<open>Links\<close>

definition getArtifact ::
  "'s BootConfigReconciler \<Rightarrow> string \<Rightarrow> string \<Rightarrow> ('s, api_error + BootArtifact) io" where
  "getArtifact r name namespace = api_call (Get_BootArtifact (bcr_Client r) namespace name)"

text \<open>\<^verbatim>\<open>for _, e := range entries { _ = os.RemoveAll(filepath.Join(dir, e.Name())) }\<close>.\<close>

fun remove_entries :: "string \<Rightarrow> string list \<Rightarrow> ('s, unit) io" where
  "remove_entries dir [] = State_Monad.return ()"
| "remove_entries dir (e # es) = do {
     _ \<leftarrow> os_RemoveAll (Join [dir, e]);
     remove_entries dir es
   }"

definition ensureSymlink :: "string \<Rightarrow> string \<Rightarrow> string \<Rightarrow> ('s, go_error + unit) io" where
  "ensureSymlink dir filename target =
     (let link = Join [dir, filename] in do {
        existing \<leftarrow> os_Readlink link;
        if existing = Inr target then State_Monad.return (Inr ())
        else do {
          entries \<leftarrow> os_ReadDir dir;
          (case entries of
             Inl err \<Rightarrow> State_Monad.return (Inl (Wrapped (''reading dir '' @ dir @ '': '') (OsErr err) []))
           | Inr es \<Rightarrow> do {
               _ \<leftarrow> remove_entries dir es;
               l \<leftarrow> os_Symlink target link;
               State_Monad.return (map_err OsErr l)
             })
        }
      })"

definition ensureFileSymlink :: "string \<Rightarrow> string \<Rightarrow> ('s, go_error + unit) io" where
  "ensureFileSymlink link target = do {
     existing \<leftarrow> os_Readlink link;
     if existing = Inr target then State_Monad.return (Inr ())
     else do {
       _ \<leftarrow> os_Remove link;
       l \<leftarrow> os_Symlink target link;
       State_Monad.return (map_err OsErr l)
     }
   }"

section \<open>Extraction from an ISO image\<close>

definition maxExtractedFileSize :: nat where
  "maxExtractedFileSize = 1073741824"

definition isSafeISOPath :: "string \<Rightarrow> bool" where
  "isSafeISOPath p \<longleftrightarrow> p \<noteq> [] \<and> ''..'' \<notin> set (split_on slash p)"

definition upToDate :: "string \<Rightarrow> nat \<Rightarrow> ('s, bool) io" where
  "upToDate dst srcModTime = do {
     info \<leftarrow> os_Stat dst;
     State_Monad.return (case info of Inl _ \<Rightarrow> False | Inr n \<Rightarrow> srcModTime < mod_time n)
   }"

text \<open>From the open temporary file to the rename.\<close>

definition extract_into ::
  "string \<Rightarrow> string \<times> string option \<Rightarrow> string \<Rightarrow> string \<Rightarrow> path \<Rightarrow> ('s, go_error + unit) io" where
  "extract_into src f dst tmpPath h =
     (let content = take (maxExtractedFileSize + 1) (fst f);
          rerr = (if maxExtractedFileSize < length (fst f) then None else snd f) in do {
        n \<leftarrow> io_Copy tmpPath h content rerr;
        (case n of
           Inl err \<Rightarrow> State_Monad.return (Inl (PlainErr (''copying '' @ quote src @ '': '' @ err)))
         | Inr k \<Rightarrow>
             if maxExtractedFileSize < k
             then State_Monad.return
                    (Inl (PlainErr (''file '' @ quote src @ '' exceeds max extract size ''
                                    @ itoa (int maxExtractedFileSize) @ '' bytes'')))
             else do {
               cl \<leftarrow> os_Close tmpPath;
               (case cl of
                  Inl err \<Rightarrow> State_Monad.return (Inl (Wrapped ''closing temp file: '' (OsErr err) []))
                | Inr _ \<Rightarrow> do {
                    cm \<leftarrow> os_Chmod tmpPath 292;
                    (case cm of
                       Inl err \<Rightarrow> State_Monad.return (Inl (Wrapped ''setting permissions: '' (OsErr err) []))
                     | Inr _ \<Rightarrow> do {
                         rn \<leftarrow> os_Rename tmpPath dst;
                         (case rn of
                            Inl err \<Rightarrow> State_Monad.return (Inl (Wrapped ''renaming temp file: '' (OsErr err) []))
                          | Inr _ \<Rightarrow> State_Monad.return (Inr ()))
                       })
                  })
             })
      })"

definition extractFile :: "iso_files \<Rightarrow> string \<Rightarrow> string \<Rightarrow> ('s, go_error + unit) io" where
  "extractFile files src dst =
     (case files (slash # trim_prefix [slash] src) of
        Inl err \<Rightarrow> State_Monad.return (Inl (PlainErr (''opening '' @ quote src @ '' in iso: '' @ err)))
      | Inr f \<Rightarrow> do {
          tmp \<leftarrow> os_CreateTemp (Dir dst) ''.extract-'';
          (case tmp of
             Inl err \<Rightarrow> State_Monad.return (Inl (Wrapped ''creating temp file: '' (OsErr err) []))
           | Inr (tmpPath, h) \<Rightarrow> do {
               res \<leftarrow> extract_into src f dst tmpPath h;
               _ \<leftarrow> os_Close tmpPath;
               _ \<leftarrow> os_Remove tmpPath;
               State_Monad.return res
             })
        })"

fun extract_targets :: "iso_files \<Rightarrow> (string \<times> string) list \<Rightarrow> ('s, go_error + unit) io" where
  "extract_targets files [] = State_Monad.return (Inr ())"
| "extract_targets files ((src, dst) # ts) = do {
     e \<leftarrow> extractFile files src dst;
     (case e of
        Inl err \<Rightarrow> State_Monad.return (Inl err)
      | Inr _ \<Rightarrow> extract_targets files ts)
   }"

text \<open>The image as \<^verbatim>\<open>diskfs\<close> reads it.\<close>

definition read_image :: "string \<Rightarrow> ('s, os_error + string) io" where
  "read_image p = do {
     f \<leftarrow> os_Open p;
     (case f of
        Inl err \<Rightarrow> State_Monad.return (Inl err)
      | Inr h \<Rightarrow> os_ReadAll p h)
   }"

definition extractFromISO ::
  "(os_error + string \<Rightarrow> string + (string + iso_files)) \<Rightarrow> string \<Rightarrow> string \<Rightarrow> string \<Rightarrow> string
   \<Rightarrow> ('s, go_error + unit) io" where
  "extractFromISO diskfs isoPath kernelPath initrdPath outputDir = do {
     isoInfo \<leftarrow> os_Stat isoPath;
     (case isoInfo of
        Inl err \<Rightarrow> State_Monad.return (Inl (Wrapped (''stat iso '' @ quote isoPath @ '': '') (OsErr err) []))
      | Inr info \<Rightarrow>
          let kernelDst = Join [outputDir, ''vmlinuz''];
              initrdDst = Join [outputDir, ''initrd''] in do {
            k \<leftarrow> upToDate kernelDst (mod_time info);
            current \<leftarrow> (if k then upToDate initrdDst (mod_time info) else State_Monad.return False);
            if current then State_Monad.return (Inr ())
            else do {
              image \<leftarrow> read_image isoPath;
              (case diskfs image of
                 Inl err \<Rightarrow> State_Monad.return (Inl (PlainErr (''opening iso '' @ quote isoPath @ '': '' @ err)))
               | Inr (Inl err) \<Rightarrow> State_Monad.return (Inl (PlainErr (''reading iso filesystem: '' @ err)))
               | Inr (Inr files) \<Rightarrow>
                   extract_targets files [(kernelPath, kernelDst), (initrdPath, initrdDst)])
            }
          })
   }"

definition reconcileISO ::
  "'s BootConfigReconciler \<Rightarrow> BootConfig \<Rightarrow> BootConfigISOSpec \<Rightarrow> ('s, ctrl_out) io" where
  "reconcileISO r bc isoSpec =
     (if \<not> isSafeISOPath (iso_KernelPath isoSpec) then
        setError r bc (''invalid kernelPath '' @ quote (iso_KernelPath isoSpec) @ '': path traversal not allowed'')
      else if \<not> isSafeISOPath (iso_InitrdPath isoSpec) then
        setError r bc (''invalid initrdPath '' @ quote (iso_InitrdPath isoSpec) @ '': path traversal not allowed'')
      else do {
        g \<leftarrow> getArtifact r (iso_ArtifactRef isoSpec) (om_namespace (bc_meta bc));
        (case g of
           Inl err \<Rightarrow>
             if \<not> IsNotFound (ApiErr err) then State_Monad.return (ReconcileError (ApiErr err))
             else setError r bc (''iso artifact '' @ quote (iso_ArtifactRef isoSpec) @ '' not found'')
         | Inr isoArtifact \<Rightarrow>
             if ba_Phase (ba_Status isoArtifact) \<noteq> BootArtifactPhaseReady
             then setPending r bc (''waiting for iso artifact '' @ quote (iso_ArtifactRef isoSpec) @ '' to be Ready'')
             else
               let isoFilename = FilenameFromURL (ba_URL (ba_Spec isoArtifact));
                   isoPath = Join [bcr_DataDir r, ''artifacts'', om_name (ba_meta isoArtifact), isoFilename];
                   bootDir = Join [bcr_DataDir r, ''boot'', om_name (bc_meta bc)] in do {
                 mk \<leftarrow> os_MkdirAll bootDir;
                 (case mk of
                    Inl err \<Rightarrow> setError r bc (''creating boot dir: '' @ os_error_text err)
                  | Inr _ \<Rightarrow> do {
                      x \<leftarrow> extractFromISO (bcr_diskfs r) isoPath (iso_KernelPath isoSpec) (iso_InitrdPath isoSpec) bootDir;
                      (case x of
                         Inl err \<Rightarrow> setError r bc (''extracting from iso: '' @ error_text err)
                       | Inr _ \<Rightarrow> do {
                           l \<leftarrow> ensureFileSymlink (Join [bootDir, isoFilename])
                                  (Join [''..'', ''..'', ''artifacts'', om_name (ba_meta isoArtifact), isoFilename]);
                           (case l of
                              Inl err \<Rightarrow> setError r bc (''creating iso symlink: '' @ error_text err)
                            | Inr _ \<Rightarrow> BootConfig_setReady r bc)
                         })
                    })
               })
      })"


section \<open>Concatenation\<close>

definition copy_source :: "string \<Rightarrow> path \<Rightarrow> string \<Rightarrow> ('s, go_error + unit) io" where
  "copy_source tmpPath h src = do {
     f \<leftarrow> os_Open src;
     (case f of
        Inl err \<Rightarrow> State_Monad.return (Inl (Wrapped (''opening '' @ src @ '': '') (OsErr err) []))
      | Inr sh \<Rightarrow> do {
          d \<leftarrow> os_ReadAll src sh;
          n \<leftarrow> (case d of
                 Inl err \<Rightarrow> State_Monad.return (Inl err)
               | Inr c \<Rightarrow> os_Write tmpPath h c);
          _ \<leftarrow> os_Close src;
          State_Monad.return
            (case n of
               Inl err \<Rightarrow> Inl (Wrapped (''copying '' @ src @ '': '') (OsErr err) [])
             | Inr _ \<Rightarrow> Inr ())
        })
   }"

fun copy_sources :: "string \<Rightarrow> path \<Rightarrow> string list \<Rightarrow> ('s, go_error + unit) io" where
  "copy_sources tmpPath h [] = State_Monad.return (Inr ())"
| "copy_sources tmpPath h (src # srcs) = do {
     e \<leftarrow> copy_source tmpPath h src;
     (case e of
        Inl err \<Rightarrow> State_Monad.return (Inl err)
      | Inr _ \<Rightarrow> copy_sources tmpPath h srcs)
   }"

text \<open>From the open temporary file to the rename.\<close>

definition concat_into :: "string \<Rightarrow> string list \<Rightarrow> string \<Rightarrow> path \<Rightarrow> ('s, go_error + unit) io" where
  "concat_into dst srcs tmpPath h = do {
     e \<leftarrow> copy_sources tmpPath h srcs;
     (case e of
        Inl err \<Rightarrow> State_Monad.return (Inl err)
      | Inr _ \<Rightarrow> do {
          cl \<leftarrow> os_Close tmpPath;
          (case cl of
             Inl err \<Rightarrow> State_Monad.return (Inl (Wrapped ''closing temp file: '' (OsErr err) []))
           | Inr _ \<Rightarrow> do {
               cm \<leftarrow> os_Chmod tmpPath 292;
               (case cm of
                  Inl err \<Rightarrow> State_Monad.return (Inl (Wrapped ''setting permissions: '' (OsErr err) []))
                | Inr _ \<Rightarrow> do {
                    rn \<leftarrow> os_Rename tmpPath dst;
                    (case rn of
                       Inl err \<Rightarrow> State_Monad.return (Inl (Wrapped ''renaming temp file: '' (OsErr err) []))
                     | Inr _ \<Rightarrow> State_Monad.return (Inr ()))
                  })
             })
        })
   }"

text \<open>Whether the concatenation exists and is newer than both sources.\<close>

definition concat_current :: "string \<Rightarrow> string \<Rightarrow> string \<Rightarrow> ('s, go_error + bool) io" where
  "concat_current dst srcA srcB = do {
     d \<leftarrow> os_Stat dst;
     (case d of
        Inl _ \<Rightarrow> State_Monad.return (Inr False)
      | Inr dstInfo \<Rightarrow> do {
          a \<leftarrow> os_Stat srcA;
          (case a of
             Inl err \<Rightarrow> State_Monad.return (Inl (Wrapped ''stat initrd: '' (OsErr err) []))
           | Inr srcAInfo \<Rightarrow> do {
               b \<leftarrow> os_Stat srcB;
               (case b of
                  Inl err \<Rightarrow> State_Monad.return (Inl (Wrapped ''stat firmware: '' (OsErr err) []))
                | Inr srcBInfo \<Rightarrow>
                    State_Monad.return
                      (Inr (mod_time srcAInfo < mod_time dstInfo \<and> mod_time srcBInfo < mod_time dstInfo)))
             })
        })
   }"

definition concatenateFiles :: "string \<Rightarrow> string \<Rightarrow> string \<Rightarrow> ('s, go_error + unit) io" where
  "concatenateFiles dst srcA srcB = do {
     cur \<leftarrow> concat_current dst srcA srcB;
     (case cur of
        Inl err \<Rightarrow> State_Monad.return (Inl err)
      | Inr current \<Rightarrow>
          if current then State_Monad.return (Inr ())
          else let dir = Dir dst in do {
            entries \<leftarrow> os_ReadDir dir;
            (case entries of
               Inl err \<Rightarrow> State_Monad.return (Inl (Wrapped (''reading dir '' @ dir @ '': '') (OsErr err) []))
             | Inr es \<Rightarrow> do {
                 _ \<leftarrow> remove_entries dir es;
                 tmp \<leftarrow> os_CreateTemp dir ''.concat-'';
                 (case tmp of
                    Inl err \<Rightarrow> State_Monad.return (Inl (Wrapped ''creating temp file: '' (OsErr err) []))
                  | Inr (tmpPath, h) \<Rightarrow> do {
                      res \<leftarrow> concat_into dst [srcA, srcB] tmpPath h;
                      _ \<leftarrow> os_Close tmpPath;
                      _ \<leftarrow> os_Remove tmpPath;
                      State_Monad.return res
                    })
               })
          })
   }"

section \<open>Reconcile\<close>

text \<open>The boot directory from the ready artifacts.\<close>

definition assemble ::
  "'s BootConfigReconciler \<Rightarrow> BootConfig \<Rightarrow> BootArtifact \<Rightarrow> BootArtifact \<Rightarrow> BootArtifact option
   \<Rightarrow> ('s, ctrl_out) io" where
  "assemble r bc kernelArtifact initrdArtifact firmwareArtifact =
     (let bootDir = Join [bcr_DataDir r, ''boot'', om_name (bc_meta bc)];
          kernelFilename = FilenameFromURL (ba_URL (ba_Spec kernelArtifact));
          initrdFilename = FilenameFromURL (ba_URL (ba_Spec initrdArtifact));
          kernelDir = Join [bootDir, ''kernel''];
          initrdDir = Join [bootDir, ''initrd''] in do {
        mk \<leftarrow> os_MkdirAll kernelDir;
        (case mk of
           Inl err \<Rightarrow> setError r bc (''creating kernel dir: '' @ os_error_text err)
         | Inr _ \<Rightarrow> do {
             mi \<leftarrow> os_MkdirAll initrdDir;
             (case mi of
                Inl err \<Rightarrow> setError r bc (''creating initrd dir: '' @ os_error_text err)
              | Inr _ \<Rightarrow> do {
                  k \<leftarrow> ensureSymlink kernelDir kernelFilename
                         (Join [''..'', ''..'', ''..'', ''artifacts'', om_name (ba_meta kernelArtifact), kernelFilename]);
                  (case k of
                     Inl err \<Rightarrow> setError r bc (''creating kernel symlink: '' @ error_text err)
                   | Inr _ \<Rightarrow>
                       (case firmwareArtifact of
                          Some fw \<Rightarrow> do {
                            c \<leftarrow> concatenateFiles (Join [initrdDir, initrdFilename])
                                   (Join [bcr_DataDir r, ''artifacts'', om_name (ba_meta initrdArtifact), initrdFilename])
                                   (Join [bcr_DataDir r, ''artifacts'', om_name (ba_meta fw),
                                          FilenameFromURL (ba_URL (ba_Spec fw))]);
                            (case c of
                               Inl err \<Rightarrow> setError r bc (''concatenating initrd + firmware: '' @ error_text err)
                             | Inr _ \<Rightarrow> BootConfig_setReady r bc)
                          }
                        | None \<Rightarrow> do {
                            l \<leftarrow> ensureSymlink initrdDir initrdFilename
                                   (Join [''..'', ''..'', ''..'', ''artifacts'', om_name (ba_meta initrdArtifact), initrdFilename]);
                            (case l of
                               Inl err \<Rightarrow> setError r bc (''creating initrd symlink: '' @ error_text err)
                             | Inr _ \<Rightarrow> BootConfig_setReady r bc)
                          }))
                })
           })
      })"

definition reconcileNetboot ::
  "'s BootConfigReconciler \<Rightarrow> BootConfig \<Rightarrow> BootConfigNetbootSpec \<Rightarrow> ('s, ctrl_out) io" where
  "reconcileNetboot r bc nb = do {
     k \<leftarrow> getArtifact r (nb_KernelRef nb) (om_namespace (bc_meta bc));
     (case k of
        Inl err \<Rightarrow>
          if \<not> IsNotFound (ApiErr err) then State_Monad.return (ReconcileError (ApiErr err))
          else setError r bc (''kernel artifact '' @ quote (nb_KernelRef nb) @ '' not found'')
      | Inr kernelArtifact \<Rightarrow> do {
          i \<leftarrow> getArtifact r (nb_InitrdRef nb) (om_namespace (bc_meta bc));
          (case i of
             Inl err \<Rightarrow>
               if \<not> IsNotFound (ApiErr err) then State_Monad.return (ReconcileError (ApiErr err))
               else setError r bc (''initrd artifact '' @ quote (nb_InitrdRef nb) @ '' not found'')
           | Inr initrdArtifact \<Rightarrow>
               if ba_Phase (ba_Status kernelArtifact) \<noteq> BootArtifactPhaseReady
               then setPending r bc (''waiting for kernel artifact '' @ quote (nb_KernelRef nb) @ '' to be Ready'')
               else if ba_Phase (ba_Status initrdArtifact) \<noteq> BootArtifactPhaseReady
               then setPending r bc (''waiting for initrd artifact '' @ quote (nb_InitrdRef nb) @ '' to be Ready'')
               else if nb_FirmwareRef nb \<noteq> [] then do {
                 w \<leftarrow> getArtifact r (nb_FirmwareRef nb) (om_namespace (bc_meta bc));
                 (case w of
                    Inl err \<Rightarrow>
                      if \<not> IsNotFound (ApiErr err) then State_Monad.return (ReconcileError (ApiErr err))
                      else setError r bc (''firmware artifact '' @ quote (nb_FirmwareRef nb) @ '' not found'')
                  | Inr fw \<Rightarrow>
                      if ba_Phase (ba_Status fw) \<noteq> BootArtifactPhaseReady
                      then setPending r bc (''waiting for firmware artifact '' @ quote (nb_FirmwareRef nb) @ '' to be Ready'')
                      else assemble r bc kernelArtifact initrdArtifact (Some fw))
               }
               else assemble r bc kernelArtifact initrdArtifact None)
        })
   }"

definition BootConfig_Reconcile :: "'s BootConfigReconciler \<Rightarrow> string \<Rightarrow> string \<Rightarrow> ('s, ctrl_out) io" where
  "BootConfig_Reconcile r ns name = do {
     g \<leftarrow> api_call (Get_BootConfig (bcr_Client r) ns name);
     (case g of
        Inl err \<Rightarrow>
          if \<not> IsNotFound (ApiErr err) then State_Monad.return (ReconcileError (ApiErr err))
          else do {
            _ \<leftarrow> os_RemoveAll (Join [bcr_DataDir r, ''boot'', name]);
            State_Monad.return (Result 0)
          }
      | Inr bc \<Rightarrow>
          (case bc_ISO (bc_Spec bc) of
             Some isoSpec \<Rightarrow> reconcileISO r bc isoSpec
           | None \<Rightarrow>
               (case bc_Netboot (bc_Spec bc) of
                  None \<Rightarrow> State_Monad.return (Result 0)
                | Some nb \<Rightarrow> reconcileNetboot r bc nb)))
   }"

section \<open>Which configs an artifact concerns\<close>

definition references :: "BootConfig \<Rightarrow> string \<Rightarrow> bool" where
  "references bc name \<longleftrightarrow>
     (case bc_Netboot (bc_Spec bc) of
        Some nb \<Rightarrow> nb_KernelRef nb = name \<or> nb_InitrdRef nb = name \<or> nb_FirmwareRef nb = name
      | None \<Rightarrow> False)
     \<or> (case bc_ISO (bc_Spec bc) of Some i \<Rightarrow> iso_ArtifactRef i = name | None \<Rightarrow> False)"

definition findBootConfigsForArtifact ::
  "'s BootConfigReconciler \<Rightarrow> string \<Rightarrow> string \<Rightarrow> ('s, (string \<times> string) list) io" where
  "findBootConfigsForArtifact r ns name = do {
     l \<leftarrow> api_call (List_BootConfigs (bcr_Client r) ns);
     State_Monad.return
       (case l of
          Inl _ \<Rightarrow> []
        | Inr items \<Rightarrow>
            map (\<lambda>bc. (om_namespace (bc_meta bc), om_name (bc_meta bc)))
              (filter (\<lambda>bc. references bc name) items))
   }"

end
