(* ===== verification/DirRules.thy ===== *)
theory DirRules
  imports CalmRules
begin

text \<open>
  What programs that work inside one directory can change. The locale \<open>dir_client\<close> is the interface
  between an invariant of the file system and the code that fills a directory: the invariant has to
  survive the changes that stay inside the directory, and every call below then keeps it, under any
  schedule of faults.
\<close>

section \<open>Names\<close>

text \<open>The names in a directory are names: this is what a file system of the kernel guarantees.\<close>

definition wf_names :: "fsys \<Rightarrow> bool" where
  "wf_names fs \<longleftrightarrow> (\<forall>q c. look fs q \<noteq> None \<longrightarrow> c \<in> set q \<longrightarrow> safe_component c)"

text \<open>The string \<open>s\<close> names the directory \<open>d\<close>.\<close>

definition dir_name :: "string \<Rightarrow> path \<Rightarrow> bool" where
  "dir_name s d \<longleftrightarrow> rooted s \<and> clean_comps s = d \<and> comps s = d"

lemma dir_name_safe: "dir_name s d \<Longrightarrow> c \<in> set d \<Longrightarrow> safe_component c"
  by (auto simp: dir_name_def dest: clean_comps_rooted_safe)

lemma dir_name_no_dotdot: "dir_name s d \<Longrightarrow> no_dotdot d"
  unfolding no_dotdot_def by (metis dir_name_safe safe_componentD(3))

lemma dir_name_Join:
  assumes "rooted s" and "\<And>c. c \<in> set cs \<Longrightarrow> safe_component c" and "cs \<noteq> []"
  shows "dir_name (Join (s # cs)) (clean_comps s @ cs)"
  using assms by (simp add: dir_name_def rooted_Join clean_comps_Join_rooted comps_Join_rooted)

lemma dir_name_sub: "dir_name s d \<Longrightarrow> safe_component c \<Longrightarrow> dir_name (Join [s, c]) (d @ [c])"
  using dir_name_Join [of s "[c]"] by (simp add: dir_name_def)

lemma Join_eq:
  assumes "dir_name s d" and "dir_name s' d" and "safe_component f"
  shows "Join [s, f] = Join [s', f]"
  using assms Join_rooted [of s "[f]"] Join_rooted [of s' "[f]"] by (simp add: dir_name_def)

lemma dir_name_Dir:
  assumes "dir_name s d" and "safe_component f"
  shows "dir_name (Dir (Join [s, f])) d"
proof -
  have d: "\<And>c. c \<in> set d \<Longrightarrow> safe_component c" using dir_name_safe [OF assms(1)] .
  have "Dir (Join [s, f]) = slash # join_with [slash] d"
    using Dir_Join_rooted [of s "[]" f] assms by (simp add: dir_name_def)
  then show ?thesis
    using d by (simp add: dir_name_def clean_comps_of_safe comps_join_safe rooted_def)
qed

lemma comps_append_slash: "comps (a @ slash # b) = comps a @ comps b"
  by (simp add: comps_def split_on_append)

lemma comps_safe: "safe_component c \<Longrightarrow> comps c = [c]"
  by (simp add: comps_def split_on_free safe_component_def)

lemma children_safe: "wf_names fs \<Longrightarrow> c \<in> set (children p fs) \<Longrightarrow> safe_component c"
  by (auto simp: set_children wf_names_def)

section \<open>Changes inside a directory\<close>

text \<open>
  Below the directory, entries may disappear and new nodes must be good; above it, missing
  directories may be made.
\<close>

definition dir_change :: "(path \<Rightarrow> node \<Rightarrow> bool) \<Rightarrow> path \<Rightarrow> fsys \<Rightarrow> fsys \<Rightarrow> bool" where
  "dir_change good d fs fs' \<longleftrightarrow>
     (\<forall>q. look fs' q \<noteq> look fs q \<longrightarrow>
        (below d q \<and> q \<noteq> d
          \<and> (\<forall>n. look fs' q = Some n \<longrightarrow> good q n \<and> (\<exists>c. q = d @ [c] \<and> safe_component c)))
        \<or> (below q d \<and> look fs q = None \<and> (\<exists>t. look fs' q = Some (DirN t))))"

lemma dir_change_refl [simp]: "dir_change good d fs fs"
  by (simp add: dir_change_def)

lemma dir_change_delI:
  assumes "\<And>q. look fs' q \<noteq> look fs q \<Longrightarrow> below (d @ [e]) q \<and> look fs' q = None"
  shows "dir_change good d fs fs'"
  unfolding dir_change_def
proof (intro allI impI disjI1)
  fix q assume "look fs' q \<noteq> look fs q"
  from assms [OF this] show "below d q \<and> q \<noteq> d
      \<and> (\<forall>n. look fs' q = Some n \<longrightarrow> good q n \<and> (\<exists>c. q = d @ [c] \<and> safe_component c))"
    by (auto simp: below_iff)
qed

lemma dir_change_putI:
  assumes "\<And>q. look fs' q \<noteq> look fs q \<Longrightarrow> \<exists>e. q = d @ [e] \<and> safe_component e \<and> (\<forall>n. look fs' q = Some n \<longrightarrow> good q n)"
  shows "dir_change good d fs fs'"
  unfolding dir_change_def
proof (intro allI impI disjI1)
  fix q assume "look fs' q \<noteq> look fs q"
  from assms [OF this] show "below d q \<and> q \<noteq> d
      \<and> (\<forall>n. look fs' q = Some n \<longrightarrow> good q n \<and> (\<exists>c. q = d @ [c] \<and> safe_component c))"
    by (auto simp: below_iff)
qed

lemma dir_change_names:
  assumes "wf_names fs" and "dir_change good d fs fs'" and "\<And>c. c \<in> set d \<Longrightarrow> safe_component c"
  shows "wf_names fs'"
  unfolding wf_names_def
proof (intro allI impI)
  fix q c assume q: "look fs' q \<noteq> None" and c: "c \<in> set q"
  show "safe_component c"
  proof (cases "look fs' q = look fs q")
    case True
    then show ?thesis using assms(1) q c by (auto simp: wf_names_def)
  next
    case False
    with assms(2) have "(\<exists>c. q = d @ [c] \<and> safe_component c) \<or> below q d"
      using q unfolding dir_change_def by blast
    then show ?thesis using c assms(3) by (auto simp: below_iff)
  qed
qed

lemma dir_change_plain: "plain fs d \<Longrightarrow> dir_change good d fs fs' \<Longrightarrow> plain fs' d"
  unfolding plain_def
proof (intro allI impI notI)
  fix q assume p: "\<forall>q. below q d \<longrightarrow> \<not> is_link fs q" and ch: "dir_change good d fs fs'"
    and q: "below q d" and l: "is_link fs' q"
  then have "look fs' q \<noteq> look fs q" by (auto simp: is_link_def)
  then have "below d q \<and> q \<noteq> d" using ch l unfolding dir_change_def is_link_def by fastforce
  then show False using q by (auto simp: below_iff)
qed

lemma entry_resolve:
  assumes "dir_name s d" and "safe_component e" and "plain fs d" and "resolve False fs (Join [s, e]) = Inr q"
  shows "q = d @ [e]"
proof (rule resolve_nofollow [OF assms(4) _ _ assms(3)])
  show "comps (Join [s, e]) = d @ [e]" using dir_name_sub [OF assms(1,2)] by (simp add: dir_name_def)
  show "no_dotdot (d @ [e])"
    using dir_name_no_dotdot [OF assms(1)] safe_componentD(3) [OF assms(2)] by (auto simp: no_dotdot_def)
qed

lemma temp_resolve:
  assumes "dir_name s d" and "safe_component e" and "plain fs d" and "resolve False fs (s @ slash # e) = Inr q"
  shows "q = d @ [e]"
proof (rule resolve_nofollow [OF assms(4) _ _ assms(3)])
  show "comps (s @ slash # e) = d @ [e]"
    using assms(1,2) by (simp add: comps_append_slash comps_safe dir_name_def)
  show "no_dotdot (d @ [e])"
    using dir_name_no_dotdot [OF assms(1)] safe_componentD(3) [OF assms(2)] by (auto simp: no_dotdot_def)
qed

lemma dir_change_remove_all:
  assumes "dir_name s d" and "safe_component e" and "plain fs d" and "fs_remove_all (Join [s, e]) fs = (r, fs')"
  shows "dir_change good d fs fs'"
proof (rule dir_change_delI)
  fix q assume "look fs' q \<noteq> look fs q"
  from fs_remove_all_frame [OF assms(4) this] show "below (d @ [e]) q \<and> look fs' q = None"
    using entry_resolve [OF assms(1-3)] by blast
qed

lemma dir_change_remove_some:
  assumes "dir_name s d" and "safe_component e" and "plain fs d"
  shows "dir_change good d fs (fs_remove_some (Join [s, e]) k fs)"
proof (rule dir_change_delI)
  fix q assume "look (fs_remove_some (Join [s, e]) k fs) q \<noteq> look fs q"
  from fs_remove_some_frame [OF this]
  show "below (d @ [e]) q \<and> look (fs_remove_some (Join [s, e]) k fs) q = None"
    using entry_resolve [OF assms] by blast
qed

lemma dir_change_symlink:
  assumes "dir_name s d" and "safe_component e" and "plain fs d" and "fs_symlink target (Join [s, e]) fs = (r, fs')"
    and "good (d @ [e]) (LinkN target)"
  shows "dir_change good d fs fs'"
proof (rule dir_change_putI)
  fix q assume "look fs' q \<noteq> look fs q"
  from fs_symlink_frame [OF assms(4) this]
  show "\<exists>e. q = d @ [e] \<and> safe_component e \<and> (\<forall>n. look fs' q = Some n \<longrightarrow> good q n)"
    using entry_resolve [OF assms(1-3)] assms(2,5) by (metis option.inject)
qed

lemma dir_change_remove:
  assumes "dir_name s d" and "safe_component e" and "plain fs d"
    and "fs_remove p fs = (r, fs')" and "p = Join [s, e] \<or> p = s @ slash # e"
  shows "dir_change good d fs fs'"
proof (rule dir_change_delI)
  fix q assume "look fs' q \<noteq> look fs q"
  from fs_remove_frame [OF assms(4) this] have q: "resolve False fs p = Inr q" "look fs' q = None" by auto
  from assms(5) have "q = d @ [e]"
    using entry_resolve [OF assms(1-3)] temp_resolve [OF assms(1-3)] q(1) by auto
  then show "below (d @ [e]) q \<and> look fs' q = None" using q(2) by simp
qed

lemma dir_change_mkdir:
  assumes "dir_name s d" and "plain fs d"
  shows "fs_mkdir_all s t fs = (r, fs') \<Longrightarrow> dir_change good d fs fs'"
    and "dir_change good d fs (fs_mkdir_some s k t fs)"
proof -
  have c: "comps s = d" and nd: "no_dotdot d" using assms(1) dir_name_no_dotdot by (auto simp: dir_name_def)
  have up: "dir_change good d fs fs'"
    if "\<And>q. look fs' q \<noteq> look fs q \<Longrightarrow> below q d \<and> look fs q = None \<and> look fs' q = Some (DirN t)" for fs'
    unfolding dir_change_def using that by blast
  have pl: "plain fs (comps s)" and nd: "no_dotdot (comps s)" using c nd assms(2) by simp_all
  show "dir_change good d fs fs'" if "fs_mkdir_all s t fs = (r, fs')"
    using fs_mkdir_all_where [OF that _ pl nd] fs_mkdir_all_frame [OF that] c by (intro up) simp
  show "dir_change good d fs (fs_mkdir_some s k t fs)"
    using fs_mkdir_some_where [OF _ pl nd] fs_mkdir_some_frame c by (intro up) simp
qed

text \<open>Writing to and chmodding a temporary file of the directory, and renaming it onto an entry.\<close>

lemma dir_change_append:
  assumes "fs_append (d @ [e]) c t fs = (r, fs')" and "safe_component e" and "\<And>c t m. good (d @ [e]) (FileN c t m)"
  shows "dir_change good d fs fs'"
proof (rule dir_change_putI)
  fix q assume "look fs' q \<noteq> look fs q"
  from fs_append_frame [OF assms(1) this] fs_append_file [OF assms(1) this]
  show "\<exists>e. q = d @ [e] \<and> safe_component e \<and> (\<forall>n. look fs' q = Some n \<longrightarrow> good q n)"
    using assms(2,3) by (metis option.inject)
qed

lemma dir_change_chmod:
  assumes "dir_name s d" and "safe_component e" and "plain fs d" and "\<not> is_link fs (d @ [e])"
    and "fs_chmod (s @ slash # e) m fs = (r, fs')" and "\<And>c t m. good (d @ [e]) (FileN c t m)"
  shows "dir_change good d fs fs'"
proof -
  have "q = d @ [e]" if "look fs' q \<noteq> look fs q" for q
  proof -
    have "q = comps (s @ slash # e)"
    proof (rule resolve_plain [OF fs_chmod_frame [OF assms(5) that]])
      have c: "comps (s @ slash # e) = d @ [e]"
        using assms(1,2) by (simp add: comps_append_slash comps_safe dir_name_def)
      show "no_dotdot (comps (s @ slash # e))" unfolding c
        using dir_name_no_dotdot [OF assms(1)] safe_componentD(3) [OF assms(2)] by (auto simp: no_dotdot_def)
      show "plain fs (comps (s @ slash # e))" unfolding c using assms(3,4) by (simp add: plain_snoc)
    qed
    then show ?thesis using assms(1,2) by (simp add: comps_append_slash comps_safe dir_name_def)
  qed
  then show ?thesis
    using fs_chmod_file [OF assms(5)] assms(2,6) by (intro dir_change_putI) (metis option.inject)
qed

lemma rename_in_dir:
  assumes "dir_name s d" and "safe_component e" and "safe_component f" and "plain fs d"
    and "fs_rename (s @ slash # e) (Join [s, f]) fs = (Inr u, fs')"
  shows "\<exists>n. look fs (d @ [e]) = Some n \<and> fs' = put (d @ [f]) n (del (d @ [e]) fs)"
  using fs_rename_ok [OF assms(5)] temp_resolve [OF assms(1,2,4)] entry_resolve [OF assms(1,3,4)] by blast

lemma fs_rename_err: "fs_rename old new fs = (Inl e, fs') \<Longrightarrow> fs' = fs"
  by (auto simp: fs_rename_def split: sum.splits option.splits node.splits)

lemma dir_change_rename:
  assumes "dir_name s d" and "safe_component e" and "safe_component f" and "plain fs d"
    and "fs_rename (s @ slash # e) (Join [s, f]) fs = (r, fs')"
    and "\<And>n. look fs (d @ [e]) = Some n \<Longrightarrow> good (d @ [f]) n"
  shows "dir_change good d fs fs'"
proof (cases r)
  case (Inl err)
  then have "fs' = fs" using fs_rename_err assms(5) by blast
  then show ?thesis by simp
next
  case (Inr u)
  then obtain n where "look fs (d @ [e]) = Some n" "fs' = put (d @ [f]) n (del (d @ [e]) fs)"
    using rename_in_dir [OF assms(1-4)] assms(5) by blast
  then show ?thesis
    using assms(3,6) by (auto simp: dir_change_def look_put look_del below_iff)
qed

lemma dir_change_create_temp:
  assumes "dir_name s d" and "\<And>i. safe_component (pre @ digits i)" and "plain fs d"
    and "create_temp n draws k s pre t fs = (r, fs')" and "\<And>i c t m. good (d @ [pre @ digits i]) (FileN c t m)"
  shows "dir_change good d fs fs'"
proof (rule dir_change_putI)
  fix q assume "look fs' q \<noteq> look fs q"
  from create_temp_frame [OF assms(4) this]
  show "\<exists>e. q = d @ [e] \<and> safe_component e \<and> (\<forall>n. look fs' q = Some n \<longrightarrow> good q n)"
    using temp_resolve [OF assms(1,2,3)] assms(2,5) by (metis option.inject)
qed


lemma fs_symlink_ok:
  "fs_symlink target link fs = (Inr u, fs') \<Longrightarrow>
   \<exists>q. resolve False fs link = Inr q \<and> fs' = put q (LinkN target) fs"
  by (auto simp: fs_symlink_def split: if_splits sum.splits option.splits)

section \<open>Programs that fill a directory\<close>

lemma wp_os_CreateTemp:
  "wp (os_CreateTemp dir pre) Q w =
   wp (os_call (PathError ''createtemp'' (dir @ slash # pre @ ''*'')) read_only
        (create_temp 10000 (w_draws w) (w_draw w) dir pre)) Q (w\<lparr>w_draw := w_draw w + 10000\<rparr>)"
  by (simp add: os_CreateTemp_def wp_def Let_def)

text \<open>A regular file with this content, whatever its time and mode.\<close>

definition has_file :: "fsys \<Rightarrow> path \<Rightarrow> string \<Rightarrow> bool" where
  "has_file fs p c \<longleftrightarrow> (\<exists>t m. look fs p = Some (FileN c t m))"

locale dir_client =
  fixes J :: "fsys \<Rightarrow> bool" and d :: path and good :: "path \<Rightarrow> node \<Rightarrow> bool"
  assumes J_plain: "J fs \<Longrightarrow> plain fs d"
    and J_names: "J fs \<Longrightarrow> wf_names fs"
    and J_change: "J fs \<Longrightarrow> dir_change good d fs fs' \<Longrightarrow> J fs'"
begin

lemma RemoveAll_keeps:
  "dir_name s d \<Longrightarrow> safe_component e \<Longrightarrow> keeps (run_inv J R w0) (os_RemoveAll (Join [s, e]))"
  unfolding os_RemoveAll_def
  by (rule keeps_os_call) (metis J_change J_plain dir_change_remove_all, metis J_change J_plain dir_change_remove_some)

lemma MkdirAll_keeps: "dir_name s d \<Longrightarrow> keeps (run_inv J R w0) (os_MkdirAll s)"
  unfolding os_MkdirAll_def
  by (rule keeps_os_call) (metis J_change J_plain dir_change_mkdir(1), metis J_change J_plain dir_change_mkdir(2))

lemma Remove_keeps:
  "dir_name s d \<Longrightarrow> safe_component e \<Longrightarrow> p = Join [s, e] \<or> p = s @ slash # e \<Longrightarrow>
   keeps (run_inv J R w0) (os_Remove p)"
  unfolding os_Remove_def
  by (rule keeps_os_call) (metis J_change J_plain dir_change_remove, simp add: read_only_def)

lemma ReadDir_spec:
  assumes "run_inv J R w0 w"
  shows "wp (os_ReadDir s) (\<lambda>x w'. run_inv J R w0 w' \<and> w_fs w' = w_fs w
     \<and> (\<forall>es. x = Inr es \<longrightarrow> (\<forall>e \<in> set es. safe_component e))) w"
  unfolding os_ReadDir_def
proof (rule wp_read_only [OF assms])
  fix x w' assume w': "run_inv J R w0 w'" "w_fs w' = w_fs w"
    and x: "x = map_err (PathError ''open'' s) (fs_read_dir s (w_fs w)) \<or> (\<exists>e. x = Inl (PathError ''open'' s e))"
  have "safe_component e" if "fs_read_dir s (w_fs w) = Inr es" "e \<in> set es" for es e
    using that children_safe [OF J_names [OF run_inv_fs [OF assms]]]
    by (auto simp: fs_read_dir_def split: sum.splits option.splits node.splits)
  then show "run_inv J R w0 w' \<and> w_fs w' = w_fs w \<and> (\<forall>es. x = Inr es \<longrightarrow> (\<forall>e \<in> set es. safe_component e))"
    using w' x by (auto simp: map_err_def split: sum.splits)
qed

lemma Readlink_spec:
  assumes inv: "run_inv J R w0 w" and s: "dir_name s d" and e: "safe_component e"
  shows "wp (os_Readlink (Join [s, e])) (\<lambda>x w'. run_inv J R w0 w'
     \<and> (x = Inr target \<longrightarrow> look (w_fs w') (d @ [e]) = Some (LinkN target))) w"
  unfolding os_Readlink_def
proof (rule wp_read_only [OF inv])
  fix x w' assume w': "run_inv J R w0 w'" "w_fs w' = w_fs w"
    and x: "x = map_err (PathError ''readlink'' (Join [s, e])) (fs_readlink (Join [s, e]) (w_fs w))
      \<or> (\<exists>err. x = Inl (PathError ''readlink'' (Join [s, e]) err))"
  have "look (w_fs w) (d @ [e]) = Some (LinkN target)" if ok: "fs_readlink (Join [s, e]) (w_fs w) = Inr target"
  proof -
    obtain q where q: "resolve False (w_fs w) (Join [s, e]) = Inr q" "look (w_fs w) q = Some (LinkN target)"
      using ok by (auto simp: fs_readlink_def split: sum.splits option.splits node.splits)
    then show ?thesis using entry_resolve [OF s e J_plain [OF run_inv_fs [OF inv]]] by simp
  qed
  then show "run_inv J R w0 w' \<and> (x = Inr target \<longrightarrow> look (w_fs w') (d @ [e]) = Some (LinkN target))"
    using w' x by (auto simp: map_err_def split: sum.splits)
qed

lemma Symlink_spec:
  assumes inv: "run_inv J R w0 w" and s: "dir_name s d" and e: "safe_component e" and g: "good (d @ [e]) (LinkN target)"
  shows "wp (os_Symlink target (Join [s, e])) (\<lambda>x w'. run_inv J R w0 w'
     \<and> (\<forall>u. x = Inr u \<longrightarrow> look (w_fs w') (d @ [e]) = Some (LinkN target))) w"
  unfolding os_Symlink_def
proof (rule wp_os_call)
  have J: "J (w_fs w)" using inv by (rule run_inv_fs)
  fix x w' assume st: "stepped w w'" and eff: "fs_symlink target (Join [s, e]) (w_fs w) = (x, w_fs w')"
  have "run_inv J R w0 w'"
    by (rule run_inv_step [OF inv st J_change [OF J dir_change_symlink [where good = good, OF s e J_plain [OF J] eff g]]])
  moreover have "look (w_fs w') (d @ [e]) = Some (LinkN target)" if x: "x = Inr u" for u
  proof -
    obtain q where q: "resolve False (w_fs w) (Join [s, e]) = Inr q" "w_fs w' = put q (LinkN target) (w_fs w)"
      using fs_symlink_ok eff x by blast
    then show ?thesis using entry_resolve [OF s e J_plain [OF J] q(1)] by (simp add: look_put)
  qed
  ultimately show "run_inv J R w0 w' \<and>
      (\<forall>u. map_err (LinkError ''symlink'' target (Join [s, e])) x = Inr u \<longrightarrow> look (w_fs w') (d @ [e]) = Some (LinkN target))"
    by (cases x) auto
next
  fix err k w' assume "stepped w w'" and "w_fs w' = read_only k (w_clock w') (w_fs w)"
  then show "run_inv J R w0 w' \<and>
      (\<forall>u. Inl (LinkError ''symlink'' target (Join [s, e]) err) = Inr u \<longrightarrow> look (w_fs w') (d @ [e]) = Some (LinkN target))"
    using run_inv_step [OF inv] run_inv_fs [OF inv] by (simp add: read_only_def)
qed

text \<open>The temporary file: its name is in the directory, and it starts empty.\<close>

lemma CreateTemp_spec:
  assumes inv: "run_inv J R w0 w" and s: "dir_name s d" and e: "\<And>i. safe_component (pre @ digits i)"
    and g: "\<And>i c t m. good (d @ [pre @ digits i]) (FileN c t m)"
  shows "wp (os_CreateTemp s pre) (\<lambda>x w'. run_inv J R w0 w'
     \<and> (\<forall>p h. x = Inr (p, h) \<longrightarrow>
          (\<exists>i. p = s @ slash # pre @ digits i \<and> h = d @ [pre @ digits i] \<and> has_file (w_fs w') h [])
          \<and> look (w_fs w) h = None)) w"
  unfolding wp_os_CreateTemp
proof (rule wp_os_call)
  have J: "J (w_fs w)" using inv by (rule run_inv_fs)
  have inv': "run_inv J R w0 (w\<lparr>w_draw := w_draw w + 10000\<rparr>)" using inv by (simp add: run_inv_def)
  fix x w' assume st: "stepped (w\<lparr>w_draw := w_draw w + 10000\<rparr>) w'"
    and eff: "create_temp 10000 (w_draws w) (w_draw w) s pre (w_clock w') (w_fs (w\<lparr>w_draw := w_draw w + 10000\<rparr>)) = (x, w_fs w')"
  then have eff: "create_temp 10000 (w_draws w) (w_draw w) s pre (w_clock w') (w_fs w) = (x, w_fs w')" by simp
  have "run_inv J R w0 w'"
    by (rule run_inv_step [OF inv' st J_change [OF J dir_change_create_temp [where good = good, OF s e J_plain [OF J] eff g]]])
  moreover have "(\<exists>i. p = s @ slash # pre @ digits i \<and> h = d @ [pre @ digits i] \<and> has_file (w_fs w') h [])
      \<and> look (w_fs w) h = None" if x: "x = Inr (p, h)" for p h
  proof -
    from create_temp_ok [OF eff [unfolded x]] obtain i where i: "p = s @ slash # pre @ digits i"
      "resolve False (w_fs w) p = Inr h" "look (w_fs w) h = None" "w_fs w' = put h (FileN [] (w_clock w') 384) (w_fs w)" by blast
    then have "h = d @ [pre @ digits i]" using temp_resolve [OF s e J_plain [OF J]] by blast
    then show ?thesis using i by (auto simp: has_file_def look_put)
  qed
  ultimately show "run_inv J R w0 w' \<and> (\<forall>p h. map_err (PathError ''createtemp'' (s @ slash # pre @ ''*'')) x = Inr (p, h) \<longrightarrow>
          (\<exists>i. p = s @ slash # pre @ digits i \<and> h = d @ [pre @ digits i] \<and> has_file (w_fs w') h [])
          \<and> look (w_fs w) h = None)"
    by (cases x) auto
next
  have inv': "run_inv J R w0 (w\<lparr>w_draw := w_draw w + 10000\<rparr>)" using inv by (simp add: run_inv_def)
  fix err k w' assume "stepped (w\<lparr>w_draw := w_draw w + 10000\<rparr>) w'"
    and "w_fs w' = read_only k (w_clock w') (w_fs (w\<lparr>w_draw := w_draw w + 10000\<rparr>))"
  then show "run_inv J R w0 w' \<and> (\<forall>p h. Inl (PathError ''createtemp'' (s @ slash # pre @ ''*'') err) = Inr (p, h) \<longrightarrow>
          (\<exists>i. p = s @ slash # pre @ digits i \<and> h = d @ [pre @ digits i] \<and> has_file (w_fs w') h [])
          \<and> look (w_fs w) h = None)"
    using run_inv_step [OF inv'] run_inv_fs [OF inv] by (simp add: read_only_def)
qed

lemma Write_spec:
  assumes inv: "run_inv J R w0 w" and e: "safe_component e" and g: "\<And>c t m. good (d @ [e]) (FileN c t m)"
    and tmp: "has_file (w_fs w) (d @ [e]) c"
  shows "wp (os_Write p (d @ [e]) body) (\<lambda>x w'. run_inv J R w0 w' \<and> (\<exists>c'. has_file (w_fs w') (d @ [e]) c')
     \<and> (\<forall>n. x = Inr n \<longrightarrow> n = length body \<and> has_file (w_fs w') (d @ [e]) (c @ body))
     \<and> (\<forall>q. q \<noteq> d @ [e] \<longrightarrow> look (w_fs w') q = look (w_fs w) q)) w"
  unfolding os_Write_def
proof (rule wp_os_call)
  have J: "J (w_fs w)" using inv by (rule run_inv_fs)
  fix x w' assume st: "stepped w w'" and eff: "fs_append (d @ [e]) body (w_clock w') (w_fs w) = (x, w_fs w')"
  have "run_inv J R w0 w'"
    by (rule run_inv_step [OF inv st J_change [OF J dir_change_append [where good = good, OF eff e g]]])
  then show "run_inv J R w0 w' \<and> (\<exists>c'. has_file (w_fs w') (d @ [e]) c')
     \<and> (\<forall>n. map_err (PathError ''write'' p) x = Inr n \<longrightarrow> n = length body \<and> has_file (w_fs w') (d @ [e]) (c @ body))
     \<and> (\<forall>q. q \<noteq> d @ [e] \<longrightarrow> look (w_fs w') q = look (w_fs w) q)"
    using tmp eff fs_append_frame [OF eff] by (auto simp: fs_append_def has_file_def look_put dest: sym)
next
  have J: "J (w_fs w)" using inv by (rule run_inv_fs)
  fix err k w' assume st: "stepped w w'"
    and fs: "w_fs w' = snd (fs_append (d @ [e]) (take k body) (w_clock w') (w_fs w))"
  obtain x where eff: "fs_append (d @ [e]) (take k body) (w_clock w') (w_fs w) = (x, w_fs w')"
    using fs by (metis prod.collapse)
  have "run_inv J R w0 w'"
    by (rule run_inv_step [OF inv st J_change [OF J dir_change_append [where good = good, OF eff e g]]])
  then show "run_inv J R w0 w' \<and> (\<exists>c'. has_file (w_fs w') (d @ [e]) c')
     \<and> (\<forall>n. Inl (PathError ''write'' p err) = Inr n \<longrightarrow> n = length body \<and> has_file (w_fs w') (d @ [e]) (c @ body))
     \<and> (\<forall>q. q \<noteq> d @ [e] \<longrightarrow> look (w_fs w') q = look (w_fs w) q)"
    using tmp eff fs_append_frame [OF eff] by (auto simp: fs_append_def has_file_def look_put dest: sym)
qed

lemma Chmod_spec:
  assumes inv: "run_inv J R w0 w" and s: "dir_name s d" and e: "safe_component e"
    and g: "\<And>c t m. good (d @ [e]) (FileN c t m)" and tmp: "has_file (w_fs w) (d @ [e]) c"
  shows "wp (os_Chmod (s @ slash # e) m) (\<lambda>x w'. run_inv J R w0 w'
     \<and> (\<forall>u. x = Inr u \<longrightarrow> (\<exists>t. look (w_fs w') (d @ [e]) = Some (FileN c t m)))) w"
  unfolding os_Chmod_def
proof (rule wp_os_call)
  have J: "J (w_fs w)" using inv by (rule run_inv_fs)
  have nl: "\<not> is_link (w_fs w) (d @ [e])" using tmp by (auto simp: has_file_def is_link_def)
  have c: "comps (s @ slash # e) = d @ [e]" using s e by (simp add: comps_append_slash comps_safe dir_name_def)
  have nd: "no_dotdot (comps (s @ slash # e))"
    unfolding c using dir_name_no_dotdot [OF s] safe_componentD(3) [OF e] by (auto simp: no_dotdot_def)
  fix x w' assume st: "stepped w w'" and eff: "fs_chmod (s @ slash # e) m (w_fs w) = (x, w_fs w')"
  have "run_inv J R w0 w'"
    by (rule run_inv_step [OF inv st J_change [OF J dir_change_chmod [where good = good, OF s e J_plain [OF J] nl eff g]]])
  moreover have "\<exists>t. look (w_fs w') (d @ [e]) = Some (FileN c t m)" if x: "x = Inr u" for u
  proof -
    obtain p where p: "resolve True (w_fs w) (s @ slash # e) = Inr p"
      using eff x by (auto simp: fs_chmod_def split: sum.splits)
    have "p = d @ [e]"
      using resolve_plain [OF p nd] c J_plain [OF J] nl by (simp add: plain_snoc)
    then show ?thesis using eff x p tmp by (auto simp: fs_chmod_def has_file_def look_put dest: sym)
  qed
  ultimately show "run_inv J R w0 w'
     \<and> (\<forall>u. map_err (PathError ''chmod'' (s @ slash # e)) x = Inr u \<longrightarrow> (\<exists>t. look (w_fs w') (d @ [e]) = Some (FileN c t m)))"
    by (cases x) auto
next
  fix err k w' assume "stepped w w'" and "w_fs w' = read_only k (w_clock w') (w_fs w)"
  then show "run_inv J R w0 w'
     \<and> (\<forall>u. Inl (PathError ''chmod'' (s @ slash # e) err) = Inr u \<longrightarrow> (\<exists>t. look (w_fs w') (d @ [e]) = Some (FileN c t m)))"
    using run_inv_step [OF inv] run_inv_fs [OF inv] by (simp add: read_only_def)
qed

lemma Rename_spec:
  assumes inv: "run_inv J R w0 w" and s: "dir_name s d" and e: "safe_component e" and f: "safe_component f"
    and n: "look (w_fs w) (d @ [e]) = Some n" and g: "good (d @ [f]) n"
  shows "wp (os_Rename (s @ slash # e) (Join [s, f])) (\<lambda>x w'. run_inv J R w0 w'
     \<and> (\<forall>u. x = Inr u \<longrightarrow> look (w_fs w') (d @ [f]) = Some n)) w"
  unfolding os_Rename_def
proof (rule wp_os_call)
  have J: "J (w_fs w)" using inv by (rule run_inv_fs)
  fix x w' assume st: "stepped w w'" and eff: "fs_rename (s @ slash # e) (Join [s, f]) (w_fs w) = (x, w_fs w')"
  have g': "good (d @ [f]) n'" if "look (w_fs w) (d @ [e]) = Some n'" for n' using that n g by simp
  have "run_inv J R w0 w'"
    by (rule run_inv_step [OF inv st J_change [OF J dir_change_rename [where good = good, OF s e f J_plain [OF J] eff g']]])
  moreover have "look (w_fs w') (d @ [f]) = Some n" if x: "x = Inr u" for u
    using rename_in_dir [OF s e f J_plain [OF J] eff [unfolded x]] n by (auto simp: look_put)
  ultimately show "run_inv J R w0 w'
     \<and> (\<forall>u. map_err (LinkError ''rename'' (s @ slash # e) (Join [s, f])) x = Inr u \<longrightarrow> look (w_fs w') (d @ [f]) = Some n)"
    by (cases x) auto
next
  fix err k w' assume "stepped w w'" and "w_fs w' = read_only k (w_clock w') (w_fs w)"
  then show "run_inv J R w0 w'
     \<and> (\<forall>u. Inl (LinkError ''rename'' (s @ slash # e) (Join [s, f]) err) = Inr u \<longrightarrow> look (w_fs w') (d @ [f]) = Some n)"
    using run_inv_step [OF inv] run_inv_fs [OF inv] by (simp add: read_only_def)
qed

text \<open>The deferred removal of the temporary file touches nothing else.\<close>

lemma Remove_temp_spec:
  assumes inv: "run_inv J R w0 w" and s: "dir_name s d" and e: "safe_component e"
  shows "wp (os_Remove (s @ slash # e)) (\<lambda>x w'. run_inv J R w0 w'
     \<and> (\<forall>q. q \<noteq> d @ [e] \<longrightarrow> look (w_fs w') q = look (w_fs w) q)) w"
proof (rule wp_conj [OF keepsD [OF Remove_keeps [OF s e] inv]])
  have J: "J (w_fs w)" using inv by (rule run_inv_fs)
  show "wp (os_Remove (s @ slash # e)) (\<lambda>x w'. \<forall>q. q \<noteq> d @ [e] \<longrightarrow> look (w_fs w') q = look (w_fs w) q) w"
    unfolding os_Remove_def
  proof (rule wp_os_call)
    fix x w' assume eff: "fs_remove (s @ slash # e) (w_fs w) = (x, w_fs w')"
    then show "\<forall>q. q \<noteq> d @ [e] \<longrightarrow> look (w_fs w') q = look (w_fs w) q"
      using fs_remove_frame [OF eff] temp_resolve [OF s e J_plain [OF J]] by blast
  qed (simp add: read_only_def)
qed simp

end

end
