(* ===== verification/ConfigCorrect.thy ===== *)
theory ConfigCorrect
  imports ConfigController DirRules
begin

text \<open>
  The routines of the BootConfig reconciler that fill a directory, under any schedule of faults: each
  keeps every invariant that survives changes inside its directory (the locale \<open>dir_client\<close>), and
  success means that the link or the file is there.
\<close>

text \<open>The destination looks newer than both sources: the condition under which nothing is done.\<close>

definition newer_than_both :: "string \<Rightarrow> string \<Rightarrow> string \<Rightarrow> fsys \<Rightarrow> bool" where
  "newer_than_both dst a b fs \<longleftrightarrow>
     (\<exists>nd na nb. fs_stat dst fs = Inr nd \<and> fs_stat a fs = Inr na \<and> fs_stat b fs = Inr nb
        \<and> mod_time na < mod_time nd \<and> mod_time nb < mod_time nd)"

lemma digits_no_slash: "slash \<notin> set (digits n)"
proof (induction n rule: digits.induct)
  case (1 n)
  have "slash \<noteq> char_of (48 + k)" if "k < 10" for k :: nat
  proof
    assume "slash = char_of (48 + k)"
    then have "(of_char slash :: nat) = of_char (char_of (48 + k) :: char)" by simp
    then show False using that by (simp add: slash_def)
  qed
  from this [of n] this [of "n mod 10"] show ?case using 1 by (subst digits.simps) auto
qed

lemma temp_name_safe:
  assumes "slash \<notin> set pre" and "2 < length pre"
  shows "safe_component (pre @ digits i)"
  using assms digits_no_slash [of i] by (cases pre rule: list.exhaust) (auto simp: safe_component_def Cons_eq_append_conv append_eq_Cons_conv)

text \<open>What the image library says a file of the image holds, within the limit.\<close>

definition image_file ::
  "(os_error + string \<Rightarrow> string + (string + iso_files)) \<Rightarrow> string option \<Rightarrow> string \<Rightarrow> string \<Rightarrow> bool" where
  "image_file diskfs img src c \<longleftrightarrow>
     (\<exists>bytes files. img = Some bytes \<and> diskfs (Inr bytes) = Inr (Inr files)
        \<and> files (slash # trim_prefix [slash] src) = Inr (c, None) \<and> length c \<le> maxExtractedFileSize)"

context dir_client
begin

lemma remove_entries_keeps:
  "dir_name s d \<Longrightarrow> \<forall>e \<in> set es. safe_component e \<Longrightarrow> keeps (run_inv J R w0) (remove_entries s es)"
  by (induction es) (auto intro!: keeps_intros RemoveAll_keeps)

lemma ensureSymlink_spec:
  assumes inv: "run_inv J R w0 w" and s: "dir_name s d" and f: "safe_component f" and g: "good (d @ [f]) (LinkN target)"
  shows "wp (ensureSymlink s f target) (\<lambda>x w'. run_inv J R w0 w'
     \<and> (\<forall>u. x = Inr u \<longrightarrow> look (w_fs w') (d @ [f]) = Some (LinkN target))) w"
  unfolding ensureSymlink_def Let_def
proof (rule wp_step [OF Readlink_spec [OF inv s f, where target = target]], goal_cases)
  case * : (1 x w1)
  then have inv1: "run_inv J R w0 w1" by simp
  show ?case
  proof (rule wp_ifI, goal_cases)
    case 1
    then show ?case using * by (simp add: wp_return)
  next
    case 2
    show ?case
    proof (rule wp_try [OF ReadDir_spec [OF inv1]], goal_cases)
      case (1 e w2)
      then show ?case by (simp add: wp_return)
    next
      case (2 es w2)
      then have inv2: "run_inv J R w0 w2" and es: "\<forall>e \<in> set es. safe_component e" by auto
      show ?case
        by (rule wp_step [OF keepsD [OF remove_entries_keeps [OF s es] inv2]],
            rule wp_step [OF Symlink_spec [OF _ s f g]])
          (auto simp: wp_return map_err_def split: sum.splits)
    qed
  qed
qed

lemma ensureFileSymlink_spec:
  assumes inv: "run_inv J R w0 w" and s: "dir_name s d" and f: "safe_component f" and g: "good (d @ [f]) (LinkN target)"
  shows "wp (ensureFileSymlink (Join [s, f]) target) (\<lambda>x w'. run_inv J R w0 w'
     \<and> (\<forall>u. x = Inr u \<longrightarrow> look (w_fs w') (d @ [f]) = Some (LinkN target))) w"
  unfolding ensureFileSymlink_def
proof (rule wp_step [OF Readlink_spec [OF inv s f, where target = target]], goal_cases)
  case * : (1 x w1)
  then have inv1: "run_inv J R w0 w1" by simp
  show ?case
  proof (rule wp_ifI, goal_cases)
    case 1
    then show ?case using * by (simp add: wp_return)
  next
    case 2
    show ?case
      by (rule wp_step [OF keepsD [OF Remove_keeps [OF s f disjI1 [OF refl]] inv1]],
          rule wp_step [OF Symlink_spec [OF _ s f g]])
        (auto simp: wp_return map_err_def split: sum.splits)
  qed
qed

section \<open>Concatenation\<close>

text \<open>The content of a source does not depend on what happens inside the directory.\<close>

lemma copy_source_spec:
  assumes inv: "run_inv J R w0 w" and e: "safe_component e" and g: "\<And>c t m. good (d @ [e]) (FileN c t m)"
    and tmp: "has_file (w_fs w) (d @ [e]) c" and src: "\<And>fs. J fs \<Longrightarrow> read_file src fs = cs"
  shows "wp (copy_source p (d @ [e]) src) (\<lambda>x w'. run_inv J R w0 w'
     \<and> (\<forall>u. x = Inr u \<longrightarrow> (\<exists>a. cs = Some a \<and> has_file (w_fs w') (d @ [e]) (c @ a)))) w"
  unfolding copy_source_def os_Open_def
proof (rule wp_try [OF wp_read_only [OF inv, where Q = "\<lambda>x w'. run_inv J R w0 w' \<and> w_fs w' = w_fs w
      \<and> (\<forall>h. x = Inr h \<longrightarrow> fs_open src (w_fs w) = Inr h)"]], goal_cases)
  case (1 x w')
  then show ?case by (auto simp: map_err_def split: sum.splits)
next
  case (2 e w')
  then show ?case by (simp add: wp_return)
next
  case (3 h w1)
  then have inv1: "run_inv J R w0 w1" and fs1: "w_fs w1 = w_fs w" and h: "fs_open src (w_fs w) = Inr h" by auto
  have "wp (os_ReadAll src h) (\<lambda>x w'. run_inv J R w0 w' \<and> w_fs w' = w_fs w
      \<and> (\<forall>a. x = Inr a \<longrightarrow> cs = Some a)) w1"
    unfolding os_ReadAll_def
    by (rule wp_read_only [OF inv1])
      (use fs1 h src [OF run_inv_fs [OF inv]] in \<open>auto simp: read_file_def map_err_def split: sum.splits\<close>)
  then show ?case
  proof (rule wp_step, goal_cases)
    case (1 x w2)
    then have inv2: "run_inv J R w0 w2" and tmp2: "has_file (w_fs w2) (d @ [e]) c" using tmp by auto
    have "wp (case x of Inl err \<Rightarrow> State_Monad.return (Inl err) | Inr c \<Rightarrow> os_Write p (d @ [e]) c)
        (\<lambda>y w'. run_inv J R w0 w'
          \<and> (\<forall>n. y = Inr n \<longrightarrow> (\<exists>a. cs = Some a \<and> has_file (w_fs w') (d @ [e]) (c @ a)))) w2"
    proof (cases x)
      case (Inl err)
      then show ?thesis using inv2 by (simp add: wp_return)
    next
      case (Inr a)
      then show ?thesis
        using 1 by (auto intro!: wp_mono [OF Write_spec [OF inv2 e g tmp2]])
    qed
    then show ?case
    proof (rule wp_step, goal_cases)
      case (1 n w3)
      show ?case
        by (rule wp_step [OF Close_spec [OF conjunct1 [OF 1]]])
          (use 1 in \<open>auto simp: wp_return split: sum.splits\<close>)
    qed
  qed
qed

lemma copy_sources_spec:
  assumes "run_inv J R w0 w" and e: "safe_component e" and g: "\<And>c t m. good (d @ [e]) (FileN c t m)"
    and "has_file (w_fs w) (d @ [e]) c"
    and src: "\<And>fs s. s \<in> set srcs \<Longrightarrow> J fs \<Longrightarrow> read_file s fs = content s"
  shows "wp (copy_sources p (d @ [e]) srcs) (\<lambda>x w'. run_inv J R w0 w'
     \<and> (\<forall>u. x = Inr u \<longrightarrow> (\<forall>s \<in> set srcs. content s \<noteq> None)
          \<and> has_file (w_fs w') (d @ [e]) (c @ concat (map (the \<circ> content) srcs)))) w"
  using assms(1,4) src
proof (induction srcs arbitrary: w c)
  case Nil
  then show ?case by (simp add: wp_return)
next
  case (Cons s srcs)
  show ?case
    unfolding copy_sources.simps
  proof (rule wp_try [OF copy_source_spec [OF Cons.prems(1) e g Cons.prems(2), where cs = "content s"]], goal_cases)
    case (1 fs)
    then show ?case using Cons.prems(3) by simp
  next
    case (2 err w')
    then show ?case by (simp add: wp_return)
  next
    case (3 u w')
    then obtain a where a: "content s = Some a" "has_file (w_fs w') (d @ [e]) (c @ a)" and inv: "run_inv J R w0 w'" by auto
    show ?case
      by (rule wp_mono [OF Cons.IH [OF inv a(2)]]) (use Cons.prems(3) a(1) in auto)
  qed
qed

lemma concat_into_spec:
  assumes inv: "run_inv J R w0 w" and s: "dir_name s d" and e: "safe_component e" and f: "safe_component f"
    and g: "\<And>c t m. good (d @ [e]) (FileN c t m)" and tmp: "has_file (w_fs w) (d @ [e]) []"
    and src: "\<And>fs s. s \<in> set srcs \<Longrightarrow> J fs \<Longrightarrow> read_file s fs = content s"
    and dst: "\<And>t. (\<forall>s \<in> set srcs. content s \<noteq> None) \<Longrightarrow> good (d @ [f]) (FileN (concat (map (the \<circ> content) srcs)) t 292)"
  shows "wp (concat_into (Join [s, f]) srcs (s @ slash # e) (d @ [e])) (\<lambda>x w'. run_inv J R w0 w'
     \<and> (\<forall>u. x = Inr u \<longrightarrow> (\<forall>s \<in> set srcs. content s \<noteq> None)
          \<and> (\<exists>t. look (w_fs w') (d @ [f]) = Some (FileN (concat (map (the \<circ> content) srcs)) t 292)))) w"
  unfolding concat_into_def
proof (rule wp_try [OF copy_sources_spec [OF inv e g tmp src]], goal_cases)
  case (3 err w1)
  then show ?case by (simp add: wp_return)
next
  case (4 u w1)
  let ?c = "concat (map (the \<circ> content) srcs)"
  from 4 have inv1: "run_inv J R w0 w1" and ok: "\<forall>s \<in> set srcs. content s \<noteq> None"
    and tmp1: "has_file (w_fs w1) (d @ [e]) ?c" by auto
  show ?case
  proof (rule wp_try [OF Close_spec [OF inv1]], goal_cases)
    case (1 err w2)
    then show ?case by (simp add: wp_return)
  next
    case (2 u w2)
    then have inv2: "run_inv J R w0 w2" and tmp2: "has_file (w_fs w2) (d @ [e]) ?c" using tmp1 by auto
    show ?case
    proof (rule wp_try [OF Chmod_spec [OF inv2 s e g tmp2]], goal_cases)
      case (1 err w3)
      then show ?case by (simp add: wp_return)
    next
      case (2 u w3)
      then obtain t where inv3: "run_inv J R w0 w3" and t: "look (w_fs w3) (d @ [e]) = Some (FileN ?c t 292)" by auto
      show ?case
        by (rule wp_try [OF Rename_spec [OF inv3 s e f t dst [OF ok]]]) (use ok in \<open>auto simp: wp_return\<close>)
    qed
  qed
qed auto

text \<open>The mtimes say that the destination is newer than both sources.\<close>

lemma concat_current_spec:
  assumes "run_inv J R w0 w"
  shows "wp (concat_current dst a b) (\<lambda>x w'. run_inv J R w0 w' \<and> w_fs w' = w_fs w
     \<and> (x = Inr True \<longrightarrow> newer_than_both dst a b (w_fs w))) w"
proof -
  have stat: "wp (os_Stat s) (\<lambda>x w'. run_inv J R w0 w' \<and> w_fs w' = w_fs w
      \<and> (\<forall>n. x = Inr n \<longrightarrow> fs_stat s (w_fs w) = Inr n)) w1" if "run_inv J R w0 w1" "w_fs w1 = w_fs w" for s w1
    unfolding os_Stat_def
    by (rule wp_read_only [OF that(1)]) (use that(2) in \<open>auto simp: map_err_def split: sum.splits\<close>)
  show ?thesis
    unfolding concat_current_def
  proof (rule wp_try [OF stat [OF assms refl]], goal_cases)
    case (1 e w1)
    then show ?case by (simp add: wp_return)
  next
    case (2 nd w1)
    show ?case
    proof (rule wp_try [OF stat [of w1 a]], goal_cases)
      case (4 na w2)
      show ?case
        by (rule wp_try [OF stat [of w2 b]]) (use 2 4 in \<open>auto simp: wp_return newer_than_both_def\<close>)
    qed (use 2 in \<open>auto simp: wp_return\<close>)
  qed
qed

text \<open>The part of \<^verbatim>\<open>concatenateFiles\<close> that writes: a new temporary file, the copies, the renaming, the removal.\<close>

lemma fill_dir_spec:
  assumes inv: "run_inv J R w0 w" and s: "dir_name s d" and f: "safe_component f"
    and g: "\<And>i c t m. good (d @ [''.concat-'' @ digits i]) (FileN c t m)"
    and src: "\<And>fs s. s \<in> set srcs \<Longrightarrow> J fs \<Longrightarrow> read_file s fs = content s"
    and dst: "\<And>t. (\<forall>s \<in> set srcs. content s \<noteq> None) \<Longrightarrow> good (d @ [f]) (FileN (concat (map (the \<circ> content) srcs)) t 292)"
    and f_temp: "\<And>i. f \<noteq> ''.concat-'' @ digits i"
  shows "wp (do {
      tmp \<leftarrow> os_CreateTemp s ''.concat-'';
      (case tmp of
         Inl err \<Rightarrow> State_Monad.return (Inl (Wrapped ''creating temp file: '' (OsErr err) []))
       | Inr (tmpPath, h) \<Rightarrow> do {
           res \<leftarrow> concat_into (Join [s, f]) srcs tmpPath h;
           _ \<leftarrow> os_Close tmpPath;
           _ \<leftarrow> os_Remove tmpPath;
           State_Monad.return res
         })
    }) (\<lambda>x w'. run_inv J R w0 w' \<and> (\<forall>u. x = Inr u \<longrightarrow> (\<forall>s \<in> set srcs. content s \<noteq> None)
      \<and> (\<exists>t. look (w_fs w') (d @ [f]) = Some (FileN (concat (map (the \<circ> content) srcs)) t 292)))) w"
proof -
  have e: "safe_component (''.concat-'' @ digits i)" for i by (rule temp_name_safe) (simp_all add: slash_def)
  show ?thesis
  proof (rule wp_try [OF CreateTemp_spec [OF inv s e g]], goal_cases)
    case (1 err w1)
    then show ?case by (simp add: wp_return)
  next
    case (2 ph w1)
    then obtain i where inv1: "run_inv J R w0 w1" and ph: "ph = (s @ slash # ''.concat-'' @ digits i, d @ [''.concat-'' @ digits i])"
      and tmp: "has_file (w_fs w1) (d @ [''.concat-'' @ digits i]) []"
      by (cases ph) auto
    show ?case
      unfolding ph prod.case
    proof (rule wp_step [OF concat_into_spec [OF inv1 s e f g tmp src dst]], goal_cases)
      case (4 x w2)
      show ?case
        by (rule wp_step [OF Close_spec [OF conjunct1 [OF 4]]],
            rule wp_step [OF Remove_temp_spec [OF conjunct1 s e]], assumption)
          (use 4 f_temp in \<open>auto simp: wp_return\<close>)
    qed auto
  qed
qed

lemma concatenateFiles_spec:
  assumes inv: "run_inv J R w0 w" and s: "dir_name s d" and f: "safe_component f"
    and g: "\<And>i c t m. good (d @ [''.concat-'' @ digits i]) (FileN c t m)"
    and src: "\<And>fs. J fs \<Longrightarrow> read_file srcA fs = cA" "\<And>fs. J fs \<Longrightarrow> read_file srcB fs = cB"
    and dst: "\<And>a b t. cA = Some a \<Longrightarrow> cB = Some b \<Longrightarrow> good (d @ [f]) (FileN (a @ b) t 292)"
    and f_temp: "\<And>i. f \<noteq> ''.concat-'' @ digits i"
  shows "wp (concatenateFiles (Join [s, f]) srcA srcB) (\<lambda>x w'. run_inv J R w0 w'
     \<and> (\<forall>u. x = Inr u \<longrightarrow>
          (\<exists>a b t. cA = Some a \<and> cB = Some b \<and> look (w_fs w') (d @ [f]) = Some (FileN (a @ b) t 292))
          \<or> (w_fs w' = w_fs w \<and> newer_than_both (Join [s, f]) srcA srcB (w_fs w)))) w"
  unfolding concatenateFiles_def Let_def
proof (rule wp_try [OF concat_current_spec [OF inv]], goal_cases)
  case (1 err w1)
  then show ?case by (simp add: wp_return)
next
  case * : (2 current w1)
  obtain s' where D: "Dir (Join [s, f]) = s'" by blast
  have s': "dir_name s' d" using dir_name_Dir [OF s f] by (simp add: D)
  have eq: "Join [s, f] = Join [s', f]" by (rule Join_eq [OF s s' f])
  let ?content = "\<lambda>p. if p = srcA then cA else cB"
  have B: "?content srcB = cB" using src run_inv_fs [OF inv] by metis
  have cts: "read_file p fs = ?content p" if "p \<in> set [srcA, srcB]" "J fs" for p fs
    using that src by auto
  have gd: "good (d @ [f]) (FileN (concat (map (the \<circ> ?content) [srcA, srcB])) t 292)"
    if "\<forall>p \<in> set [srcA, srcB]. ?content p \<noteq> None" for t
    using that B dst [of "the cA" "the cB" t] by auto
  show ?case
    unfolding D
  proof (rule wp_ifI, goal_cases)
    case 1
    then show ?case using * by (auto simp: wp_return)
  next
    case 2
    show ?case
    proof (rule wp_try [OF ReadDir_spec [OF conjunct1 [OF *]]], goal_cases)
      case (1 err w2)
      then show ?case by (simp add: wp_return)
    next
      case (2 es w2)
      then have inv2: "run_inv J R w0 w2" and es: "\<forall>e \<in> set es. safe_component e" by auto
      show ?case
        unfolding eq
        by (rule wp_step [OF keepsD [OF remove_entries_keeps [OF s' es] inv2]],
            rule wp_mono [OF fill_dir_spec [OF _ s' f g cts gd f_temp]])
          (use B in \<open>auto split: if_splits\<close>)
    qed
  qed
qed

section \<open>Extraction\<close>

lemma io_Copy_tmp:
  assumes "run_inv J R w0 w" and "safe_component e" and "\<And>c t m. good (d @ [e]) (FileN c t m)"
    and "has_file (w_fs w) (d @ [e]) []"
  shows "wp (io_Copy p (d @ [e]) body rerr) (\<lambda>x w'. run_inv J R w0 w'
     \<and> (\<forall>n. x = Inr n \<longrightarrow> n = length body \<and> rerr = None \<and> has_file (w_fs w') (d @ [e]) body)) w"
  unfolding io_Copy_def
  by (rule wp_step [OF Write_spec [OF assms]]) (auto simp: wp_return split: sum.splits option.splits)

text \<open>What is extracted is the whole file of the image, and it is within the limit.\<close>

lemma extract_into_spec:
  assumes inv: "run_inv J R w0 w" and s: "dir_name s d" and e: "safe_component e" and f: "safe_component f"
    and g: "\<And>c t m. good (d @ [e]) (FileN c t m)" and tmp: "has_file (w_fs w) (d @ [e]) []"
    and dst: "\<And>t. snd fl = None \<Longrightarrow> length (fst fl) \<le> maxExtractedFileSize \<Longrightarrow> good (d @ [f]) (FileN (fst fl) t 292)"
  shows "wp (extract_into src fl (Join [s, f]) (s @ slash # e) (d @ [e])) (\<lambda>x w'. run_inv J R w0 w'
     \<and> (\<forall>u. x = Inr u \<longrightarrow> snd fl = None \<and> length (fst fl) \<le> maxExtractedFileSize
          \<and> (\<exists>t. look (w_fs w') (d @ [f]) = Some (FileN (fst fl) t 292)))) w"
  unfolding extract_into_def Let_def
proof (rule wp_try [OF io_Copy_tmp [OF inv e g tmp]], goal_cases)
  case (1 err w1)
  then show ?case by (simp add: wp_return)
next
  case * : (2 n w1)
  show ?case
  proof (rule wp_ifI, goal_cases)
    case 1
    then show ?case using * by (simp add: wp_return)
  next
    case 2
    then have len: "length (fst fl) \<le> maxExtractedFileSize" and nr: "snd fl = None"
      and inv1: "run_inv J R w0 w1" and tmp1: "has_file (w_fs w1) (d @ [e]) (fst fl)"
      using * by (auto simp: min_def split: if_splits)
    show ?case
    proof (rule wp_try [OF Close_spec [OF inv1]], goal_cases)
      case (1 err w2)
      then show ?case by (simp add: wp_return)
    next
      case (2 u w2)
      then have inv2: "run_inv J R w0 w2" and tmp2: "has_file (w_fs w2) (d @ [e]) (fst fl)" using tmp1 by auto
      show ?case
      proof (rule wp_try [OF Chmod_spec [OF inv2 s e g tmp2]], goal_cases)
        case (1 err w3)
        then show ?case by (simp add: wp_return)
      next
        case (2 u w3)
        then obtain t where inv3: "run_inv J R w0 w3" and t: "look (w_fs w3) (d @ [e]) = Some (FileN (fst fl) t 292)" by auto
        show ?case
          by (rule wp_try [OF Rename_spec [OF inv3 s e f t dst [OF nr len]]]) (use nr len in \<open>auto simp: wp_return\<close>)
      qed
    qed
  qed
qed

lemma extractFile_spec:
  assumes inv: "run_inv J R w0 w" and s: "dir_name s d" and f: "safe_component f"
    and g: "\<And>i c t m. good (d @ [''.extract-'' @ digits i]) (FileN c t m)"
    and dst: "\<And>c t. files (slash # trim_prefix [slash] src) = Inr (c, None) \<Longrightarrow> length c \<le> maxExtractedFileSize \<Longrightarrow>
      good (d @ [f]) (FileN c t 292)"
    and f_temp: "\<And>i. f \<noteq> ''.extract-'' @ digits i"
  shows "wp (extractFile files src (Join [s, f])) (\<lambda>x w'. run_inv J R w0 w'
     \<and> (\<forall>u. x = Inr u \<longrightarrow> (\<exists>c t. files (slash # trim_prefix [slash] src) = Inr (c, None)
          \<and> length c \<le> maxExtractedFileSize \<and> look (w_fs w') (d @ [f]) = Some (FileN c t 292)))) w"
proof (cases "files (slash # trim_prefix [slash] src)")
  case (Inl err)
  then show ?thesis using inv by (simp add: extractFile_def wp_return)
next
  case (Inr fl)
  obtain s' where D: "Dir (Join [s, f]) = s'" by blast
  have s': "dir_name s' d" using dir_name_Dir [OF s f] by (simp add: D)
  have eq: "Join [s, f] = Join [s', f]" by (rule Join_eq [OF s s' f])
  have e: "safe_component (''.extract-'' @ digits i)" for i by (rule temp_name_safe) (simp_all add: slash_def)
  have gd: "good (d @ [f]) (FileN (fst fl) t 292)" if "snd fl = None" "length (fst fl) \<le> maxExtractedFileSize" for t
    using dst [of "fst fl"] that Inr by (metis prod.collapse)
  show ?thesis
    unfolding extractFile_def Inr sum.case D
  proof (rule wp_try [OF CreateTemp_spec [OF inv s' e g]], goal_cases)
    case (1 err w1)
    then show ?case by (simp add: wp_return)
  next
    case (2 ph w1)
    then obtain i where inv1: "run_inv J R w0 w1" and ph: "ph = (s' @ slash # ''.extract-'' @ digits i, d @ [''.extract-'' @ digits i])"
      and tmp: "has_file (w_fs w1) (d @ [''.extract-'' @ digits i]) []"
      by (cases ph) auto
    let ?P = "\<lambda>x w'. run_inv J R w0 w' \<and> (\<forall>u. x = Inr u \<longrightarrow> snd fl = None \<and> length (fst fl) \<le> maxExtractedFileSize
          \<and> (\<exists>t. look (w_fs w') (d @ [f]) = Some (FileN (fst fl) t 292)))"
    show ?case
      unfolding ph prod.case eq
    proof (rule wp_step [OF extract_into_spec [OF inv1 s' e f g tmp gd]], goal_cases)
      case (3 x w2)
      show ?case
        by (rule wp_step [OF Close_spec [OF conjunct1 [OF 3]]],
            rule wp_step [OF Remove_temp_spec [OF conjunct1 s' e]], assumption)
          (use 3 f_temp in \<open>cases fl, auto simp: wp_return Inr\<close>)
    qed auto
  qed
qed

lemma upToDate_spec: "run_inv J R w0 w \<Longrightarrow> wp (upToDate dst t) (\<lambda>x w'. run_inv J R w0 w') w"
  unfolding upToDate_def by (rule wp_step [OF keepsD [OF keeps_os_Stat]]) (auto simp: wp_return)

text \<open>The image that is opened is the file that the name stands for.\<close>

lemma read_image_spec:
  assumes inv: "run_inv J R w0 w" and src: "\<And>fs. J fs \<Longrightarrow> read_file p fs = img"
  shows "wp (read_image p) (\<lambda>x w'. run_inv J R w0 w' \<and> (\<forall>c. x = Inr c \<longrightarrow> img = Some c)) w"
  unfolding read_image_def os_Open_def
proof (rule wp_try [OF wp_read_only [OF inv, where Q = "\<lambda>x w'. run_inv J R w0 w' \<and> w_fs w' = w_fs w
      \<and> (\<forall>h. x = Inr h \<longrightarrow> fs_open p (w_fs w) = Inr h)"]], goal_cases)
  case (1 x w')
  then show ?case by (auto simp: map_err_def split: sum.splits)
next
  case (2 e w')
  then show ?case by (simp add: wp_return)
next
  case (3 h w1)
  then have inv1: "run_inv J R w0 w1" and fs1: "w_fs w1 = w_fs w" and h: "fs_open p (w_fs w) = Inr h" by auto
  show ?case
    unfolding os_ReadAll_def
    by (rule wp_read_only [OF inv1])
      (use fs1 h src [OF run_inv_fs [OF inv]] in \<open>auto simp: read_file_def map_err_def split: sum.splits\<close>)
qed

lemma extract_targets_spec:
  assumes inv: "run_inv J R w0 w" and s: "dir_name s d" and img: "diskfs (Inr bytes) = Inr (Inr files)"
    and g: "\<And>i c t m. good (d @ [''.extract-'' @ digits i]) (FileN c t m)"
    and dst: "\<And>c t. image_file diskfs (Some bytes) kernelPath c \<Longrightarrow> good (d @ [''vmlinuz'']) (FileN c t 292)"
      "\<And>c t. image_file diskfs (Some bytes) initrdPath c \<Longrightarrow> good (d @ [''initrd'']) (FileN c t 292)"
  shows "wp (extract_targets files [(kernelPath, Join [s, ''vmlinuz'']), (initrdPath, Join [s, ''initrd''])])
    (\<lambda>x w'. run_inv J R w0 w') w"
proof -
  have im: "image_file diskfs (Some bytes) src c"
    if "files (slash # trim_prefix [slash] src) = Inr (c, None)" "length c \<le> maxExtractedFileSize" for src c
    using img that by (auto simp: image_file_def)
  have k: "safe_component ''vmlinuz''" "safe_component ''initrd''" by (simp_all add: safe_component_def slash_def)
  note ex = extractFile_spec [OF _ s k(1) g dst(1) [OF im], where files = files]
    extractFile_spec [OF _ s k(2) g dst(2) [OF im], where files = files]
  show ?thesis
    unfolding extract_targets.simps
  proof (rule wp_try [OF ex(1) [OF inv]], goal_cases)
    case (4 e w1)
    then show ?case by (simp add: wp_return)
  next
    case (5 u w1)
    then show ?case by (intro wp_try [OF ex(2) [OF conjunct1]]) (auto simp: wp_return)
  qed auto
qed

lemma extractFromISO_spec:
  assumes inv: "run_inv J R w0 w" and s: "dir_name s d"
    and src: "\<And>fs. J fs \<Longrightarrow> read_file isoPath fs = img" and dfs: "\<And>e. \<exists>t. diskfs (Inl e) = Inl t"
    and g: "\<And>i c t m. good (d @ [''.extract-'' @ digits i]) (FileN c t m)"
    and dst: "\<And>c t. image_file diskfs img kernelPath c \<Longrightarrow> good (d @ [''vmlinuz'']) (FileN c t 292)"
      "\<And>c t. image_file diskfs img initrdPath c \<Longrightarrow> good (d @ [''initrd'']) (FileN c t 292)"
  shows "wp (extractFromISO diskfs isoPath kernelPath initrdPath s) (\<lambda>x w'. run_inv J R w0 w') w"
  unfolding extractFromISO_def Let_def
proof (rule wp_try [OF keepsD [OF keeps_os_Stat inv]], goal_cases)
  case (1 e w1)
  then show ?case by (simp add: wp_return)
next
  case (2 info w1)
  show ?case
  proof (rule wp_step [OF upToDate_spec [OF 2]], goal_cases)
    case (1 k w2)
    have "wp (if k then upToDate (Join [s, ''initrd'']) (mod_time info) else State_Monad.return False)
        (\<lambda>x w'. run_inv J R w0 w') w2"
      by (rule wp_ifI) (auto simp: wp_return 1 intro: upToDate_spec [OF 1])
    then show ?case
    proof (rule wp_step, goal_cases)
      case inv3: (1 current w3)
      show ?case
      proof (rule wp_ifI, goal_cases)
        case 1
        then show ?case using inv3 by (simp add: wp_return)
      next
        case 2
        show ?case
        proof (rule wp_step [OF read_image_spec [OF inv3 src]], assumption, goal_cases)
          case (1 image w4)
          then have inv4: "run_inv J R w0 w4" by simp
          consider t where "diskfs image = Inl t" | t where "diskfs image = Inr (Inl t)"
            | files where "diskfs image = Inr (Inr files)" by (metis sum.exhaust)
          then show ?case
          proof cases
            case 3
            have "image \<noteq> Inl e" for e using dfs [of e] 3 by auto
            then obtain bytes where bytes: "image = Inr bytes" "img = Some bytes"
              using 1 by (cases image) auto
            from bytes 3 have "diskfs (Inr bytes) = Inr (Inr files)" by simp
            note ex = extract_targets_spec [where diskfs = diskfs, OF inv4 s this g]
            show ?thesis
              unfolding 3 sum.case by (rule ex) (use dst bytes(2) in simp_all)
          qed (use inv4 in \<open>simp_all add: wp_return\<close>)
        qed
      qed
    qed
  qed
qed

end

end
