(* ===== verification/ConfigInv.thy ===== *)
theory ConfigInv
  imports ConfigCorrect
begin

text \<open>
  The invariants of the boot directory, each an instance of the interface \<open>dir_client\<close>: what one
  directory may become, the boot directory with its two subdirectories, and the same once the kernel
  link is in place. Files that lie elsewhere can be read as before throughout.
\<close>

section \<open>One directory\<close>

text \<open>Only what is below the directory differs from the start, and new nodes there are good.\<close>

definition fill_inv :: "(path \<Rightarrow> node \<Rightarrow> bool) \<Rightarrow> path \<Rightarrow> fsys \<Rightarrow> fsys \<Rightarrow> bool" where
  "fill_inv good d fs0 fs \<longleftrightarrow>
     wf_names fs \<and> plain fs d \<and> (\<forall>c \<in> set d. safe_component c)
     \<and> (\<forall>q. look fs q \<noteq> look fs0 q \<longrightarrow>
          (below d q \<and> q \<noteq> d \<and> (\<forall>n. look fs q = Some n \<longrightarrow> good q n))
          \<or> (below q d \<and> look fs0 q = None \<and> (\<exists>t. look fs q = Some (DirN t))))"

lemma fill_inv_refl: "wf_names fs \<Longrightarrow> plain fs d \<Longrightarrow> \<forall>c \<in> set d. safe_component c \<Longrightarrow> fill_inv good d fs fs"
  by (simp add: fill_inv_def)

lemma below_antisym: "below p q \<Longrightarrow> below q p \<Longrightarrow> p = q"
  by (auto simp: below_iff)

lemma fill_inv_change:
  assumes inv: "fill_inv good d fs0 fs" and ch: "dir_change good d fs fs'"
  shows "fill_inv good d fs0 fs'"
  unfolding fill_inv_def
proof (intro conjI)
  show "wf_names fs'" using dir_change_names [OF _ ch] inv by (simp add: fill_inv_def)
  show "plain fs' d" using dir_change_plain [OF _ ch] inv by (simp add: fill_inv_def)
  show "\<forall>c \<in> set d. safe_component c" using inv by (simp add: fill_inv_def)
  show "\<forall>q. look fs' q \<noteq> look fs0 q \<longrightarrow>
          (below d q \<and> q \<noteq> d \<and> (\<forall>n. look fs' q = Some n \<longrightarrow> good q n))
          \<or> (below q d \<and> look fs0 q = None \<and> (\<exists>t. look fs' q = Some (DirN t)))"
  proof (intro allI impI)
    fix q assume q: "look fs' q \<noteq> look fs0 q"
    show "(below d q \<and> q \<noteq> d \<and> (\<forall>n. look fs' q = Some n \<longrightarrow> good q n))
          \<or> (below q d \<and> look fs0 q = None \<and> (\<exists>t. look fs' q = Some (DirN t)))"
    proof (cases "look fs' q = look fs q")
      case True
      then show ?thesis using inv q unfolding fill_inv_def by simp
    next
      case False
      then consider "below d q \<and> q \<noteq> d \<and> (\<forall>n. look fs' q = Some n \<longrightarrow> good q n)"
        | t where "below q d" "look fs q = None" "look fs' q = Some (DirN t)"
        using ch unfolding dir_change_def by blast
      then show ?thesis
      proof cases
        case 2
        have "look fs q = look fs0 q"
        proof (rule ccontr)
          assume "look fs q \<noteq> look fs0 q"
          then have "below d q \<and> q \<noteq> d" using inv 2(2) unfolding fill_inv_def by (metis option.distinct(1))
          then show False using below_antisym [OF 2(1)] by auto
        qed
        then show ?thesis using 2 by auto
      qed blast
    qed
  qed
qed

lemma fill_inv_plain: "fill_inv good d fs0 fs \<Longrightarrow> plain fs d"
  by (simp add: fill_inv_def)

lemma fill_inv_names: "fill_inv good d fs0 fs \<Longrightarrow> wf_names fs"
  by (simp add: fill_inv_def)

text \<open>What the invariant says of an entry, and of what is elsewhere.\<close>

lemma fill_inv_entry:
  assumes "fill_inv good d fs0 fs"
  shows "look fs (d @ [f]) = look fs0 (d @ [f]) \<or> look fs (d @ [f]) = None
    \<or> (\<exists>n. look fs (d @ [f]) = Some n \<and> good (d @ [f]) n)"
proof -
  have "\<not> below (d @ [f]) d" by (auto simp: below_iff)
  then show ?thesis using assms unfolding fill_inv_def by (metis not_Some_eq)
qed

lemma fill_inv_elsewhere: "fill_inv good d fs0 fs \<Longrightarrow> \<not> below d q \<Longrightarrow> \<not> below q d \<Longrightarrow> look fs q = look fs0 q"
  unfolding fill_inv_def by metis

interpretation fill: dir_client "fill_inv good d fs0" d good for good d fs0
  by unfold_locales (erule fill_inv_plain, erule fill_inv_names, erule fill_inv_change, assumption)

section \<open>The boot directory of mode A\<close>

definition boot_inv :: "path \<Rightarrow> fsys \<Rightarrow> fsys \<Rightarrow> bool" where
  "boot_inv b fs0 fs \<longleftrightarrow>
     fill_inv (\<lambda>_ _. True) b fs0 fs \<and> \<not> is_link fs (b @ [''kernel'']) \<and> \<not> is_link fs (b @ [''initrd''])"

lemma safe_kernel: "safe_component ''kernel''" and safe_initrd: "safe_component ''initrd''"
  by (simp_all add: safe_component_def slash_def)

lemma sub_change_fill:
  assumes inv: "fill_inv (\<lambda>_ _. True) b fs0 fs" and ch: "dir_change good (b @ [k]) fs fs'"
    and k: "safe_component k" and pl: "plain fs (b @ [k])"
  shows "fill_inv (\<lambda>_ _. True) b fs0 fs'"
  unfolding fill_inv_def
proof (intro conjI)
  have sf: "\<And>c. c \<in> set (b @ [k]) \<Longrightarrow> safe_component c" using inv k by (auto simp: fill_inv_def)
  show "wf_names fs'" using dir_change_names [OF _ ch sf] inv by (simp add: fill_inv_def)
  show "plain fs' b" using dir_change_plain [OF pl ch] by (simp add: plain_snoc)
  show "\<forall>c \<in> set b. safe_component c" using inv by (simp add: fill_inv_def)
  show "\<forall>q. look fs' q \<noteq> look fs0 q \<longrightarrow>
          (below b q \<and> q \<noteq> b \<and> (\<forall>n. look fs' q = Some n \<longrightarrow> True))
          \<or> (below q b \<and> look fs0 q = None \<and> (\<exists>t. look fs' q = Some (DirN t)))"
  proof (intro allI impI)
    fix q assume q: "look fs' q \<noteq> look fs0 q"
    show "(below b q \<and> q \<noteq> b \<and> (\<forall>n. look fs' q = Some n \<longrightarrow> True))
          \<or> (below q b \<and> look fs0 q = None \<and> (\<exists>t. look fs' q = Some (DirN t)))"
    proof (cases "look fs' q = look fs q")
      case True
      then show ?thesis using inv q unfolding fill_inv_def by simp
    next
      case False
      then consider "below (b @ [k]) q" | "q = b @ [k]"
        | t where "below q b" "look fs q = None" "look fs' q = Some (DirN t)"
        using ch unfolding dir_change_def below_snoc by blast
      then show ?thesis
      proof cases
        case 3
        have "look fs q = look fs0 q"
        proof (rule ccontr)
          assume "look fs q \<noteq> look fs0 q"
          then have "below b q \<and> q \<noteq> b" using inv 3(2) unfolding fill_inv_def by (metis option.distinct(1))
          then show False using below_antisym [OF 3(1)] by auto
        qed
        then show ?thesis using 3 by auto
      qed (auto simp: below_iff)
    qed
  qed
qed

lemma sub_change_link:
  assumes "dir_change good (b @ [k]) fs fs'" and "\<not> is_link fs (b @ [x])"
  shows "\<not> is_link fs' (b @ [x])"
proof
  assume l: "is_link fs' (b @ [x])"
  then have "look fs' (b @ [x]) \<noteq> look fs (b @ [x])" using assms(2) by (auto simp: is_link_def)
  then show False
    using assms(1) l unfolding dir_change_def is_link_def by (fastforce simp: below_iff)
qed

lemma boot_inv_change:
  assumes "boot_inv b fs0 fs" and "dir_change good (b @ [k]) fs fs'" and "k = ''kernel'' \<or> k = ''initrd''"
  shows "boot_inv b fs0 fs'"
proof -
  have "plain fs (b @ [k])" using assms(1,3) by (auto simp: boot_inv_def fill_inv_def plain_snoc)
  moreover have "safe_component k" using assms(3) safe_kernel safe_initrd by auto
  ultimately show ?thesis
    using assms sub_change_fill [of b fs0 fs good k fs'] sub_change_link [OF assms(2)] by (simp add: boot_inv_def)
qed

lemma boot_inv_plain: "boot_inv b fs0 fs \<Longrightarrow> k = ''kernel'' \<or> k = ''initrd'' \<Longrightarrow> plain fs (b @ [k])"
  by (auto simp: boot_inv_def plain_snoc dest: fill_inv_plain)

lemma boot_inv_names: "boot_inv b fs0 fs \<Longrightarrow> wf_names fs"
  by (auto simp: boot_inv_def dest: fill_inv_names)

interpretation kernel_dir: dir_client "boot_inv b fs0" "b @ [''kernel'']" "\<lambda>_ _. True" for b fs0
  by unfold_locales (blast dest: boot_inv_plain, erule boot_inv_names, erule boot_inv_change, assumption, simp)

lemma boot_inv_mkdir_initrd:
  assumes di: "dir_name s (b @ [''initrd''])" and "run_inv (boot_inv b fs0) R w0 w"
  shows "wp (os_MkdirAll s) (\<lambda>x w'. run_inv (boot_inv b fs0) R w0 w') w"
  unfolding os_MkdirAll_def
proof (rule keepsD [OF keeps_os_call assms(2)])
  show "boot_inv b fs0 f'" if "boot_inv b fs0 f" "fs_mkdir_all s t f = (y, f')" for t f y f'
    using boot_inv_change [OF that(1) dir_change_mkdir(1) [OF di _ that(2)]] boot_inv_plain [OF that(1)] by blast
  show "boot_inv b fs0 (fs_mkdir_some s n t f)" if "boot_inv b fs0 f" for n t f
    using boot_inv_change [OF that dir_change_mkdir(2) [OF di]] boot_inv_plain [OF that] by blast
qed

text \<open>Once the kernel link is there, the work on the initrd leaves it alone.\<close>

definition linked_inv :: "path \<Rightarrow> string \<Rightarrow> string \<Rightarrow> fsys \<Rightarrow> fsys \<Rightarrow> bool" where
  "linked_inv b kf target fs0 fs \<longleftrightarrow>
     boot_inv b fs0 fs \<and> look fs (b @ [''kernel'', kf]) = Some (LinkN target)"

lemma linked_inv_boot: "linked_inv b kf target fs0 fs \<Longrightarrow> boot_inv b fs0 fs"
  by (simp add: linked_inv_def)

lemma linked_inv_change:
  assumes "linked_inv b kf target fs0 fs" and ch: "dir_change good (b @ [''initrd'']) fs fs'"
  shows "linked_inv b kf target fs0 fs'"
proof -
  have "look fs' (b @ [''kernel'', kf]) = look fs (b @ [''kernel'', kf])"
  proof (rule ccontr)
    assume "look fs' (b @ [''kernel'', kf]) \<noteq> look fs (b @ [''kernel'', kf])"
    then have "below (b @ [''initrd'']) (b @ [''kernel'', kf])"
      using ch assms(1) unfolding dir_change_def linked_inv_def by fastforce
    then show False by (auto simp: below_iff)
  qed
  then show ?thesis using assms boot_inv_change [OF _ ch] by (simp add: linked_inv_def)
qed

interpretation initrd_dir: dir_client "linked_inv b kf target fs0" "b @ [''initrd'']" "\<lambda>_ _. True" for b kf target fs0
  by unfold_locales
    (blast dest: linked_inv_boot boot_inv_plain, blast dest: linked_inv_boot boot_inv_names, erule linked_inv_change, assumption)

section \<open>Files elsewhere\<close>

lemma walk_cong:
  assumes "\<And>c. c \<in> set cs \<Longrightarrow> c \<noteq> ''..''"
    and "\<And>as. as \<noteq> [] \<Longrightarrow> below as cs \<Longrightarrow> look fs' (cur @ as) = look fs (cur @ as) \<and> \<not> is_link fs (cur @ as)"
  shows "walk fs' n follow cur cs = walk fs n follow cur cs"
  using assms
proof (induction cs arbitrary: cur)
  case (Cons c cs)
  have c: "look fs' (cur @ [c]) = look fs (cur @ [c])" "\<not> is_link fs (cur @ [c])"
    using Cons.prems(2) [of "[c]"] by (simp_all add: below_def)
  have "walk fs' n follow (cur @ [c]) cs = walk fs n follow (cur @ [c]) cs"
  proof (rule Cons.IH)
    show "c' \<noteq> ''..''" if "c' \<in> set cs" for c' using Cons.prems(1) that by simp
    show "look fs' ((cur @ [c]) @ as) = look fs ((cur @ [c]) @ as) \<and> \<not> is_link fs ((cur @ [c]) @ as)"
      if "as \<noteq> []" "below as cs" for as
      using Cons.prems(2) [of "c # as"] that by (simp add: below_def)
  qed
  then show ?case
    using Cons.prems(1) [of c] c by (auto simp: is_link_def split: option.splits node.splits)
qed simp

text \<open>A path apart from the directory: outside it, and with every directory on the common way there.\<close>

definition apart :: "path \<Rightarrow> path \<Rightarrow> fsys \<Rightarrow> bool" where
  "apart d p fs \<longleftrightarrow>
     \<not> below d p \<and> plain fs p \<and> (\<forall>q. below q p \<and> below q d \<longrightarrow> look fs q \<noteq> None)"

lemma apart_look:
  assumes "apart d p fs0" and "fill_inv good d fs0 fs" and "below q p"
  shows "look fs q = look fs0 q"
proof (rule ccontr)
  assume "look fs q \<noteq> look fs0 q"
  then have "below d q \<or> (below q d \<and> look fs0 q = None)" using assms(2) unfolding fill_inv_def by blast
  then show False using assms(1,3) below_trans [of d q p] unfolding apart_def by blast
qed

lemma apart_read:
  assumes "apart d p fs0" and "fill_inv good d fs0 fs" and "dir_name s p"
  shows "read_file s fs = read_file s fs0"
proof -
  have p: "comps s = p" and nd: "no_dotdot p" using assms(3) dir_name_no_dotdot by (auto simp: dir_name_def)
  have "walk fs 40 True [] p = walk fs0 40 True [] p"
    by (rule walk_cong)
      (use nd apart_look [OF assms(1,2)] assms(1) in \<open>auto simp: no_dotdot_def apart_def plain_def\<close>)
  then have res: "resolve True fs s = resolve True fs0 s" by (simp add: resolve_def p)
  have "q = p" if "resolve True fs0 s = Inr q" for q
    using resolve_plain [OF that] p nd assms(1) by (simp add: apart_def)
  then show ?thesis
    using res apart_look [OF assms(1,2), of p]
    by (auto simp: read_file_def fs_open_def fs_read_def split: sum.splits option.splits)
qed

end
