(* ===== verification/ConfigRuns.thy ===== *)
theory ConfigRuns
  imports ConfigInv
begin

text \<open>
  The BootConfig reconciler as a whole, under any schedule of faults: what it can change, and what is
  on disk when it reports Ready or returns the empty result.
\<close>

section \<open>Putting runs together\<close>

lemma run_inv_trans:
  assumes "run_inv J R w0 w1" and "run_inv J' R w1 w2" and "\<And>fs. J' fs \<Longrightarrow> J fs"
  shows "run_inv J R w0 w2"
proof -
  obtain tr tr' where "w_trace w1 = tr @ w_trace w0" "w_trace w2 = tr' @ w_trace w1"
    "\<forall>f \<in> set tr. J f" "\<forall>f \<in> set tr'. J' f"
    using assms(1,2) by (auto simp: run_inv_def)
  then have t: "w_trace w2 = (tr' @ tr) @ w_trace w0 \<and> (\<forall>f \<in> set (tr' @ tr). J f)" using assms(3) by auto
  obtain ws ws' where "w_writes w1 = ws @ w_writes w0" "w_writes w2 = ws' @ w_writes w1"
    "\<forall>(x, f) \<in> set ws. R x f" "\<forall>(x, f) \<in> set ws'. R x f"
    using assms(1,2) by (auto simp: run_inv_def)
  then have "w_writes w2 = (ws' @ ws) @ w_writes w0 \<and> (\<forall>(x, f) \<in> set (ws' @ ws). R x f)" by auto
  then show ?thesis using t assms(2,3) unfolding run_inv_def by blast
qed

lemma run_inv_mono: "run_inv J R w0 w \<Longrightarrow> (\<And>fs. J fs \<Longrightarrow> J' fs) \<Longrightarrow> run_inv J' R w0 w"
  unfolding run_inv_def by blast

lemma run_inv_weaken:
  "wp m (\<lambda>x w'. run_inv J' R w1 w' \<and> Q x w') w1 \<Longrightarrow> run_inv J R w0 w1 \<Longrightarrow> (\<And>fs. J' fs \<Longrightarrow> J fs) \<Longrightarrow>
   wp m (\<lambda>x w'. run_inv J R w0 w' \<and> J' (w_fs w') \<and> Q x w') w1"
  by (rule wp_mono, assumption) (auto intro: run_inv_trans run_inv_fs)

section \<open>Where things are\<close>

definition data_comps :: "'s BootConfigReconciler \<Rightarrow> path" where
  "data_comps r = clean_comps (bcr_DataDir r)"

definition boot_comps :: "'s BootConfigReconciler \<Rightarrow> string \<Rightarrow> path" where
  "boot_comps r name = data_comps r @ [''boot'', name]"

definition artifact_string :: "'s BootConfigReconciler \<Rightarrow> BootArtifact \<Rightarrow> string" where
  "artifact_string r a = Join [bcr_DataDir r, ''artifacts'', om_name (ba_meta a), FilenameFromURL (ba_URL (ba_Spec a))]"

definition artifact_comps :: "'s BootConfigReconciler \<Rightarrow> BootArtifact \<Rightarrow> path" where
  "artifact_comps r a = data_comps r @ [''artifacts'', om_name (ba_meta a), FilenameFromURL (ba_URL (ba_Spec a))]"

lemma safe_boot: "safe_component ''boot''" and safe_artifacts: "safe_component ''artifacts''"
  by (simp_all add: safe_component_def slash_def)

lemma boot_dir_name:
  assumes "rooted (bcr_DataDir r)" and "safe_component name"
  shows "dir_name (Join [bcr_DataDir r, ''boot'', name]) (boot_comps r name)"
  using dir_name_Join [OF assms(1), of "[''boot'', name]"] assms(2) safe_boot
  by (auto simp: boot_comps_def data_comps_def)

lemma artifact_dir_name:
  assumes "rooted (bcr_DataDir r)" and "safe_component (om_name (ba_meta a))"
  shows "dir_name (artifact_string r a) (artifact_comps r a)"
  using dir_name_Join [OF assms(1), of "[''artifacts'', om_name (ba_meta a), FilenameFromURL (ba_URL (ba_Spec a))]"]
    assms(2) safe_artifacts filename_safe
  by (auto simp: artifact_comps_def artifact_string_def data_comps_def)

section \<open>The surroundings\<close>

definition serves :: "'s BootConfigReconciler \<Rightarrow> string \<Rightarrow> string \<Rightarrow> BootArtifact \<Rightarrow> bool" where
  "serves r ns name a \<longleftrightarrow> (\<exists>s s'. Get_BootArtifact (bcr_Client r) ns name s = (Inr a, s'))"

text \<open>An artifact that the server gives and that is Ready.\<close>

definition ready_artifact :: "'s BootConfigReconciler \<Rightarrow> BootConfig \<Rightarrow> string \<Rightarrow> BootArtifact \<Rightarrow> bool" where
  "ready_artifact r bc ref a \<longleftrightarrow>
     serves r (om_namespace (bc_meta bc)) ref a \<and> ba_Phase (ba_Status a) = BootArtifactPhaseReady"

text \<open>
  Names are names, which the API server enforces, and no artifact is called like the temporary files
  of the concatenation.
\<close>

definition artifact_names_ok :: "'s BootConfigReconciler \<Rightarrow> bool" where
  "artifact_names_ok r \<longleftrightarrow>
     (\<forall>ns n a. serves r ns n a \<longrightarrow> safe_component (om_name (ba_meta a))
        \<and> \<not> has_prefix ''.concat-'' (FilenameFromURL (ba_URL (ba_Spec a))))"

text \<open>
  A data directory that is set up: it exists, the artifacts below it are no links, and neither is
  the way to the boot directory.
\<close>

definition data_ok :: "'s BootConfigReconciler \<Rightarrow> string \<Rightarrow> fsys \<Rightarrow> bool" where
  "data_ok r name fs \<longleftrightarrow>
     wf_names fs \<and> plain_dir fs (data_comps r)
     \<and> (\<forall>q. below (data_comps r @ [''artifacts'']) q \<longrightarrow> \<not> is_link fs q)
     \<and> plain fs (boot_comps r name)
     \<and> \<not> is_link fs (boot_comps r name @ [''kernel'']) \<and> \<not> is_link fs (boot_comps r name @ [''initrd''])"

lemma artifact_apart:
  assumes "data_ok r name fs" and "safe_component name"
  shows "apart (boot_comps r name @ x) (artifact_comps r a) fs"
proof -
  have "\<not> below (boot_comps r name @ x) (artifact_comps r a)"
    by (auto simp: boot_comps_def artifact_comps_def below_iff)
  moreover have "plain fs (artifact_comps r a)"
  proof -
    have "\<not> is_link fs q" if "below q (artifact_comps r a)" for q
    proof (cases "below q (data_comps r)")
      case True
      then show ?thesis using assms(1) by (force simp: data_ok_def plain_dir_def is_link_def)
    next
      case False
      then have "below (data_comps r @ [''artifacts'']) q"
        using that by (auto simp: artifact_comps_def below_iff append_eq_append_conv2 append_eq_Cons_conv Cons_eq_append_conv)
      then show ?thesis using assms(1) by (simp add: data_ok_def)
    qed
    then show ?thesis by (simp add: plain_def)
  qed
  moreover have "look fs q \<noteq> None" if "below q (artifact_comps r a)" "below q (boot_comps r name @ x)" for q
  proof -
    have "below q (data_comps r)"
      using that by (auto simp: artifact_comps_def boot_comps_def below_iff append_eq_append_conv2 append_eq_Cons_conv Cons_eq_append_conv)
    then show ?thesis using assms(1) by (auto simp: data_ok_def plain_dir_def)
  qed
  ultimately show ?thesis by (simp add: apart_def)
qed


section \<open>What Ready means\<close>

definition file_of :: "BootArtifact \<Rightarrow> string" where
  "file_of a = FilenameFromURL (ba_URL (ba_Spec a))"

definition link_target :: "string list \<Rightarrow> BootArtifact \<Rightarrow> string" where
  "link_target ups a = Join (ups @ [''artifacts'', om_name (ba_meta a), file_of a])"

text \<open>The concatenation of initrd and firmware, or a file that the mtimes call newer than both.\<close>

definition initrd_built :: "'s BootConfigReconciler \<Rightarrow> BootConfig \<Rightarrow> BootArtifact \<Rightarrow> BootArtifact \<Rightarrow> fsys \<Rightarrow> bool" where
  "initrd_built r bc i fw fs \<longleftrightarrow>
     (\<exists>a c t. read_file (artifact_string r i) fs = Some a \<and> read_file (artifact_string r fw) fs = Some c
        \<and> look fs (boot_comps r (om_name (bc_meta bc)) @ [''initrd'', file_of i]) = Some (FileN (a @ c) t 292))
     \<or> newer_than_both
          (Join [Join [Join [bcr_DataDir r, ''boot'', om_name (bc_meta bc)], ''initrd''], file_of i])
          (artifact_string r i) (artifact_string r fw) fs"

definition netboot_basis :: "'s BootConfigReconciler \<Rightarrow> BootConfig \<Rightarrow> BootConfigNetbootSpec \<Rightarrow> fsys \<Rightarrow> bool" where
  "netboot_basis r bc nb fs \<longleftrightarrow>
     (\<exists>k i. ready_artifact r bc (nb_KernelRef nb) k \<and> ready_artifact r bc (nb_InitrdRef nb) i
        \<and> look fs (boot_comps r (om_name (bc_meta bc)) @ [''kernel'', file_of k])
            = Some (LinkN (link_target [''..'', ''..'', ''..''] k))
        \<and> (if nb_FirmwareRef nb = []
           then look fs (boot_comps r (om_name (bc_meta bc)) @ [''initrd'', file_of i])
                  = Some (LinkN (link_target [''..'', ''..'', ''..''] i))
           else (\<exists>fw. ready_artifact r bc (nb_FirmwareRef nb) fw \<and> initrd_built r bc i fw fs)))"

definition iso_basis :: "'s BootConfigReconciler \<Rightarrow> BootConfig \<Rightarrow> BootConfigISOSpec \<Rightarrow> fsys \<Rightarrow> bool" where
  "iso_basis r bc isoSpec fs \<longleftrightarrow>
     isSafeISOPath (iso_KernelPath isoSpec) \<and> isSafeISOPath (iso_InitrdPath isoSpec)
     \<and> (\<exists>a. ready_artifact r bc (iso_ArtifactRef isoSpec) a
          \<and> look fs (boot_comps r (om_name (bc_meta bc)) @ [file_of a]) = Some (LinkN (link_target [''..'', ''..''] a)))"

definition boot_basis :: "'s BootConfigReconciler \<Rightarrow> BootConfig \<Rightarrow> fsys \<Rightarrow> bool" where
  "boot_basis r bc fs \<longleftrightarrow>
     (case bc_ISO (bc_Spec bc) of
        Some isoSpec \<Rightarrow> iso_basis r bc isoSpec fs
      | None \<Rightarrow> (case bc_Netboot (bc_Spec bc) of None \<Rightarrow> True | Some nb \<Rightarrow> netboot_basis r bc nb fs))"

definition boot_ready :: "'s BootConfigReconciler \<Rightarrow> status_write \<Rightarrow> fsys \<Rightarrow> bool" where
  "boot_ready r x fs \<longleftrightarrow>
     (case x of
        ConfigStatus bc \<Rightarrow> bc_Phase (bc_Status bc) = BootConfigPhaseReady \<longrightarrow> boot_basis r bc fs
      | _ \<Rightarrow> True)"

lemma boot_basis_status: "boot_basis r (bc\<lparr>bc_Status := st\<rparr>) fs \<longleftrightarrow> boot_basis r bc fs"
  by (simp add: boot_basis_def iso_basis_def netboot_basis_def initrd_built_def ready_artifact_def
      split: option.split)

section \<open>Status writes\<close>

abbreviation not_done :: "(fsys \<Rightarrow> bool) \<Rightarrow> 's BootConfigReconciler \<Rightarrow> 's world \<Rightarrow> ctrl_out \<Rightarrow> 's world \<Rightarrow> bool" where
  "not_done J r w0 \<equiv> (\<lambda>out w'. run_inv J (boot_ready r) w0 w' \<and> out \<noteq> Result 0)"

lemma BootConfig_update_spec:
  assumes inv: "run_inv J (boot_ready r) w0 w" and R: "boot_ready r (ConfigStatus bc) (w_fs w)"
  shows "wp (BootConfig_update r bc q) (\<lambda>out w'. run_inv J (boot_ready r) w0 w' \<and> w_fs w' = w_fs w
     \<and> (out = Result q \<or> (\<exists>e. out = ReconcileError e))) w"
  unfolding BootConfig_update_def
  by (auto simp: wp_simps api_write_def R split: prod.splits sum.splits intro!: run_inv_write [OF inv])

lemma setError_spec:
  assumes "run_inv J (boot_ready r) w0 w"
  shows "wp (setError r bc msg) (not_done J r w0) w"
  unfolding setError_def
proof (rule wp_ifI, goal_cases)
  case 2
  show ?case
    by (rule wp_mono [OF BootConfig_update_spec [OF assms]]) (auto simp: boot_ready_def Second_def)
qed (simp add: wp_return assms Second_def)

lemma setPending_spec:
  assumes "run_inv J (boot_ready r) w0 w"
  shows "wp (setPending r bc msg) (not_done J r w0) w"
  unfolding setPending_def
proof (rule wp_ifI, goal_cases)
  case 2
  show ?case
    by (rule wp_mono [OF BootConfig_update_spec [OF assms]]) (auto simp: boot_ready_def Second_def)
qed (simp add: wp_return assms Second_def)

abbreviation assembled ::
  "(fsys \<Rightarrow> bool) \<Rightarrow> 's BootConfigReconciler \<Rightarrow> BootConfig \<Rightarrow> 's world \<Rightarrow> ctrl_out \<Rightarrow> 's world \<Rightarrow> bool" where
  "assembled J r bc w0 \<equiv> (\<lambda>out w'. run_inv J (boot_ready r) w0 w' \<and> (out = Result 0 \<longrightarrow> boot_basis r bc (w_fs w')))"

lemma setError_assembled:
  "run_inv J (boot_ready r) w0 w \<Longrightarrow> wp (setError r bc' msg) (assembled J r bc w0) w"
  by (rule wp_mono [OF setError_spec]) auto

lemma setPending_assembled:
  "run_inv J (boot_ready r) w0 w \<Longrightarrow> wp (setPending r bc' msg) (assembled J r bc w0) w"
  by (rule wp_mono [OF setPending_spec]) auto

lemma setReady_assembled:
  assumes inv: "run_inv J (boot_ready r) w0 w" and b: "boot_basis r bc (w_fs w)"
  shows "wp (BootConfig_setReady r bc) (assembled J r bc w0) w"
  unfolding BootConfig_setReady_def
proof (rule wp_ifI, goal_cases)
  case 2
  show ?case
    by (rule wp_mono [OF BootConfig_update_spec [OF inv]]) (use b in \<open>auto simp: boot_ready_def boot_basis_status\<close>)
qed (simp add: wp_return assms)


section \<open>Mode A\<close>

lemma concat_temp_other: "\<not> has_prefix pre f \<Longrightarrow> f \<noteq> pre @ x"
  by (auto simp: has_prefix_def)

text \<open>What is left once the kernel link is there: the initrd.\<close>

definition assemble_initrd ::
  "'s BootConfigReconciler \<Rightarrow> BootConfig \<Rightarrow> BootArtifact \<Rightarrow> BootArtifact option \<Rightarrow> ('s, go_error + unit) io" where
  "assemble_initrd r bc i fw =
     (let initrdDir = Join [Join [bcr_DataDir r, ''boot'', om_name (bc_meta bc)], ''initrd''] in
      (case fw of
         Some w \<Rightarrow> concatenateFiles (Join [initrdDir, file_of i]) (artifact_string r i) (artifact_string r w)
       | None \<Rightarrow> ensureSymlink initrdDir (file_of i) (link_target [''..'', ''..'', ''..''] i)))"

definition initrd_basis :: "'s BootConfigReconciler \<Rightarrow> BootConfig \<Rightarrow> BootArtifact \<Rightarrow> BootArtifact option \<Rightarrow> fsys \<Rightarrow> bool" where
  "initrd_basis r bc i fw fs \<longleftrightarrow>
     (case fw of
        None \<Rightarrow> look fs (boot_comps r (om_name (bc_meta bc)) @ [''initrd'', file_of i])
                  = Some (LinkN (link_target [''..'', ''..'', ''..''] i))
      | Some w \<Rightarrow> initrd_built r bc i w fs)"

lemma boot_inv_refl:
  assumes "data_ok r name fs" and "rooted (bcr_DataDir r)" and "safe_component name"
  shows "boot_inv (boot_comps r name) fs fs"
  using assms dir_name_safe [OF boot_dir_name [OF assms(2,3)]]
  by (auto simp: boot_inv_def data_ok_def intro!: fill_inv_refl)

lemma sub_apart_read:
  assumes "data_ok r name fs0" and "safe_component name" and "rooted (bcr_DataDir r)"
    and "safe_component (om_name (ba_meta a))" and "boot_inv (boot_comps r name) fs0 fs"
  shows "read_file (artifact_string r a) fs = read_file (artifact_string r a) fs0"
  using apart_read [of "boot_comps r name" "artifact_comps r a" fs0 _ fs "artifact_string r a"]
    artifact_apart [OF assms(1,2), of "[]" a] assms(5) artifact_dir_name [OF assms(3,4)]
  by (auto simp: boot_inv_def)

lemma assemble_initrd_spec:
  assumes dat: "data_ok r (om_name (bc_meta bc)) (w_fs w0)" and root: "rooted (bcr_DataDir r)"
    and nm: "safe_component (om_name (bc_meta bc))"
    and i: "safe_component (om_name (ba_meta i))" "\<not> has_prefix ''.concat-'' (file_of i)"
    and fwn: "\<And>x. fw = Some x \<Longrightarrow> safe_component (om_name (ba_meta x))"
    and inv: "run_inv (linked_inv (boot_comps r (om_name (bc_meta bc))) kf t (w_fs w0)) R w1 w"
  shows "wp (assemble_initrd r bc i fw)
    (\<lambda>x w'. run_inv (linked_inv (boot_comps r (om_name (bc_meta bc))) kf t (w_fs w0)) R w1 w'
       \<and> (\<forall>u. x = Inr u \<longrightarrow> initrd_basis r bc i fw (w_fs w'))) w"
proof -
  let ?b = "boot_comps r (om_name (bc_meta bc))" and ?boot = "Join [bcr_DataDir r, ''boot'', om_name (bc_meta bc)]"
  have bd: "dir_name ?boot ?b" by (rule boot_dir_name [OF root nm])
  have d: "dir_name (Join [?boot, ''initrd'']) (?b @ [''initrd''])" by (rule dir_name_sub [OF bd safe_initrd])
  have f: "safe_component (file_of i)" by (simp add: file_of_def filename_safe)
  show ?thesis
  proof (cases fw)
    case None
    show ?thesis
      unfolding assemble_initrd_def Let_def None option.case
      by (rule wp_mono [OF initrd_dir.ensureSymlink_spec [OF inv d f]]) (auto simp: initrd_basis_def)
  next
    case (Some x)
    have src: "read_file (artifact_string r a) fs = read_file (artifact_string r a) (w_fs w0)"
      if "safe_component (om_name (ba_meta a))" "linked_inv ?b kf t (w_fs w0) fs" for a fs
      by (rule sub_apart_read [OF dat nm root that(1) linked_inv_boot [OF that(2)]])
    note spec = initrd_dir.concatenateFiles_spec [OF inv d f TrueI src [OF i(1)] src [OF fwn [OF Some]] TrueI
        concat_temp_other [OF i(2)]]
    show ?thesis
      unfolding assemble_initrd_def Let_def Some option.case
    proof (rule wp_mono [OF spec], goal_cases)
      case (3 y w')
      then have J: "linked_inv ?b kf t (w_fs w0) (w_fs w')" by (auto dest: run_inv_fs)
      show ?case
        using 3 src [OF i(1) J] src [OF fwn [OF Some] J] by (auto simp: initrd_basis_def initrd_built_def)
    qed
  qed
qed


lemma assemble_eq:
  "assemble r bc k i fw =
     (let bootDir = Join [bcr_DataDir r, ''boot'', om_name (bc_meta bc)] in do {
        mk \<leftarrow> os_MkdirAll (Join [bootDir, ''kernel'']);
        (case mk of
           Inl err \<Rightarrow> setError r bc (''creating kernel dir: '' @ os_error_text err)
         | Inr _ \<Rightarrow> do {
             mi \<leftarrow> os_MkdirAll (Join [bootDir, ''initrd'']);
             (case mi of
                Inl err \<Rightarrow> setError r bc (''creating initrd dir: '' @ os_error_text err)
              | Inr _ \<Rightarrow> do {
                  l \<leftarrow> ensureSymlink (Join [bootDir, ''kernel'']) (file_of k) (link_target [''..'', ''..'', ''..''] k);
                  (case l of
                     Inl err \<Rightarrow> setError r bc (''creating kernel symlink: '' @ error_text err)
                   | Inr _ \<Rightarrow> do {
                       c \<leftarrow> assemble_initrd r bc i fw;
                       (case c of
                          Inl err \<Rightarrow>
                            setError r bc
                              ((if fw = None then ''creating initrd symlink: '' else ''concatenating initrd + firmware: '')
                               @ error_text err)
                        | Inr _ \<Rightarrow> BootConfig_setReady r bc)
                     })
                })
           })
      })"
  by (cases fw) (simp_all add: assemble_def assemble_initrd_def link_target_def file_of_def artifact_string_def Let_def)

text \<open>The second half: with the link to the kernel in place, the initrd and the status.\<close>

lemma assemble_tail:
  assumes dat: "data_ok r (om_name (bc_meta bc)) (w_fs w0)" and root: "rooted (bcr_DataDir r)"
    and nm: "safe_component (om_name (bc_meta bc))" and names: "artifact_names_ok r"
    and nb: "bc_ISO (bc_Spec bc) = None" "bc_Netboot (bc_Spec bc) = Some nb"
    and k: "ready_artifact r bc (nb_KernelRef nb) k" and i: "ready_artifact r bc (nb_InitrdRef nb) i"
    and fw: "case fw of None \<Rightarrow> nb_FirmwareRef nb = []
      | Some x \<Rightarrow> nb_FirmwareRef nb \<noteq> [] \<and> ready_artifact r bc (nb_FirmwareRef nb) x"
    and inv: "run_inv (boot_inv (boot_comps r (om_name (bc_meta bc))) (w_fs w0)) (boot_ready r) w0 w"
    and lk: "look (w_fs w) (boot_comps r (om_name (bc_meta bc)) @ [''kernel'', file_of k])
      = Some (LinkN (link_target [''..'', ''..'', ''..''] k))"
  shows "wp (State_Monad.bind (assemble_initrd r bc i fw) (\<lambda>x. case x of
        Inl err \<Rightarrow> setError r bc ((if fw = None then ''creating initrd symlink: '' else ''concatenating initrd + firmware: '') @ error_text err)
      | Inr _ \<Rightarrow> BootConfig_setReady r bc))
    (assembled (boot_inv (boot_comps r (om_name (bc_meta bc))) (w_fs w0)) r bc w0) w"
proof -
  let ?b = "boot_comps r (om_name (bc_meta bc))" and ?J = "boot_inv (boot_comps r (om_name (bc_meta bc))) (w_fs w0)"
  let ?L = "linked_inv ?b (file_of k) (link_target [''..'', ''..'', ''..''] k) (w_fs w0)"
  have sn: "safe_component (om_name (ba_meta a)) \<and> \<not> has_prefix ''.concat-'' (file_of a)"
    if "ready_artifact r bc ref a" for ref a
    using names that unfolding artifact_names_ok_def ready_artifact_def file_of_def by blast
  have "run_inv ?L (boot_ready r) w w"
    by (rule run_inv_refl) (use run_inv_fs [OF inv] lk in \<open>simp add: linked_inv_def\<close>)
  note init = assemble_initrd_spec [OF dat root nm _ _ _ this, of i fw]
  have "wp (assemble_initrd r bc i fw) (\<lambda>x w'. run_inv ?L (boot_ready r) w w'
      \<and> (\<forall>u. x = Inr u \<longrightarrow> initrd_basis r bc i fw (w_fs w'))) w"
    by (rule init) (use sn [OF i] sn fw in auto)
  then have "wp (assemble_initrd r bc i fw) (\<lambda>x w'. run_inv ?J (boot_ready r) w0 w' \<and> ?L (w_fs w')
      \<and> (\<forall>u. x = Inr u \<longrightarrow> initrd_basis r bc i fw (w_fs w'))) w"
    by (rule run_inv_weaken [OF _ inv]) (rule linked_inv_boot)
  then show ?thesis
  proof (rule wp_try, goal_cases)
    case (1 e w4)
    then show ?case by (intro setError_assembled) simp
  next
    case (2 u w4)
    then have "netboot_basis r bc nb (w_fs w4)"
      using k i fw unfolding netboot_basis_def initrd_basis_def linked_inv_def
      by (cases fw) auto
    then have "boot_basis r bc (w_fs w4)" by (simp add: boot_basis_def nb)
    then show ?case using 2 by (intro setReady_assembled) auto
  qed
qed

lemma assemble_spec:
  assumes dat: "data_ok r (om_name (bc_meta bc)) (w_fs w0)" and root: "rooted (bcr_DataDir r)"
    and nm: "safe_component (om_name (bc_meta bc))" and names: "artifact_names_ok r"
    and nb: "bc_ISO (bc_Spec bc) = None" "bc_Netboot (bc_Spec bc) = Some nb"
    and k: "ready_artifact r bc (nb_KernelRef nb) k" and i: "ready_artifact r bc (nb_InitrdRef nb) i"
    and fw: "case fw of None \<Rightarrow> nb_FirmwareRef nb = []
      | Some x \<Rightarrow> nb_FirmwareRef nb \<noteq> [] \<and> ready_artifact r bc (nb_FirmwareRef nb) x"
    and inv: "run_inv (boot_inv (boot_comps r (om_name (bc_meta bc))) (w_fs w0)) (boot_ready r) w0 w"
  shows "wp (assemble r bc k i fw) (assembled (boot_inv (boot_comps r (om_name (bc_meta bc))) (w_fs w0)) r bc w0) w"
proof -
  let ?b = "boot_comps r (om_name (bc_meta bc))" and ?boot = "Join [bcr_DataDir r, ''boot'', om_name (bc_meta bc)]"
  let ?t = "link_target [''..'', ''..'', ''..''] k" and ?J = "boot_inv (boot_comps r (om_name (bc_meta bc))) (w_fs w0)"
  have bd: "dir_name ?boot ?b" by (rule boot_dir_name [OF root nm])
  have dk: "dir_name (Join [?boot, ''kernel'']) (?b @ [''kernel''])" by (rule dir_name_sub [OF bd safe_kernel])
  have di: "dir_name (Join [?boot, ''initrd'']) (?b @ [''initrd''])" by (rule dir_name_sub [OF bd safe_initrd])
  have fk: "safe_component (file_of k)" by (simp add: file_of_def filename_safe)
  show ?thesis
    unfolding assemble_eq Let_def
  proof (rule wp_try [OF keepsD [OF kernel_dir.MkdirAll_keeps [OF dk] inv]], goal_cases)
    case (1 e w1)
    then show ?case by (rule setError_assembled)
  next
    case (2 u w1)
    show ?case
    proof (rule wp_try [OF boot_inv_mkdir_initrd [OF di 2]], goal_cases)
      case (1 e w2)
      then show ?case by (rule setError_assembled)
    next
      case (2 u w2)
      show ?case
      proof (rule wp_try [OF kernel_dir.ensureSymlink_spec [OF 2 dk fk TrueI]], goal_cases)
        case (1 e w3)
        then show ?case by (intro setError_assembled) simp
      next
        case (2 u w3)
        then have inv3: "run_inv ?J (boot_ready r) w0 w3" and lk: "look (w_fs w3) (?b @ [''kernel'', file_of k]) = Some (LinkN ?t)"
          by auto
        show ?case by (rule assemble_tail [OF dat root nm names nb k i fw inv3 lk])
      qed
    qed
  qed
qed


lemma getArtifact_spec:
  "run_inv J R w0 w \<Longrightarrow>
   wp (getArtifact r name ns) (\<lambda>x w'. run_inv J R w0 w' \<and> (\<forall>a. x = Inr a \<longrightarrow> serves r ns name a)) w"
  unfolding getArtifact_def
  by (rule wp_conj [OF keepsD [OF keeps_api_call]])
    (auto simp: api_call_def wp_State serves_def split: prod.splits)

text \<open>An artifact that is missing ends the reconciliation, by an error or a status.\<close>

lemma missing_assembled:
  assumes "run_inv J (boot_ready r) w0 w"
  shows "wp (if \<not> IsNotFound (ApiErr err) then State_Monad.return (ReconcileError (ApiErr err)) else setError r bc' msg)
    (assembled J r bc w0) w"
  by (rule wp_ifI) (auto simp: wp_return assms intro: setError_assembled [OF assms])

lemma reconcileNetboot_spec:
  assumes dat: "data_ok r (om_name (bc_meta bc)) (w_fs w0)" and root: "rooted (bcr_DataDir r)"
    and nm: "safe_component (om_name (bc_meta bc))" and names: "artifact_names_ok r"
    and nb: "bc_ISO (bc_Spec bc) = None" "bc_Netboot (bc_Spec bc) = Some nb"
    and inv: "run_inv (boot_inv (boot_comps r (om_name (bc_meta bc))) (w_fs w0)) (boot_ready r) w0 w"
  shows "wp (reconcileNetboot r bc nb) (assembled (boot_inv (boot_comps r (om_name (bc_meta bc))) (w_fs w0)) r bc w0) w"
  unfolding reconcileNetboot_def
proof (rule wp_try [OF getArtifact_spec [OF inv]], goal_cases)
  case (1 e w1)
  then show ?case by (intro missing_assembled) simp
next
  case k: (2 k w1)
  then have inv1: "run_inv (boot_inv (boot_comps r (om_name (bc_meta bc))) (w_fs w0)) (boot_ready r) w0 w1" by simp
  show ?case
  proof (rule wp_try [OF getArtifact_spec [OF inv1]], goal_cases)
    case (1 e w2)
    then show ?case by (intro missing_assembled) simp
  next
    case i: (2 i w2)
    then have inv2: "run_inv (boot_inv (boot_comps r (om_name (bc_meta bc))) (w_fs w0)) (boot_ready r) w0 w2" by simp
    show ?case
    proof (intro wp_ifI setPending_assembled [OF inv2], goal_cases)
      case 1
      show ?case
      proof (rule wp_try [OF getArtifact_spec [OF inv2]], goal_cases)
        case (1 e w3)
        then show ?case by (intro missing_assembled) simp
      next
        case (2 fw w3)
        then have inv3: "run_inv (boot_inv (boot_comps r (om_name (bc_meta bc))) (w_fs w0)) (boot_ready r) w0 w3" by simp
        show ?case
          by (intro wp_ifI setPending_assembled [OF inv3] assemble_spec [OF dat root nm names nb _ _ _ inv3])
            (use 1 2 k i in \<open>auto simp: ready_artifact_def\<close>)
      qed
    next
      case 2
      then show ?case
        by (intro assemble_spec [OF dat root nm names nb _ _ _ inv2]) (use k i in \<open>auto simp: ready_artifact_def\<close>)
    qed
  qed
qed

section \<open>Mode B\<close>

lemma reconcileISO_spec:
  assumes dat: "data_ok r (om_name (bc_meta bc)) (w_fs w0)" and root: "rooted (bcr_DataDir r)"
    and nm: "safe_component (om_name (bc_meta bc))" and names: "artifact_names_ok r"
    and dfs: "\<And>e. \<exists>t. bcr_diskfs r (Inl e) = Inl t"
    and iso: "bc_ISO (bc_Spec bc) = Some isoSpec"
    and inv: "run_inv (fill_inv (\<lambda>_ _. True) (boot_comps r (om_name (bc_meta bc))) (w_fs w0)) (boot_ready r) w0 w"
  shows "wp (reconcileISO r bc isoSpec)
    (assembled (fill_inv (\<lambda>_ _. True) (boot_comps r (om_name (bc_meta bc))) (w_fs w0)) r bc w0) w"
  unfolding reconcileISO_def
proof (intro wp_ifI setError_assembled [OF inv], rule wp_try [OF getArtifact_spec [OF inv]], goal_cases)
  case (1 e w1)
  then show ?case by (intro missing_assembled) simp
next
  case a: (2 a w1)
  let ?b = "boot_comps r (om_name (bc_meta bc))" and ?boot = "Join [bcr_DataDir r, ''boot'', om_name (bc_meta bc)]"
  let ?J = "fill_inv (\<lambda>_ _. True) ?b (w_fs w0)"
  have inv1: "run_inv ?J (boot_ready r) w0 w1" using a by simp
  have bd: "dir_name ?boot ?b" by (rule boot_dir_name [OF root nm])
  have f: "safe_component (FilenameFromURL u)" for u by (rule filename_safe)
  have sa: "safe_component (om_name (ba_meta a))" using a names unfolding artifact_names_ok_def by blast
  have src: "read_file (artifact_string r a) fs = read_file (artifact_string r a) (w_fs w0)" if "?J fs" for fs
    using apart_read [OF artifact_apart [OF dat nm, of "[]", simplified] that artifact_dir_name [OF root sa]] .
  show ?case
    unfolding Let_def artifact_string_def [symmetric]
  proof (intro wp_ifI setPending_assembled [OF inv1],
      rule wp_try [OF keepsD [OF fill.MkdirAll_keeps [OF bd] inv1]], goal_cases)
    case (1 e w2)
    then show ?case by (intro setError_assembled)
  next
    case inv2: (2 u w2)
    show ?case
    proof (rule wp_try [OF fill.extractFromISO_spec [where diskfs = "bcr_diskfs r" and good = "\<lambda>_ _. True", OF inv2(2) bd src dfs]], goal_cases)
      case (5 e w3)
      then show ?case by (intro setError_assembled)
    next
      case inv3: (6 u w3)
      show ?case
      proof (rule wp_try [OF fill.ensureFileSymlink_spec [OF inv3 bd f TrueI]], goal_cases)
        case (1 e w4)
        then show ?case by (intro setError_assembled) simp
      next
        case (2 u w4)
        then have "boot_basis r bc (w_fs w4)"
          using a inv2(1) iso by (auto simp: boot_basis_def iso_basis_def ready_artifact_def file_of_def link_target_def)
        then show ?case using 2 by (intro setReady_assembled) auto
      qed
    qed auto
  qed
qed


section \<open>Reconcile\<close>

lemma boot_inv_fill: "boot_inv b fs0 fs \<Longrightarrow> fill_inv (\<lambda>_ _. True) b fs0 fs"
  by (simp add: boot_inv_def)

lemma Config_spec:
  assumes get: "Get_BootConfig (bcr_Client r) ns name (w_api w) = (Inr bc, s)"
    and dat: "data_ok r (om_name (bc_meta bc)) (w_fs w)" and root: "rooted (bcr_DataDir r)"
    and nm: "safe_component (om_name (bc_meta bc))" and names: "artifact_names_ok r"
    and dfs: "\<And>e. \<exists>t. bcr_diskfs r (Inl e) = Inl t"
  shows "wp (BootConfig_Reconcile r ns name)
    (assembled (fill_inv (\<lambda>_ _. True) (boot_comps r (om_name (bc_meta bc))) (w_fs w)) r bc w) w"
proof -
  let ?b = "boot_comps r (om_name (bc_meta bc))" and ?w = "w\<lparr>w_api := s\<rparr>"
  have B: "boot_inv ?b (w_fs w) (w_fs w)" by (rule boot_inv_refl [OF dat root nm])
  have A: "run_inv (boot_inv ?b (w_fs w)) (boot_ready r) w ?w" using B by (simp add: run_inv_def)
  have F: "run_inv (fill_inv (\<lambda>_ _. True) ?b (w_fs w)) (boot_ready r) w ?w"
    using boot_inv_fill [OF B] by (simp add: run_inv_def)
  have "wp (case bc_ISO (bc_Spec bc) of
        Some isoSpec \<Rightarrow> reconcileISO r bc isoSpec
      | None \<Rightarrow> (case bc_Netboot (bc_Spec bc) of
          None \<Rightarrow> State_Monad.return (Result 0)
        | Some nb \<Rightarrow> reconcileNetboot r bc nb)) (assembled (fill_inv (\<lambda>_ _. True) ?b (w_fs w)) r bc w) ?w"
  proof (cases "bc_ISO (bc_Spec bc)")
    case None
    show ?thesis
    proof (cases "bc_Netboot (bc_Spec bc)")
      case None
      then show ?thesis using \<open>bc_ISO (bc_Spec bc) = None\<close> F by (simp add: wp_return boot_basis_def)
    next
      case (Some nb)
      from reconcileNetboot_spec [OF dat root nm names None Some A] show ?thesis
        unfolding None Some option.case
        by (rule wp_mono) (auto dest: run_inv_mono [OF _ boot_inv_fill])
    qed
  next
    case (Some isoSpec)
    show ?thesis
      unfolding Some option.case by (rule reconcileISO_spec [OF dat root nm names dfs Some F])
  qed
  then show ?thesis
    unfolding BootConfig_Reconcile_def
    by (intro wp_api_call_bind [where f = "Get_BootConfig (bcr_Client r) ns name", OF get]) simp
qed

text \<open>A config that is gone: its boot directory is removed, and nothing else.\<close>

definition gone_inv :: "path \<Rightarrow> fsys \<Rightarrow> fsys \<Rightarrow> bool" where
  "gone_inv b fs0 fs \<longleftrightarrow> (\<forall>q. look fs q \<noteq> look fs0 q \<longrightarrow> below b q \<and> look fs q = None)"

lemma boot_resolve:
  assumes "rooted (bcr_DataDir r)" and "safe_component name" and "plain fs (data_comps r @ [''boot''])"
    and "resolve False fs (Join [bcr_DataDir r, ''boot'', name]) = Inr q"
  shows "q = boot_comps r name"
proof -
  have d: "dir_name (Join [bcr_DataDir r, ''boot'', name]) (boot_comps r name)" by (rule boot_dir_name [OF assms(1,2)])
  have "q = (data_comps r @ [''boot'']) @ [name]"
    by (rule resolve_nofollow [OF assms(4) _ _ assms(3)])
      (use d dir_name_no_dotdot [OF d] in \<open>auto simp: dir_name_def boot_comps_def\<close>)
  then show ?thesis by (simp add: boot_comps_def)
qed

lemma Config_gone_spec:
  assumes get: "Get_BootConfig (bcr_Client r) ns name (w_api w) = (Inl e, s)"
    and root: "rooted (bcr_DataDir r)" and nm: "safe_component name" and pl: "plain (w_fs w) (data_comps r @ [''boot''])"
  shows "wp (BootConfig_Reconcile r ns name) (\<lambda>out w'. run_inv (gone_inv (boot_comps r name) (w_fs w)) (boot_ready r) w w') w"
proof -
  let ?b = "boot_comps r name" and ?p = "Join [bcr_DataDir r, ''boot'', name]" and ?w = "w\<lparr>w_api := s\<rparr>"
  have I: "run_inv (gone_inv ?b (w_fs w)) (boot_ready r) w ?w" by (simp add: run_inv_def gone_inv_def)
  have rm: "wp (os_RemoveAll ?p) (\<lambda>x w'. run_inv (gone_inv ?b (w_fs w)) (boot_ready r) w w') ?w"
    unfolding os_RemoveAll_def
  proof (rule wp_os_call)
    fix x w' assume st: "stepped ?w w'" and eff: "fs_remove_all ?p (w_fs ?w) = (x, w_fs w')"
    have "gone_inv ?b (w_fs w) (w_fs w')"
      unfolding gone_inv_def
      using fs_remove_all_frame [OF eff] boot_resolve [OF root nm pl] by auto
    then show "run_inv (gone_inv ?b (w_fs w)) (boot_ready r) w w'" by (rule run_inv_step [OF I st])
  next
    fix err k w' assume st: "stepped ?w w'" and eff: "w_fs w' = fs_remove_some ?p k (w_fs ?w)"
    have "gone_inv ?b (w_fs w) (w_fs w')"
      unfolding gone_inv_def eff
      using fs_remove_some_frame [of ?p k "w_fs w"] boot_resolve [OF root nm pl] by auto
    then show "run_inv (gone_inv ?b (w_fs w)) (boot_ready r) w w'" by (rule run_inv_step [OF I st])
  qed
  show ?thesis
    unfolding BootConfig_Reconcile_def
  proof (intro wp_api_call_bind [where f = "Get_BootConfig (bcr_Client r) ns name", OF get], unfold sum.case,
      rule wp_ifI, goal_cases)
    case 1
    then show ?case using I by (simp add: wp_return)
  next
    case 2
    show ?case by (rule wp_step [OF rm]) (simp add: wp_return)
  qed
qed


section \<open>The links lead to the artifacts\<close>

lemma foldl_ups: "foldl (clean_step False) (replicate j ''..'') (replicate k ''..'') = replicate (j + k) ''..''"
proof (induction k arbitrary: j)
  case (Suc k)
  have "clean_step False (replicate j ''..'') ''..'' = replicate (Suc j) ''..''"
    by (cases j) (simp_all add: clean_step_def replicate_append_same)
  then show ?case using Suc.IH [of "Suc j"] by simp
qed simp

lemma up_parts: "c \<in> set (replicate k ''..'' @ cs) \<Longrightarrow> (\<And>c. c \<in> set cs \<Longrightarrow> safe_component c) \<Longrightarrow>
   slash \<notin> set c \<and> c \<noteq> [] \<and> c \<noteq> ''.''"
proof -
  assume "c \<in> set (replicate k ''..'' @ cs)" and cs: "\<And>c. c \<in> set cs \<Longrightarrow> safe_component c"
  then have "c = ''..'' \<or> safe_component c" by auto
  then show ?thesis by (elim disjE) (simp add: slash_def, simp add: safe_componentD)
qed

lemma relative_target:
  assumes cs: "\<And>c. c \<in> set cs \<Longrightarrow> safe_component c"
  shows "comps (Join (replicate (Suc k) ''..'' @ cs)) = replicate (Suc k) ''..'' @ cs"
    and "\<not> rooted (Join (replicate (Suc k) ''..'' @ cs))"
proof -
  let ?ps = "replicate (Suc k) ''..'' @ cs"
  have free: "slash \<notin> set c \<and> c \<noteq> [] \<and> c \<noteq> ''.''" if "c \<in> set ?ps" for c using up_parts [OF that cs] .
  have sp: "split_on slash (join_with [slash] ?ps) = ?ps"
    by (rule split_on_join_with) (use free in auto)
  have nr: "\<not> rooted (join_with [slash] ?ps)"
    by (cases "replicate k ''..'' @ cs") (auto simp: rooted_def slash_def)
  have "foldl (clean_step False) [] ?ps = ?ps"
    using foldl_ups [of 0 "Suc k"] foldl_clean_step_safe [OF cs] by simp
  then have cc: "clean_comps (join_with [slash] ?ps) = ?ps" using nr sp by (simp add: clean_comps_def)
  then have J: "Join ?ps = join_with [slash] ?ps"
    using nr by (simp add: Join_def Clean_def)
  show "comps (Join ?ps) = ?ps"
    unfolding J comps_def sp by (rule filter_True) (use free in blast)
  show "\<not> rooted (Join ?ps)" unfolding J by (rule nr)
qed


text \<open>
  A link in a directory \<open>k + 1\<close> levels below the data directory, with as many \<^verbatim>\<open>..\<close> in its target, resolves
  to the artifact's file.
\<close>

lemma walk_ups:
  "length p = k \<Longrightarrow> walk fs n follow (dd @ p) (replicate k ''..'' @ cs) = walk fs n follow dd cs"
proof (induction k arbitrary: p)
  case (Suc k)
  then obtain q x where "p = q @ [x]" "length q = k" by (cases p rule: rev_cases) auto
  then show ?case using Suc.IH [of q] by (simp add: butlast_append)
qed simp

lemma link_walk:
  assumes p: "length p = Suc k" and pl: "plain_dir fs (dd @ p)" and nd: "no_dotdot (dd @ p)"
    and lk: "look fs (dd @ p @ [f]) = Some (LinkN (Join (replicate (Suc k) ''..'' @ [''artifacts'', n, g])))"
    and f: "f \<noteq> ''..''" and safe: "safe_component n" "safe_component g"
    and ad: "plain_dir fs (dd @ [''artifacts'', n])"
    and fl: "look fs (dd @ [''artifacts'', n, g]) = Some (FileN c t m)"
  shows "walk fs 40 True [] (dd @ p @ [f]) = Inr (dd @ [''artifacts'', n, g])"
proof -
  let ?t = "Join (replicate (Suc k) ''..'' @ [''artifacts'', n, g])"
  have cs: "safe_component x" if "x \<in> set [''artifacts'', n, g]" for x using that safe safe_artifacts by auto
  have nr: "\<not> rooted ?t" by (rule relative_target(2) [OF cs])
  have rt: "comps ?t = replicate (Suc k) ''..'' @ [''artifacts'', n, g]"
    by (rule relative_target(1)) (rule cs)
  have n40: "(40::nat) = Suc 39" by simp
  have w: "walk fs 40 True [] ((dd @ p) @ [f]) = walk fs 40 True ([] @ dd @ p) [f]"
    by (rule walk_dirs) (use pl nd in \<open>auto simp: no_dotdot_def plain_dir_def\<close>)
  have 1: "walk fs 40 True (dd @ p) [f] = walk fs 39 True (dd @ p) (comps ?t)"
    using lk f nr n40 by (simp del: replicate.simps)
  have 2: "walk fs 39 True (dd @ p) (comps ?t) = walk fs 39 True dd [''artifacts'', n, g]"
    unfolding rt by (rule walk_ups) (rule p)
  have "walk fs 39 True dd ([''artifacts'', n] @ [g]) = walk fs 39 True (dd @ [''artifacts'', n]) [g]"
    by (rule walk_dirs)
      (use ad safe safe_artifacts in \<open>auto simp: plain_dir_def below_iff dest: safe_componentD\<close>)
  then have 3: "walk fs 39 True dd [''artifacts'', n, g] = walk fs 39 True (dd @ [''artifacts'', n]) [g]"
    by (simp only: append_Cons append_Nil)
  have 4: "walk fs 39 True (dd @ [''artifacts'', n]) [g] = Inr (dd @ [''artifacts'', n, g])"
    using fl safe(2) by (simp add: safe_componentD)
  show ?thesis using w unfolding append_assoc append_Nil 1 2 3 4 .
qed

lemma link_reads:
  assumes s: "s \<noteq> []" "CHR 0x00 \<notin> set s" "comps s = dd @ p @ [f]"
    and "length p = Suc k" and "plain_dir fs (dd @ p)" and "no_dotdot (dd @ p @ [f])"
    and "look fs (dd @ p @ [f]) = Some (LinkN (Join (replicate (Suc k) ''..'' @ [''artifacts'', n, g])))"
    and "safe_component n" "safe_component g" and "plain_dir fs (dd @ [''artifacts'', n])"
    and "look fs (dd @ [''artifacts'', n, g]) = Some (FileN c t m)"
  shows "read_file s fs = Some c"
proof -
  have "walk fs 40 True [] (dd @ p @ [f]) = Inr (dd @ [''artifacts'', n, g])"
    by (rule link_walk [where k = k]) (use assms in \<open>auto simp: no_dotdot_def\<close>)
  then show ?thesis using s assms(11) by (simp add: read_file_def fs_open_def fs_read_def resolve_def)
qed


end
