(* ===== verification/ConfigProps.thy ===== *)
theory ConfigProps
  imports ConfigRuns
begin

text \<open>
  The properties of the BootConfig reconciler, applied to a small concrete world: a server with one
  config and its artifacts, and a data directory that holds their files.
\<close>

section \<open>A concrete world\<close>

definition cfg_artifact :: "string \<Rightarrow> BootArtifactPhase \<Rightarrow> BootArtifact" where
  "cfg_artifact name ph =
     \<lparr>ba_meta = \<lparr>om_name = name, om_namespace = ''default'', om_resourceVersion = 1\<rparr>,
      ba_Spec = \<lparr>ba_URL = ''https://example.com/'' @ name @ ''.bin'', ba_SHA256 = None, ba_SHA512 = None\<rparr>,
      ba_Status = \<lparr>ba_Phase = ph, ba_Message = [], ba_FailureCount = 0,
        ba_LastFailureTime = None, ba_LastChecked = None\<rparr>\<rparr>"

definition cfg_config :: "BootConfigNetbootSpec option \<Rightarrow> BootConfigISOSpec option \<Rightarrow> BootConfig" where
  "cfg_config nb isoSpec =
     \<lparr>bc_meta = \<lparr>om_name = ''noble'', om_namespace = ''default'', om_resourceVersion = 1\<rparr>,
      bc_Spec = \<lparr>bc_Netboot = nb, bc_ISO = isoSpec, bc_KernelArgs = []\<rparr>,
      bc_Status = \<lparr>bc_Phase = BootConfigPhaseUnset, bc_Message = []\<rparr>\<rparr>"

abbreviation "cfg_netboot fw \<equiv> \<lparr>nb_KernelRef = ''kern'', nb_InitrdRef = ''init'', nb_FirmwareRef = fw\<rparr>"

text \<open>A server that holds at most one config, and the given artifacts.\<close>

definition cfg_client :: "BootConfig option \<Rightarrow> BootArtifact list \<Rightarrow> unit Client" where
  "cfg_client bc arts =
     \<lparr>Get_BootArtifact = (\<lambda>ns n s. (case find (\<lambda>a. om_name (ba_meta a) = n) arts of
        None \<Rightarrow> Inl (ApiNotFound n) | Some a \<Rightarrow> Inr a, s)),
      Get_BootConfig = (\<lambda>ns n s. (case bc of None \<Rightarrow> Inl (ApiNotFound n) | Some b \<Rightarrow> Inr b, s)),
      Get_Provision = (\<lambda>ns n s. (Inl (ApiNotFound n), s)),
      Get_ProvisionAutomation = (\<lambda>ns n s. (Inl (ApiNotFound n), s)),
      Get_ConfigMap = (\<lambda>ns n s. (Inl (ApiNotFound n), s)),
      Get_Secret = (\<lambda>ns n s. (Inl (ApiNotFound n), s)),
      List_BootConfigs = (\<lambda>ns s. (Inr (case bc of None \<Rightarrow> [] | Some b \<Rightarrow> [b]), s)),
      List_Machines = (\<lambda>ns fs s. (Inr [], s)),
      List_Provisions = (\<lambda>ns fs s. (Inr [], s)),
      Update_BootArtifact_status = (\<lambda>a s. (Inr a, s)),
      Update_BootConfig_status = (\<lambda>b s. (Inr b, s)),
      Update_Provision_status = (\<lambda>p s. (Inr p, s))\<rparr>"

definition cfg_reconciler :: "BootConfig option \<Rightarrow> BootArtifact list \<Rightarrow> unit BootConfigReconciler" where
  "cfg_reconciler bc arts =
     \<lparr>bcr_Client = cfg_client bc arts, bcr_DataDir = ''/data'',
      bcr_diskfs = (\<lambda>x. case x of Inl e \<Rightarrow> Inl ''no image'' | Inr c \<Rightarrow> Inr (Inr (\<lambda>p. Inr (c, None))))\<rparr>"

definition cfg_world :: "fsys \<Rightarrow> os_event list \<Rightarrow> unit world" where
  "cfg_world fs sched =
     \<lparr>w_fs = fs, w_sched = sched, w_clock = 100, w_draws = (\<lambda>n. n), w_draw = 0, w_api = (),
      w_trace = [], w_writes = [], w_events = []\<rparr>"

definition cfg_disk :: fsys where
  "cfg_disk =
     [([''data''], DirN 0), ([''data'', ''artifacts''], DirN 0),
      ([''data'', ''artifacts'', ''kern''], DirN 0), ([''data'', ''artifacts'', ''kern'', ''kern.bin''], FileN ''K'' 1 420),
      ([''data'', ''artifacts'', ''init''], DirN 0), ([''data'', ''artifacts'', ''init'', ''init.bin''], FileN ''I'' 2 420),
      ([''data'', ''artifacts'', ''firm''], DirN 0), ([''data'', ''artifacts'', ''firm'', ''firm.bin''], FileN ''F'' 3 420)]"

definition cfg_run ::
  "BootConfig option \<Rightarrow> BootArtifact list \<Rightarrow> fsys \<Rightarrow> os_event list \<Rightarrow> ctrl_out \<times> unit world" where
  "cfg_run bc arts fs sched = run_state (BootConfig_Reconcile (cfg_reconciler bc arts) ''default'' ''noble'') (cfg_world fs sched)"

text \<open>Finite checks of the conditions on a file system.\<close>

lemma look_mem: "look fs q \<noteq> None \<Longrightarrow> q = [] \<or> (\<exists>n. (q, n) \<in> set fs)"
  by (auto simp: look_def split: if_splits dest: map_of_SomeD)

lemma wf_names_list: "list_all (\<lambda>(q, n). list_all safe_component q) fs \<Longrightarrow> wf_names fs"
  unfolding wf_names_def list_all_iff using look_mem by fastforce

lemma no_link_list: "list_all (\<lambda>(q, n). case n of LinkN _ \<Rightarrow> False | _ \<Rightarrow> True) fs \<Longrightarrow> \<not> is_link fs q"
  using look_mem [of fs q]
  by (auto simp: is_link_def list_all_iff look_def split: if_splits dest!: map_of_SomeD)

lemma plain_dir_list:
  assumes "list_all (\<lambda>n. case look fs (take n p) of Some (DirN _) \<Rightarrow> True | _ \<Rightarrow> False) [0..<Suc (length p)]"
  shows "plain_dir fs p"
  unfolding plain_dir_def
proof (intro allI impI)
  fix q assume "below q p"
  then obtain k where k: "q = take k p" "k \<in> set [0..<Suc (length p)]"
    by (auto simp: below_iff intro!: that [of "length q"])
  from assms [unfolded list_all_iff, THEN bspec, OF k(2)] show "\<exists>t. look fs q = Some (DirN t)"
    unfolding k(1) by (auto split: option.splits node.splits)
qed

lemma cfg_comps: "data_comps (cfg_reconciler bc arts) = [''data'']"
proof -
  have "clean_comps ''/data'' = [''data'']" by code_simp
  then show ?thesis by (simp add: data_comps_def) (simp add: cfg_reconciler_def)
qed

lemma cfg_boot: "boot_comps (cfg_reconciler bc arts) n = [''data'', ''boot'', n]"
  by (simp add: boot_comps_def cfg_comps)

lemma cfg_rooted: "rooted (bcr_DataDir (cfg_reconciler bc arts))"
  by (simp add: cfg_reconciler_def rooted_def slash_def)

lemma cfg_safe: "safe_component ''noble''"
  by (simp add: safe_component_def slash_def)

lemma cfg_data_ok: "data_ok (cfg_reconciler bc arts) n cfg_disk"
proof -
  have "wf_names cfg_disk" by (rule wf_names_list) code_simp
  moreover have "\<not> is_link cfg_disk q" for q by (rule no_link_list) code_simp
  moreover have "plain_dir cfg_disk ([] @ [''data''])"
    unfolding plain_dir_snoc by (simp add: look_def cfg_disk_def)
  ultimately show ?thesis by (simp add: data_ok_def cfg_comps plain_def)
qed

lemma cfg_diskfs: "\<forall>e. \<exists>t. bcr_diskfs (cfg_reconciler bc arts) (Inl e) = Inl t"
  by (simp add: cfg_reconciler_def)

lemma cfg_get: "Get_BootConfig (bcr_Client (cfg_reconciler (Some bc) arts)) ns n (w_api (cfg_world fs sched)) = (Inr bc, ())"
  by (simp add: cfg_reconciler_def cfg_client_def)

lemma cfg_serves: "serves (cfg_reconciler bc arts) ns n a \<Longrightarrow> a \<in> set arts"
  by (auto simp: serves_def cfg_reconciler_def cfg_client_def find_Some_iff split: option.splits)

abbreviation "cfg_arts ph \<equiv> [cfg_artifact ''kern'' ph, cfg_artifact ''init'' ph, cfg_artifact ''firm'' ph]"

lemma cfg_artifact_simps [simp]:
  "om_name (ba_meta (cfg_artifact n ph)) = n"
  "ba_URL (ba_Spec (cfg_artifact n ph)) = ''https://example.com/'' @ n @ ''.bin''"
  "ba_Phase (ba_Status (cfg_artifact n ph)) = ph"
  by (simp_all add: cfg_artifact_def)

lemma cfg_files:
  "FilenameFromURL (''https://example.com/'' @ ''kern'' @ ''.bin'') = ''kern.bin''"
  "FilenameFromURL (''https://example.com/'' @ ''init'' @ ''.bin'') = ''init.bin''"
  "FilenameFromURL (''https://example.com/'' @ ''firm'' @ ''.bin'') = ''firm.bin''"
  by code_simp+

lemma cfg_names: "artifact_names_ok (cfg_reconciler bc (cfg_arts ph))"
proof -
  have ok: "safe_component (om_name (ba_meta (cfg_artifact n ph)))
      \<and> \<not> has_prefix ''.concat-'' (FilenameFromURL (ba_URL (ba_Spec (cfg_artifact n ph))))"
    if "n \<in> {''kern'', ''init'', ''firm''}" for n
    using that
    by (elim insertE emptyE; simp only: cfg_artifact_simps cfg_files)
      (simp_all add: safe_component_def slash_def has_prefix_def)
  show ?thesis
    unfolding artifact_names_ok_def
  proof (intro allI impI)
    fix ns n a assume "serves (cfg_reconciler bc (cfg_arts ph)) ns n a"
    then have "a \<in> set (cfg_arts ph)" by (rule cfg_serves)
    then obtain k where "a = cfg_artifact k ph" "k \<in> {''kern'', ''init'', ''firm''}" by auto
    then show "safe_component (om_name (ba_meta a)) \<and> \<not> has_prefix ''.concat-'' (FilenameFromURL (ba_URL (ba_Spec a)))"
      using ok by simp
  qed
qed


section \<open>Ready means assembled\<close>


lemma cfg_collapse:
  "run_state (BootConfig_Reconcile (cfg_reconciler bc arts) ''default'' ''noble'') (cfg_world fs sched)
   = (fst (cfg_run bc arts fs sched), snd (cfg_run bc arts fs sched))"
  by (simp add: cfg_run_def)

lemma cfg_config_simps [simp]:
  "om_name (bc_meta (cfg_config nb i)) = ''noble''" "om_namespace (bc_meta (cfg_config nb i)) = ''default''"
  "bc_ISO (bc_Spec (cfg_config nb i)) = i" "bc_Netboot (bc_Spec (cfg_config nb i)) = nb"
  by (simp_all add: cfg_config_def)

lemma cfg_world_simps [simp]:
  "w_fs (cfg_world fs sched) = fs" "w_trace (cfg_world fs sched) = []" "w_writes (cfg_world fs sched) = []"
  by (simp_all add: cfg_world_def)


section \<open>Confinement\<close>

text \<open>
  C18. The BootConfig reconciler works in its boot directory only. Whatever happens, in every state the
  file system goes through, only paths at or below \<^verbatim>\<open>DataDir/boot/name\<close> differ from the start, apart from
  missing directories on the way that are made; and the downloaded artifacts are untouched. This
  holds for both modes and for the removal of a deleted config.
\<close>

theorem Config_confined:
  assumes "\<forall>bc s. Get_BootConfig (bcr_Client r) ns name (w_api w) = (Inr bc, s) \<longrightarrow> om_name (bc_meta bc) = name"
    and "data_ok r name (w_fs w)" and "rooted (bcr_DataDir r)" and "safe_component name" and "artifact_names_ok r"
    and "\<forall>e. \<exists>t. bcr_diskfs r (Inl e) = Inl t"
    and "run_state (BootConfig_Reconcile r ns name) w = (out, w')"
  shows "\<exists>tr. w_trace w' = tr @ w_trace w
     \<and> (\<forall>fs \<in> set tr. (\<forall>q. look fs q \<noteq> look (w_fs w) q \<longrightarrow> below (boot_comps r name) q
            \<or> (below q (boot_comps r name) \<and> look (w_fs w) q = None \<and> (\<exists>t. look fs q = Some (DirN t))))
        \<and> (\<forall>q. below (data_comps r @ [''artifacts'']) q \<longrightarrow> look fs q = look (w_fs w) q))"
proof -
  let ?P = "\<lambda>fs q. below (boot_comps r name) q
      \<or> (below q (boot_comps r name) \<and> look (w_fs w) q = None \<and> (\<exists>t. look fs q = Some (DirN t)))"
  have art: "look fs q = look (w_fs w) q"
    if "\<forall>q. look fs q \<noteq> look (w_fs w) q \<longrightarrow> ?P fs q" "below (data_comps r @ [''artifacts'']) q" for fs q
  proof (rule ccontr)
    assume "look fs q \<noteq> look (w_fs w) q"
    then have "below (boot_comps r name) q \<or> below q (boot_comps r name)" using that(1) by blast
    then show False using that(2) by (auto simp: boot_comps_def below_iff)
  qed
  have "\<exists>tr. w_trace w' = tr @ w_trace w \<and> (\<forall>fs \<in> set tr. \<forall>q. look fs q \<noteq> look (w_fs w) q \<longrightarrow> ?P fs q)"
  proof (cases "Get_BootConfig (bcr_Client r) ns name (w_api w)")
    case (Pair g s)
    show ?thesis
    proof (cases g)
      case (Inl e)
      have "plain (w_fs w) (data_comps r @ [''boot''])"
        using assms(2) plain_below [of "w_fs w" "boot_comps r name" "data_comps r @ [''boot'']"]
        by (auto simp: data_ok_def boot_comps_def below_iff)
      from wpD [OF Config_gone_spec [OF Pair [unfolded Inl] assms(3,4) this] assms(7)]
      show ?thesis unfolding run_inv_def gone_inv_def by blast
    next
      case (Inr bc)
      have nm: "om_name (bc_meta bc) = name" using assms(1) Pair Inr by blast
      from assms(6) have d: "\<And>e. \<exists>t. bcr_diskfs r (Inl e) = Inl t" by blast
      from wpD [OF Config_spec [OF Pair [unfolded Inr] _ assms(3) _ assms(5) d] assms(7)]
      show ?thesis using assms(2,4) unfolding nm run_inv_def fill_inv_def by blast
    qed
  qed
  then show ?thesis using art by blast
qed

theorem Config_confined_witness:
  "\<exists>tr. w_trace (snd (cfg_run None [] cfg_disk [Fails 3 EIO 1])) = tr
     \<and> (\<forall>fs \<in> set tr. (\<forall>q. look fs q \<noteq> look cfg_disk q \<longrightarrow> below [''data'', ''boot'', ''noble''] q
            \<or> (below q [''data'', ''boot'', ''noble''] \<and> look cfg_disk q = None \<and> (\<exists>t. look fs q = Some (DirN t))))
        \<and> (\<forall>q. below [''data'', ''artifacts''] q \<longrightarrow> look fs q = look cfg_disk q))"
proof -
  have "artifact_names_ok (cfg_reconciler None [])"
    using cfg_serves [of None "[]"] by (auto simp: artifact_names_ok_def)
  moreover have "\<forall>bc s. Get_BootConfig (bcr_Client (cfg_reconciler None [])) ''default'' ''noble'' (w_api (cfg_world cfg_disk sched)) = (Inr bc, s)
      \<longrightarrow> om_name (bc_meta bc) = ''noble''" for sched
    by (simp add: cfg_reconciler_def cfg_client_def)
  ultimately show ?thesis
    using Config_confined [OF _ _ cfg_rooted cfg_safe _ cfg_diskfs cfg_collapse, of None "[]" cfg_disk "[Fails 3 EIO 1]"]
      cfg_data_ok by (simp add: cfg_boot cfg_comps)
qed


section \<open>Concatenation and extraction\<close>

text \<open>
  C13. The concatenation is atomic. Under any faults, in every state the file system goes through, the
  destination is what it was, absent, or the complete concatenation of the two sources with mode
  0444; nothing outside its directory changes; and on success it is that concatenation, unless the
  modification times already called it newer than both sources, in which case nothing was done.
\<close>

theorem concatenateFiles_atomic:
  assumes "dir_name s d" and "safe_component f" and "\<not> has_prefix ''.concat-'' f"
    and "wf_names (w_fs w)" and "plain (w_fs w) d"
    and "dir_name srcA pA" and "apart d pA (w_fs w)" and "dir_name srcB pB" and "apart d pB (w_fs w)"
    and "run_state (concatenateFiles (Join [s, f]) srcA srcB) w = (x, w')"
  shows "(\<exists>tr. w_trace w' = tr @ w_trace w
       \<and> (\<forall>fs \<in> set tr.
            (look fs (d @ [f]) = look (w_fs w) (d @ [f]) \<or> look fs (d @ [f]) = None
             \<or> (\<exists>a b t. read_file srcA (w_fs w) = Some a \<and> read_file srcB (w_fs w) = Some b
                  \<and> look fs (d @ [f]) = Some (FileN (a @ b) t 292)))
            \<and> (\<forall>q. \<not> below d q \<and> \<not> below q d \<longrightarrow> look fs q = look (w_fs w) q)))
     \<and> (x = Inr () \<longrightarrow>
          (\<exists>a b t. read_file srcA (w_fs w) = Some a \<and> read_file srcB (w_fs w) = Some b
             \<and> look (w_fs w') (d @ [f]) = Some (FileN (a @ b) t 292))
          \<or> (w_fs w' = w_fs w \<and> newer_than_both (Join [s, f]) srcA srcB (w_fs w)))"
proof -
  let ?good = "\<lambda>q n. q = d @ [f] \<longrightarrow> (\<exists>a b t. read_file srcA (w_fs w) = Some a \<and> read_file srcB (w_fs w) = Some b
      \<and> n = FileN (a @ b) t 292)"
  let ?J = "fill_inv ?good d (w_fs w)"
  have "?J (w_fs w)"
    by (rule fill_inv_refl [OF assms(4,5)]) (use dir_name_safe [OF assms(1)] in blast)
  then have inv: "run_inv ?J (\<lambda>_ _. True) w w" by (rule run_inv_refl)
  have f_temp: "f \<noteq> ''.concat-'' @ x" for x using assms(3) by (rule concat_temp_other)
  have "wp (concatenateFiles (Join [s, f]) srcA srcB) (\<lambda>x w'. run_inv ?J (\<lambda>_ _. True) w w'
     \<and> (\<forall>u. x = Inr u \<longrightarrow>
          (\<exists>a b t. read_file srcA (w_fs w) = Some a \<and> read_file srcB (w_fs w) = Some b
             \<and> look (w_fs w') (d @ [f]) = Some (FileN (a @ b) t 292))
          \<or> (w_fs w' = w_fs w \<and> newer_than_both (Join [s, f]) srcA srcB (w_fs w)))) w"
  proof (rule fill.concatenateFiles_spec [OF inv assms(1,2)], goal_cases)
    case (2 fs)
    then show ?case by (rule apart_read [OF assms(7) _ assms(6)])
  next
    case (3 fs)
    then show ?case by (rule apart_read [OF assms(9) _ assms(8)])
  qed (use f_temp in auto)
  from wpD [OF this assms(10)] have run: "run_inv ?J (\<lambda>_ _. True) w w'"
    and fin: "x = Inr () \<longrightarrow>
          (\<exists>a b t. read_file srcA (w_fs w) = Some a \<and> read_file srcB (w_fs w) = Some b
             \<and> look (w_fs w') (d @ [f]) = Some (FileN (a @ b) t 292))
          \<or> (w_fs w' = w_fs w \<and> newer_than_both (Join [s, f]) srcA srcB (w_fs w))" by auto
  have J: "(look fs (d @ [f]) = look (w_fs w) (d @ [f]) \<or> look fs (d @ [f]) = None
             \<or> (\<exists>a b t. read_file srcA (w_fs w) = Some a \<and> read_file srcB (w_fs w) = Some b
                  \<and> look fs (d @ [f]) = Some (FileN (a @ b) t 292)))
      \<and> (\<forall>q. \<not> below d q \<and> \<not> below q d \<longrightarrow> look fs q = look (w_fs w) q)" if "?J fs" for fs
    using fill_inv_entry [OF that, of f] fill_inv_elsewhere [OF that] by auto
  obtain tr where "w_trace w' = tr @ w_trace w" "\<forall>fs \<in> set tr. ?J fs"
    using run unfolding run_inv_def by blast
  then show ?thesis using J fin by blast
qed

lemma cfg_sources:
  "dir_name ''/data/artifacts/init/init.bin'' [''data'', ''artifacts'', ''init'', ''init.bin'']"
  "dir_name ''/data/artifacts/firm/firm.bin'' [''data'', ''artifacts'', ''firm'', ''firm.bin'']"
  "dir_name ''/data/boot'' [''data'', ''boot'']"
  by code_simp+

lemma cfg_apart:
  "apart [''data'', ''boot''] [''data'', ''artifacts'', ''init'', ''init.bin''] cfg_disk"
  "apart [''data'', ''boot''] [''data'', ''artifacts'', ''firm'', ''firm.bin''] cfg_disk"
proof -
  have l: "\<not> is_link cfg_disk q" for q by (rule no_link_list) code_simp
  have "apart [''data'', ''boot''] (''data'' # ''artifacts'' # p) cfg_disk" for p
  proof -
    have "look cfg_disk q \<noteq> None" if "below q (''data'' # ''artifacts'' # p)" "below q [''data'', ''boot'']" for q
    proof -
      have "q = [] \<or> q = [''data'']" using that by (auto simp: below_iff Cons_eq_append_conv)
      then show ?thesis by (auto simp: look_def cfg_disk_def)
    qed
    then show ?thesis using l by (auto simp: apart_def plain_def below_def)
  qed
  then show "apart [''data'', ''boot''] [''data'', ''artifacts'', ''init'', ''init.bin''] cfg_disk"
    and "apart [''data'', ''boot''] [''data'', ''artifacts'', ''firm'', ''firm.bin''] cfg_disk" by blast+
qed

theorem concatenateFiles_atomic_witness:
  "\<exists>tr. w_trace (snd (run_state (concatenateFiles (Join [''/data/boot'', ''initrd'']) ''/data/artifacts/init/init.bin''
            ''/data/artifacts/firm/firm.bin'') (cfg_world cfg_disk [Runs 1, Runs 1, Fails 1 ENOSPC 0]))) = tr
       \<and> (\<forall>fs \<in> set tr. look fs [''data'', ''boot'', ''initrd''] = None
             \<or> (\<exists>t. look fs [''data'', ''boot'', ''initrd''] = Some (FileN ''IF'' t 292)))"
proof -
  have "wf_names cfg_disk" by (rule wf_names_list) code_simp
  moreover have "\<not> is_link cfg_disk q" for q by (rule no_link_list) code_simp
  then have "plain cfg_disk [''data'', ''boot'']" by (simp add: plain_def)
  moreover have "read_file ''/data/artifacts/init/init.bin'' cfg_disk = Some ''I''"
    "read_file ''/data/artifacts/firm/firm.bin'' cfg_disk = Some ''F''" by code_simp+
  moreover have "look cfg_disk [''data'', ''boot'', ''initrd''] = None" by code_simp
  ultimately show ?thesis
    using concatenateFiles_atomic [OF cfg_sources(3) safe_initrd _ _ _ cfg_sources(1) _ cfg_sources(2) _
        prod.collapse [symmetric], of "cfg_world cfg_disk [Runs 1, Runs 1, Fails 1 ENOSPC 0]"] cfg_apart
    by (simp add: has_prefix_def)
qed


text \<open>
  C12. Extraction is atomic and bounded. Under any faults, in every state, \<^verbatim>\<open>vmlinuz\<close> and \<^verbatim>\<open>initrd\<close> are what
  they were, absent, or with mode 0444 exactly the bytes that the image library finds at the
  requested path of this ISO, at most 1 GiB of them; an oversized or unreadable entry is never
  published, and nothing outside the output directory changes.
\<close>

theorem extractFromISO_atomic:
  assumes "dir_name outputDir d" and "wf_names (w_fs w)" and "plain (w_fs w) d"
    and "dir_name isoPath p" and "apart d p (w_fs w)" and "\<forall>e. \<exists>t. diskfs (Inl e) = Inl t"
    and "run_state (extractFromISO diskfs isoPath kernelPath initrdPath outputDir) w = (x, w')"
  shows "\<exists>tr. w_trace w' = tr @ w_trace w
     \<and> (\<forall>fs \<in> set tr. \<forall>(f, src) \<in> {(''vmlinuz'', kernelPath), (''initrd'', initrdPath)}.
          look fs (d @ [f]) = look (w_fs w) (d @ [f]) \<or> look fs (d @ [f]) = None
          \<or> (\<exists>c t. look fs (d @ [f]) = Some (FileN c t 292) \<and> image_file diskfs (read_file isoPath (w_fs w)) src c))
     \<and> (\<forall>fs \<in> set tr. \<forall>q. \<not> below d q \<and> \<not> below q d \<longrightarrow> look fs q = look (w_fs w) q)"
proof -
  let ?img = "read_file isoPath (w_fs w)"
  let ?good = "\<lambda>q n. (q = d @ [''vmlinuz''] \<longrightarrow> (\<exists>c t. n = FileN c t 292 \<and> image_file diskfs ?img kernelPath c))
      \<and> (q = d @ [''initrd''] \<longrightarrow> (\<exists>c t. n = FileN c t 292 \<and> image_file diskfs ?img initrdPath c))"
  let ?J = "fill_inv ?good d (w_fs w)"
  have "?J (w_fs w)"
    by (rule fill_inv_refl [OF assms(2,3)]) (use dir_name_safe [OF assms(1)] in blast)
  then have inv: "run_inv ?J (\<lambda>_ _. True) w w" by (rule run_inv_refl)
  have "wp (extractFromISO diskfs isoPath kernelPath initrdPath outputDir) (\<lambda>x w'. run_inv ?J (\<lambda>_ _. True) w w') w"
  proof (rule fill.extractFromISO_spec [where img = ?img, OF inv assms(1)], goal_cases)
    case (1 fs)
    then show ?case by (rule apart_read [OF assms(5) _ assms(4)])
  next
    case (2 e)
    then show ?case using assms(6) by blast
  qed auto
  from wpD [OF this assms(7)] obtain tr where tr: "w_trace w' = tr @ w_trace w" "\<forall>fs \<in> set tr. ?J fs"
    unfolding run_inv_def by blast
  have J: "(\<forall>(f, src) \<in> {(''vmlinuz'', kernelPath), (''initrd'', initrdPath)}.
          look fs (d @ [f]) = look (w_fs w) (d @ [f]) \<or> look fs (d @ [f]) = None
          \<or> (\<exists>c t. look fs (d @ [f]) = Some (FileN c t 292) \<and> image_file diskfs ?img src c))
      \<and> (\<forall>q. \<not> below d q \<and> \<not> below q d \<longrightarrow> look fs q = look (w_fs w) q)" if "?J fs" for fs
    using fill_inv_entry [OF that, of "''vmlinuz''"] fill_inv_entry [OF that, of "''initrd''"] fill_inv_elsewhere [OF that] by auto
  note Jt = J [OF bspec [OF tr(2)]]
  show ?thesis
    by (rule exI [of _ tr], rule conjI [OF tr(1)], rule conjI)
      (rule ballI, erule Jt [THEN conjunct1], rule ballI, erule Jt [THEN conjunct2])
qed

theorem extractFromISO_atomic_witness:
  "\<exists>tr. w_trace (snd (run_state (extractFromISO (bcr_diskfs (cfg_reconciler None [])) ''/data/artifacts/init/init.bin''
            ''/casper/vmlinuz'' ''/casper/initrd'' ''/data/boot'') (cfg_world cfg_disk [Runs 1, Runs 1, Fails 1 EIO 0]))) = tr
     \<and> (\<forall>fs \<in> set tr. \<forall>q. \<not> below [''data'', ''boot''] q \<and> \<not> below q [''data'', ''boot''] \<longrightarrow> look fs q = look cfg_disk q)"
proof -
  have "wf_names cfg_disk" by (rule wf_names_list) code_simp
  moreover have "\<not> is_link cfg_disk q" for q by (rule no_link_list) code_simp
  then have "plain cfg_disk [''data'', ''boot'']" by (simp add: plain_def)
  ultimately show ?thesis
    using extractFromISO_atomic [OF cfg_sources(3) _ _ cfg_sources(1) _ cfg_diskfs prod.collapse [symmetric],
        of "cfg_world cfg_disk [Runs 1, Runs 1, Fails 1 EIO 0]"] cfg_apart by auto
qed

text \<open>
  A path that passes the check cannot climb out of the image: the name with which the file is
  opened has no component \<^verbatim>\<open>..\<close>, whatever other characters it holds.
\<close>

theorem isSafeISOPath_no_climb:
  assumes "isSafeISOPath p"
  shows "p \<noteq> [] \<and> ''..'' \<notin> set (comps (slash # trim_prefix [slash] p))"
proof -
  have "set (split_on slash (trim_prefix [slash] p)) \<subseteq> set (split_on slash p)"
    by (cases p) (auto simp: trim_prefix_def has_prefix_def)
  then show ?thesis
    using assms by (auto simp: isSafeISOPath_def comps_def)
qed

theorem isSafeISOPath_no_climb_witness:
  "''..'' \<notin> set (comps (slash # trim_prefix [slash] ''/casper/..vmlinuz''))"
proof -
  have "isSafeISOPath ''/casper/..vmlinuz''" by code_simp
  then show ?thesis using isSafeISOPath_no_climb by blast
qed


section \<open>What the boot directory serves\<close>

text \<open>
  The kernel link leads to the artifact: whoever reads \<^verbatim>\<open>DataDir/boot/name/kernel/file\<close> after the config
  was assembled reads exactly the bytes of the artifact's file, the ones the artifact reconciler
  verified. The number of \<^verbatim>\<open>..\<close> in the target fits the depth of the boot directory, wherever the data
  directory is.
\<close>

theorem boot_link_reads_artifact:
  assumes "rooted (bcr_DataDir r)" and "safe_component n" and "safe_component (om_name (ba_meta k))"
    and "CHR 0x00 \<notin> set (Join [Join [Join [bcr_DataDir r, ''boot'', n], ''kernel''], file_of k])"
    and "plain_dir fs (boot_comps r n @ [''kernel''])"
    and "look fs (boot_comps r n @ [''kernel'', file_of k]) = Some (LinkN (link_target [''..'', ''..'', ''..''] k))"
    and "plain_dir fs (data_comps r @ [''artifacts'', om_name (ba_meta k)])"
    and "look fs (artifact_comps r k) = Some (FileN c t m)"
  shows "read_file (Join [Join [Join [bcr_DataDir r, ''boot'', n], ''kernel''], file_of k]) fs = Some c"
proof -
  let ?s = "Join [Join [Join [bcr_DataDir r, ''boot'', n], ''kernel''], file_of k]"
  have f: "safe_component (file_of k)" by (simp add: file_of_def filename_safe)
  have d: "dir_name ?s ((boot_comps r n @ [''kernel'']) @ [file_of k])"
    by (rule dir_name_sub [OF dir_name_sub [OF boot_dir_name [OF assms(1,2)] safe_kernel] f])
  have c: "comps ?s = data_comps r @ [''boot'', n, ''kernel''] @ [file_of k]"
    using d by (simp add: dir_name_def boot_comps_def)
  have "no_dotdot (data_comps r @ [''boot'', n, ''kernel''] @ [file_of k])"
    using dir_name_no_dotdot [OF d] by (simp add: boot_comps_def)
  moreover have "?s \<noteq> []" using d by (auto simp: dir_name_def rooted_def)
  ultimately show ?thesis
    using assms f by (intro link_reads [OF _ assms(4) c, where k = 2 and n = "om_name (ba_meta k)" and g = "file_of k"])
      (simp_all add: boot_comps_def artifact_comps_def link_target_def file_of_def eval_nat_numeral)
qed

definition cfg_booted :: fsys where
  "cfg_booted =
     cfg_disk @ [([''data'', ''boot''], DirN 0), ([''data'', ''boot'', ''noble''], DirN 0),
       ([''data'', ''boot'', ''noble'', ''kernel''], DirN 0),
       ([''data'', ''boot'', ''noble'', ''kernel'', ''kern.bin''], LinkN ''../../../artifacts/kern/kern.bin'')]"

theorem boot_link_reads_artifact_witness:
  "read_file ''/data/boot/noble/kernel/kern.bin'' cfg_booted = Some ''K''"
proof -
  let ?r = "cfg_reconciler None []" and ?k = "cfg_artifact ''kern'' BootArtifactPhaseReady"
  have f: "file_of ?k = ''kern.bin''" by (simp only: file_of_def cfg_artifact_simps cfg_files)
  have f': "FilenameFromURL ''https://example.com/kern.bin'' = ''kern.bin''" by code_simp
  have d: "bcr_DataDir ?r = ''/data''" by (simp add: cfg_reconciler_def)
  have j: "Join [Join [Join [''/data'', ''boot'', ''noble''], ''kernel''], ''kern.bin''] = ''/data/boot/noble/kernel/kern.bin''"
    "Join [''..'', ''..'', ''..'', ''artifacts'', ''kern'', ''kern.bin''] = ''../../../artifacts/kern/kern.bin''" by code_simp+
  have "plain_dir cfg_booted (((([] @ [''data'']) @ [''boot'']) @ [''noble'']) @ [''kernel''])"
    and "plain_dir cfg_booted ((([] @ [''data'']) @ [''artifacts'']) @ [''kern''])"
    unfolding plain_dir_snoc by (simp_all add: look_def cfg_booted_def cfg_disk_def)
  moreover have "look cfg_booted [''data'', ''boot'', ''noble'', ''kernel'', ''kern.bin''] = Some (LinkN ''../../../artifacts/kern/kern.bin'')"
    "look cfg_booted [''data'', ''artifacts'', ''kern'', ''kern.bin''] = Some (FileN ''K'' 1 420)" by code_simp+
  moreover have "safe_component ''kern''" by (simp add: safe_component_def slash_def)
  ultimately show ?thesis
    using boot_link_reads_artifact [OF cfg_rooted [of None "[]"] cfg_safe, of ?k cfg_booted "''K''" 1 420]
    by (simp add: f f' d j cfg_boot cfg_comps artifact_comps_def link_target_def)
qed


section \<open>Deletion\<close>

text \<open>
  C33. A deleted config leaves nothing behind: when the server says the config is not found and no
  call fails, the result is empty, nothing is left at or below its boot directory, and everything
  else is as before.
\<close>

theorem Config_deleted:
  assumes "Get_BootConfig (bcr_Client r) ns name (w_api w) = (Inl e, s)" and "IsNotFound (ApiErr e)"
    and "rooted (bcr_DataDir r)" and "safe_component name" and "calm w"
    and "CHR 0x00 \<notin> set (Join [bcr_DataDir r, ''boot'', name])"
    and "plain_dir (w_fs w) (data_comps r @ [''boot''])"
    and "run_state (BootConfig_Reconcile r ns name) w = (out, w')"
  shows "out = Result 0
     \<and> (\<forall>q. look (w_fs w') q = (if below (boot_comps r name) q then None else look (w_fs w) q))"
proof -
  let ?b = "boot_comps r name" and ?p = "Join [bcr_DataDir r, ''boot'', name]" and ?w = "w\<lparr>w_api := s\<rparr>"
  have d: "dir_name ?p ?b" by (rule boot_dir_name [OF assms(3,4)])
  have "?p \<noteq> []" using d by (auto simp: dir_name_def rooted_def)
  then have nm: "names ?p (data_comps r @ [''boot'']) name"
    using d dir_name_no_dotdot [OF d] assms(6) by (simp add: names_def dir_name_def boot_comps_def)
  have res: "resolve False (w_fs w) ?p = Inr ?b"
    using names_resolve [OF nm assms(7)] by (simp add: boot_comps_def)
  have ne: "?b \<noteq> []" by (simp add: boot_comps_def)
  have rm: "wp (os_RemoveAll ?p) (\<lambda>x w'. w_fs w' = del_tree ?b (w_fs w)) ?w"
    unfolding os_RemoveAll_def
    by (rule wp_calm) (use assms(5) res ne in \<open>auto simp: calm_def fs_remove_all_def\<close>)
  have "wp (BootConfig_Reconcile r ns name) (\<lambda>out w'. out = Result 0 \<and> w_fs w' = del_tree ?b (w_fs w)) w"
    unfolding BootConfig_Reconcile_def
  proof (intro wp_api_call_bind [where f = "Get_BootConfig (bcr_Client r) ns name", OF assms(1)], unfold sum.case,
      rule wp_ifI, goal_cases)
    case 2
    show ?case by (rule wp_step [OF rm]) (simp add: wp_return)
  qed (use assms(2) in simp)
  from wpD [OF this assms(8)] show ?thesis
    using ne by (auto simp: look_del_tree below_iff)
qed

theorem Config_deleted_witness:
  "fst (cfg_run None [] cfg_booted []) = Result 0
   \<and> look (w_fs (snd (cfg_run None [] cfg_booted []))) [''data'', ''boot'', ''noble'', ''kernel''] = None
   \<and> look (w_fs (snd (cfg_run None [] cfg_booted []))) [''data'', ''artifacts'', ''kern'', ''kern.bin''] = Some (FileN ''K'' 1 420)"
proof -
  have g: "Get_BootConfig (bcr_Client (cfg_reconciler None [])) ''default'' ''noble'' (w_api (cfg_world cfg_booted []))
      = (Inl (ApiNotFound ''noble''), ())"
    by (simp add: cfg_reconciler_def cfg_client_def)
  have "CHR 0x00 \<notin> set (Join [''/data'', ''boot'', ''noble''])" by code_simp
  then have "CHR 0x00 \<notin> set (Join [bcr_DataDir (cfg_reconciler None []), ''boot'', ''noble''])"
    by (simp add: cfg_reconciler_def)
  moreover have "plain_dir cfg_booted (([] @ [''data'']) @ [''boot''])"
    unfolding plain_dir_snoc by (simp_all add: look_def cfg_booted_def cfg_disk_def)
  moreover have "calm (cfg_world cfg_booted [])" by (simp add: calm_def cfg_world_def)
  moreover have "look cfg_booted [''data'', ''artifacts'', ''kern'', ''kern.bin''] = Some (FileN ''K'' 1 420)" by code_simp
  ultimately show ?thesis
    using Config_deleted [OF g _ cfg_rooted cfg_safe _ _ _ cfg_collapse] by (simp add: cfg_comps cfg_boot below_def)
qed

section \<open>Waiting and missing artifacts\<close>

lemma status_same [simp]: "st\<lparr>bc_Phase := p, bc_Message := m\<rparr> = st \<longleftrightarrow> bc_Phase st = p \<and> bc_Message st = m"
  by (cases st) auto

text \<open>Nothing on disk is touched, the retry is timed, and at most a changed status of the phase is written.\<close>

definition only_reported :: "BootConfig \<Rightarrow> 's world \<Rightarrow> BootConfigPhase \<Rightarrow> int \<Rightarrow> ctrl_out \<Rightarrow> 's world \<Rightarrow> bool" where
  "only_reported bc w ph q out w' \<longleftrightarrow>
     w_fs w' = w_fs w \<and> w_trace w' = w_trace w
     \<and> (out = Result q \<or> (\<exists>e. out = ReconcileError e))
     \<and> (w_writes w' = w_writes w
        \<or> (\<exists>b. w_writes w' = (ConfigStatus b, w_fs w) # w_writes w \<and> bc_Spec b = bc_Spec bc
             \<and> bc_Phase (bc_Status b) = ph \<and> bc_Status b \<noteq> bc_Status bc))"

lemma setError_reports: "wp (setError r bc msg) (only_reported bc w BootConfigPhaseError (10 * Second)) (w\<lparr>w_api := x\<rparr>)"
  by (auto simp: only_reported_def setError_def BootConfig_update_def wp_simps api_write_def split: prod.splits sum.splits)

lemma setPending_reports: "wp (setPending r bc msg) (only_reported bc w BootConfigPhasePending (5 * Second)) (w\<lparr>w_api := x\<rparr>)"
  by (auto simp: only_reported_def setPending_def BootConfig_update_def wp_simps api_write_def split: prod.splits sum.splits)



section \<open>Events\<close>

text \<open>
  C35. No change of an artifact is missed: when the list of configs can be read, the requests for an
  artifact are exactly the configs of its namespace that name it as kernel, initrd, firmware or ISO,
  in the order of the list; so every config whose reconciliation looks the artifact up is queued.
\<close>

theorem find_complete:
  assumes "List_BootConfigs (bcr_Client r) ns (w_api w) = (Inr items, s)"
    and "run_state (findBootConfigsForArtifact r ns name) w = (reqs, w')"
  shows "set reqs = {(om_namespace (bc_meta b), om_name (bc_meta b)) | b. b \<in> set items \<and>
       ((\<exists>nb. bc_Netboot (bc_Spec b) = Some nb \<and> name \<in> {nb_KernelRef nb, nb_InitrdRef nb, nb_FirmwareRef nb})
        \<or> (\<exists>i. bc_ISO (bc_Spec b) = Some i \<and> name = iso_ArtifactRef i))}
     \<and> w_fs w' = w_fs w"
proof -
  have "references b name \<longleftrightarrow>
      (\<exists>nb. bc_Netboot (bc_Spec b) = Some nb \<and> name \<in> {nb_KernelRef nb, nb_InitrdRef nb, nb_FirmwareRef nb})
        \<or> (\<exists>i. bc_ISO (bc_Spec b) = Some i \<and> name = iso_ArtifactRef i)" for b
    by (auto simp: references_def split: option.splits)
  moreover have "reqs = map (\<lambda>b. (om_namespace (bc_meta b), om_name (bc_meta b))) (filter (\<lambda>b. references b name) items)"
    "w_fs w' = w_fs w"
    using assms by (auto simp: findBootConfigsForArtifact_def api_call_def)
  ultimately show ?thesis by auto
qed

theorem find_complete_witness:
  "set (fst (run_state (findBootConfigsForArtifact (cfg_reconciler (Some (cfg_config (Some (cfg_netboot ''firm'')) None)) []) ''default'' ''firm'')
      (cfg_world [] []))) = {(''default'', ''noble'')}"
proof -
  have "List_BootConfigs (bcr_Client (cfg_reconciler (Some (cfg_config (Some (cfg_netboot ''firm'')) None)) [])) ''default'' (w_api (cfg_world [] []))
      = (Inr [cfg_config (Some (cfg_netboot ''firm'')) None], ())"
    by (simp add: cfg_reconciler_def cfg_client_def)
  from find_complete [OF this prod.collapse [symmetric]] show ?thesis by auto
qed

section \<open>Behaviour to know about\<close>

lemma mkdir_comps_file:
  assumes "mkdir_comps t dn cs fs = (r, fs')" and "cs \<noteq> []" and "plain fs (dn @ cs)" and "no_dotdot (dn @ cs)"
    and "look fs (dn @ cs) = Some (FileN c0 t0 m0)"
  shows "r \<noteq> Inr ()"
  using assms
proof (induction t dn cs fs rule: mkdir_comps.induct)
  case (2 t dn c cs fs)
  show ?case
  proof (cases "walk fs 40 True [] (dn @ [c])")
    case (Inl e)
    then show ?thesis using "2.prems"(1) by auto
  next
    case (Inr p)
    note p = walk_plain_prefix [OF Inr "2.prems"(3,4)]
    show ?thesis
    proof (cases "look fs p")
      case None
      then have ne: "cs \<noteq> []" using "2.prems"(5) p by auto
      show ?thesis
      proof (cases "walk fs 40 False [] (dn @ [c]) = Inr p")
        case True
        then have "mkdir_comps t (dn @ [c]) cs (put p (DirN t) fs) = (r, fs')" using "2.prems"(1) Inr None by simp
        from "2.IH"(1) [OF Inr None True this ne] show ?thesis
          using "2.prems"(3-5) ne p by (simp add: plain_put_dir look_put)
      qed (use "2.prems"(1) Inr None in auto)
    next
      case (Some n)
      show ?thesis
      proof (cases n)
        case (DirN u)
        then have ne: "cs \<noteq> []" using Some "2.prems"(5) p by auto
        then show ?thesis using "2.IH"(2) [OF Inr Some [unfolded DirN]] "2.prems" Inr Some DirN by simp
      qed (use "2.prems"(1) Inr Some in auto)
    qed
  qed
qed simp

lemma mkdir_no_link:
  assumes "\<And>q. look fs' q \<noteq> look fs q \<Longrightarrow> look fs q = None \<and> look fs' q = Some (DirN t)" and "plain fs d"
  shows "plain fs' d"
  unfolding plain_def
proof (intro allI impI notI)
  fix q assume "below q d" and l: "is_link fs' q"
  then have "look fs' q = look fs q" using assms(1) [of q] unfolding is_link_def by fastforce
  then show False using l \<open>below q d\<close> assms(2) by (simp add: plain_def is_link_def)
qed

text \<open>The file stays where it is, and no directory can be made in its place.\<close>

definition file_in_way :: "path \<Rightarrow> string \<Rightarrow> string \<Rightarrow> nat \<Rightarrow> nat \<Rightarrow> fsys \<Rightarrow> bool" where
  "file_in_way b f c t m fs \<longleftrightarrow> plain fs b \<and> look fs (b @ [f]) = Some (FileN c t m)"

lemma file_in_way_mkdir:
  assumes "file_in_way b f c t m (w_fs w)"
  shows "wp (os_MkdirAll s) (\<lambda>x w'. file_in_way b f c t m (w_fs w')) w"
proof -
  have keep: "file_in_way b f c t m fs'"
    if "\<And>q. look fs' q \<noteq> look (w_fs w) q \<Longrightarrow> look (w_fs w) q = None \<and> look fs' q = Some (DirN u)" for fs' u
    using mkdir_no_link [of fs' "w_fs w" u, OF that] assms that unfolding file_in_way_def by (metis option.distinct(1))
  show ?thesis
    unfolding os_MkdirAll_def
  proof (rule wp_os_call)
    fix x w' assume "fs_mkdir_all s (w_clock w') (w_fs w) = (x, w_fs w')"
    from keep [OF fs_mkdir_all_frame [OF this]] show "file_in_way b f c t m (w_fs w')" .
  next
    fix k w' assume "w_fs (w' :: 'a world) = fs_mkdir_some s k (w_clock w') (w_fs w)"
    then show "file_in_way b f c t m (w_fs w')" using keep [OF fs_mkdir_some_frame] by simp
  qed
qed

lemma file_in_way_fails:
  assumes "file_in_way b f c t m (w_fs w)" and d: "dir_name s (b @ [f])"
  shows "wp (os_MkdirAll s) (\<lambda>x w'. \<exists>e. x = Inl e) w"
  unfolding os_MkdirAll_def
proof (rule wp_os_call)
  fix x w' assume eff: "fs_mkdir_all s (w_clock w') (w_fs w) = (x, w_fs w')"
  have "x \<noteq> Inr ()"
  proof (cases "CHR 0x00 \<in> set s \<or> s = []")
    case False
    then have "mkdir_comps (w_clock w') [] (b @ [f]) (w_fs w) = (x, w_fs w')"
      using eff d by (simp add: fs_mkdir_all_def dir_name_def)
    from mkdir_comps_file [OF this] show ?thesis
      using assms(1) dir_name_no_dotdot [OF d] by (simp add: plain_snoc is_link_def file_in_way_def)
  qed (use eff in \<open>auto simp: fs_mkdir_all_def split: if_splits\<close>)
  then show "\<exists>e. map_err (PathError ''mkdir'' s) x = Inl e" by (cases x) auto
qed simp

text \<open>
  Switching a config from an ISO to netboot artifacts does not work by itself: the extracted
  \<^verbatim>\<open>initrd\<close> is a file where mode A needs a directory, so assembling never returns the empty result, in
  whatever state the artifacts are and under any schedule, and the file stays in the way, until
  the boot directory is removed by hand or by deleting the config.
\<close>

theorem mode_switch_stuck:
  assumes "rooted (bcr_DataDir r)" and "safe_component (om_name (bc_meta bc))"
    and "plain (w_fs w) (boot_comps r (om_name (bc_meta bc)))"
    and "look (w_fs w) (boot_comps r (om_name (bc_meta bc)) @ [''initrd'']) = Some (FileN c t m)"
    and "run_state (assemble r bc k i fw) w = (out, w')"
  shows "out \<noteq> Result 0 \<and> look (w_fs w') (boot_comps r (om_name (bc_meta bc)) @ [''initrd'']) = Some (FileN c t m)"
proof -
  let ?I = "file_in_way (boot_comps r (om_name (bc_meta bc))) ''initrd'' c t m"
  have d: "dir_name (Join [Join [bcr_DataDir r, ''boot'', om_name (bc_meta bc)], ''initrd''])
      (boot_comps r (om_name (bc_meta bc)) @ [''initrd''])"
    by (rule dir_name_sub [OF boot_dir_name [OF assms(1,2)] safe_initrd])
  have err: "wp (setError r bc msg) (\<lambda>out w'. out \<noteq> Result 0 \<and> ?I (w_fs w')) w0" if "?I (w_fs w0)" for msg w0
    using that by (auto simp: setError_def BootConfig_update_def wp_simps api_write_def Second_def split: prod.splits sum.splits)
  have I: "?I (w_fs w)" using assms(3,4) by (simp add: file_in_way_def)
  have "wp (assemble r bc k i fw) (\<lambda>out w'. out \<noteq> Result 0 \<and> ?I (w_fs w')) w"
    unfolding assemble_eq Let_def
  proof (rule wp_try [OF file_in_way_mkdir [OF I]], goal_cases)
    case (1 e w1)
    then show ?case by (rule err)
  next
    case (2 u w1)
    show ?case
      by (rule wp_try [OF wp_conj [OF file_in_way_fails [OF 2 d] file_in_way_mkdir [OF 2]]]) (auto intro: err)
  qed
  from wpD [OF this assms(5)] show ?thesis by (simp add: file_in_way_def)
qed

definition cfg_extracted :: fsys where
  "cfg_extracted =
     cfg_disk @ [([''data'', ''boot''], DirN 0), ([''data'', ''boot'', ''noble''], DirN 0),
       ([''data'', ''boot'', ''noble'', ''vmlinuz''], FileN ''VK'' 50 292),
       ([''data'', ''boot'', ''noble'', ''initrd''], FileN ''VI'' 50 292)]"

theorem mode_switch_stuck_witness:
  "fst (run_state (assemble (cfg_reconciler None []) (cfg_config (Some (cfg_netboot [])) None)
      (cfg_artifact ''kern'' BootArtifactPhaseReady) (cfg_artifact ''init'' BootArtifactPhaseReady) None)
      (cfg_world cfg_extracted [])) \<noteq> Result 0"
proof -
  have "\<not> is_link cfg_extracted q" for q by (rule no_link_list) code_simp
  then have "plain cfg_extracted [''data'', ''boot'', ''noble'']" by (simp add: plain_def)
  moreover have "look cfg_extracted [''data'', ''boot'', ''noble'', ''initrd''] = Some (FileN ''VI'' 50 292)" by code_simp
  ultimately show ?thesis
    using mode_switch_stuck [OF cfg_rooted _ _ _ prod.collapse [symmetric], of "cfg_config (Some (cfg_netboot [])) None" _ None "[]"]
      cfg_safe by (simp add: cfg_boot)
qed

text \<open>
  The concatenation trusts modification times alone: when the destination looks newer than both
  sources nothing is done and success is reported, even if the destination is a left-over link to
  some other artifact or was made from sources that the config no longer names.
\<close>

theorem concatenation_stale:
  assumes "calm w" and "newer_than_both dst srcA srcB (w_fs w)"
    and "run_state (concatenateFiles dst srcA srcB) w = (x, w')"
  shows "x = Inr () \<and> w_fs w' = w_fs w"
proof -
  obtain nd na nb where st: "fs_stat dst (w_fs w) = Inr nd" "fs_stat srcA (w_fs w) = Inr na" "fs_stat srcB (w_fs w) = Inr nb"
    and lt: "mod_time na < mod_time nd" "mod_time nb < mod_time nd"
    using assms(2) by (auto simp: newer_than_both_def)
  have stat: "wp (os_Stat s) (\<lambda>y w'. y = Inr n \<and> calm w' \<and> w_fs w' = w_fs w) w0"
    if "calm w0" "w_fs w0 = w_fs w" "fs_stat s (w_fs w) = Inr n" for s n w0
    unfolding os_Stat_def by (rule wp_calm_read) (use that in \<open>auto simp: quiet_def\<close>)
  have "wp (concat_current dst srcA srcB) (\<lambda>y w'. y = Inr True \<and> calm w' \<and> w_fs w' = w_fs w) w"
    unfolding concat_current_def
  proof (rule wp_try [OF stat [OF assms(1) refl st(1)]], goal_cases)
    case (2 n w1)
    show ?case
    proof (rule wp_try [OF stat [OF _ _ st(2)]], goal_cases)
      case (4 n2 w2)
      show ?case
        by (rule wp_try [OF stat [OF _ _ st(3)]]) (use 2 4 lt in \<open>auto simp: wp_return\<close>)
    qed (use 2 in auto)
  qed simp
  then have "wp (concatenateFiles dst srcA srcB) (\<lambda>y w'. y = Inr () \<and> w_fs w' = w_fs w) w"
    unfolding concatenateFiles_def by (rule wp_try) (auto simp: wp_return)
  then show ?thesis using assms(3) by (rule wpD)
qed


text \<open>In the witness the destination is a link to an artifact that the config does not name.\<close>

theorem concatenation_stale_witness:
  "fst (run_state (concatenateFiles ''/data/old'' ''/data/artifacts/kern/kern.bin'' ''/data/artifacts/init/init.bin'')
      (cfg_world (([''data'', ''old''], LinkN ''artifacts/firm/firm.bin'') # cfg_disk) [])) = Inr ()"
proof -
  let ?fs = "([''data'', ''old''], LinkN ''artifacts/firm/firm.bin'') # cfg_disk"
  have "fs_stat ''/data/old'' ?fs = Inr (FileN ''F'' 3 420)" "fs_stat ''/data/artifacts/kern/kern.bin'' ?fs = Inr (FileN ''K'' 1 420)"
    "fs_stat ''/data/artifacts/init/init.bin'' ?fs = Inr (FileN ''I'' 2 420)" by code_simp+
  then have "newer_than_both ''/data/old'' ''/data/artifacts/kern/kern.bin'' ''/data/artifacts/init/init.bin'' ?fs"
    by (simp add: newer_than_both_def mod_time_def)
  moreover have "calm (cfg_world ?fs [])" by (simp add: calm_def cfg_world_def)
  ultimately show ?thesis
    using concatenation_stale [OF _ _ prod.collapse [symmetric], of "cfg_world ?fs []"] by simp
qed

end
