(* ===== verification/Indexers.thy ===== *)
theory Indexers
  imports World "HOL-Library.Multiset"
begin

text \<open>
  \<^verbatim>\<open>internal/controller/indexers.go\<close>: the field indexes of the manager's cache. An index maps an
  object to the values under which \<^verbatim>\<open>client.MatchingFields\<close> finds it. The interface between the
  indexers and the lookups of the HTTP server is the locale \<open>field_index\<close>.
\<close>

section \<open>The indexes\<close>

definition ProvisionPhaseField :: string where
  "ProvisionPhaseField = ''status.phase''"

definition ProvisionMachineRefField :: string where
  "ProvisionMachineRefField = ''spec.machineRef''"

definition MachineSpecMACField :: string where
  "MachineSpecMACField = ''spec.mac''"

definition index_phase :: "Provision \<Rightarrow> string list" where
  "index_phase p =
     (if pr_Phase (pr_Status p) = ProvisionPhaseUnset then [] else [phase_string (pr_Phase (pr_Status p))])"

definition index_machineRef :: "Provision \<Rightarrow> string list" where
  "index_machineRef p = (if pr_MachineRef (pr_Spec p) = [] then [] else [pr_MachineRef (pr_Spec p)])"

definition index_mac :: "Machine \<Rightarrow> string list" where
  "index_mac m = (if mach_MAC (mach_Spec m) = [] then [] else [mach_MAC (mach_Spec m)])"

text \<open>\<^verbatim>\<open>SetupIndexers\<close>: the indexes registered for each kind.\<close>

definition Provision_indexers :: "(string \<times> (Provision \<Rightarrow> string list)) list" where
  "Provision_indexers = [(ProvisionPhaseField, index_phase), (ProvisionMachineRefField, index_machineRef)]"

definition Machine_indexers :: "(string \<times> (Machine \<Rightarrow> string list)) list" where
  "Machine_indexers = [(MachineSpecMACField, index_mac)]"

section \<open>The contract of an index\<close>

locale field_index =
  fixes key :: "'o \<Rightarrow> string" and index :: "'o \<Rightarrow> string list"
  assumes index_of: "index x = (if key x = [] then [] else [key x])"
begin

lemma finds: "v \<noteq> [] \<Longrightarrow> v \<in> set (index x) \<longleftrightarrow> key x = v"
  by (auto simp: index_of)

lemma empty_finds_nothing: "[] \<notin> set (index x)"
  by (simp add: index_of)

lemma one_value: "length (index x) \<le> 1"
  by (simp add: index_of)

end

interpretation phase_index: field_index "\<lambda>p. phase_string (pr_Phase (pr_Status p))" index_phase
proof
  show "index_phase x = (if phase_string (pr_Phase (pr_Status x)) = [] then [] else [phase_string (pr_Phase (pr_Status x))])" for x
    by (cases "pr_Phase (pr_Status x)") (simp_all add: index_phase_def)
qed

interpretation machineRef_index: field_index "\<lambda>p. pr_MachineRef (pr_Spec p)" index_machineRef
  by unfold_locales (simp add: index_machineRef_def)

interpretation mac_index: field_index "\<lambda>m. mach_MAC (mach_Spec m)" index_mac
  by unfold_locales (simp add: index_mac_def)

section \<open>Lists by field\<close>

text \<open>\<^verbatim>\<open>client.MatchingFields\<close>: every selected field is indexed and finds the object under its value.\<close>

definition selects :: "(string \<times> ('o \<Rightarrow> string list)) list \<Rightarrow> (string \<times> string) list \<Rightarrow> 'o \<Rightarrow> bool" where
  "selects indexers sel x =
     list_all (\<lambda>(f, v). case map_of indexers f of None \<Rightarrow> False | Some index \<Rightarrow> v \<in> set (index x)) sel"

text \<open>
  What the cache promises of lists, given the indexes: it holds machines and provisions, and a list
  gives those of the namespace that the fields select, each once, in any order.
\<close>

definition lists_by_index ::
  "'s Client \<Rightarrow> ('s \<Rightarrow> Machine list) \<Rightarrow> ('s \<Rightarrow> Provision list) \<Rightarrow> bool" where
  "lists_by_index c machines provisions \<longleftrightarrow>
     (\<forall>ns sel s. \<exists>items s'. List_Machines c ns sel s = (Inr items, s')
        \<and> machines s' = machines s \<and> provisions s' = provisions s
        \<and> mset items = mset (filter (\<lambda>m. om_namespace (mach_meta m) = ns \<and> selects Machine_indexers sel m) (machines s)))
   \<and> (\<forall>ns sel s. \<exists>items s'. List_Provisions c ns sel s = (Inr items, s')
        \<and> machines s' = machines s \<and> provisions s' = provisions s
        \<and> mset items = mset (filter (\<lambda>p. om_namespace (pr_meta p) = ns \<and> selects Provision_indexers sel p) (provisions s)))"

lemma selects_mac:
  "mac \<noteq> [] \<Longrightarrow> selects Machine_indexers [(MachineSpecMACField, mac)] m \<longleftrightarrow> mach_MAC (mach_Spec m) = mac"
  by (simp add: selects_def Machine_indexers_def mac_index.finds)

lemma selects_pending:
  assumes "ref \<noteq> []"
  shows "selects Provision_indexers [(ProvisionMachineRefField, ref), (ProvisionPhaseField, phase_string ProvisionPhasePending)] p
   \<longleftrightarrow> pr_MachineRef (pr_Spec p) = ref \<and> pr_Phase (pr_Status p) = ProvisionPhasePending"
proof -
  have "phase_string ProvisionPhasePending \<in> set (index_phase p) \<longleftrightarrow> pr_Phase (pr_Status p) = ProvisionPhasePending"
    using phase_index.finds [of "phase_string ProvisionPhasePending" p] phase_string_inj [of "pr_Phase (pr_Status p)" ProvisionPhasePending]
    by simp
  then show ?thesis
    by (simp add: selects_def Provision_indexers_def ProvisionPhaseField_def ProvisionMachineRefField_def
        machineRef_index.finds [OF assms] del: phase_string.simps)
qed

end
