(* ===== verification/HttpdProvision.thy ===== *)
theory HttpdProvision
  imports Indexers ArtifactController
begin

text \<open>
  \<^verbatim>\<open>internal/httpd/provision.go\<close> and \<^verbatim>\<open>internal/controller/provision_controller.go\<close>: the two writers
  of the phase of a \<^verbatim>\<open>Provision\<close> (the reconciler that starts it and the report of an installer) and the
  lookup of the pending provision of a machine.
\<close>

section \<open>The reports of an installer\<close>

definition validTransitions :: "ProvisionPhase \<Rightarrow> ProvisionPhase option" where
  "validTransitions =
     Map.empty(ProvisionPhaseInProgress \<mapsto> ProvisionPhasePending, ProvisionPhaseComplete \<mapsto> ProvisionPhaseInProgress)"

text \<open>The status the report writes.\<close>

definition with_phase :: "ProvisionPhase \<Rightarrow> string \<Rightarrow> MetaTime \<Rightarrow> Provision \<Rightarrow> Provision" where
  "with_phase target message now p =
     p\<lparr>pr_Status := (pr_Status p)\<lparr>pr_Phase := target, pr_Message := message, pr_LastUpdated := Some now\<rparr>\<rparr>"

definition UpdateProvisionPhase ::
  "'s Client \<Rightarrow> string \<Rightarrow> string \<Rightarrow> ProvisionPhase \<Rightarrow> string \<Rightarrow> ('s, go_error + unit) io" where
  "UpdateProvisionPhase c ns provisionName target message =
     (case validTransitions target of
        None \<Rightarrow>
          State_Monad.return
            (Inl (Wrapped [] (Sentinel ErrInvalidPhaseTransition) ('': cannot transition to '' @ phase_string target)))
      | Some requiredSource \<Rightarrow> do {
          g \<leftarrow> api_call (Get_Provision c ns provisionName);
          (case g of
             Inl err \<Rightarrow>
               State_Monad.return (Inl (Wrapped (''getting provision '' @ quote provisionName @ '': '') (ApiErr err) []))
           | Inr provision \<Rightarrow>
               if pr_Phase (pr_Status provision) \<noteq> requiredSource then
                 State_Monad.return
                   (Inl (Wrapped [] (Sentinel ErrInvalidPhaseTransition)
                      ('': cannot transition from '' @ phase_string (pr_Phase (pr_Status provision))
                       @ '' to '' @ phase_string target)))
               else do {
                 now \<leftarrow> metav1_Now;
                 u \<leftarrow> (let p = with_phase target message now provision in
                      api_write (ProvStatus p) (Update_Provision_status c p));
                 State_Monad.return (case u of Inl err \<Rightarrow> Inl (ApiErr err) | Inr _ \<Rightarrow> Inr ())
               })
        })"

definition IsProvisionNotFound :: "go_error \<Rightarrow> bool" where
  "IsProvisionNotFound err = IsNotFound err"

definition IsProvisionPhaseError :: "go_error \<Rightarrow> bool" where
  "IsProvisionPhaseError err \<longleftrightarrow> errors_Is err ErrInvalidPhaseTransition \<or> IsConflict err"

section \<open>The lookup\<close>

definition PendingProvisionForMAC :: "'s Client \<Rightarrow> string \<Rightarrow> string \<Rightarrow> ('s, go_error + Provision option) io" where
  "PendingProvisionForMAC c ns mac = do {
     l \<leftarrow> api_call (List_Machines c ns [(MachineSpecMACField, mac)]);
     (case l of
        Inl err \<Rightarrow> State_Monad.return (Inl (Wrapped ''listing machines: '' (ApiErr err) []))
      | Inr machines \<Rightarrow>
          (case machines of
             [] \<Rightarrow> State_Monad.return (Inr None)
           | m # ms \<Rightarrow>
               if ms \<noteq> [] then
                 State_Monad.return (Inl (Wrapped [] (Sentinel ErrMultipleMachines) ('' with MAC '' @ mac)))
               else do {
                 k \<leftarrow> api_call (List_Provisions c ns
                        [(ProvisionMachineRefField, om_name (mach_meta m)),
                         (ProvisionPhaseField, phase_string ProvisionPhasePending)]);
                 (case k of
                    Inl err \<Rightarrow> State_Monad.return (Inl (Wrapped ''listing provisions: '' (ApiErr err) []))
                  | Inr provisions \<Rightarrow>
                      State_Monad.return
                        (case provisions of
                           [] \<Rightarrow> Inr None
                         | p # ps \<Rightarrow>
                             if ps \<noteq> [] then Inl (Wrapped [] (Sentinel ErrMultipleProvisions) ('' for MAC '' @ mac))
                             else Inr (Some p)))
               }))
   }"

section \<open>The reconciler\<close>

record 's ProvisionReconciler =
  pvr_Client :: "'s Client"

definition started :: "Provision \<Rightarrow> Provision" where
  "started p = p\<lparr>pr_Status := (pr_Status p)\<lparr>pr_Phase := ProvisionPhasePending\<rparr>\<rparr>"

definition Provision_Reconcile :: "'s ProvisionReconciler \<Rightarrow> string \<Rightarrow> string \<Rightarrow> ('s, ctrl_out) io" where
  "Provision_Reconcile r ns name = do {
     g \<leftarrow> api_call (Get_Provision (pvr_Client r) ns name);
     (case g of
        Inl err \<Rightarrow>
          State_Monad.return (if IsNotFound (ApiErr err) then Result 0 else ReconcileError (ApiErr err))
      | Inr prov \<Rightarrow>
          if pr_Phase (pr_Status prov) = ProvisionPhaseUnset then do {
            u \<leftarrow> (let p = started prov in api_write (ProvStatus p) (Update_Provision_status (pvr_Client r) p));
            State_Monad.return (case u of Inl err \<Rightarrow> ReconcileError (ApiErr err) | Inr _ \<Rightarrow> Result 0)
          }
          else State_Monad.return (Result 0))
   }"

section \<open>What the lookup finds\<close>

definition machines_with :: "string \<Rightarrow> string \<Rightarrow> Machine list \<Rightarrow> Machine list" where
  "machines_with ns mac = filter (\<lambda>m. om_namespace (mach_meta m) = ns \<and> mach_MAC (mach_Spec m) = mac)"

definition pending_of :: "string \<Rightarrow> string \<Rightarrow> Provision list \<Rightarrow> Provision list" where
  "pending_of ns machine =
     filter (\<lambda>p. om_namespace (pr_meta p) = ns \<and> pr_MachineRef (pr_Spec p) = machine
                  \<and> pr_Phase (pr_Status p) = ProvisionPhasePending)"

lemma mset_cases:
  assumes "mset xs = mset ys"
  shows "ys = [] \<Longrightarrow> xs = []" and "ys = [y] \<Longrightarrow> xs = [y]"
    and "ys = y # y' # zs \<Longrightarrow> \<exists>x x' us. xs = x # x' # us"
proof -
  have l: "length xs = length ys" by (metis assms size_mset)
  show "ys = [] \<Longrightarrow> xs = []" "ys = [y] \<Longrightarrow> xs = [y]" using assms by simp_all
  show "ys = y # y' # zs \<Longrightarrow> \<exists>x x' us. xs = x # x' # us" using l by (auto simp: length_Suc_conv Suc_length_conv)
qed

text \<open>The specification of the lookup, over what the cluster holds.\<close>

definition pending_for :: "string \<Rightarrow> string \<Rightarrow> Machine list \<Rightarrow> Provision list \<Rightarrow> go_error + Provision option" where
  "pending_for ns mac machines provisions =
     (case machines_with ns mac machines of
        [] \<Rightarrow> Inr None
      | [m] \<Rightarrow>
          (case pending_of ns (om_name (mach_meta m)) provisions of
             [] \<Rightarrow> Inr None
           | [p] \<Rightarrow> Inr (Some p)
           | _ \<Rightarrow> Inl (Wrapped [] (Sentinel ErrMultipleProvisions) ('' for MAC '' @ mac)))
      | _ \<Rightarrow> Inl (Wrapped [] (Sentinel ErrMultipleMachines) ('' with MAC '' @ mac)))"

lemma list_01: "(xs = [] \<Longrightarrow> P) \<Longrightarrow> (\<And>x. xs = [x] \<Longrightarrow> P) \<Longrightarrow> (\<And>x y ys. xs = x # y # ys \<Longrightarrow> P) \<Longrightarrow> P"
  by (metis list.exhaust)

lemma List_Machines_mac:
  assumes "lists_by_index c machines provisions" and "mac \<noteq> []"
  obtains items s' where "List_Machines c ns [(MachineSpecMACField, mac)] s = (Inr items, s')"
    "machines s' = machines s" "provisions s' = provisions s" "mset items = mset (machines_with ns mac (machines s))"
proof -
  have "filter (\<lambda>m. om_namespace (mach_meta m) = ns \<and> selects Machine_indexers [(MachineSpecMACField, mac)] m) ms
      = machines_with ns mac ms" for ms
    by (simp add: machines_with_def selects_mac [OF assms(2)])
  then show thesis using assms(1) that unfolding lists_by_index_def by metis
qed

lemma List_Provisions_pending:
  assumes "lists_by_index c machines provisions" and "ref \<noteq> []"
  obtains items s' where
    "List_Provisions c ns [(ProvisionMachineRefField, ref), (ProvisionPhaseField, phase_string ProvisionPhasePending)] s
       = (Inr items, s')"
    "machines s' = machines s" "provisions s' = provisions s" "mset items = mset (pending_of ns ref (provisions s))"
proof -
  have "filter (\<lambda>p. om_namespace (pr_meta p) = ns \<and> selects Provision_indexers
        [(ProvisionMachineRefField, ref), (ProvisionPhaseField, phase_string ProvisionPhasePending)] p) ps
      = pending_of ns ref ps" for ps
    by (simp add: pending_of_def selects_pending [OF assms(2)] del: phase_string.simps)
  then show thesis using assms(1) that unfolding lists_by_index_def by metis
qed

lemma PendingProvisionForMAC_wp:
  assumes "lists_by_index c machines provisions" and "mac \<noteq> []"
    and "\<forall>m \<in> set (machines (w_api w)). om_name (mach_meta m) \<noteq> []"
  shows "wp (PendingProvisionForMAC c ns mac)
     (\<lambda>x w'. x = pending_for ns mac (machines (w_api w)) (provisions (w_api w))
        \<and> machines (w_api w') = machines (w_api w) \<and> provisions (w_api w') = provisions (w_api w)
        \<and> w_writes w' = w_writes w \<and> w_fs w' = w_fs w) w"
proof -
  let ?ms = "machines_with ns mac (machines (w_api w))"
  obtain items s where l: "List_Machines c ns [(MachineSpecMACField, mac)] (w_api w) = (Inr items, s)"
    and s: "machines s = machines (w_api w)" "provisions s = provisions (w_api w)" and m: "mset items = mset ?ms"
    by (rule List_Machines_mac [OF assms(1,2)])
  note d = PendingProvisionForMAC_def wp_bind wp_return api_call_def wp_State l pending_for_def
  show ?thesis
  proof (cases rule: list_01 [of ?ms])
    case 1
    then show ?thesis using mset_cases(1) [OF m] s by (simp add: d)
  next
    case (3 x y ys)
    then obtain a b us where "items = a # b # us" using mset_cases(3) [OF m] by blast
    then show ?thesis using s 3 by (simp add: d)
  next
    case (2 x)
    then have xi: "items = [x]" by (rule mset_cases(2) [OF m])
    have "x \<in> set ?ms" by (simp add: 2)
    then have n: "om_name (mach_meta x) \<noteq> []" using assms(3) by (simp add: machines_with_def)
    let ?ps = "pending_of ns (om_name (mach_meta x)) (provisions s)"
    obtain ps s' where k: "List_Provisions c ns [(ProvisionMachineRefField, om_name (mach_meta x)),
        (ProvisionPhaseField, phase_string ProvisionPhasePending)] s = (Inr ps, s')"
      and s': "machines s' = machines s" "provisions s' = provisions s" and mp: "mset ps = mset ?ps"
      by (rule List_Provisions_pending [OF assms(1) n])
    show ?thesis
    proof (cases rule: list_01 [of ?ps])
      case 1
      then show ?thesis using mset_cases(1) [OF mp] s s' k 2 xi by (simp add: d del: phase_string.simps)
    next
      case (2 p)
      then show ?thesis using mset_cases(2) [OF mp] s s' k \<open>?ms = [x]\<close> xi by (simp add: d del: phase_string.simps)
    next
      case (3 p q qs)
      then obtain a b us where "ps = a # b # us" using mset_cases(3) [OF mp] by blast
      then show ?thesis using 3 s s' k 2 xi by (simp add: d del: phase_string.simps)
    qed
  qed
qed

end
