(* ===== verification/OsBlind.thy ===== *)
theory OsBlind
  imports ConfigController WorldRules
begin

text \<open>
  Invariants that the operating system has no part in: of the statuses written, of the state of the API server. The
  parts of the two reconcilers that only call the operating system keep every one of them.
\<close>

text \<open>
  Such an invariant survives a system call, whatever the call does to the file system, a draw of a random
  name and an event.
\<close>

locale os_blind =
  fixes I :: "'s world \<Rightarrow> bool"
  assumes step: "stepped w w' \<Longrightarrow> I w \<Longrightarrow> I w'"
    and draw: "I w \<Longrightarrow> I (w\<lparr>w_draw := n\<rparr>)"
    and event: "I w \<Longrightarrow> I (w\<lparr>w_events := es\<rparr>)"
begin

lemma call: "keeps I (os_call mk part eff)"
  by (intro keepsI wp_os_call) (rule step; assumption)+

lemma os_ops [keeps_intros]:
  "keeps I (os_Stat s)" "keeps I (os_Open s)" "keeps I (os_ReadAll s h)" "keeps I (os_Create s)" "keeps I (os_Write s h d)"
  "keeps I (os_Sync s)" "keeps I (os_Close s)" "keeps I (os_Remove s)" "keeps I (os_RemoveAll s)" "keeps I (os_MkdirAll s)"
  "keeps I (os_Rename a b)" "keeps I (os_Readlink s)" "keeps I (os_Symlink a b)" "keeps I (os_ReadDir s)" "keeps I (os_Chmod s m)"
  unfolding os_Stat_def os_Open_def os_ReadAll_def os_Create_def os_Write_def os_Sync_def os_Close_def os_Remove_def os_RemoveAll_def
    os_MkdirAll_def os_Rename_def os_Readlink_def os_Symlink_def os_ReadDir_def os_Chmod_def
  by (rule call)+

lemma create_temp [keeps_intros]: "keeps I (os_CreateTemp dir pre)"
proof (rule keepsI)
  fix w assume "I w"
  from keepsD [OF call draw [OF this], of "PathError ''createtemp'' (dir @ slash # pre @ ''*'')" read_only
      "create_temp 10000 (w_draws w) (w_draw w) dir pre" "w_draw w + 10000"]
  show "wp (os_CreateTemp dir pre) (\<lambda>_. I) w"
    by (simp add: os_CreateTemp_def wp_def Let_def)
qed

lemma pure [keeps_intros]: "keeps I metav1_Now" "keeps I (record_event a b)"
  by (simp_all add: keeps_def wp_State metav1_Now_def record_event_def event)

lemma artifact_parts [keeps_intros]:
  "keeps I (hashFile r p b)" "keeps I (syncDir p)" "keeps I (io_Copy p h body rerr)"
  unfolding hashFile_def syncDir_def io_Copy_def by (intro keeps_intros)+

lemma entries [keeps_intros]: "keeps I (remove_entries dir es)"
  by (induction es) (auto intro!: keeps_intros)

lemma links [keeps_intros]: "keeps I (ensureSymlink dir f t)" "keeps I (ensureFileSymlink l t)"
  unfolding ensureSymlink_def ensureFileSymlink_def Let_def by (intro keeps_intros)+

lemma sources [keeps_intros]: "keeps I (copy_sources tmp h srcs)"
  by (induction srcs) (auto simp: copy_source_def intro!: keeps_intros)

lemma concatenation [keeps_intros]: "keeps I (concatenateFiles dst a b)"
  unfolding concatenateFiles_def concat_current_def concat_into_def Let_def by (intro keeps_intros)

lemma file_extraction [keeps_intros]: "keeps I (extractFile files src dst)"
  unfolding extractFile_def extract_into_def Let_def by (intro keeps_intros)

lemma targets [keeps_intros]: "keeps I (extract_targets files ts)"
  by (induction files ts rule: extract_targets.induct) (auto intro!: keeps_intros)

lemma extraction [keeps_intros]: "keeps I (extractFromISO diskfs p k i out)"
  unfolding extractFromISO_def upToDate_def read_image_def Let_def by (intro keeps_intros)

end

end
