(* ===== verification/StatusShape.thy ===== *)
theory StatusShape
  imports ArtifactProps ConfigProps HttpdProvision OsBlind
begin

text \<open>
  The type discipline of the status fields: what each phase says about the other fields, and that every
  status any reconciler writes keeps to it, on every path and under every fault.
\<close>

section \<open>Well-formed statuses\<close>

text \<open>
  A Ready artifact carries no message and no trace of failures and says when it was checked; an artifact in
  Error says what went wrong and when; nothing but these and Downloading is ever written. A config
  is Ready without a message, or waits or fails with one. The only phase a reconciler gives a provision is
  Pending.
\<close>

definition well_formed :: "status_write \<Rightarrow> bool" where
  "well_formed x =
     (case x of
        ArtifactStatus a \<Rightarrow>
          (case ba_Phase (ba_Status a) of
             BootArtifactPhaseReady \<Rightarrow>
               ba_Message (ba_Status a) = [] \<and> ba_FailureCount (ba_Status a) = 0
               \<and> ba_LastFailureTime (ba_Status a) = None \<and> ba_LastChecked (ba_Status a) \<noteq> None
           | BootArtifactPhaseError \<Rightarrow> ba_Message (ba_Status a) \<noteq> [] \<and> ba_LastFailureTime (ba_Status a) \<noteq> None
           | BootArtifactPhaseDownloading \<Rightarrow> ba_Message (ba_Status a) = ''Downloading''
           | _ \<Rightarrow> False)
      | ConfigStatus b \<Rightarrow>
          (case bc_Phase (bc_Status b) of
             BootConfigPhaseReady \<Rightarrow> bc_Message (bc_Status b) = []
           | BootConfigPhasePending \<Rightarrow> bc_Message (bc_Status b) \<noteq> []
           | BootConfigPhaseError \<Rightarrow> bc_Message (bc_Status b) \<noteq> []
           | BootConfigPhaseUnset \<Rightarrow> False)
      | ProvStatus p \<Rightarrow> pr_Phase (pr_Status p) = ProvisionPhasePending)"

abbreviation typed :: "'s world \<Rightarrow> 's world \<Rightarrow> bool" where
  "typed \<equiv> run_inv (\<lambda>_. True) (\<lambda>x _. well_formed x)"

section \<open>Every step writes well-formed statuses\<close>

interpretation typed: os_blind "typed w0" for w0
  by unfold_locales (blast intro: run_inv_step, simp_all add: run_inv_def)

lemma typed_api_write: "well_formed x \<Longrightarrow> keeps (typed w0) (api_write x f)"
  by (rule keeps_api_write) simp

lemma typed_setReady [keeps_intros]: "keeps (typed w0) (BootArtifact_setReady r a)"
  unfolding BootArtifact_setReady_def Let_def by (intro keeps_intros typed_api_write) (simp add: well_formed_def)

lemma typed_setFailure [keeps_intros]: "msg \<noteq> [] \<Longrightarrow> keeps (typed w0) (BootArtifact_setFailure r a msg)"
  unfolding BootArtifact_setFailure_def Let_def by (intro keeps_intros typed_api_write) (simp add: well_formed_def)

lemma typed_publish [keeps_intros]: "keeps (typed w0) (publish r a fp tmp)"
  unfolding publish_def by (intro keeps_intros) simp_all

lemma typed_store_body [keeps_intros]: "keeps (typed w0) (store_body r a fp tmp n body rerr)"
  unfolding store_body_def Let_def by (intro keeps_intros) simp_all

lemma typed_fetch [keeps_intros]: "keeps (typed w0) (fetch r a fp tmp)"
  unfolding fetch_def by (auto intro!: keeps_intros split: sum.split http_reply.split)

lemma typed_download [keeps_intros]: "keeps (typed w0) (download r a fp)"
  unfolding download_def Let_def by (intro keeps_intros typed_api_write) (simp_all add: well_formed_def)

lemma typed_verifyExisting [keeps_intros]: "keeps (typed w0) (verifyExisting r a fp)"
  unfolding verifyExisting_def Let_def by (intro keeps_intros)

lemma typed_BootArtifact_Reconcile: "keeps (typed w0) (BootArtifact_Reconcile r ns name)"
  unfolding BootArtifact_Reconcile_def Let_def by (intro keeps_intros) simp_all

lemma typed_BootConfig_status [keeps_intros]:
  "keeps (typed w0) (BootConfig_setReady r bc)"
  "msg \<noteq> [] \<Longrightarrow> keeps (typed w0) (setPending r bc msg)"
  "msg \<noteq> [] \<Longrightarrow> keeps (typed w0) (setError r bc msg)"
  unfolding BootConfig_setReady_def setPending_def setError_def BootConfig_update_def
  by (intro keeps_intros typed_api_write; simp add: well_formed_def)+

lemma typed_reconcileISO [keeps_intros]: "keeps (typed w0) (reconcileISO r bc i)"
  unfolding reconcileISO_def getArtifact_def Let_def by (intro keeps_intros) simp_all

lemma typed_assemble [keeps_intros]: "keeps (typed w0) (assemble r bc k i fw)"
  unfolding assemble_def Let_def by (intro keeps_intros) simp_all

lemma typed_reconcileNetboot [keeps_intros]: "keeps (typed w0) (reconcileNetboot r bc nb)"
  unfolding reconcileNetboot_def getArtifact_def by (intro keeps_intros) simp_all

lemma typed_BootConfig_Reconcile: "keeps (typed w0) (BootConfig_Reconcile r ns name)"
  unfolding BootConfig_Reconcile_def by (intro keeps_intros)

lemma typed_Provision_Reconcile: "keeps (typed w0) (Provision_Reconcile r ns name)"
  unfolding Provision_Reconcile_def Let_def by (intro keeps_intros typed_api_write) (simp add: well_formed_def started_def)

section \<open>The property\<close>

text \<open>
  C28. Every status that a reconciler writes is well-formed: on every path through the three reconcilers,
  whatever fails and whatever the server answers, the phase written fits the message, the failure count
  and the times that are written with it.
\<close>

theorem statuses_well_formed:
  assumes "run_state m w = (out, w')"
    and "m \<in> {BootArtifact_Reconcile ra ns name, BootConfig_Reconcile rc ns name, Provision_Reconcile rp ns name}"
  shows "\<exists>ws. w_writes w' = ws @ w_writes w \<and> (\<forall>(x, fs) \<in> set ws. well_formed x)"
proof -
  have "keeps (typed w) m"
    using assms(2) typed_BootArtifact_Reconcile typed_BootConfig_Reconcile typed_Provision_Reconcile by blast
  from keeps_run [OF this _ assms(1)] show ?thesis by (auto simp: run_inv_def)
qed

theorem statuses_well_formed_witness:
  "\<exists>ws. w_writes (snd (cfg_run (Some (cfg_config (Some (cfg_netboot [])) None)) (cfg_arts BootArtifactPhaseDownloading) cfg_disk [])) = ws
     \<and> (\<forall>(x, fs) \<in> set ws. well_formed x)"
proof -
  let ?r = "cfg_reconciler (Some (cfg_config (Some (cfg_netboot [])) None)) (cfg_arts BootArtifactPhaseDownloading)"
  from statuses_well_formed [OF prod.collapse [symmetric], of "BootConfig_Reconcile ?r ''default'' ''noble''" _ "''default''" "''noble''" ?r
      "\<lparr>pvr_Client = bcr_Client ?r\<rparr>" "cfg_world cfg_disk []"]
  show ?thesis by (simp add: cfg_run_def cfg_world_def)
qed

end
