(* ===== verification/GoFlag.thy ===== *)
theory GoFlag
  imports GoText
begin

text \<open>
  The part of Go's \<^verbatim>\<open>flag\<close> package that the two programs use: string and boolean flags with defaults, and
  the parsing of the command line, which ends the process on an error. Libraries register flags
  of their own on the same command line; they are a parameter: whether such a flag is boolean, and which
  values it takes.
\<close>

section \<open>Flags\<close>

datatype flag_default = StringFlag string | BoolFlag bool

datatype flag_error =
    ErrHelp
  | BadSyntax string
  | NotDefined string
  | NeedsArgument string
  | InvalidValue string string

type_synonym lib_flags = "string \<rightharpoonup> bool \<times> (string \<Rightarrow> bool)"

text \<open>\<^verbatim>\<open>strconv.ParseBool\<close>.\<close>

definition ParseBool :: "string \<Rightarrow> bool option" where
  "ParseBool s =
     (if s \<in> {''1'', ''t'', ''T'', ''true'', ''TRUE'', ''True''} then Some True
      else if s \<in> {''0'', ''f'', ''F'', ''false'', ''FALSE'', ''False''} then Some False
      else None)"

definition flag_kind :: "(string \<times> flag_default) list \<Rightarrow> lib_flags \<Rightarrow> lib_flags" where
  "flag_kind tbl lib name =
     (case map_of tbl name of
        Some (StringFlag _) \<Rightarrow> Some (False, \<lambda>_. True)
      | Some (BoolFlag _) \<Rightarrow> Some (True, \<lambda>v. ParseBool v \<noteq> None)
      | None \<Rightarrow> lib name)"

section \<open>Parsing\<close>

definition dash :: char where
  "dash = CHR ''-''"

definition equals :: char where
  "equals = CHR ''=''"

text \<open>
  \<^verbatim>\<open>parseOne\<close>, repeated: what comes before the first argument that is not a flag. The result is the last
  text given for each flag.
\<close>

fun parse_flags :: "lib_flags \<Rightarrow> string list \<Rightarrow> (string \<rightharpoonup> string) \<Rightarrow> flag_error + (string \<rightharpoonup> string)" where
  "parse_flags k [] vals = Inr vals"
| "parse_flags k (s # args) vals =
     (if length s < 2 \<or> hd s \<noteq> dash \<or> s = [dash, dash] then Inr vals
      else
        let body = (if s ! 1 = dash then drop 2 s else drop 1 s);
            name = takeWhile (\<lambda>c. c \<noteq> equals) body;
            val = (if equals \<in> set body then Some (drop (length name + 1) body) else None) in
        if body = [] \<or> hd body = dash \<or> hd body = equals then Inl (BadSyntax s)
        else
          (case k name of
             None \<Rightarrow> Inl (if name = ''help'' \<or> name = ''h'' then ErrHelp else NotDefined name)
           | Some (boolean, ok) \<Rightarrow>
               (case val of
                  Some v \<Rightarrow> if ok v then parse_flags k args (vals(name \<mapsto> v)) else Inl (InvalidValue v name)
                | None \<Rightarrow>
                    if boolean
                    then (if ok ''true'' then parse_flags k args (vals(name \<mapsto> ''true''))
                          else Inl (InvalidValue ''true'' name))
                    else
                      (case args of
                         [] \<Rightarrow> Inl (NeedsArgument name)
                       | v # rest \<Rightarrow>
                           if ok v then parse_flags k rest (vals(name \<mapsto> v)) else Inl (InvalidValue v name)))))"

declare parse_flags.simps(2) [simp del]

text \<open>The value that the variable of a flag has afterwards.\<close>

definition string_flag :: "(string \<times> flag_default) list \<Rightarrow> (string \<rightharpoonup> string) \<Rightarrow> string \<Rightarrow> string" where
  "string_flag tbl vals name =
     (case vals name of
        Some v \<Rightarrow> v
      | None \<Rightarrow> (case map_of tbl name of Some (StringFlag d) \<Rightarrow> d | _ \<Rightarrow> []))"

definition bool_flag :: "(string \<times> flag_default) list \<Rightarrow> (string \<rightharpoonup> string) \<Rightarrow> string \<Rightarrow> bool" where
  "bool_flag tbl vals name =
     (case vals name of
        Some v \<Rightarrow> ParseBool v = Some True
      | None \<Rightarrow> (case map_of tbl name of Some (BoolFlag d) \<Rightarrow> d | _ \<Rightarrow> False))"

text \<open>The exit code of \<^verbatim>\<open>flag.ExitOnError\<close>.\<close>

fun flag_exit :: "flag_error \<Rightarrow> int" where
  "flag_exit ErrHelp = 0"
| "flag_exit _ = 2"

section \<open>Laws\<close>

definition flag_arg :: "string \<times> string \<Rightarrow> string" where
  "flag_arg nv = ''--'' @ fst nv @ ''='' @ snd nv"

definition flag_name_ok :: "string \<Rightarrow> bool" where
  "flag_name_ok n \<longleftrightarrow> n \<noteq> [] \<and> hd n \<noteq> dash \<and> equals \<notin> set n"

lemma parse_flag_arg:
  assumes "flag_name_ok n" and "k n = Some (b, ok)" and "ok v"
  shows "parse_flags k (flag_arg (n, v) # args) vals = parse_flags k args (vals(n \<mapsto> v))"
proof -
  have "takeWhile (\<lambda>c. c \<noteq> equals) (n @ equals # v) = n"
    by (subst takeWhile_append2) (use assms(1) in \<open>auto simp: flag_name_ok_def\<close>)
  moreover have "flag_arg (n, v) = dash # dash # n @ equals # v" by (simp add: flag_arg_def dash_def equals_def)
  moreover have "hd n \<noteq> equals" using assms(1) by (cases n) (auto simp: flag_name_ok_def)
  ultimately show ?thesis
    using assms by (simp add: parse_flags.simps(2) flag_name_ok_def)
qed

lemma parse_flag_args:
  assumes "\<forall>(n, v) \<in> set nvs. flag_name_ok n \<and> (\<exists>b ok. k n = Some (b, ok) \<and> ok v)"
  shows "parse_flags k (map flag_arg nvs) vals = Inr (vals ++ map_of (rev nvs))"
  using assms
proof (induction nvs arbitrary: vals)
  case (Cons nv nvs)
  obtain n v where nv: "nv = (n, v)" by force
  with Cons.prems obtain b ok where "flag_name_ok n" "k n = Some (b, ok)" "ok v" by auto
  then show ?case
    using Cons by (simp add: nv parse_flag_arg [where b = b and ok = ok])
qed simp

text \<open>A word after a boolean flag is not its value: it ends the flags.\<close>

lemma parse_word_ends: "hd s \<noteq> dash \<Longrightarrow> parse_flags k (s # args) vals = Inr vals"
  by (simp add: parse_flags.simps(2))

lemma ParseBool_text [simp]:
  "ParseBool ''true'' = Some True" "ParseBool ''false'' = Some False"
  by (simp_all add: ParseBool_def)

text \<open>A flag keeps its value unless an argument begins with its name.\<close>

definition names_flag :: "string \<Rightarrow> string \<Rightarrow> bool" where
  "names_flag n s \<longleftrightarrow> has_prefix (dash # n) s \<or> has_prefix (dash # dash # n) s"

definition flag_body :: "string \<Rightarrow> string" where
  "flag_body s = (if s ! 1 = dash then drop 2 s else drop 1 s)"

definition flag_name :: "string \<Rightarrow> string" where
  "flag_name s = takeWhile (\<lambda>c. c \<noteq> equals) (flag_body s)"

lemma names_flag_name:
  assumes "\<not> (length s < 2 \<or> hd s \<noteq> dash \<or> s = [dash, dash])"
  shows "names_flag (flag_name s) s"
proof (cases s rule: remdups_adj.cases)
  case (3 x y t)
  have "take (length (takeWhile P u)) u = takeWhile P u" for P and u :: string by (metis takeWhile_eq_take)
  then show ?thesis using assms by (simp add: 3 names_flag_def has_prefix_def flag_name_def flag_body_def)
qed (use assms in auto)

lemma parse_flags_step:
  assumes "parse_flags k (s # args) vals = Inr vals'" and "\<not> (length s < 2 \<or> hd s \<noteq> dash \<or> s = [dash, dash])"
  obtains v args' where "parse_flags k args' (vals(flag_name s \<mapsto> v)) = Inr vals'" "args' = args \<or> args = v # args'"
proof -
  define body where "body = flag_body s"
  define val where "val = (if equals \<in> set body then Some (drop (length (flag_name s) + 1) body) else None)"
  note unfold = parse_flags.simps(2) [of k s args vals, unfolded Let_def, folded flag_body_def, folded flag_name_def,
      folded body_def, folded val_def]
  show ?thesis
    using assms(1) that unfolding unfold if_not_P [OF assms(2)]
    by (simp split: if_splits option.splits prod.splits list.splits; blast)
qed

lemma parse_flags_names:
  assumes "parse_flags k args vals = Inr vals'" and "vals' n \<noteq> vals n"
  shows "\<exists>s \<in> set args. names_flag n s"
  using assms
proof (induction args arbitrary: vals rule: length_induct)
  case (1 args)
  show ?case
  proof (cases args)
    case Nil
    then show ?thesis using 1 by simp
  next
    case (Cons s as)
    show ?thesis
    proof (cases "length s < 2 \<or> hd s \<noteq> dash \<or> s = [dash, dash]")
      case True
      then show ?thesis using 1 Cons by (simp add: parse_flags.simps(2))
    next
      case False
      obtain v as' where p: "parse_flags k as' (vals(flag_name s \<mapsto> v)) = Inr vals'" "as' = as \<or> as = v # as'"
        by (rule parse_flags_step [OF _ False]) (use 1 Cons in auto)
      show ?thesis
      proof (cases "n = flag_name s")
        case True
        then show ?thesis using names_flag_name [OF False] Cons by auto
      next
        case n: False
        have "length as' < length args" "set as' \<subseteq> set args" using p(2) Cons by auto
        then show ?thesis using 1 p(1) n by fastforce
      qed
    qed
  qed
qed

end
