(* ===== verification/Startup.thy ===== *)
theory Startup
  imports Indexers
begin

text \<open>
  The steps in which the two programs start: registrations with the manager of controller-runtime, each of
  which may return an error that ends the process. \<^verbatim>\<open>cmd/main.go\<close> and \<^verbatim>\<open>cmd/httpd/main.go\<close> take such steps in an
  order of their own; \<^verbatim>\<open>internal/controller/indexers.go\<close> is a part of both.
\<close>

text \<open>A controller: its name, the kind reconciled, the kinds watched besides.\<close>

record controller_setup =
  cs_Named :: string
  cs_For :: string
  cs_Watches :: "string list"

datatype 'o setup_step =
    AddToScheme string
  | GetConfig
  | NewManager 'o
  | IndexField string string
  | SetupController controller_setup
  | AddHealthzCheck string
  | AddReadyzCheck string
  | StartManager

text \<open>\<^verbatim>\<open>utilruntime.Must\<close> panics; everything else ends in \<^verbatim>\<open>os.Exit(1)\<close>.\<close>

fun step_exit :: "'o setup_step \<Rightarrow> int" where
  "step_exit (AddToScheme _) = 2"
| "step_exit _ = 1"

text \<open>The steps taken, and the exit code when one fails.\<close>

fun run_steps :: "('o setup_step \<Rightarrow> bool) \<Rightarrow> 'o setup_step list \<Rightarrow> 'o setup_step list \<times> int option" where
  "run_steps fails [] = ([], None)"
| "run_steps fails (s # ss) =
     (if fails s then ([s], Some (step_exit s))
      else (case run_steps fails ss of (done, code) \<Rightarrow> (s # done, code)))"

definition SetupIndexers :: "'o setup_step list" where
  "SetupIndexers =
     map (\<lambda>(f, _). IndexField ''Provision'' f) Provision_indexers
     @ map (\<lambda>(f, _). IndexField ''Machine'' f) Machine_indexers"

section \<open>Laws\<close>

lemma run_steps_ok: "snd (run_steps fails ss) = None \<longleftrightarrow> (\<forall>s \<in> set ss. \<not> fails s)"
  by (induction ss) (auto split: prod.splits)

lemma run_steps_all: "snd (run_steps fails ss) = None \<Longrightarrow> fst (run_steps fails ss) = ss"
  by (induction ss) (auto split: prod.splits if_splits)

lemma run_steps_code: "snd (run_steps fails ss) = Some c \<Longrightarrow> c \<in> {1, 2}"
proof (induction ss)
  case (Cons s ss)
  then show ?case by (cases s) (auto split: prod.splits if_splits)
qed simp

text \<open>A run ends with the first step that fails, after all before it have succeeded.\<close>

lemma run_steps_prefix:
  assumes "run_steps fails ss = (t, code)"
  shows "\<exists>rest. ss = t @ rest \<and> (\<forall>s \<in> set (butlast t). \<not> fails s)
     \<and> (code \<noteq> None \<longrightarrow> t \<noteq> [] \<and> fails (last t)) \<and> (code = None \<longrightarrow> rest = [] \<and> (\<forall>s \<in> set t. \<not> fails s))"
  using assms
proof (induction ss arbitrary: t)
  case (Cons s ss)
  then show ?case by (auto split: if_splits prod.splits)
qed simp

text \<open>The last step is only reached when all before it succeeded.\<close>

lemma run_steps_last:
  assumes "run_steps fails (pre @ [x]) = (t, code)" and "x \<notin> set pre" and "x \<in> set t"
  shows "t = pre @ [x] \<and> (\<forall>s \<in> set pre. \<not> fails s)"
  using assms
proof (induction pre arbitrary: t)
  case Nil
  then show ?case by (auto split: if_splits)
next
  case (Cons s pre)
  then show ?case by (auto split: if_splits prod.splits)
qed

end
