(* ===== verification/ManagerMain.thy ===== *)
theory ManagerMain
  imports GoFlag Startup ConfigController
begin

text \<open>
  \<^verbatim>\<open>cmd/main.go\<close> and the \<^verbatim>\<open>SetupWithManager\<close> methods: the start-up of the controller manager. The command line
  becomes the options of the manager and its two servers; then the steps of the start-up run in their
  order, and the first that returns an error ends the process. Which steps fail is a parameter, and so are
  the flags that libraries register.
\<close>

section \<open>The command line\<close>

record Manager_flags =
  mf_dataDir :: string
  mf_metricsAddr :: string
  mf_probeAddr :: string
  mf_enableLeaderElection :: bool
  mf_secureMetrics :: bool
  mf_webhookCertPath :: string
  mf_webhookCertName :: string
  mf_webhookCertKey :: string
  mf_metricsCertPath :: string
  mf_metricsCertName :: string
  mf_metricsCertKey :: string
  mf_enableHTTP2 :: bool

definition manager_flag_table :: "(string \<times> flag_default) list" where
  "manager_flag_table =
     [(''data-dir'', StringFlag ''/data/isoboot''),
      (''metrics-bind-address'', StringFlag ''0''),
      (''health-probe-bind-address'', StringFlag '':8081''),
      (''leader-elect'', BoolFlag False),
      (''metrics-secure'', BoolFlag True),
      (''webhook-cert-path'', StringFlag []),
      (''webhook-cert-name'', StringFlag ''tls.crt''),
      (''webhook-cert-key'', StringFlag ''tls.key''),
      (''metrics-cert-path'', StringFlag []),
      (''metrics-cert-name'', StringFlag ''tls.crt''),
      (''metrics-cert-key'', StringFlag ''tls.key''),
      (''enable-http2'', BoolFlag False)]"

definition manager_flags :: "(string \<rightharpoonup> string) \<Rightarrow> Manager_flags" where
  "manager_flags vals =
     (let str = string_flag manager_flag_table vals; boolean = bool_flag manager_flag_table vals in
      \<lparr>mf_dataDir = str ''data-dir'',
       mf_metricsAddr = str ''metrics-bind-address'',
       mf_probeAddr = str ''health-probe-bind-address'',
       mf_enableLeaderElection = boolean ''leader-elect'',
       mf_secureMetrics = boolean ''metrics-secure'',
       mf_webhookCertPath = str ''webhook-cert-path'',
       mf_webhookCertName = str ''webhook-cert-name'',
       mf_webhookCertKey = str ''webhook-cert-key'',
       mf_metricsCertPath = str ''metrics-cert-path'',
       mf_metricsCertName = str ''metrics-cert-name'',
       mf_metricsCertKey = str ''metrics-cert-key'',
       mf_enableHTTP2 = boolean ''enable-http2''\<rparr>)"

definition parse_manager_flags :: "lib_flags \<Rightarrow> string list \<Rightarrow> flag_error + Manager_flags" where
  "parse_manager_flags lib args =
     map_sum id manager_flags (parse_flags (flag_kind manager_flag_table lib) args Map.empty)"

section \<open>The options of the servers and the manager\<close>

text \<open>The field of \<^verbatim>\<open>tls.Config\<close> that the program sets; options are applied in the order of their list.\<close>

record tls_config =
  tls_NextProtos :: "string list"

definition disableHTTP2 :: "tls_config \<Rightarrow> tls_config" where
  "disableHTTP2 c = c\<lparr>tls_NextProtos := [''http/1.1'']\<rparr>"

definition tlsOpts :: "Manager_flags \<Rightarrow> (tls_config \<Rightarrow> tls_config) list" where
  "tlsOpts fl = (if \<not> mf_enableHTTP2 fl then [] @ [disableHTTP2] else [])"

record webhook_options =
  wo_TLSOpts :: "(tls_config \<Rightarrow> tls_config) list"
  wo_CertDir :: string
  wo_CertName :: string
  wo_KeyName :: string

definition webhookServerOptions :: "Manager_flags \<Rightarrow> webhook_options" where
  "webhookServerOptions fl =
     (let options = \<lparr>wo_TLSOpts = tlsOpts fl, wo_CertDir = [], wo_CertName = [], wo_KeyName = []\<rparr> in
      if 0 < length (mf_webhookCertPath fl)
      then options\<lparr>wo_CertDir := mf_webhookCertPath fl, wo_CertName := mf_webhookCertName fl,
                   wo_KeyName := mf_webhookCertKey fl\<rparr>
      else options)"

datatype filter_provider = WithAuthenticationAndAuthorization

record metrics_options =
  mo_BindAddress :: string
  mo_SecureServing :: bool
  mo_TLSOpts :: "(tls_config \<Rightarrow> tls_config) list"
  mo_FilterProvider :: "filter_provider option"
  mo_CertDir :: string
  mo_CertName :: string
  mo_KeyName :: string

definition metricsServerOptions :: "Manager_flags \<Rightarrow> metrics_options" where
  "metricsServerOptions fl =
     (let options = \<lparr>mo_BindAddress = mf_metricsAddr fl, mo_SecureServing = mf_secureMetrics fl, mo_TLSOpts = tlsOpts fl,
            mo_FilterProvider = None, mo_CertDir = [], mo_CertName = [], mo_KeyName = []\<rparr>;
          options = (if mf_secureMetrics fl
            then options\<lparr>mo_FilterProvider := Some WithAuthenticationAndAuthorization\<rparr> else options) in
      if 0 < length (mf_metricsCertPath fl)
      then options\<lparr>mo_CertDir := mf_metricsCertPath fl, mo_CertName := mf_metricsCertName fl,
                   mo_KeyName := mf_metricsCertKey fl\<rparr>
      else options)"

record manager_options =
  mgo_Metrics :: metrics_options
  mgo_WebhookServer :: webhook_options
  mgo_HealthProbeBindAddress :: string
  mgo_LeaderElection :: bool
  mgo_LeaderElectionID :: string

definition manager_options :: "Manager_flags \<Rightarrow> manager_options" where
  "manager_options fl =
     \<lparr>mgo_Metrics = metricsServerOptions fl,
      mgo_WebhookServer = webhookServerOptions fl,
      mgo_HealthProbeBindAddress = mf_probeAddr fl,
      mgo_LeaderElection = mf_enableLeaderElection fl,
      mgo_LeaderElectionID = ''423af48d.isoboot.github.io''\<rparr>"

section \<open>The reconcilers\<close>

text \<open>
  The reconcilers are built on one client and one data directory; the HTTP client, the digests and the ISO
  library are the parameters of their models.
\<close>

definition main_BootArtifactReconciler ::
  "'s Client \<Rightarrow> (string \<Rightarrow> http_reply) \<Rightarrow> (string \<Rightarrow> string) \<Rightarrow> (string \<Rightarrow> string) \<Rightarrow> Manager_flags
   \<Rightarrow> 's BootArtifactReconciler" where
  "main_BootArtifactReconciler c http sha256 sha512 fl =
     \<lparr>bar_Client = c, bar_DataDir = mf_dataDir fl, bar_HTTPClient = http, bar_Recorder = True,
      bar_sha256 = sha256, bar_sha512 = sha512\<rparr>"

definition main_BootConfigReconciler ::
  "'s Client \<Rightarrow> (os_error + string \<Rightarrow> string + (string + iso_files)) \<Rightarrow> Manager_flags \<Rightarrow> 's BootConfigReconciler" where
  "main_BootConfigReconciler c diskfs fl =
     \<lparr>bcr_Client = c, bcr_DataDir = mf_dataDir fl, bcr_diskfs = diskfs\<rparr>"

text \<open>What \<^verbatim>\<open>SetupWithManager\<close> registers.\<close>

definition BootArtifact_SetupWithManager :: controller_setup where
  "BootArtifact_SetupWithManager = \<lparr>cs_Named = ''bootartifact'', cs_For = ''BootArtifact'', cs_Watches = []\<rparr>"

definition BootConfig_SetupWithManager :: controller_setup where
  "BootConfig_SetupWithManager = \<lparr>cs_Named = ''bootconfig'', cs_For = ''BootConfig'', cs_Watches = [''BootArtifact'']\<rparr>"

definition Provision_SetupWithManager :: controller_setup where
  "Provision_SetupWithManager = \<lparr>cs_Named = ''provision'', cs_For = ''Provision'', cs_Watches = []\<rparr>"

text \<open>
  The requests that an event of an object queues, by controller: for the kind reconciled the object itself, for a watched
  kind what the map function gives.
\<close>

definition queued_by :: "'s BootConfigReconciler \<Rightarrow> string \<Rightarrow> string \<Rightarrow> string \<Rightarrow> controller_setup
   \<Rightarrow> ('s, (string \<times> string) list) io" where
  "queued_by r kind ns name cs =
     (if kind = cs_For cs then State_Monad.return [(ns, name)]
      else if kind \<in> set (cs_Watches cs) then findBootConfigsForArtifact r ns name
      else State_Monad.return [])"

section \<open>The start-up\<close>

definition init_steps :: "manager_options setup_step list" where
  "init_steps = [AddToScheme ''client-go'', AddToScheme ''isoboot'']"

definition manager_steps :: "Manager_flags \<Rightarrow> manager_options setup_step list" where
  "manager_steps fl =
     [GetConfig, NewManager (manager_options fl)]
     @ SetupIndexers
     @ [SetupController BootArtifact_SetupWithManager,
        SetupController BootConfig_SetupWithManager,
        SetupController Provision_SetupWithManager,
        AddHealthzCheck ''healthz'',
        AddReadyzCheck ''readyz'',
        StartManager]"

definition manager_main :: "lib_flags \<Rightarrow> (manager_options setup_step \<Rightarrow> bool) \<Rightarrow> string list
   \<Rightarrow> manager_options setup_step list \<times> int" where
  "manager_main lib fails args =
     (case run_steps fails init_steps of
        (t, Some code) \<Rightarrow> (t, code)
      | (t, None) \<Rightarrow>
          (case parse_manager_flags lib args of
             Inl err \<Rightarrow> (t, flag_exit err)
           | Inr fl \<Rightarrow>
               (case run_steps fails (manager_steps fl) of
                  (t', Some code) \<Rightarrow> (t @ t', code)
                | (t', None) \<Rightarrow> (t @ t', 0))))"

end
