(* ===== verification/HttpdBoot.thy ===== *)
theory HttpdBoot
  imports HttpdProvision
begin

text \<open>
  \<^verbatim>\<open>internal/httpd/boot.go\<close>: from the MAC address of a machine to what it boots, and the rendering of
  the kernel arguments. \<^verbatim>\<open>text/template\<close> works on templates that the users of the cluster write; it is
  a parameter, a record of parsing and executing.
\<close>

record BootDirective =
  bd_KernelPath :: string
  bd_KernelArgs :: string
  bd_InitrdPath :: string
  bd_ISOPath :: string
  bd_ProvisionName :: string

record KernelArgsData =
  ka_ProvisionAutomationBaseURL :: string
  ka_ProxyURL :: string
  ka_UpdatePhaseURL :: string
  ka_ProvisionName :: string
  ka_ISOURL :: string

text \<open>The data of an automation file (\<^verbatim>\<open>internal/httpd/automation.go\<close>).\<close>

record TemplateData =
  td_ConfigMaps :: "string \<Rightarrow> string option"
  td_Secrets :: "string \<Rightarrow> string option"
  td_UpdatePhaseURL :: string
  td_ProvisionName :: string

text \<open>
  \<^verbatim>\<open>template.New(name).Option("missingkey=error").Parse(text)\<close>, and \<^verbatim>\<open>Execute\<close> on the two kinds of data: the text
  of an error, or the result.
\<close>

record 't Templates =
  tm_Parse :: "string \<Rightarrow> string \<Rightarrow> string + 't"
  tm_ExecuteArgs :: "'t \<Rightarrow> KernelArgsData \<Rightarrow> string + string"
  tm_ExecuteFile :: "'t \<Rightarrow> TemplateData \<Rightarrow> string + string"

definition RenderKernelArgs :: "'t Templates \<Rightarrow> string \<Rightarrow> KernelArgsData \<Rightarrow> go_error + string" where
  "RenderKernelArgs tm args data =
     (case tm_Parse tm ''kernelArgs'' args of
        Inl err \<Rightarrow> Inl (Wrapped ''parsing kernel args template: '' (PlainErr err) [])
      | Inr tmpl \<Rightarrow>
          (case tm_ExecuteArgs tm tmpl data of
             Inl err \<Rightarrow> Inl (Wrapped ''executing kernel args template: '' (PlainErr err) [])
           | Inr out \<Rightarrow> Inr out))"

definition IsDuplicateError :: "go_error \<Rightarrow> bool" where
  "IsDuplicateError err \<longleftrightarrow> errors_Is err ErrMultipleMachines \<or> errors_Is err ErrMultipleProvisions"

definition iso_directive ::
  "'s Client \<Rightarrow> string \<Rightarrow> Provision \<Rightarrow> BootConfig \<Rightarrow> BootConfigISOSpec \<Rightarrow> ('s, go_error + BootDirective option) io" where
  "iso_directive c ns provision bc isoSpec = do {
     a \<leftarrow> api_call (Get_BootArtifact c ns (iso_ArtifactRef isoSpec));
     State_Monad.return
       (case a of
          Inl err \<Rightarrow> Inl (Wrapped (''getting iso artifact '' @ quote (iso_ArtifactRef isoSpec) @ '': '') (ApiErr err) [])
        | Inr isoArtifact \<Rightarrow>
            Inr (Some
              \<lparr>bd_KernelPath = Join [om_name (bc_meta bc), ''vmlinuz''],
               bd_KernelArgs = bc_KernelArgs (bc_Spec bc),
               bd_InitrdPath = Join [om_name (bc_meta bc), ''initrd''],
               bd_ISOPath = Join [om_name (bc_meta bc), FilenameFromURL (ba_URL (ba_Spec isoArtifact))],
               bd_ProvisionName = om_name (pr_meta provision)\<rparr>))
   }"

definition netboot_directive ::
  "'s Client \<Rightarrow> string \<Rightarrow> Provision \<Rightarrow> BootConfig \<Rightarrow> BootConfigNetbootSpec \<Rightarrow> ('s, go_error + BootDirective option) io" where
  "netboot_directive c ns provision bc nb = do {
     k \<leftarrow> api_call (Get_BootArtifact c ns (nb_KernelRef nb));
     (case k of
        Inl err \<Rightarrow>
          State_Monad.return
            (Inl (Wrapped (''getting kernel artifact '' @ quote (nb_KernelRef nb) @ '': '') (ApiErr err) []))
      | Inr kernelArtifact \<Rightarrow> do {
          i \<leftarrow> api_call (Get_BootArtifact c ns (nb_InitrdRef nb));
          State_Monad.return
            (case i of
               Inl err \<Rightarrow> Inl (Wrapped (''getting initrd artifact '' @ quote (nb_InitrdRef nb) @ '': '') (ApiErr err) [])
             | Inr initrdArtifact \<Rightarrow>
                 Inr (Some
                   \<lparr>bd_KernelPath = Join [om_name (bc_meta bc), ''kernel'', FilenameFromURL (ba_URL (ba_Spec kernelArtifact))],
                    bd_KernelArgs = bc_KernelArgs (bc_Spec bc),
                    bd_InitrdPath = Join [om_name (bc_meta bc), ''initrd'', FilenameFromURL (ba_URL (ba_Spec initrdArtifact))],
                    bd_ISOPath = [],
                    bd_ProvisionName = om_name (pr_meta provision)\<rparr>))
        })
   }"

definition BootDirectiveForMAC :: "'s Client \<Rightarrow> string \<Rightarrow> string \<Rightarrow> ('s, go_error + BootDirective option) io" where
  "BootDirectiveForMAC c ns mac = do {
     p \<leftarrow> PendingProvisionForMAC c ns mac;
     (case p of
        Inl err \<Rightarrow> State_Monad.return (Inl err)
      | Inr found \<Rightarrow>
          (case found of
             None \<Rightarrow> State_Monad.return (Inr None)
           | Some provision \<Rightarrow> do {
               b \<leftarrow> api_call (Get_BootConfig c ns (pr_BootConfigRef (pr_Spec provision)));
               (case b of
                  Inl err \<Rightarrow>
                    State_Monad.return
                      (Inl (Wrapped (''getting boot config '' @ quote (pr_BootConfigRef (pr_Spec provision)) @ '': '')
                              (ApiErr err) []))
                | Inr bc \<Rightarrow>
                    (case bc_ISO (bc_Spec bc) of
                       Some isoSpec \<Rightarrow> iso_directive c ns provision bc isoSpec
                     | None \<Rightarrow>
                         (case bc_Netboot (bc_Spec bc) of
                            None \<Rightarrow>
                              State_Monad.return
                                (Inl (PlainErr (''boot config '' @ quote (om_name (bc_meta bc)) @ '' has neither netboot nor iso'')))
                          | Some nb \<Rightarrow> netboot_directive c ns provision bc nb)))
             }))
   }"

section \<open>What the lookups keep\<close>

text \<open>The lookups write no status and leave the file system alone.\<close>

definition untouched :: "'s world \<Rightarrow> 's world \<Rightarrow> bool" where
  "untouched w w' \<longleftrightarrow> w_writes w' = w_writes w \<and> w_fs w' = w_fs w \<and> w_trace w' = w_trace w \<and> w_clock w' = w_clock w"

lemma untouched_refl [simp]: "untouched w w"
  by (simp add: untouched_def)

lemma api_call_untouched [keeps_intros]: "keeps (untouched w) (api_call f)"
  by (auto simp: keeps_def wp_simps api_call_def untouched_def split: prod.splits)

lemma PendingProvisionForMAC_untouched [keeps_intros]: "keeps (untouched w) (PendingProvisionForMAC c ns mac)"
  unfolding PendingProvisionForMAC_def by (intro keeps_intros)

lemma BootDirectiveForMAC_untouched [keeps_intros]: "keeps (untouched w) (BootDirectiveForMAC c ns mac)"
  unfolding BootDirectiveForMAC_def iso_directive_def netboot_directive_def by (intro keeps_intros)

section \<open>The outcome follows the lookup\<close>

lemma iso_directive_wp:
  "wp (iso_directive c ns p bc i) (\<lambda>x w'. (\<exists>d. x = Inr (Some d)) \<or> (\<exists>e. x = Inl e \<and> \<not> IsDuplicateError e)) w"
  by (auto simp: iso_directive_def wp_simps api_call_def IsDuplicateError_def split: prod.splits sum.splits)

lemma netboot_directive_wp:
  "wp (netboot_directive c ns p bc nb) (\<lambda>x w'. (\<exists>d. x = Inr (Some d)) \<or> (\<exists>e. x = Inl e \<and> \<not> IsDuplicateError e)) w"
  by (auto simp: netboot_directive_def wp_simps api_call_def IsDuplicateError_def split: prod.splits sum.splits)

lemma plain_not_duplicate [simp]: "\<not> IsDuplicateError (Wrapped a (ApiErr e) b)" "\<not> IsDuplicateError (PlainErr s)"
  by (simp_all add: IsDuplicateError_def)

lemma BootDirectiveForMAC_wp:
  assumes "lists_by_index c machines provisions" and "mac \<noteq> []"
    and "\<forall>m \<in> set (machines (w_api w)). om_name (mach_meta m) \<noteq> []"
  shows "wp (BootDirectiveForMAC c ns mac)
     (\<lambda>x w'. case pending_for ns mac (machines (w_api w)) (provisions (w_api w)) of
        Inl e \<Rightarrow> x = Inl e
      | Inr None \<Rightarrow> x = Inr None
      | Inr (Some p) \<Rightarrow> (\<exists>d. x = Inr (Some d)) \<or> (\<exists>e. x = Inl e \<and> \<not> IsDuplicateError e)) w"
  unfolding BootDirectiveForMAC_def
proof (rule wp_step [OF PendingProvisionForMAC_wp [OF assms]], goal_cases)
  case (1 x w')
  show ?case
  proof (cases "\<exists>p. x = Inr (Some p)")
    case True
    then obtain p where "x = Inr (Some p)" by blast
    moreover note 1
    ultimately show ?thesis
      by (auto simp: wp_bind wp_sum wp_option wp_return api_call_def wp_State iso_directive_wp netboot_directive_wp
          split: prod.splits sum.splits option.splits dest: sym)
  qed (use 1 in \<open>auto simp: wp_simps split: sum.splits option.splits\<close>)
qed

lemma pending_for_duplicate: "pending_for ns mac ms ps = Inl e \<Longrightarrow> IsDuplicateError e"
  by (auto simp: pending_for_def IsDuplicateError_def split: list.splits)

end
