(* ===== verification/HttpdAutomation.thy ===== *)
theory HttpdAutomation
  imports HttpdBoot
begin

text \<open>
  \<^verbatim>\<open>internal/httpd/automation.go\<close>: an automation file is the template of that name in the
  \<^verbatim>\<open>ProvisionAutomation\<close> of a provision, rendered with the merged data of its ConfigMaps and Secrets.
\<close>

definition IsAutomationNotFound :: "go_error \<Rightarrow> bool" where
  "IsAutomationNotFound err \<longleftrightarrow> IsNotFound err \<or> errors_Is err ErrFileNotFound"

text \<open>The data of the named objects, merged in the order of the names.\<close>

fun merge_named ::
  "(string \<Rightarrow> ('s, api_error + (string \<Rightarrow> string option)) io) \<Rightarrow> string \<Rightarrow> string list \<Rightarrow> (string \<Rightarrow> string option)
   \<Rightarrow> ('s, go_error + (string \<Rightarrow> string option)) io" where
  "merge_named get what [] acc = State_Monad.return (Inr acc)"
| "merge_named get what (name # names) acc = do {
     d \<leftarrow> get name;
     (case d of
        Inl err \<Rightarrow> State_Monad.return (Inl (Wrapped (''getting '' @ what @ '' '' @ quote name @ '': '') (ApiErr err) []))
      | Inr data \<Rightarrow> merge_named get what names (acc ++ data))
   }"

definition buildTemplateData :: "'s Client \<Rightarrow> string \<Rightarrow> Provision \<Rightarrow> ('s, go_error + TemplateData) io" where
  "buildTemplateData c ns provision = do {
     cms \<leftarrow> merge_named (\<lambda>n. api_call (Get_ConfigMap c ns n)) ''configmap'' (pr_ConfigMaps (pr_Spec provision)) Map.empty;
     (case cms of
        Inl err \<Rightarrow> State_Monad.return (Inl err)
      | Inr configMaps \<Rightarrow> do {
          ss \<leftarrow> merge_named (\<lambda>n. api_call (Get_Secret c ns n)) ''secret'' (pr_Secrets (pr_Spec provision)) Map.empty;
          State_Monad.return
            (case ss of
               Inl err \<Rightarrow> Inl err
             | Inr secrets \<Rightarrow>
                 Inr \<lparr>td_ConfigMaps = configMaps, td_Secrets = secrets, td_UpdatePhaseURL = [], td_ProvisionName = []\<rparr>)
        })
   }"

definition RenderAutomationFile ::
  "'t Templates \<Rightarrow> 's Client \<Rightarrow> string \<Rightarrow> string \<Rightarrow> string \<Rightarrow> string \<Rightarrow> ('s, go_error + string) io" where
  "RenderAutomationFile tm c ns provisionName fileName statusURL = do {
     g \<leftarrow> api_call (Get_Provision c ns provisionName);
     (case g of
        Inl err \<Rightarrow>
          State_Monad.return (Inl (Wrapped (''getting provision '' @ quote provisionName @ '': '') (ApiErr err) []))
      | Inr provision \<Rightarrow> do {
          a \<leftarrow> api_call (Get_ProvisionAutomation c ns (pr_ProvisionAutomationRef (pr_Spec provision)));
          (case a of
             Inl err \<Rightarrow>
               State_Monad.return
                 (Inl (Wrapped (''getting provision automation '' @ quote (pr_ProvisionAutomationRef (pr_Spec provision)) @ '': '')
                         (ApiErr err) []))
           | Inr pa \<Rightarrow>
               (case pa_Files (pa_Spec pa) fileName of
                  None \<Rightarrow>
                    State_Monad.return
                      (Inl (Wrapped [] (Sentinel ErrFileNotFound)
                         ('': '' @ quote fileName @ '' in provision automation '' @ quote (om_name (pa_meta pa)))))
                | Some tmplContent \<Rightarrow> do {
                    d \<leftarrow> buildTemplateData c ns provision;
                    State_Monad.return
                      (case d of
                         Inl err \<Rightarrow> Inl err
                       | Inr data0 \<Rightarrow>
                           let data = data0\<lparr>td_UpdatePhaseURL := statusURL, td_ProvisionName := provisionName\<rparr> in
                           (case tm_Parse tm fileName tmplContent of
                              Inl err \<Rightarrow> Inl (Wrapped (''parsing template '' @ quote fileName @ '': '') (PlainErr err) [])
                            | Inr tmpl \<Rightarrow>
                                (case tm_ExecuteFile tm tmpl data of
                                   Inl err \<Rightarrow> Inl (Wrapped (''executing template '' @ quote fileName @ '': '') (PlainErr err) [])
                                 | Inr out \<Rightarrow> Inr out)))
                  }))
        })
   }"

section \<open>What the rendering keeps\<close>

lemma merge_named_untouched [keeps_intros]:
  "(\<And>n. keeps (untouched w) (get n)) \<Longrightarrow> keeps (untouched w) (merge_named get what names acc)"
  by (induction names arbitrary: acc) (auto intro!: keeps_intros)

lemma RenderAutomationFile_untouched [keeps_intros]:
  "keeps (untouched w) (RenderAutomationFile tm c ns provisionName fileName statusURL)"
  unfolding RenderAutomationFile_def buildTemplateData_def by (intro keeps_intros)

section \<open>The merged data\<close>

text \<open>The last of the named objects that has the key decides.\<close>

definition last_with :: "('n \<Rightarrow> 'k \<Rightarrow> 'v option) \<Rightarrow> 'n list \<Rightarrow> 'k \<Rightarrow> 'v option" where
  "last_with data names k = (case find (\<lambda>n. data n k \<noteq> None) (rev names) of None \<Rightarrow> None | Some n \<Rightarrow> data n k)"

lemma find_append: "find P (xs @ ys) = (case find P xs of None \<Rightarrow> find P ys | Some x \<Rightarrow> Some x)"
  by (induction xs) auto

lemma find_SomeD: "find P xs = Some x \<Longrightarrow> P x \<and> x \<in> set xs"
  by (induction xs) (auto split: if_splits)

lemma last_with_Cons: "last_with data (n # ns) k = (case last_with data ns k of None \<Rightarrow> data n k | Some v \<Rightarrow> Some v)"
  by (auto simp: last_with_def find_append split: option.splits dest: find_SomeD)

lemma merge_named_wp:
  assumes "\<And>n w. n \<in> set names \<Longrightarrow> w_api w = s \<Longrightarrow> run_state (get n) w = (Inr (data n), w)"
    and "w_api w = s"
  shows "wp (merge_named get what names acc) (\<lambda>x w'. x = Inr (acc ++ last_with data names) \<and> w' = w) w"
  using assms(1)
proof (induction names arbitrary: acc)
  case Nil
  then show ?case by (simp add: wp_return last_with_def map_add_def)
next
  case (Cons n names)
  have g: "run_state (get n) w = (Inr (data n), w)" using Cons.prems assms(2) by simp
  have "acc ++ data n ++ last_with data names = acc ++ last_with data (n # names)"
    by (intro ext) (simp add: map_add_def last_with_Cons split: option.split)
  moreover have "wp (merge_named get what names (acc ++ data n))
      (\<lambda>x w'. x = Inr (acc ++ data n ++ last_with data names) \<and> w' = w) w"
    by (rule Cons.IH) (use Cons.prems in auto)
  ultimately show ?case using g by (simp add: wp_def)
qed

end
