(* ===== verification/GoNet.thy ===== *)
theory GoNet
  imports GoText
begin

text \<open>
  \<^verbatim>\<open>net.SplitHostPort\<close> and \<^verbatim>\<open>net.JoinHostPort\<close>, with \<open>None\<close> for every error of the first (the program
  does not look at its text), and how they invert each other.
\<close>

definition colon :: char where
  "colon = CHR '':''"

definition SplitHostPort :: "string \<Rightarrow> (string \<times> string) option" where
  "SplitHostPort s =
     (case last_index_byte colon s of
        None \<Rightarrow> None
      | Some i \<Rightarrow>
          if hd s = CHR ''['' then
            (case index_byte (CHR '']'') s of
               None \<Rightarrow> None
             | Some e \<Rightarrow>
                 if e + 1 \<noteq> i then None
                 else if CHR ''['' \<in> set (drop 1 s) then None
                 else if CHR '']'' \<in> set (drop (e + 1) s) then None
                 else Some (take (e - 1) (drop 1 s), drop (i + 1) s))
          else if colon \<in> set (take i s) then None
          else if CHR ''['' \<in> set s then None
          else if CHR '']'' \<in> set s then None
          else Some (take i s, drop (i + 1) s))"

definition JoinHostPort :: "string \<Rightarrow> string \<Rightarrow> string" where
  "JoinHostPort h p =
     (if colon \<in> set h then CHR ''['' # h @ CHR '']'' # colon # p else h @ colon # p)"

text \<open>A text that can be a host or a port: no bracket, and for a port no colon.\<close>

definition bracketless :: "string \<Rightarrow> bool" where
  "bracketless s \<longleftrightarrow> CHR ''['' \<notin> set s \<and> CHR '']'' \<notin> set s"

lemma colon_neq [simp]: "colon \<noteq> CHR ''[''" "colon \<noteq> CHR '']''" "CHR ''['' \<noteq> colon" "CHR '']'' \<noteq> colon"
  by (simp_all add: colon_def)

lemma Split_plain:
  assumes "bracketless h" and "bracketless p" and "colon \<notin> set h" and "colon \<notin> set p"
  shows "SplitHostPort (h @ colon # p) = Some (h, p)"
proof -
  have "hd (h @ colon # p) \<noteq> CHR ''[''" using assms(1) by (cases h) (auto simp: bracketless_def)
  then show ?thesis using assms by (simp add: SplitHostPort_def last_index_byte_append bracketless_def)
qed

lemma Split_brackets:
  assumes "bracketless h" and "bracketless p" and "colon \<notin> set p"
  shows "SplitHostPort (CHR ''['' # h @ CHR '']'' # colon # p) = Some (h, p)"
proof -
  have i: "last_index_byte colon (CHR ''['' # h @ CHR '']'' # colon # p) = Some (length h + 2)"
    using last_index_byte_append [OF assms(3), of "CHR ''['' # h @ [CHR '']'']"] by simp
  have e: "index_byte (CHR '']'') (CHR ''['' # h @ CHR '']'' # colon # p) = Some (length h + 1)"
    using index_byte_append [of "CHR '']''" "CHR ''['' # h" "colon # p"] assms(1) by (simp add: bracketless_def)
  show ?thesis unfolding SplitHostPort_def i e using assms by (simp add: bracketless_def)
qed

lemma Split_Join: "bracketless h \<Longrightarrow> bracketless p \<Longrightarrow> colon \<notin> set p \<Longrightarrow> SplitHostPort (JoinHostPort h p) = Some (h, p)"
  by (simp add: JoinHostPort_def Split_plain Split_brackets)

text \<open>A host in brackets without a port is no host and port.\<close>

lemma Split_no_port: "colon \<notin> set h \<Longrightarrow> SplitHostPort h = None"
  by (simp add: SplitHostPort_def last_index_byte_None [THEN iffD2])

lemma Split_bracketed_host:
  assumes "bracketless h"
  shows "SplitHostPort (CHR ''['' # h @ [CHR '']'']) = None"
proof (cases "last_index_byte colon (CHR ''['' # h @ [CHR '']''])")
  case (Some i)
  have len: "last_index_byte c s = Some j \<Longrightarrow> j < length s" for c s j
    by (induction s arbitrary: j) (auto split: option.splits if_splits)
  have "i < length h + 2" using len [OF Some] by simp
  moreover have "index_byte (CHR '']'') (CHR ''['' # h @ [CHR '']'']) = Some (length h + 1)"
    using index_byte_append [of "CHR '']''" "CHR ''['' # h" "[]"] assms by (simp add: bracketless_def)
  ultimately show ?thesis using Some by (simp add: SplitHostPort_def)
qed (simp add: SplitHostPort_def)

lemma Split_double_bracket:
  "SplitHostPort (CHR ''['' # CHR ''['' # s) = None"
  by (auto simp: SplitHostPort_def split: option.split)

end
