(* ===== verification/HttpdServer.thy ===== *)
theory HttpdServer
  imports HttpdAutomation GoNet
begin

text \<open>
  \<^verbatim>\<open>cmd/httpd/main.go\<close>: the HTTP handlers and their routes. A request is what the handlers read of it: the
  decoded query, the form (for a POST the values of the body before those of the query), the values
  of the path, the headers and the host. A response is its status, its headers and its body. The
  functions the handlers are made from are their parameters, as in the code.
\<close>

section \<open>Requests and responses\<close>

record Request =
  rq_Method :: string
  rq_Path :: "string list"
  rq_Query :: "(string \<times> string) list"
  rq_Form :: "(string \<times> string) list"
  rq_Header :: "(string \<times> string) list"
  rq_Host :: string

record Response =
  rs_Status :: nat
  rs_Header :: "(string \<times> string) list"
  rs_Body :: string

text \<open>\<^verbatim>\<open>Query().Get\<close>, \<^verbatim>\<open>FormValue\<close> and \<^verbatim>\<open>Header.Get\<close>: the first value, or the empty string.\<close>

definition first_value :: "(string \<times> string) list \<Rightarrow> string \<Rightarrow> string" where
  "first_value kvs k = (case map_of kvs k of None \<Rightarrow> [] | Some v \<Rightarrow> v)"

definition text_plain :: "string \<times> string" where
  "text_plain = (''Content-Type'', ''text/plain; charset=utf-8'')"

definition http_Error :: "string \<Rightarrow> nat \<Rightarrow> Response" where
  "http_Error msg code =
     \<lparr>rs_Status = code, rs_Header = [text_plain, (''X-Content-Type-Options'', ''nosniff'')], rs_Body = msg @ [newline]\<rparr>"

text \<open>A body with its length.\<close>

definition ok_text :: "string \<Rightarrow> Response" where
  "ok_text body =
     \<lparr>rs_Status = 200, rs_Header = [text_plain, (''Content-Length'', itoa (int (length body)))], rs_Body = body\<rparr>"

definition macRegexp :: re where
  "macRegexp = RSeq (RRep 5 (RSeq (RRep 2 (RCls hex_class)) (RCls ''-''))) (RRep 2 (RCls hex_class))"

definition nameRegexp :: re where
  "nameRegexp =
     RSeq (RCls (lower_class @ digit_class))
          (ROpt (RSeq (RStar (RCls (lower_class @ digit_class @ ''.-''))) (RCls (lower_class @ digit_class))))"

definition valid_name :: "string \<Rightarrow> bool" where
  "valid_name s \<longleftrightarrow> matches nameRegexp s \<and> length s \<le> 253"

section \<open>The host of the request\<close>

definition resolveHost :: "Request \<Rightarrow> string" where
  "resolveHost r =
     (let fwd = first_value (rq_Header r) ''X-Forwarded-Host'';
          host = (if fwd = [] then rq_Host r else fwd);
          port = first_value (rq_Header r) ''X-Forwarded-Port'' in
      if port \<noteq> [] then
        (let h = (case SplitHostPort host of Some (h, _) \<Rightarrow> h | None \<Rightarrow> []) in
         JoinHostPort (if h \<noteq> [] then h else host) port)
      else host)"

section \<open>GET /conditional-boot\<close>

definition kernel_args_data :: "Request \<Rightarrow> string \<Rightarrow> BootDirective \<Rightarrow> KernelArgsData" where
  "kernel_args_data r proxyPort d =
     (let host = resolveHost r;
          nodeIP = (case SplitHostPort host of Some (h, _) \<Rightarrow> h | None \<Rightarrow> host) in
      \<lparr>ka_ProvisionAutomationBaseURL = ''http://'' @ host @ ''/dynamic/automation/'' @ bd_ProvisionName d,
       ka_ProxyURL = (if proxyPort \<noteq> [] then ''http://'' @ nodeIP @ '':'' @ proxyPort else []),
       ka_UpdatePhaseURL = ''http://'' @ host @ ''/dynamic/status'',
       ka_ProvisionName = bd_ProvisionName d,
       ka_ISOURL = (if bd_ISOPath d \<noteq> [] then ''http://'' @ host @ ''/static/'' @ bd_ISOPath d else [])\<rparr>)"

definition boot_script :: "BootDirective \<Rightarrow> string" where
  "boot_script d =
     (let kernelLine = ''kernel /static/'' @ bd_KernelPath d @ (if bd_KernelArgs d \<noteq> [] then '' '' @ bd_KernelArgs d else []) in
      ''#!ipxe'' @ newline # kernelLine @ newline # ''initrd /static/'' @ bd_InitrdPath d @ newline # ''boot'' @ [newline])"

definition conditionalBootHandler ::
  "'t Templates \<Rightarrow> (string \<Rightarrow> ('s, go_error + BootDirective option) io) \<Rightarrow> string \<Rightarrow> Request \<Rightarrow> ('s, Response) io" where
  "conditionalBootHandler tm getDirective proxyPort r =
     (let mac = first_value (rq_Query r) ''mac'' in
      if mac = [] then State_Monad.return (http_Error ''missing required parameter: mac'' 400)
      else if \<not> matches macRegexp mac then State_Monad.return (http_Error ''invalid mac address format'' 400)
      else do {
        g \<leftarrow> getDirective mac;
        State_Monad.return
          (case g of
             Inl err \<Rightarrow>
               if IsDuplicateError err then http_Error (error_text err) 409
               else http_Error ''internal error'' 500
           | Inr found \<Rightarrow>
               (case found of
                  None \<Rightarrow> http_Error ''no pending provision for MAC'' 404
                | Some directive \<Rightarrow>
                    if bd_KernelArgs directive \<noteq> [] then
                      (case RenderKernelArgs tm (bd_KernelArgs directive) (kernel_args_data r proxyPort directive) of
                         Inl err \<Rightarrow> http_Error ''internal error'' 500
                       | Inr rendered \<Rightarrow> ok_text (boot_script (directive\<lparr>bd_KernelArgs := rendered\<rparr>)))
                    else ok_text (boot_script directive)))
      })"

section \<open>GET /automation/{provisionName}/{fileName}\<close>

definition automationFileHandler ::
  "(string \<Rightarrow> string \<Rightarrow> string \<Rightarrow> ('s, go_error + string) io) \<Rightarrow> string \<Rightarrow> string \<Rightarrow> Request \<Rightarrow> ('s, Response) io" where
  "automationFileHandler render provisionName fileName r =
     (if \<not> valid_name provisionName then State_Monad.return (http_Error ''invalid provision name'' 400)
      else if fileName = [] then State_Monad.return (http_Error ''missing file name'' 400)
      else do {
        b \<leftarrow> render provisionName fileName (''http://'' @ resolveHost r @ ''/dynamic/status'');
        State_Monad.return
          (case b of
             Inl err \<Rightarrow>
               if IsAutomationNotFound err then http_Error ''not found'' 404
               else http_Error ''internal error'' 500
           | Inr body \<Rightarrow> ok_text body)
      })"

section \<open>POST /status\<close>

definition allowedPhases :: "string \<Rightarrow> (ProvisionPhase \<times> string) option" where
  "allowedPhases =
     Map.empty(''InProgress'' \<mapsto> (ProvisionPhaseInProgress, ''Installation in progress''),
               ''Complete'' \<mapsto> (ProvisionPhaseComplete, ''Installation complete''))"

definition updateStatusHandler ::
  "(string \<Rightarrow> ProvisionPhase \<Rightarrow> string \<Rightarrow> ('s, go_error + unit) io) \<Rightarrow> Request \<Rightarrow> ('s, Response) io" where
  "updateStatusHandler update r =
     (let provisionName = first_value (rq_Form r) ''provisionName'';
          phaseParam = first_value (rq_Form r) ''phase'' in
      if provisionName = [] then State_Monad.return (http_Error ''missing required parameter: provisionName'' 400)
      else if \<not> valid_name provisionName then State_Monad.return (http_Error ''invalid provision name'' 400)
      else (case allowedPhases phaseParam of
              None \<Rightarrow> State_Monad.return (http_Error ''invalid phase: must be InProgress or Complete'' 400)
            | Some (phase, message) \<Rightarrow> do {
                u \<leftarrow> update provisionName phase message;
                State_Monad.return
                  (case u of
                     Inl err \<Rightarrow>
                       if IsProvisionNotFound err then http_Error ''provision not found'' 404
                       else if IsProvisionPhaseError err then http_Error (error_text err) 409
                       else http_Error ''internal error'' 500
                   | Inr _ \<Rightarrow> \<lparr>rs_Status = 200, rs_Header = [text_plain], rs_Body = ''OK''\<rparr>)
              }))"

definition healthzHandler :: "Request \<Rightarrow> ('s, Response) io" where
  "healthzHandler r = State_Monad.return (ok_text ''OK'')"

section \<open>The routes\<close>

text \<open>
  The path is given as the decoded segments of a clean path; \<^verbatim>\<open>http.ServeMux\<close> redirects any other path. A pattern
  with \<^verbatim>\<open>GET\<close> also takes \<^verbatim>\<open>HEAD\<close>; a known path with another method is answered with 405.
\<close>

definition not_allowed :: "string \<Rightarrow> Response" where
  "not_allowed methods = (http_Error ''Method Not Allowed'' 405)\<lparr>rs_Header := [(''Allow'', methods), text_plain, (''X-Content-Type-Options'', ''nosniff'')]\<rparr>"

definition on_get :: "Request \<Rightarrow> ('s, Response) io \<Rightarrow> ('s, Response) io" where
  "on_get r h = (if rq_Method r \<in> {''GET'', ''HEAD''} then h else State_Monad.return (not_allowed ''GET, HEAD''))"

definition serve :: "'t Templates \<Rightarrow> 's Client \<Rightarrow> string \<Rightarrow> string \<Rightarrow> Request \<Rightarrow> ('s, Response) io" where
  "serve tm c ns proxyPort r =
     (if rq_Path r = [''conditional-boot''] then
        on_get r (conditionalBootHandler tm (BootDirectiveForMAC c ns) proxyPort r)
      else if rq_Path r = [''status''] then
        (if rq_Method r = ''POST'' then updateStatusHandler (UpdateProvisionPhase c ns) r
         else State_Monad.return (not_allowed ''POST''))
      else if rq_Path r = [''healthz''] then on_get r (healthzHandler r)
      else
        (case rq_Path r of
           [a, provisionName, fileName] \<Rightarrow>
             if a = ''automation'' \<and> provisionName \<noteq> [] \<and> fileName \<noteq> []
             then on_get r (automationFileHandler (RenderAutomationFile tm c ns) provisionName fileName r)
             else State_Monad.return (http_Error ''404 page not found'' 404)
         | _ \<Rightarrow> State_Monad.return (http_Error ''404 page not found'' 404)))"

end
