(* ===== verification/HttpdMain.thy ===== *)
theory HttpdMain
  imports GoFlag Startup HttpdServer
begin

text \<open>
  \<^verbatim>\<open>main\<close> of \<^verbatim>\<open>cmd/httpd/main.go\<close>: the steps before the server, then the process as a state machine. Its
  threads are \<^verbatim>\<open>main\<close> itself, the goroutine of the manager and the goroutine of the listener; they meet in
  three channels of capacity one, which \<^verbatim>\<open>main\<close> selects from. When \<^verbatim>\<open>WaitForCacheSync\<close> returns, and what, is a parameter.
\<close>

section \<open>The command line and the options\<close>

record Httpd_flags =
  hf_listenAddr :: string
  hf_namespace :: string

definition httpd_flag_table :: "(string \<times> flag_default) list" where
  "httpd_flag_table = [(''listen-addr'', StringFlag '':8080''), (''namespace'', StringFlag ''default'')]"

definition parse_httpd_flags :: "lib_flags \<Rightarrow> string list \<Rightarrow> flag_error + Httpd_flags" where
  "parse_httpd_flags lib args =
     map_sum id
       (\<lambda>vals. \<lparr>hf_listenAddr = string_flag httpd_flag_table vals ''listen-addr'',
                hf_namespace = string_flag httpd_flag_table vals ''namespace''\<rparr>)
       (parse_flags (flag_kind httpd_flag_table lib) args Map.empty)"

text \<open>The address of the metrics, and the kinds whose reads go to the API server instead of the cache.\<close>

record httpd_manager_options =
  hmo_Metrics_BindAddress :: string
  hmo_Cache_DisableFor :: "string list"

definition httpd_options :: httpd_manager_options where
  "httpd_options =
     \<lparr>hmo_Metrics_BindAddress = ''0'',
      hmo_Cache_DisableFor = [''BootArtifact'', ''BootConfig'', ''ProvisionAutomation'', ''ConfigMap'', ''Secret'']\<rparr>"

text \<open>\<^verbatim>\<open>http.Server\<close>, the times in nanoseconds.\<close>

record http_server =
  hs_Addr :: string
  hs_ReadTimeout :: int
  hs_WriteTimeout :: int
  hs_IdleTimeout :: int

definition httpd_server :: "Httpd_flags \<Rightarrow> http_server" where
  "httpd_server fl =
     \<lparr>hs_Addr = hf_listenAddr fl, hs_ReadTimeout = 10 * 1000000000, hs_WriteTimeout = 10 * 1000000000,
      hs_IdleTimeout = 60 * 1000000000\<rparr>"

text \<open>The handlers are made from the client, the namespace and the environment.\<close>

definition httpd_handler ::
  "'t Templates \<Rightarrow> 's Client \<Rightarrow> (string \<Rightarrow> string) \<Rightarrow> Httpd_flags \<Rightarrow> Request \<Rightarrow> ('s, Response) io" where
  "httpd_handler tm c getenv fl = serve tm c (hf_namespace fl) (getenv ''PROXY_PORT'')"

definition httpd_steps :: "httpd_manager_options setup_step list" where
  "httpd_steps =
     [AddToScheme ''client-go'', AddToScheme ''isoboot'', GetConfig, NewManager httpd_options] @ SetupIndexers"

text \<open>An exit code, or the flags with which the process starts to wait for its caches.\<close>

definition httpd_setup ::
  "lib_flags \<Rightarrow> (httpd_manager_options setup_step \<Rightarrow> bool) \<Rightarrow> string list \<Rightarrow> int + Httpd_flags" where
  "httpd_setup lib fails args =
     (case parse_httpd_flags lib args of
        Inl err \<Rightarrow> Inl (flag_exit err)
      | Inr fl \<Rightarrow>
          (case run_steps fails httpd_steps of
             (_, Some code) \<Rightarrow> Inl code
           | (_, None) \<Rightarrow> Inr fl))"

section \<open>The process\<close>

datatype httpd_pc =
    Waiting
  | Launching
  | Notifying
  | Selecting
  | Draining
  | Exited int
  | Killed

text \<open>The manager's goroutine: it runs, its caches have synced, or it has returned, after the sync or before.\<close>

datatype manager_run = MgrRunning | MgrSynced | MgrReturned bool

datatype listener = NotStarted | Listening | Closed

record httpd_proc =
  hp_pc :: httpd_pc
  hp_mgr :: manager_run
  hp_srv :: listener
  hp_mgrErrCh :: "string option"
  hp_srvErrCh :: "string option"
  hp_quit :: bool

definition httpd_start :: httpd_proc where
  "httpd_start =
     \<lparr>hp_pc = Waiting, hp_mgr = MgrRunning, hp_srv = NotStarted, hp_mgrErrCh = None, hp_srvErrCh = None,
      hp_quit = False\<rparr>"

definition alive :: "httpd_proc \<Rightarrow> bool" where
  "alive p \<longleftrightarrow> hp_pc p \<notin> {Killed} \<union> range Exited"

definition mgr_up :: "httpd_proc \<Rightarrow> bool" where
  "mgr_up p \<longleftrightarrow> hp_mgr p = MgrRunning \<or> hp_mgr p = MgrSynced"

definition synced :: "httpd_proc \<Rightarrow> bool" where
  "synced p \<longleftrightarrow> hp_mgr p = MgrSynced \<or> hp_mgr p = MgrReturned True"

text \<open>
  A signal kills the process unless \<^verbatim>\<open>signal.Notify\<close> has been called; afterwards it goes into the channel
  \<^verbatim>\<open>quit\<close>, or is lost when the channel is full. After the select \<^verbatim>\<open>Shutdown\<close> makes the listener return \<^verbatim>\<open>ErrServerClosed\<close>,
  which is not sent, and the process ends with 0, also when \<^verbatim>\<open>Shutdown\<close> runs out of time.
\<close>

inductive httpd_step :: "(httpd_proc \<Rightarrow> bool \<Rightarrow> bool) \<Rightarrow> httpd_proc \<Rightarrow> httpd_proc \<Rightarrow> bool"
  for sync :: "httpd_proc \<Rightarrow> bool \<Rightarrow> bool" where
  caches: "alive p \<Longrightarrow> hp_mgr p = MgrRunning \<Longrightarrow> httpd_step sync p (p\<lparr>hp_mgr := MgrSynced\<rparr>)"
| mgr_ok: "alive p \<Longrightarrow> mgr_up p \<Longrightarrow> httpd_step sync p (p\<lparr>hp_mgr := MgrReturned (synced p)\<rparr>)"
| mgr_err: "alive p \<Longrightarrow> mgr_up p \<Longrightarrow>
    httpd_step sync p (p\<lparr>hp_mgr := MgrReturned (synced p), hp_mgrErrCh := Some err\<rparr>)"
| wait_ok: "hp_pc p = Waiting \<Longrightarrow> sync p True \<Longrightarrow> httpd_step sync p (p\<lparr>hp_pc := Launching\<rparr>)"
| wait_failed: "hp_pc p = Waiting \<Longrightarrow> sync p False \<Longrightarrow> httpd_step sync p (p\<lparr>hp_pc := Exited 1\<rparr>)"
| launch: "hp_pc p = Launching \<Longrightarrow> httpd_step sync p (p\<lparr>hp_pc := Notifying, hp_srv := Listening\<rparr>)"
| notify: "hp_pc p = Notifying \<Longrightarrow> httpd_step sync p (p\<lparr>hp_pc := Selecting\<rparr>)"
| srv_err: "alive p \<Longrightarrow> hp_srv p = Listening \<Longrightarrow>
    httpd_step sync p (p\<lparr>hp_srv := Closed, hp_srvErrCh := Some err\<rparr>)"
| signal_kills: "hp_pc p \<in> {Waiting, Launching, Notifying} \<Longrightarrow> httpd_step sync p (p\<lparr>hp_pc := Killed\<rparr>)"
| signal_sent: "hp_pc p \<in> {Selecting, Draining} \<Longrightarrow> \<not> hp_quit p \<Longrightarrow> httpd_step sync p (p\<lparr>hp_quit := True\<rparr>)"
| select_mgr: "hp_pc p = Selecting \<Longrightarrow> hp_mgrErrCh p = Some err \<Longrightarrow> httpd_step sync p (p\<lparr>hp_pc := Exited 1\<rparr>)"
| select_srv: "hp_pc p = Selecting \<Longrightarrow> hp_srvErrCh p = Some err \<Longrightarrow> httpd_step sync p (p\<lparr>hp_pc := Exited 1\<rparr>)"
| select_quit: "hp_pc p = Selecting \<Longrightarrow> hp_quit p \<Longrightarrow> httpd_step sync p (p\<lparr>hp_pc := Draining\<rparr>)"
| shutdown: "hp_pc p = Draining \<Longrightarrow> httpd_step sync p (p\<lparr>hp_pc := Exited 0, hp_srv := Closed\<rparr>)"

inductive_cases httpd_stepE: "httpd_step sync p q"

definition httpd_reach :: "(httpd_proc \<Rightarrow> bool \<Rightarrow> bool) \<Rightarrow> httpd_proc \<Rightarrow> bool" where
  "httpd_reach sync p \<longleftrightarrow> (httpd_step sync)\<^sup>*\<^sup>* httpd_start p"

section \<open>The invariant\<close>

text \<open>What the documentation of \<^verbatim>\<open>WaitForCacheSync\<close> says of a return: true only when the caches have synced.\<close>

definition sync_sound :: "(httpd_proc \<Rightarrow> bool \<Rightarrow> bool) \<Rightarrow> bool" where
  "sync_sound sync \<longleftrightarrow> (\<forall>p. sync p True \<longrightarrow> synced p)"

text \<open>And that it gives up only when its context is cancelled, which nobody does while \<^verbatim>\<open>main\<close> waits.\<close>

definition sync_waits :: "(httpd_proc \<Rightarrow> bool \<Rightarrow> bool) \<Rightarrow> bool" where
  "sync_waits sync \<longleftrightarrow> (\<forall>p. \<not> sync p False)"

definition httpd_inv :: "httpd_proc \<Rightarrow> bool" where
  "httpd_inv p \<longleftrightarrow>
     (hp_pc p \<in> {Launching, Notifying, Selecting, Draining} \<longrightarrow> synced p)
     \<and> (hp_pc p \<in> {Waiting, Launching} \<longrightarrow> hp_srv p = NotStarted)
     \<and> (hp_srv p \<noteq> NotStarted \<longrightarrow> synced p)
     \<and> (hp_mgrErrCh p \<noteq> None \<longrightarrow> \<not> mgr_up p)
     \<and> (hp_srvErrCh p \<noteq> None \<longrightarrow> hp_srv p = Closed)
     \<and> (hp_pc p = Draining \<longrightarrow> hp_quit p)
     \<and> (\<forall>c. hp_pc p = Exited c \<longrightarrow>
          c = 0 \<and> hp_quit p \<or> c = 1 \<and> (hp_mgrErrCh p \<noteq> None \<or> hp_srvErrCh p \<noteq> None))"

lemma proc_facts [simp]:
  "synced (p\<lparr>hp_pc := c\<rparr>) = synced p" "mgr_up (p\<lparr>hp_pc := c\<rparr>) = mgr_up p"
  "synced (p\<lparr>hp_srv := l\<rparr>) = synced p" "mgr_up (p\<lparr>hp_srv := l\<rparr>) = mgr_up p"
  "synced (p\<lparr>hp_quit := b\<rparr>) = synced p" "mgr_up (p\<lparr>hp_quit := b\<rparr>) = mgr_up p"
  "synced (p\<lparr>hp_mgrErrCh := x\<rparr>) = synced p" "mgr_up (p\<lparr>hp_mgrErrCh := x\<rparr>) = mgr_up p"
  "synced (p\<lparr>hp_srvErrCh := x\<rparr>) = synced p" "mgr_up (p\<lparr>hp_srvErrCh := x\<rparr>) = mgr_up p"
  "synced (p\<lparr>hp_mgr := MgrReturned b\<rparr>) = b" "\<not> mgr_up (p\<lparr>hp_mgr := MgrReturned b\<rparr>)"
  "synced (p\<lparr>hp_mgr := MgrSynced\<rparr>)" "mgr_up (p\<lparr>hp_mgr := MgrSynced\<rparr>)"
  by (simp_all add: synced_def mgr_up_def)

lemma not_alive [simp]: "hp_pc p = Exited c \<Longrightarrow> \<not> alive p" "hp_pc p = Killed \<Longrightarrow> \<not> alive p"
  by (auto simp: alive_def)

lemma httpd_inv_step:
  assumes "sync_sound sync" and "sync_waits sync" and "httpd_step sync p q" and "httpd_inv p"
  shows "httpd_inv q"
  using assms(3)
proof (cases rule: httpd_step.cases)
  case caches
  then show ?thesis using assms(4) by (simp add: httpd_inv_def mgr_up_def; elim conjE; simp)
next
  case wait_ok
  then show ?thesis using assms(1,4) by (simp add: httpd_inv_def sync_sound_def mgr_up_def; elim conjE exE disjE; simp?; blast?)
next
  case wait_failed
  then show ?thesis using assms(2) by (simp add: sync_waits_def)
qed (use assms(4) in \<open>simp add: httpd_inv_def mgr_up_def; (elim conjE exE disjE)?; simp?; blast?\<close>)+

lemma httpd_reach_inv:
  assumes "sync_sound sync" and "sync_waits sync" and "httpd_reach sync p"
  shows "httpd_inv p"
  using assms(3) unfolding httpd_reach_def
proof (induction rule: rtranclp_induct)
  case base
  show ?case by (simp add: httpd_inv_def httpd_start_def)
next
  case (step p q)
  then show ?case by (blast intro: httpd_inv_step [OF assms(1,2)])
qed

section \<open>Every run is short\<close>

text \<open>Each step uses up a part of the process: a step of \<^verbatim>\<open>main\<close>, of a goroutine, or the one place for a signal.\<close>

fun pc_rank :: "httpd_pc \<Rightarrow> nat" where
  "pc_rank Waiting = 6"
| "pc_rank Launching = 5"
| "pc_rank Notifying = 3"
| "pc_rank Selecting = 2"
| "pc_rank Draining = 1"
| "pc_rank (Exited _) = 0"
| "pc_rank Killed = 0"

definition proc_rank :: "httpd_proc \<Rightarrow> nat" where
  "proc_rank p =
     pc_rank (hp_pc p)
     + (case hp_mgr p of MgrRunning \<Rightarrow> 2 | MgrSynced \<Rightarrow> 1 | MgrReturned _ \<Rightarrow> 0)
     + (if hp_srv p = Closed then 0 else 1)
     + (if hp_quit p then 0 else 1)"

lemma proc_rank_step: "httpd_step sync p q \<Longrightarrow> proc_rank q < proc_rank p"
  by (erule httpd_stepE) (auto simp: proc_rank_def mgr_up_def split: manager_run.splits)

lemma proc_rank_steps: "(httpd_step sync ^^ n) p q \<Longrightarrow> n + proc_rank q \<le> proc_rank p"
proof (induction n arbitrary: q)
  case (Suc n)
  then obtain r where r: "(httpd_step sync ^^ n) p r" "httpd_step sync r q" by auto
  show ?case using Suc.IH [OF r(1)] proc_rank_step [OF r(2)] by simp
qed simp

section \<open>Something to select\<close>

definition pending_end :: "httpd_proc \<Rightarrow> bool" where
  "pending_end p \<longleftrightarrow> hp_mgrErrCh p \<noteq> None \<or> hp_srvErrCh p \<noteq> None \<or> hp_quit p"

text \<open>From the select on with something in a channel, until the process has ended by itself.\<close>

definition ending :: "httpd_proc \<Rightarrow> bool" where
  "ending p \<longleftrightarrow> hp_pc p = Selecting \<and> pending_end p \<or> hp_pc p = Draining \<or> hp_pc p \<in> range Exited"

lemma ending_step: "httpd_step sync p q \<Longrightarrow> ending p \<Longrightarrow> ending q"
  by (erule httpd_stepE) (auto simp: ending_def pending_end_def)

lemma ending_steps: "(httpd_step sync)\<^sup>*\<^sup>* p q \<Longrightarrow> ending p \<Longrightarrow> ending q"
  by (induction rule: rtranclp_induct) (auto intro: ending_step)

lemma draining_ends: "hp_pc p = Draining \<Longrightarrow> (httpd_step sync)\<^sup>*\<^sup>* p (p\<lparr>hp_pc := Exited 0, hp_srv := Closed\<rparr>)"
  by (rule r_into_rtranclp) (rule httpd_step.shutdown)

lemma end_by: "(httpd_step sync)\<^sup>*\<^sup>* p q \<Longrightarrow> hp_pc q = Exited c \<Longrightarrow> \<exists>q c. (httpd_step sync)\<^sup>*\<^sup>* p q \<and> hp_pc q = Exited c"
  by blast

lemma ending_ends:
  assumes "ending p"
  shows "\<exists>q c. (httpd_step sync)\<^sup>*\<^sup>* p q \<and> hp_pc q = Exited c"
proof -
  consider (exited) c where "hp_pc p = Exited c" | (draining) "hp_pc p = Draining"
    | (mgr) err where "hp_pc p = Selecting" "hp_mgrErrCh p = Some err"
    | (srv) err where "hp_pc p = Selecting" "hp_srvErrCh p = Some err"
    | (quit) "hp_pc p = Selecting" "hp_quit p"
    using assms unfolding ending_def pending_end_def by auto
  then show ?thesis
  proof cases
    case exited
    then show ?thesis by auto
  next
    case draining
    from draining_ends [OF this] show ?thesis by (rule end_by) simp
  next
    case mgr
    from httpd_step.select_mgr [OF this] show ?thesis by (rule end_by [OF r_into_rtranclp]) simp
  next
    case srv
    from httpd_step.select_srv [OF this] show ?thesis by (rule end_by [OF r_into_rtranclp]) simp
  next
    case quit
    from httpd_step.select_quit [OF this] have "(httpd_step sync)\<^sup>*\<^sup>* p (p\<lparr>hp_pc := Exited 0, hp_srv := Closed\<rparr>)"
      by (rule converse_rtranclp_into_rtranclp) (use draining_ends [of "p\<lparr>hp_pc := Draining\<rparr>"] in simp)
    then show ?thesis by (rule end_by) simp
  qed
qed

text \<open>A process whose manager is gone before the sync can only be killed.\<close>

lemma unsynced_step:
  assumes "sync_sound sync" and "sync_waits sync" and "hp_pc p = Waiting" and "hp_mgr p = MgrReturned False"
    and "hp_srv p = NotStarted" and "httpd_step sync p q"
  shows "q = p\<lparr>hp_pc := Killed\<rparr>"
  using assms(6)
proof (cases rule: httpd_step.cases)
  case wait_ok
  then show ?thesis using assms(1,4) by (auto simp: sync_sound_def synced_def)
next
  case wait_failed
  then show ?thesis using assms(2) by (simp add: sync_waits_def)
qed (use assms(3-5) in \<open>simp_all add: mgr_up_def\<close>)

lemma killed_step: "hp_pc p = Killed \<Longrightarrow> \<not> httpd_step sync p q"
  by (auto elim!: httpd_stepE)

lemma unsynced_steps:
  assumes "sync_sound sync" and "sync_waits sync" and "hp_pc p = Waiting" and "hp_mgr p = MgrReturned False"
    and "hp_srv p = NotStarted" and "(httpd_step sync)\<^sup>*\<^sup>* p q"
  shows "q = p \<or> q = p\<lparr>hp_pc := Killed\<rparr>"
  using assms(6)
proof (induction rule: rtranclp_induct)
  case (step q r)
  then show ?case using unsynced_step [OF assms(1-5)] killed_step [of "p\<lparr>hp_pc := Killed\<rparr>"] by fastforce
qed simp

end
