(* ===== verification/MainProps.thy ===== *)
theory MainProps
  imports ManagerMain HttpdMain
begin

text \<open>
  What the two \<^verbatim>\<open>main\<close> functions guarantee: how the command line is read, that nothing runs before its
  preparations are made, how the servers are secured, and how the HTTP server's process ends.
\<close>

section \<open>The command line of the manager\<close>

definition bool_text :: "bool \<Rightarrow> string" where
  "bool_text b = (if b then ''true'' else ''false'')"

text \<open>A command line that gives every flag.\<close>

definition manager_args :: "Manager_flags \<Rightarrow> string list" where
  "manager_args fl =
     map flag_arg
       [(''data-dir'', mf_dataDir fl),
        (''metrics-bind-address'', mf_metricsAddr fl),
        (''health-probe-bind-address'', mf_probeAddr fl),
        (''leader-elect'', bool_text (mf_enableLeaderElection fl)),
        (''metrics-secure'', bool_text (mf_secureMetrics fl)),
        (''webhook-cert-path'', mf_webhookCertPath fl),
        (''webhook-cert-name'', mf_webhookCertName fl),
        (''webhook-cert-key'', mf_webhookCertKey fl),
        (''metrics-cert-path'', mf_metricsCertPath fl),
        (''metrics-cert-name'', mf_metricsCertName fl),
        (''metrics-cert-key'', mf_metricsCertKey fl),
        (''enable-http2'', bool_text (mf_enableHTTP2 fl))]"

lemma bool_text [simp]: "ParseBool (bool_text b) = Some b"
  by (simp add: bool_text_def)

lemma bool_flag_text: "vals n = Some (bool_text b) \<Longrightarrow> bool_flag tbl vals n = b"
  by (simp add: bool_flag_def)

lemma string_flag_text: "vals n = Some v \<Longrightarrow> string_flag tbl vals n = v"
  by (simp add: string_flag_def)

text \<open>
  C39. The flags written out on a command line are read back as they were, whatever their values hold and
  whatever flags the libraries register.
\<close>

theorem manager_flags_roundtrip: "parse_manager_flags lib (manager_args fl) = Inr fl"
  unfolding parse_manager_flags_def manager_args_def
  by (subst parse_flag_args)
    (simp_all add: flag_kind_def manager_flag_table_def flag_name_ok_def dash_def equals_def manager_flags_def
      bool_flag_text string_flag_text Let_def, blast)

section \<open>How the manager's servers are secured\<close>

text \<open>The TLS configuration that a server makes of a given one.\<close>

definition configured :: "(tls_config \<Rightarrow> tls_config) list \<Rightarrow> tls_config \<Rightarrow> tls_config" where
  "configured opts c = fold (\<lambda>f. f) opts c"

lemma manager_flag_default:
  assumes "parse_manager_flags lib args = Inr fl" and "\<forall>s \<in> set args. \<not> names_flag n s"
  obtains vals where "fl = manager_flags vals" "vals n = None"
proof -
  obtain vals where "parse_flags (flag_kind manager_flag_table lib) args Map.empty = Inr vals" "fl = manager_flags vals"
    using assms(1) by (cases "parse_flags (flag_kind manager_flag_table lib) args Map.empty") (auto simp: parse_manager_flags_def)
  then show thesis using that parse_flags_names [of _ args Map.empty vals n] assms(2) by fastforce
qed

text \<open>
  The servers of the manager are secured unless the command line says otherwise: without the flag
  \<^verbatim>\<open>enable-http2\<close> both TLS servers speak HTTP/1.1 alone, whatever they were configured with, and without the flag
  \<^verbatim>\<open>metrics-secure\<close> the metrics are served over TLS behind authentication and authorization.
\<close>

theorem servers_hardened:
  assumes "parse_manager_flags lib args = Inr fl"
  shows "((\<forall>s \<in> set args. \<not> names_flag ''enable-http2'' s) \<longrightarrow>
      tls_NextProtos (configured (wo_TLSOpts (mgo_WebhookServer (manager_options fl))) c) = [''http/1.1'']
      \<and> tls_NextProtos (configured (mo_TLSOpts (mgo_Metrics (manager_options fl))) c) = [''http/1.1''])
    \<and> ((\<forall>s \<in> set args. \<not> names_flag ''metrics-secure'' s) \<longrightarrow>
      mo_SecureServing (mgo_Metrics (manager_options fl))
      \<and> mo_FilterProvider (mgo_Metrics (manager_options fl)) = Some WithAuthenticationAndAuthorization)"
proof (intro conjI impI)
  assume "\<forall>s \<in> set args. \<not> names_flag ''enable-http2'' s"
  then obtain vals where "fl = manager_flags vals" "vals ''enable-http2'' = None"
    by (rule manager_flag_default [OF assms])
  then have "tlsOpts fl = [disableHTTP2]"
    by (simp add: tlsOpts_def manager_flags_def Let_def bool_flag_def manager_flag_table_def)
  then show "tls_NextProtos (configured (wo_TLSOpts (mgo_WebhookServer (manager_options fl))) c) = [''http/1.1'']"
    and "tls_NextProtos (configured (mo_TLSOpts (mgo_Metrics (manager_options fl))) c) = [''http/1.1'']"
    by (simp_all add: manager_options_def webhookServerOptions_def metricsServerOptions_def Let_def configured_def disableHTTP2_def)
next
  assume "\<forall>s \<in> set args. \<not> names_flag ''metrics-secure'' s"
  then obtain vals where "fl = manager_flags vals" "vals ''metrics-secure'' = None"
    by (rule manager_flag_default [OF assms])
  then have "mf_secureMetrics fl"
    by (simp add: manager_flags_def Let_def bool_flag_def manager_flag_table_def)
  then show "mo_SecureServing (mgo_Metrics (manager_options fl))"
    and "mo_FilterProvider (mgo_Metrics (manager_options fl)) = Some WithAuthenticationAndAuthorization"
    by (simp_all add: manager_options_def metricsServerOptions_def Let_def)
qed

text \<open>The command line of the Helm chart.\<close>

definition chart_args :: "string list" where
  "chart_args = [''--health-probe-bind-address=:8081'', ''--metrics-bind-address=:8443'', ''--data-dir=/data/nginx/static'']"

definition chart_flags :: Manager_flags where
  "chart_flags =
     \<lparr>mf_dataDir = ''/data/nginx/static'', mf_metricsAddr = '':8443'', mf_probeAddr = '':8081'', mf_enableLeaderElection = False,
      mf_secureMetrics = True, mf_webhookCertPath = [], mf_webhookCertName = ''tls.crt'', mf_webhookCertKey = ''tls.key'',
      mf_metricsCertPath = [], mf_metricsCertName = ''tls.crt'', mf_metricsCertKey = ''tls.key'', mf_enableHTTP2 = False\<rparr>"

lemma chart_parsed: "parse_manager_flags Map.empty chart_args = Inr chart_flags"
  by code_simp

theorem servers_hardened_witness:
  "tls_NextProtos (configured (mo_TLSOpts (mgo_Metrics (manager_options chart_flags))) \<lparr>tls_NextProtos = [''h2'']\<rparr>) = [''http/1.1'']
   \<and> mo_FilterProvider (mgo_Metrics (manager_options chart_flags)) = Some WithAuthenticationAndAuthorization"
  using servers_hardened [OF chart_parsed, of "\<lparr>tls_NextProtos = [''h2'']\<rparr>"]
  by (simp add: chart_args_def names_flag_def has_prefix_def dash_def)

section \<open>The start-up of the manager\<close>

lemma manager_steps_last:
  "manager_steps fl = butlast (manager_steps fl) @ [StartManager]" "StartManager \<notin> set (butlast (manager_steps fl))"
  by (auto simp: manager_steps_def SetupIndexers_def butlast_append)

lemma manager_steps_before:
  "{GetConfig, NewManager (manager_options fl), IndexField ''Provision'' ''status.phase'',
    IndexField ''Provision'' ''spec.machineRef'', IndexField ''Machine'' ''spec.mac'',
    SetupController BootArtifact_SetupWithManager, SetupController BootConfig_SetupWithManager,
    SetupController Provision_SetupWithManager, AddHealthzCheck ''healthz'', AddReadyzCheck ''readyz''}
   \<subseteq> set (butlast (manager_steps fl))"
  by (simp add: manager_steps_def SetupIndexers_def Provision_indexers_def Machine_indexers_def butlast_append
      ProvisionPhaseField_def ProvisionMachineRefField_def MachineSpecMACField_def)

lemma run_steps_result:
  obtains (failed) t code where "run_steps fails ss = (t, Some code)" "code \<noteq> 0" "\<exists>s \<in> set ss. fails s"
  | (passed) "run_steps fails ss = (ss, None)" "\<forall>s \<in> set ss. \<not> fails s"
proof (cases "snd (run_steps fails ss)")
  case None
  then show thesis using passed run_steps_all [OF None] run_steps_ok [of fails ss] by (metis prod.collapse)
next
  case (Some code)
  then show thesis
    using failed [of "fst (run_steps fails ss)" code] run_steps_code [OF Some] run_steps_ok [of fails ss]
    by (simp add: Some [symmetric]) (metis Some insert_iff option.distinct(1) option.inject singletonD zero_neq_numeral zero_neq_one)
qed

text \<open>
  C32. The manager starts last: it runs only when the configuration, the manager with the options of the
  command line, the three field indexes, the three controllers and the two checks have been set up without an
  error, and the process ends with 0 only after that, or when asked for help.
\<close>

theorem manager_started_last:
  assumes "manager_main lib fails args = (t, code)"
  shows "(StartManager \<in> set t \<longrightarrow>
      (\<exists>fl. parse_manager_flags lib args = Inr fl \<and> last t = StartManager \<and> (\<forall>s \<in> set (butlast t). \<not> fails s)
        \<and> {GetConfig, NewManager (manager_options fl), IndexField ''Provision'' ''status.phase'',
            IndexField ''Provision'' ''spec.machineRef'', IndexField ''Machine'' ''spec.mac'',
            SetupController BootArtifact_SetupWithManager, SetupController BootConfig_SetupWithManager,
            SetupController Provision_SetupWithManager, AddHealthzCheck ''healthz'', AddReadyzCheck ''readyz''}
          \<subseteq> set (butlast t)))
    \<and> (code = 0 \<longleftrightarrow> (\<forall>s \<in> set init_steps. \<not> fails s) \<and>
        (parse_manager_flags lib args = Inl ErrHelp
         \<or> (\<exists>fl. parse_manager_flags lib args = Inr fl \<and> (\<forall>s \<in> set (manager_steps fl). \<not> fails s))))"
proof (cases rule: run_steps_result [of fails init_steps])
  case (failed t0 code0)
  have "StartManager \<notin> set t0" using run_steps_prefix [OF failed(1)] by (auto simp: init_steps_def Cons_eq_append_conv)
  with failed assms show ?thesis by (auto simp: manager_main_def)
next
  case passed
  show ?thesis
  proof (cases "parse_manager_flags lib args")
    case (Inl err)
    then show ?thesis using assms passed by (cases err) (auto simp: manager_main_def init_steps_def)
  next
    case fl: (Inr fl)
    let ?pre = "butlast (manager_steps fl)"
    obtain t' c where run: "run_steps fails (manager_steps fl) = (t', c)" by force
    have t: "t = init_steps @ t'" "code = (case c of None \<Rightarrow> 0 | Some code \<Rightarrow> code)"
      using assms passed fl run by (auto simp: manager_main_def split: option.splits)
    have run': "run_steps fails (?pre @ [StartManager]) = (t', c)" using run by (simp flip: manager_steps_last(1))
    have "code = 0 \<longleftrightarrow> (\<forall>s \<in> set (manager_steps fl). \<not> fails s)"
      by (cases rule: run_steps_result [of fails "manager_steps fl"]) (use run t(2) in auto)
    moreover have "t' = ?pre @ [StartManager] \<and> (\<forall>s \<in> set ?pre. \<not> fails s)" if "StartManager \<in> set t"
      using run_steps_last [OF run' manager_steps_last(2)] that t(1) by (auto simp: init_steps_def)
    ultimately show ?thesis using passed(2) fl t(1) manager_steps_before [of fl] by (auto simp: butlast_append)
  qed
qed

theorem manager_started_last_witness:
  "StartManager \<in> set (fst (manager_main Map.empty (\<lambda>_. False) chart_args))
   \<and> snd (manager_main Map.empty (\<lambda>s. s = GetConfig) chart_args) \<noteq> 0"
proof -
  have "set init_steps = {AddToScheme ''client-go'', AddToScheme ''isoboot''}" by (simp add: init_steps_def)
  moreover have "GetConfig \<in> set (manager_steps chart_flags)" by (simp add: manager_steps_def)
  ultimately have "snd (manager_main Map.empty (\<lambda>s. s = GetConfig) chart_args) \<noteq> 0"
    using manager_started_last [of Map.empty "\<lambda>s. s = GetConfig" chart_args, OF prod.collapse [symmetric]] chart_parsed by auto
  moreover have "StartManager \<in> set (fst (manager_main Map.empty (\<lambda>_. False) chart_args))"
    by (simp add: manager_main_def chart_parsed init_steps_def manager_steps_def SetupIndexers_def
        Provision_indexers_def Machine_indexers_def)
  ultimately show ?thesis by blast
qed

section \<open>The process of the HTTP server\<close>

text \<open>
  C37. In every state the HTTP server's process gets into, under any order of its threads, errors and signals,
  requests are only taken after the caches have synced; it ends with 0 only after a signal,
  and with 1 only after an error of the manager or of the listener.
\<close>

theorem httpd_exit_codes:
  assumes "sync_sound sync" and "sync_waits sync" and "httpd_reach sync p"
  shows "(hp_srv p = Listening \<longrightarrow> synced p)
    \<and> (\<forall>c. hp_pc p = Exited c \<longrightarrow>
         c = 0 \<and> hp_quit p \<or> c = 1 \<and> (hp_mgrErrCh p \<noteq> None \<or> hp_srvErrCh p \<noteq> None))"
  using httpd_reach_inv [OF assms] by (auto simp: httpd_inv_def)

text \<open>A wait that behaves as documented, and the process at the select and in two ends.\<close>

definition plain_sync :: "httpd_proc \<Rightarrow> bool \<Rightarrow> bool" where
  "plain_sync p b \<longleftrightarrow> b \<and> synced p"

lemma plain_sync_ok: "sync_sound plain_sync" "sync_waits plain_sync"
  by (simp_all add: sync_sound_def sync_waits_def plain_sync_def)

definition proc_serving :: httpd_proc where
  "proc_serving =
     \<lparr>hp_pc = Selecting, hp_mgr = MgrSynced, hp_srv = Listening, hp_mgrErrCh = None, hp_srvErrCh = None, hp_quit = False\<rparr>"

lemma reach_serving: "httpd_reach plain_sync proc_serving"
proof -
  let ?s = "httpd_start\<lparr>hp_mgr := MgrSynced\<rparr>"
  have "httpd_step plain_sync httpd_start ?s" by (rule httpd_step.caches) (auto simp: httpd_start_def alive_def)
  moreover have "httpd_step plain_sync ?s (?s\<lparr>hp_pc := Launching\<rparr>)"
    by (rule httpd_step.wait_ok) (auto simp: httpd_start_def plain_sync_def synced_def)
  moreover have "httpd_step plain_sync (?s\<lparr>hp_pc := Launching\<rparr>) (?s\<lparr>hp_pc := Launching\<rparr>\<lparr>hp_pc := Notifying, hp_srv := Listening\<rparr>)"
    by (rule httpd_step.launch) simp
  moreover have "httpd_step plain_sync (?s\<lparr>hp_pc := Launching\<rparr>\<lparr>hp_pc := Notifying, hp_srv := Listening\<rparr>) proc_serving"
    using httpd_step.notify [of "?s\<lparr>hp_pc := Launching\<rparr>\<lparr>hp_pc := Notifying, hp_srv := Listening\<rparr>" plain_sync]
    by (simp add: proc_serving_def httpd_start_def)
  ultimately show ?thesis
    unfolding httpd_reach_def by (meson converse_rtranclp_into_rtranclp rtranclp.rtrancl_refl)
qed

lemma reach_more: "httpd_reach sync p \<Longrightarrow> httpd_step sync p q \<Longrightarrow> httpd_reach sync q"
  unfolding httpd_reach_def by (rule rtranclp.rtrancl_into_rtrancl)

lemma reach_signalled: "httpd_reach plain_sync (proc_serving\<lparr>hp_quit := True\<rparr>)"
  by (rule reach_more [OF reach_serving], rule httpd_step.signal_sent) (simp_all add: proc_serving_def httpd_start_def)

theorem httpd_exit_codes_witness:
  "hp_srv proc_serving = Listening \<and> synced proc_serving"
  using httpd_exit_codes [OF plain_sync_ok reach_serving] by (simp add: proc_serving_def)

text \<open>
  C38. The process ends. When an error of the manager, an error of the listener or a signal has come to the
  select, every path has at most six more steps, whatever else happens on the way, and each
  can go on to an exit.
\<close>

theorem httpd_run_ends:
  assumes "hp_pc p = Selecting" and "hp_mgrErrCh p \<noteq> None \<or> hp_srvErrCh p \<noteq> None \<or> hp_quit p"
    and "(httpd_step sync ^^ n) p q"
  shows "n \<le> 6 \<and> (\<exists>r c. (httpd_step sync)\<^sup>*\<^sup>* q r \<and> hp_pc r = Exited c)"
proof
  have "proc_rank p \<le> 6" using assms(1) by (simp add: proc_rank_def split: manager_run.splits)
  then show "n \<le> 6" using proc_rank_steps [OF assms(3)] by simp
  have "ending p" using assms(1,2) by (simp add: ending_def pending_end_def)
  then show "\<exists>r c. (httpd_step sync)\<^sup>*\<^sup>* q r \<and> hp_pc r = Exited c"
    by (rule ending_ends [OF ending_steps [OF relpowp_imp_rtranclp [OF assms(3)]]])
qed

theorem httpd_run_ends_witness:
  "\<exists>r c. (httpd_step plain_sync)\<^sup>*\<^sup>* (proc_serving\<lparr>hp_quit := True\<rparr>) r \<and> hp_pc r = Exited c"
  using httpd_run_ends [of "proc_serving\<lparr>hp_quit := True\<rparr>" 0 plain_sync "proc_serving\<lparr>hp_quit := True\<rparr>"]
  by (simp add: proc_serving_def)



end
