(* ===== verification/ProvisionPhases.thy ===== *)
theory ProvisionPhases
  imports HttpdProvision
begin

text \<open>
  The phase of a \<^verbatim>\<open>Provision\<close> as a state machine shared by the reconciler, by any number of
  concurrent requests of installers and by other clients of the API server. A request is a read of
  the object (from a cache that may lag behind) and a later update; between the two everything else
  may happen. What the server promises is optimistic concurrency: an update is stored only over
  the version it was made from.
\<close>

section \<open>Optimistic concurrency\<close>

type_synonym prov_key = "string \<times> string"

definition prov_key :: "Provision \<Rightarrow> prov_key" where
  "prov_key p = (om_namespace (pr_meta p), om_name (pr_meta p))"

abbreviation prov_rv :: "Provision \<Rightarrow> nat" where
  "prov_rv p \<equiv> om_resourceVersion (pr_meta p)"

abbreviation phase :: "Provision \<Rightarrow> ProvisionPhase" where
  "phase p \<equiv> pr_Phase (pr_Status p)"

text \<open>
  What the server has now (\<open>cur\<close>) and what every version ever stored was (\<open>ver\<close>). A stored update is
  a version that never was before, with the status that was sent. An answer that is an error leaves open
  whether the update was stored, unless it is a conflict or the object is not found.
\<close>

definition stores ::
  "('s \<Rightarrow> prov_key \<Rightarrow> Provision option) \<Rightarrow> ('s \<Rightarrow> prov_key \<times> nat \<Rightarrow> Provision option)
   \<Rightarrow> Provision \<Rightarrow> 's \<Rightarrow> 's \<Rightarrow> bool" where
  "stores cur ver q s s' \<longleftrightarrow>
     (\<exists>p p'. cur s (prov_key q) = Some p \<and> prov_rv p = prov_rv q \<and> cur s' = (cur s)(prov_key q \<mapsto> p')
        \<and> pr_Status p' = pr_Status q \<and> ver s (prov_key q, prov_rv p') = None)"

definition versioned ::
  "'s Client \<Rightarrow> ('s \<Rightarrow> prov_key \<Rightarrow> Provision option) \<Rightarrow> ('s \<Rightarrow> prov_key \<times> nat \<Rightarrow> Provision option) \<Rightarrow> bool" where
  "versioned c cur ver \<longleftrightarrow>
     (\<forall>s k p. cur s k = Some p \<longrightarrow> ver s (k, prov_rv p) = Some p)
   \<and> (\<forall>s ns n x s'. Get_Provision c ns n s = (x, s') \<longrightarrow> cur s' = cur s \<and> ver s \<subseteq>\<^sub>m ver s'
        \<and> (\<forall>p. x = Inr p \<longrightarrow> prov_key p = (ns, n) \<and> ver s' ((ns, n), prov_rv p) = Some p))
   \<and> (\<forall>s q x s'. Update_Provision_status c q s = (x, s') \<longrightarrow> ver s \<subseteq>\<^sub>m ver s'
        \<and> (cur s' = cur s \<and> isl x \<or> stores cur ver q s s')
        \<and> ((\<exists>t. x = Inl (ApiConflict t) \<or> x = Inl (ApiNotFound t)) \<longrightarrow> cur s' = cur s))"

lemma versioned_laws:
  assumes "versioned c cur ver"
  shows current_version: "cur s k = Some p \<Longrightarrow> ver s (k, prov_rv p) = Some p"
    and get_version: "Get_Provision c ns n s = (x, s') \<Longrightarrow> cur s' = cur s \<and> ver s \<subseteq>\<^sub>m ver s'"
    and got_version: "Get_Provision c ns n s = (Inr p, s') \<Longrightarrow> prov_key p = (ns, n) \<and> ver s' (prov_key p, prov_rv p) = Some p"
    and update_versions: "Update_Provision_status c q s = (x, s') \<Longrightarrow> ver s \<subseteq>\<^sub>m ver s'"
    and update_stores: "Update_Provision_status c q s = (x, s') \<Longrightarrow> cur s' = cur s \<and> isl x \<or> stores cur ver q s s'"
    and update_refused: "Update_Provision_status c q s = (Inl e, s') \<Longrightarrow> IsConflict (ApiErr e) \<or> IsNotFound (ApiErr e) \<Longrightarrow> cur s' = cur s"
proof -
  note v = assms [unfolded versioned_def]
  show "cur s k = Some p \<Longrightarrow> ver s (k, prov_rv p) = Some p" using v [THEN conjunct1] by (cases k) simp
  note g = v [THEN conjunct2, THEN conjunct1, rule_format]
  show "Get_Provision c ns n s = (x, s') \<Longrightarrow> cur s' = cur s \<and> ver s \<subseteq>\<^sub>m ver s'" using g [of ns n s x s'] by simp
  show "Get_Provision c ns n s = (Inr p, s') \<Longrightarrow> prov_key p = (ns, n) \<and> ver s' (prov_key p, prov_rv p) = Some p"
    using g [of ns n s "Inr p" s'] by simp
  note u = v [THEN conjunct2, THEN conjunct2, rule_format]
  show "Update_Provision_status c q s = (x, s') \<Longrightarrow> ver s \<subseteq>\<^sub>m ver s'" using u [of q s x s'] by simp
  show "Update_Provision_status c q s = (x, s') \<Longrightarrow> cur s' = cur s \<and> isl x \<or> stores cur ver q s s'"
    using u [of q s x s'] by simp
  show "Update_Provision_status c q s = (Inl e, s') \<Longrightarrow> IsConflict (ApiErr e) \<or> IsNotFound (ApiErr e) \<Longrightarrow> cur s' = cur s"
    using u [of q s "Inl e" s'] by (cases e) simp_all
qed

lemma map_leD: "m \<subseteq>\<^sub>m m' \<Longrightarrow> m x = Some v \<Longrightarrow> m' x = Some v"
  by (auto simp: map_le_def dom_def)

section \<open>The step relation\<close>

text \<open>
  Other clients: they create provisions that have no phase yet or the default one, delete them and
  change anything but the status; every version they store is new.
\<close>

definition other_client ::
  "('s \<Rightarrow> prov_key \<Rightarrow> Provision option) \<Rightarrow> ('s \<Rightarrow> prov_key \<times> nat \<Rightarrow> Provision option) \<Rightarrow> 's \<Rightarrow> 's \<Rightarrow> bool" where
  "other_client cur ver s s' \<longleftrightarrow> ver s \<subseteq>\<^sub>m ver s' \<and>
     (\<forall>k. cur s' k = cur s k \<or> cur s' k = None
        \<or> (\<exists>p'. cur s' k = Some p' \<and> ver s (k, prov_rv p') = None
             \<and> (case cur s k of
                  None \<Rightarrow> phase p' \<in> {ProvisionPhaseUnset, ProvisionPhasePending}
                | Some p \<Rightarrow> pr_Status p' = pr_Status p)))"

text \<open>
  A state is that of the server and, for every request or reconciliation under way, the object it is
  about to write.
\<close>

type_synonym 's prov_state = "'s \<times> (nat \<Rightarrow> Provision option)"

inductive prov_step ::
  "'s Client \<Rightarrow> ('s \<Rightarrow> prov_key \<Rightarrow> Provision option) \<Rightarrow> ('s \<Rightarrow> prov_key \<times> nat \<Rightarrow> Provision option)
   \<Rightarrow> 's prov_state \<Rightarrow> 's prov_state \<Rightarrow> bool" for c cur ver where
  look: "Get_Provision c ns n s = (x, s') \<Longrightarrow> prov_step c cur ver (s, ts) (s', ts)"
| read: "Get_Provision c ns n s = (Inr p, s') \<Longrightarrow> validTransitions target = Some (phase p) \<Longrightarrow>
         prov_step c cur ver (s, ts) (s', ts(i \<mapsto> with_phase target message now p))"
| start: "Get_Provision c ns n s = (Inr p, s') \<Longrightarrow> phase p = ProvisionPhaseUnset \<Longrightarrow>
         prov_step c cur ver (s, ts) (s', ts(i \<mapsto> started p))"
| update: "ts i = Some q \<Longrightarrow> Update_Provision_status c q s = (x, s') \<Longrightarrow>
         prov_step c cur ver (s, ts) (s', ts(i := None))"
| other: "other_client cur ver s s' \<Longrightarrow> prov_step c cur ver (s, ts) (s', ts)"

inductive_cases prov_stepE: "prov_step c cur ver (s, ts) st'"

text \<open>The moves of the program.\<close>

inductive phase_move :: "ProvisionPhase \<Rightarrow> ProvisionPhase \<Rightarrow> bool" where
  to_pending: "phase_move ProvisionPhaseUnset ProvisionPhasePending"
| to_progress: "phase_move ProvisionPhasePending ProvisionPhaseInProgress"
| to_complete: "phase_move ProvisionPhaseInProgress ProvisionPhaseComplete"

code_pred phase_move .

inductive_simps phase_move_to: "phase_move a b"

lemma with_phase_simps [simp]:
  "prov_key (with_phase t m now p) = prov_key p" "prov_rv (with_phase t m now p) = prov_rv p" "phase (with_phase t m now p) = t"
  "prov_key (started p) = prov_key p" "prov_rv (started p) = prov_rv p" "phase (started p) = ProvisionPhasePending"
  by (simp_all add: with_phase_def started_def prov_key_def)

lemma validTransitions_move: "validTransitions t = Some a \<Longrightarrow> phase_move a t"
  by (auto simp: validTransitions_def phase_move_to split: if_splits)

section \<open>The invariant\<close>

text \<open>Every object about to be written is one move ahead of the version it was made from.\<close>

definition drafts_ok :: "('s \<Rightarrow> prov_key \<times> nat \<Rightarrow> Provision option) \<Rightarrow> 's prov_state \<Rightarrow> bool" where
  "drafts_ok ver st \<longleftrightarrow>
     (\<forall>i q. snd st i = Some q \<longrightarrow>
        (\<exists>p. ver (fst st) (prov_key q, prov_rv q) = Some p \<and> phase_move (phase p) (phase q)))"

lemma prov_step_versions:
  assumes "versioned c cur ver" and "prov_step c cur ver st st'"
  shows "ver (fst st) \<subseteq>\<^sub>m ver (fst st')"
  using assms(2)
  by cases (auto dest: get_version [OF assms(1)] update_versions [OF assms(1)] simp: other_client_def)

lemma drafts_ok_step:
  assumes v: "versioned c cur ver" and "prov_step c cur ver st st'" and "drafts_ok ver st"
  shows "drafts_ok ver st'"
proof -
  have old: "\<exists>p. ver (fst st') (prov_key q, prov_rv q) = Some p \<and> phase_move (phase p) (phase q)"
    if "snd st i = Some q" for i q
    using assms(3) that prov_step_versions [OF v assms(2)] unfolding drafts_ok_def by (meson map_leD)
  show ?thesis using assms(2)
  proof cases
    case (read ns n s p s' target ts i message now)
    then show ?thesis using old got_version [OF v read(3)] validTransitions_move [OF read(4)]
      by (auto simp: drafts_ok_def)
  next
    case (start ns n s p s' ts i)
    then show ?thesis using old got_version [OF v start(3)] to_pending by (auto simp: drafts_ok_def)
  qed (use old in \<open>auto simp: drafts_ok_def\<close>)
qed

lemma drafts_ok_reachable:
  assumes "versioned c cur ver" and "(prov_step c cur ver)\<^sup>*\<^sup>* st st'" and "drafts_ok ver st"
  shows "drafts_ok ver st'"
  using assms(2,3) by (induction rule: rtranclp_induct) (auto intro: drafts_ok_step [OF assms(1)])

lemma drafts_ok_start: "drafts_ok ver (s, \<lambda>_. None)"
  by (simp add: drafts_ok_def)

text \<open>A stored update is one move ahead of what it replaces.\<close>

lemma stores_move:
  assumes v: "versioned c cur ver" and "stores cur ver q s s'"
    and "ver s (prov_key q, prov_rv q) = Some p0" and "phase_move (phase p0) (phase q)"
    and "cur s k = Some p" and "cur s' k = Some p'"
  shows "pr_Status p' = pr_Status p \<or> phase_move (phase p) (phase p')"
proof -
  obtain p1 p2 where c: "cur s (prov_key q) = Some p1" "prov_rv p1 = prov_rv q" "cur s' = (cur s)(prov_key q \<mapsto> p2)"
    "pr_Status p2 = pr_Status q"
    using assms(2) by (auto simp: stores_def)
  have "p1 = p0" using current_version [OF v c(1)] c(2) assms(3) by simp
  then show ?thesis using c assms(4-6) by (cases "k = prov_key q") auto
qed

lemma prov_step_move:
  assumes v: "versioned c cur ver" and "prov_step c cur ver st st'" and "drafts_ok ver st"
    and "cur (fst st) k = Some p" and "cur (fst st') k = Some p'"
  shows "pr_Status p' = pr_Status p \<or> phase_move (phase p) (phase p')"
  using assms(2)
proof cases
  case (update ts i q s x s')
  from assms(3) update obtain p0 where "ver s (prov_key q, prov_rv q) = Some p0" "phase_move (phase p0) (phase q)"
    by (auto simp: drafts_ok_def)
  with update_stores [OF v update(4)] stores_move [OF v, of q s s' p0 k p p'] show ?thesis
    using assms(4,5) update by auto
next
  case (other s s' ts)
  then consider "cur s' k = cur s k" | "cur s' k = None" | p'' where "cur s' k = Some p''" "pr_Status p'' = pr_Status p"
    using assms(4) unfolding other_client_def by (fastforce split: option.splits)
  then show ?thesis using assms(4,5) other by cases auto
qed (use assms(4,5) get_version [OF v] in \<open>fastforce+\<close>)

section \<open>The code runs in these steps\<close>

lemma prov_step_fun: "prov_step c cur ver st st' \<Longrightarrow> (prov_step c cur ver)\<^sup>*\<^sup>* st' st'' \<Longrightarrow> (prov_step c cur ver)\<^sup>*\<^sup>* st st''"
  by (rule converse_rtranclp_into_rtranclp)

lemma read_update_steps:
  assumes "prov_step c cur ver (s, \<lambda>_. None) (s1, (\<lambda>_. None)(0 \<mapsto> q))" and "Update_Provision_status c q s1 = (x, s2)"
  shows "(prov_step c cur ver)\<^sup>*\<^sup>* (s, \<lambda>_. None) (s2, \<lambda>_. None)"
proof -
  have "prov_step c cur ver (s1, (\<lambda>_. None)(0 \<mapsto> q)) (s2, ((\<lambda>_. None)(0 \<mapsto> q))(0 := None))"
    by (rule prov_step.update [OF _ assms(2)]) simp
  then show ?thesis using assms(1) by (simp add: prov_step_fun r_into_rtranclp)
qed

lemma UpdateProvisionPhase_wp:
  "wp (UpdateProvisionPhase c ns n target message)
     (\<lambda>x w'. (prov_step c cur ver)\<^sup>*\<^sup>* (w_api w, \<lambda>_. None) (w_api w', \<lambda>_. None) \<and> w_fs w' = w_fs w
        \<and> (\<exists>ws. w_writes w' = ws @ w_writes w \<and> length ws \<le> 1)) w"
proof (cases "validTransitions target")
  case None
  then show ?thesis by (simp add: UpdateProvisionPhase_def wp_simps)
next
  case (Some a)
  obtain g s1 where g: "Get_Provision c ns n (w_api w) = (g, s1)" by fastforce
  have look: "(prov_step c cur ver)\<^sup>*\<^sup>* (w_api w, \<lambda>_. None) (s1, \<lambda>_. None)"
    using prov_step.look [OF g] by (rule r_into_rtranclp)
  show ?thesis
  proof (cases "\<exists>p. g = Inr p \<and> phase p = a")
    case False
    then show ?thesis using look g Some by (auto simp: UpdateProvisionPhase_def wp_simps api_call_def split: sum.splits)
  next
    case True
    then obtain p where p: "g = Inr p" "phase p = a" by blast
    let ?q = "with_phase target message (w_clock w) p"
    obtain x s2 where u: "Update_Provision_status c ?q s1 = (x, s2)" by fastforce
    have "prov_step c cur ver (w_api w, \<lambda>_. None) (s1, (\<lambda>_. None)(0 \<mapsto> ?q))"
      by (rule prov_step.read) (use g p Some in simp_all)
    from read_update_steps [OF this u] show ?thesis
      using g p Some u by (auto simp: UpdateProvisionPhase_def wp_simps api_call_def api_write_def metav1_Now_def Let_def split: sum.splits)
  qed
qed

lemma Provision_Reconcile_wp:
  "wp (Provision_Reconcile r ns n)
     (\<lambda>x w'. (prov_step (pvr_Client r) cur ver)\<^sup>*\<^sup>* (w_api w, \<lambda>_. None) (w_api w', \<lambda>_. None) \<and> w_fs w' = w_fs w) w"
proof -
  let ?c = "pvr_Client r"
  obtain g s1 where g: "Get_Provision ?c ns n (w_api w) = (g, s1)" by fastforce
  have look: "(prov_step ?c cur ver)\<^sup>*\<^sup>* (w_api w, \<lambda>_. None) (s1, \<lambda>_. None)"
    using prov_step.look [OF g] by (rule r_into_rtranclp)
  show ?thesis
  proof (cases "\<exists>p. g = Inr p \<and> phase p = ProvisionPhaseUnset")
    case False
    then show ?thesis using look g by (auto simp: Provision_Reconcile_def wp_simps api_call_def split: sum.splits)
  next
    case True
    then obtain p where p: "g = Inr p" "phase p = ProvisionPhaseUnset" by blast
    obtain x s2 where u: "Update_Provision_status ?c (started p) s1 = (x, s2)" by fastforce
    have "prov_step ?c cur ver (w_api w, \<lambda>_. None) (s1, (\<lambda>_. None)(0 \<mapsto> started p))"
      by (rule prov_step.start) (use g p in simp_all)
    from read_update_steps [OF this u] show ?thesis
      using g p u by (auto simp: Provision_Reconcile_def wp_simps api_call_def api_write_def Let_def split: sum.splits)
  qed
qed

section \<open>Moves\<close>

lemma phase_move_less: "phase_move a b \<Longrightarrow> a < b"
  by (auto simp: phase_move_to less_ProvisionPhase_def)

definition outside :: "ProvisionPhase \<Rightarrow> bool" where
  "outside a \<longleftrightarrow> a \<in> {ProvisionPhaseWaitingForBootSource, ProvisionPhaseFailed, ProvisionPhaseConfigError}"

lemma phase_move_outside: "phase_move a b \<Longrightarrow> \<not> outside a \<and> \<not> outside b"
  by (auto simp: phase_move_to outside_def)

lemma phase_moves:
  "phase_move\<^sup>*\<^sup>* a b \<Longrightarrow> a \<le> b \<and> (outside a \<or> outside b \<longrightarrow> b = a)
     \<and> (b = ProvisionPhaseComplete \<longrightarrow> a \<noteq> b \<longrightarrow> phase_move\<^sup>*\<^sup>* a ProvisionPhaseInProgress)"
proof (induction rule: rtranclp_induct)
  case (step b d)
  then show ?case using phase_move_less [of b d] phase_move_outside [of b d]
    by (auto simp: phase_move_to)
qed simp

text \<open>The steps during which an object is there.\<close>

definition kept_step ::
  "'s Client \<Rightarrow> ('s \<Rightarrow> prov_key \<Rightarrow> Provision option) \<Rightarrow> ('s \<Rightarrow> prov_key \<times> nat \<Rightarrow> Provision option)
   \<Rightarrow> prov_key \<Rightarrow> 's prov_state \<Rightarrow> 's prov_state \<Rightarrow> bool" where
  "kept_step c cur ver k st st' \<longleftrightarrow>
     prov_step c cur ver st st' \<and> cur (fst st) k \<noteq> None \<and> cur (fst st') k \<noteq> None"

lemma kept_moves:
  assumes v: "versioned c cur ver" and d: "drafts_ok ver st" and "(kept_step c cur ver k)\<^sup>*\<^sup>* st st'"
    and "cur (fst st) k = Some p"
  shows "drafts_ok ver st' \<and> (\<exists>p'. cur (fst st') k = Some p' \<and> phase_move\<^sup>*\<^sup>* (phase p) (phase p'))"
  using assms(3)
proof (induction rule: rtranclp_induct)
  case base
  then show ?case using assms(2,4) by simp
next
  case (step st1 st2)
  then obtain p1 where p1: "drafts_ok ver st1" "cur (fst st1) k = Some p1" "phase_move\<^sup>*\<^sup>* (phase p) (phase p1)" by blast
  obtain p2 where p2: "prov_step c cur ver st1 st2" "cur (fst st2) k = Some p2" using step(2) by (auto simp: kept_step_def)
  from prov_step_move [OF v p2(1) p1(1,2) p2(2)] have "phase_move\<^sup>*\<^sup>* (phase p) (phase p2)"
    using p1(3) rtranclp.rtrancl_into_rtrancl [of phase_move] by (metis rtranclp.rtrancl_into_rtrancl)
  then show ?case using drafts_ok_step [OF v p2(1) p1(1)] p2(2) by blast
qed

section \<open>A version that was replaced never comes back\<close>

definition replaced ::
  "('s \<Rightarrow> prov_key \<Rightarrow> Provision option) \<Rightarrow> ('s \<Rightarrow> prov_key \<times> nat \<Rightarrow> Provision option) \<Rightarrow> prov_key \<Rightarrow> nat \<Rightarrow> 's \<Rightarrow> bool" where
  "replaced cur ver k v s \<longleftrightarrow> ver s (k, v) \<noteq> None \<and> (\<forall>p. cur s k = Some p \<longrightarrow> prov_rv p \<noteq> v)"

lemma stores_replaced:
  assumes v: "versioned c cur ver" and "stores cur ver q s s'" and "ver s \<subseteq>\<^sub>m ver s'"
  shows "replaced cur ver (prov_key q) (prov_rv q) s'"
proof -
  obtain p p' where c: "cur s (prov_key q) = Some p" "prov_rv p = prov_rv q" "cur s' = (cur s)(prov_key q \<mapsto> p')"
    "ver s (prov_key q, prov_rv p') = None"
    using assms(2) by (auto simp: stores_def)
  have o: "ver s (prov_key q, prov_rv q) = Some p" using current_version [OF v c(1)] c(2) by simp
  then have "ver s' (prov_key q, prov_rv q) = Some p" by (rule map_leD [OF assms(3)])
  moreover have "prov_rv p' \<noteq> prov_rv q" using o c(4) by auto
  ultimately show ?thesis using c(3) by (simp add: replaced_def)
qed

lemma replaced_step:
  assumes v: "versioned c cur ver" and st: "prov_step c cur ver st st'" and r: "replaced cur ver k n (fst st)"
  shows "replaced cur ver k n (fst st')"
proof -
  have h: "ver (fst st') (k, n) \<noteq> None"
    using prov_step_versions [OF v st] r unfolding replaced_def by (cases "ver (fst st) (k, n)") (auto dest: map_leD)
  have "prov_rv p \<noteq> n" if "cur (fst st') k = Some p" for p
    using st
  proof cases
    case (update ts i q s x s')
    with update_stores [OF v update(4)] that r show ?thesis
      by (cases "k = prov_key q") (auto simp: stores_def replaced_def)
  next
    case (other s s' ts)
    then have "cur s' k = cur s k \<or> ver s (k, prov_rv p) = None"
      using that unfolding other_client_def by (metis fst_conv option.distinct(1) option.inject)
    then show ?thesis using that r other by (fastforce simp: replaced_def)
  qed (use that r get_version [OF v] in \<open>fastforce simp: replaced_def\<close>)+
  with h show ?thesis by (simp add: replaced_def)
qed

lemma replaced_reachable:
  assumes "versioned c cur ver" and "(prov_step c cur ver)\<^sup>*\<^sup>* st st'" and "replaced cur ver k n (fst st)"
  shows "replaced cur ver k n (fst st')"
  using assms(2,3) by (induction rule: rtranclp_induct) (auto intro: replaced_step [OF assms(1)])

lemma replaced_refuses:
  assumes "versioned c cur ver" and "replaced cur ver (prov_key q) (prov_rv q) s" and "Update_Provision_status c q s = (x, s')"
  shows "cur s' = cur s \<and> isl x"
  using update_stores [OF assms(1,3)] assms(2) by (auto simp: stores_def replaced_def)

section \<open>The effect of a report\<close>

lemma UpdateProvisionPhase_applied:
  assumes v: "versioned c cur ver" and "run_state (UpdateProvisionPhase c ns n target message) w = (x, w')"
  shows "(x = Inr () \<longrightarrow> (\<exists>p p'. cur (w_api w) (ns, n) = Some p \<and> validTransitions target = Some (phase p)
            \<and> cur (w_api w') = (cur (w_api w))((ns, n) \<mapsto> p')
            \<and> pr_Status p' = (pr_Status p)\<lparr>pr_Phase := target, pr_Message := message, pr_LastUpdated := Some (w_clock w)\<rparr>))
     \<and> (\<forall>e. x = Inl e \<longrightarrow> IsProvisionNotFound e \<or> IsProvisionPhaseError e \<longrightarrow> cur (w_api w') = cur (w_api w))
     \<and> w_fs w' = w_fs w \<and> (\<exists>ws. w_writes w' = ws @ w_writes w \<and> length ws \<le> 1)"
    (is "?ok \<and> ?refused \<and> _")
proof -
  obtain g s1 where g: "Get_Provision c ns n (w_api w) = (g, s1)" by fastforce
  note d = UpdateProvisionPhase_def IsProvisionNotFound_def IsProvisionPhaseError_def api_call_def api_write_def metav1_Now_def Let_def
  have "?ok \<and> ?refused"
  proof (cases "\<exists>p. g = Inr p \<and> validTransitions target = Some (phase p)")
    case False
    then show ?thesis using assms(2) g get_version [OF v g] by (auto simp: d split: option.splits sum.splits if_splits)
  next
    case True
    then obtain p where p: "g = Inr p" "validTransitions target = Some (phase p)" by blast
    let ?q = "with_phase target message (w_clock w) p"
    obtain u s2 where u: "Update_Provision_status c ?q s1 = (u, s2)" by fastforce
    have r: "x = (case u of Inl e \<Rightarrow> Inl (ApiErr e) | Inr _ \<Rightarrow> Inr ())" "w_api w' = s2"
      using assms(2) g p u by (auto simp: d)
    have k: "prov_key p = (ns, n)" "ver s1 (prov_key p, prov_rv p) = Some p" using got_version [OF v g [unfolded p(1)]] by auto
    have s1: "cur s1 = cur (w_api w)" using get_version [OF v g] by simp
    show ?thesis
    proof (cases u)
      case (Inl e)
      then show ?thesis using update_refused [OF v u [unfolded Inl]] r s1
        by (auto simp: IsProvisionNotFound_def IsProvisionPhaseError_def)
    next
      case (Inr y)
      then obtain p0 p' where st: "cur s1 (ns, n) = Some p0" "prov_rv p0 = prov_rv p" "cur s2 = (cur s1)((ns, n) \<mapsto> p')"
        "pr_Status p' = pr_Status ?q"
        using update_stores [OF v u] k by (auto simp: stores_def)
      have "p0 = p" using current_version [OF v st(1)] st(2) k by simp
      then show ?thesis using st r s1 p Inr by (auto simp: with_phase_def)
    qed
  qed
  moreover have "w_fs w' = w_fs w \<and> (\<exists>ws. w_writes w' = ws @ w_writes w \<and> length ws \<le> 1)"
    using wpD [OF UpdateProvisionPhase_wp assms(2), of cur ver] by simp
  ultimately show ?thesis by blast
qed

section \<open>The abstract life of a provision\<close>

text \<open>
  What the phase machine promises, without requests, versions or a cache: every provision by itself is
  created without a phase or Pending, moves along the line, and may be deleted.
\<close>

inductive key_step :: "ProvisionPhase option \<Rightarrow> ProvisionPhase option \<Rightarrow> bool" where
  stay: "key_step x x"
| create: "a = ProvisionPhaseUnset \<or> a = ProvisionPhasePending \<Longrightarrow> key_step None (Some a)"
| gone: "key_step (Some a) None"
| move: "phase_move a b \<Longrightarrow> key_step (Some a) (Some b)"

code_pred key_step .

definition life_step :: "(prov_key \<Rightarrow> ProvisionPhase option) \<Rightarrow> (prov_key \<Rightarrow> ProvisionPhase option) \<Rightarrow> bool" where
  "life_step f g \<longleftrightarrow> (\<forall>k. key_step (f k) (g k))"

definition phase_view :: "('s \<Rightarrow> prov_key \<Rightarrow> Provision option) \<Rightarrow> 's prov_state \<Rightarrow> prov_key \<Rightarrow> ProvisionPhase option" where
  "phase_view cur st k = map_option phase (cur (fst st) k)"

lemma prov_step_create:
  assumes v: "versioned c cur ver" and "prov_step c cur ver st st'"
    and "cur (fst st) k = None" and "cur (fst st') k = Some p'"
  shows "phase p' = ProvisionPhaseUnset \<or> phase p' = ProvisionPhasePending"
  using assms(2)
proof cases
  case (update ts i q s x s')
  then show ?thesis using update_stores [OF v update(4)] assms(3,4) by (auto simp: stores_def split: if_splits)
next
  case (other s s' ts)
  then have "cur s' k = cur s k \<or> cur s' k = None
      \<or> (\<exists>p'. cur s' k = Some p' \<and> phase p' \<in> {ProvisionPhaseUnset, ProvisionPhasePending})"
    using assms(3) unfolding other_client_def by (fastforce split: option.splits)
  then show ?thesis using assms(3,4) other by auto
qed (use assms(3,4) get_version [OF v] in \<open>fastforce+\<close>)

lemma prov_step_life:
  assumes "versioned c cur ver" and "drafts_ok ver st" and "prov_step c cur ver st st'"
  shows "life_step (phase_view cur st) (phase_view cur st')"
  unfolding life_step_def phase_view_def
proof
  fix k
  show "key_step (map_option phase (cur (fst st) k)) (map_option phase (cur (fst st') k))"
  proof (cases "cur (fst st) k")
    case None
    then show ?thesis
      using prov_step_create [OF assms(1,3) None] by (cases "cur (fst st') k") (auto intro: key_step.intros)
  next
    case (Some p)
    then show ?thesis
      using prov_step_move [OF assms(1,3,2) Some]
      by (cases "cur (fst st') k") (auto simp del: map_option_eq_Some intro: key_step.intros)
  qed
qed

end
