(* ===== verification/ProvisionProps.thy ===== *)
theory ProvisionProps
  imports ProvisionPhases
begin

text \<open>
  The properties of the phase of a provision, and the sample server of their witnesses: an object
  store with optimistic concurrency.
\<close>

section \<open>The sample server\<close>

type_synonym mem_state = "nat \<times> (prov_key \<Rightarrow> nat option) \<times> (prov_key \<times> nat \<Rightarrow> Provision option)"

fun mem_ver :: "mem_state \<Rightarrow> prov_key \<times> nat \<Rightarrow> Provision option" where
  "mem_ver (n, now, vers) = vers"

fun mem_cur :: "mem_state \<Rightarrow> prov_key \<Rightarrow> Provision option" where
  "mem_cur (n, now, vers) k =
     (case now k of
        None \<Rightarrow> None
      | Some v \<Rightarrow>
          (case vers (k, v) of
             None \<Rightarrow> None
           | Some p \<Rightarrow> if prov_rv p = v \<and> prov_key p = k then Some p else None))"

definition mem_get :: "string \<Rightarrow> string \<Rightarrow> mem_state \<Rightarrow> (api_error + Provision) \<times> mem_state" where
  "mem_get ns name s =
     (case mem_cur s (ns, name) of None \<Rightarrow> (Inl (ApiNotFound name), s) | Some p \<Rightarrow> (Inr p, s))"

fun mem_update :: "Provision \<Rightarrow> mem_state \<Rightarrow> (api_error + Provision) \<times> mem_state" where
  "mem_update q (n, now, vers) =
     (case mem_cur (n, now, vers) (prov_key q) of
        None \<Rightarrow> (Inl (ApiNotFound ''gone''), (n, now, vers))
      | Some p \<Rightarrow>
          if prov_rv p \<noteq> prov_rv q then (Inl (ApiConflict ''the object has been modified''), (n, now, vers))
          else if vers (prov_key q, n) \<noteq> None then (Inl (ApiOther ''retry''), (n, now, vers))
          else let p' = p\<lparr>pr_Status := pr_Status q, pr_meta := (pr_meta p)\<lparr>om_resourceVersion := n\<rparr>\<rparr>
               in (Inr p', (n + 1, now(prov_key q \<mapsto> n), vers((prov_key q, n) \<mapsto> p'))))"

definition mem_client :: "mem_state Client" where
  "mem_client =
     \<lparr>Get_BootArtifact = \<lambda>ns n s. (Inl (ApiNotFound n), s), Get_BootConfig = \<lambda>ns n s. (Inl (ApiNotFound n), s),
      Get_Provision = mem_get, Get_ProvisionAutomation = \<lambda>ns n s. (Inl (ApiNotFound n), s),
      Get_ConfigMap = \<lambda>ns n s. (Inl (ApiNotFound n), s), Get_Secret = \<lambda>ns n s. (Inl (ApiNotFound n), s),
      List_BootConfigs = \<lambda>ns s. (Inr [], s), List_Machines = \<lambda>ns sel s. (Inr [], s), List_Provisions = \<lambda>ns sel s. (Inr [], s),
      Update_BootArtifact_status = \<lambda>a s. (Inr a, s), Update_BootConfig_status = \<lambda>b s. (Inr b, s),
      Update_Provision_status = mem_update\<rparr>"

lemma mem_client_simps [simp]: "Get_Provision mem_client = mem_get" "Update_Provision_status mem_client = mem_update"
  by (simp_all add: mem_client_def)

lemma mem_cur_ver: "mem_cur s k = Some p \<Longrightarrow> mem_ver s (k, prov_rv p) = Some p \<and> prov_key p = k"
  by (cases s) (auto split: option.splits if_splits)

lemma mem_update_stores:
  assumes "mem_update q s = (x, s')"
  shows "mem_ver s \<subseteq>\<^sub>m mem_ver s' \<and> (mem_cur s' = mem_cur s \<and> isl x \<or> stores mem_cur mem_ver q s s')
     \<and> ((\<exists>t. x = Inl (ApiConflict t) \<or> x = Inl (ApiNotFound t)) \<longrightarrow> mem_cur s' = mem_cur s)"
proof -
  obtain n now vers where s: "s = (n, now, vers)" by (cases s)
  show ?thesis
  proof (cases "\<exists>p. mem_cur s (prov_key q) = Some p \<and> prov_rv p = prov_rv q \<and> vers (prov_key q, n) = None")
    case False
    then show ?thesis using assms s by (auto split: option.splits if_splits)
  next
    case True
    then obtain p where p: "mem_cur s (prov_key q) = Some p" "prov_rv p = prov_rv q" "vers (prov_key q, n) = None" by blast
    let ?p = "p\<lparr>pr_Status := pr_Status q, pr_meta := (pr_meta p)\<lparr>om_resourceVersion := n\<rparr>\<rparr>"
    have r: "x = Inr ?p" "s' = (n + 1, now(prov_key q \<mapsto> n), vers((prov_key q, n) \<mapsto> ?p))"
      using assms p by (simp_all add: s Let_def)
    have "prov_key ?p = prov_key q" using mem_cur_ver [OF p(1)] by (simp add: prov_key_def)
    then have "mem_cur s' = (mem_cur s)(prov_key q \<mapsto> ?p)" by (intro ext) (simp add: r s split: option.split)
    moreover have "mem_ver s \<subseteq>\<^sub>m mem_ver s'" using p(3) by (auto simp: map_le_def r s dom_def)
    ultimately show ?thesis using p by (auto simp: stores_def r(1) s)
  qed
qed

lemma mem_versioned: "versioned mem_client mem_cur mem_ver"
proof -
  have "mem_cur s' = mem_cur s \<and> mem_ver s \<subseteq>\<^sub>m mem_ver s'
      \<and> (\<forall>p. x = Inr p \<longrightarrow> prov_key p = (ns, n) \<and> mem_ver s' ((ns, n), prov_rv p) = Some p)"
    if "mem_get ns n s = (x, s')" for s ns n x s'
    using that mem_cur_ver [of s "(ns, n)"] by (auto simp: mem_get_def split: option.splits)
  moreover have "mem_ver s (k, prov_rv p) = Some p" if "mem_cur s k = Some p" for s k p using mem_cur_ver [OF that] by simp
  moreover note mem_update_stores
  ultimately show ?thesis
    unfolding versioned_def mem_client_simps by (intro conjI [of "\<forall>s k p. _ s k p"] conjI [of "\<forall>s ns n x s'. _ s ns n x s'"] allI impI) simp_all
qed

definition mem_prov :: Provision where
  "mem_prov =
     \<lparr>pr_meta = \<lparr>om_name = ''install'', om_namespace = ''default'', om_resourceVersion = 1\<rparr>,
      pr_Spec = \<lparr>pr_MachineRef = ''node'', pr_BootConfigRef = ''noble'', pr_ProvisionAutomationRef = ''auto'',
                 pr_ConfigMaps = [], pr_Secrets = []\<rparr>,
      pr_Status = \<lparr>pr_Phase = ProvisionPhasePending, pr_Message = [], pr_LastUpdated = None, pr_IP = []\<rparr>\<rparr>"

definition mem_key :: prov_key where
  "mem_key = (''default'', ''install'')"

definition mem_start :: mem_state where
  "mem_start = (2, Map.empty(mem_key \<mapsto> 1), Map.empty((mem_key, 1) \<mapsto> mem_prov))"

definition mem_world :: "mem_state \<Rightarrow> mem_state world" where
  "mem_world s =
     \<lparr>w_fs = [], w_sched = [], w_clock = 7, w_draws = \<lambda>_. 0, w_draw = 0, w_api = s, w_trace = [], w_writes = [],
      w_events = []\<rparr>"

lemma mem_prov_simps [simp]: "prov_key mem_prov = mem_key" "prov_rv mem_prov = 1" "phase mem_prov = ProvisionPhasePending"
  by (simp_all add: mem_prov_def prov_key_def mem_key_def)

lemma mem_cur_start [simp]: "mem_cur mem_start mem_key = Some mem_prov"
  by (simp add: mem_start_def)

lemma mem_get_start: "mem_get ''default'' ''install'' mem_start = (Inr mem_prov, mem_start)"
  using mem_cur_start by (simp add: mem_get_def mem_key_def)

definition mem_moved :: "ProvisionPhase \<Rightarrow> string \<Rightarrow> Provision" where
  "mem_moved t m = mem_prov\<lparr>pr_Status := pr_Status (with_phase t m 7 mem_prov), pr_meta := (pr_meta mem_prov)\<lparr>om_resourceVersion := 2\<rparr>\<rparr>"

definition mem_next :: "ProvisionPhase \<Rightarrow> string \<Rightarrow> mem_state" where
  "mem_next t m = (3, Map.empty(mem_key \<mapsto> 2), Map.empty((mem_key, 1) \<mapsto> mem_prov, (mem_key, 2) \<mapsto> mem_moved t m))"

lemma mem_moved_simps [simp]: "prov_key (mem_moved t m) = mem_key" "prov_rv (mem_moved t m) = 2" "phase (mem_moved t m) = t"
  using mem_prov_simps(1) by (simp_all add: mem_moved_def prov_key_def)

lemma mem_update_start: "mem_update (with_phase t m 7 mem_prov) mem_start = (Inr (mem_moved t m), mem_next t m)"
  by (simp add: mem_start_def mem_next_def mem_moved_def Let_def fun_upd_idem)

lemma mem_cur_next [simp]: "mem_cur (mem_next t m) mem_key = Some (mem_moved t m)"
  by (simp add: mem_next_def)

lemma mem_steps:
  "prov_step mem_client mem_cur mem_ver (mem_start, \<lambda>_. None)
     (mem_start, (\<lambda>_. None)(0 \<mapsto> with_phase ProvisionPhaseInProgress m 7 mem_prov))"
  "prov_step mem_client mem_cur mem_ver (mem_start, (\<lambda>_. None)(0 \<mapsto> with_phase ProvisionPhaseInProgress m 7 mem_prov))
     (mem_next ProvisionPhaseInProgress m, ((\<lambda>_. None)(0 \<mapsto> with_phase ProvisionPhaseInProgress m 7 mem_prov))(0 := None))"
proof -
  show "prov_step mem_client mem_cur mem_ver (mem_start, \<lambda>_. None)
     (mem_start, (\<lambda>_. None)(0 \<mapsto> with_phase ProvisionPhaseInProgress m 7 mem_prov))"
    by (rule prov_step.read [where ns = "''default''" and n = "''install''"]) (auto simp: mem_get_start validTransitions_def)
  show "prov_step mem_client mem_cur mem_ver (mem_start, (\<lambda>_. None)(0 \<mapsto> with_phase ProvisionPhaseInProgress m 7 mem_prov))
     (mem_next ProvisionPhaseInProgress m, ((\<lambda>_. None)(0 \<mapsto> with_phase ProvisionPhaseInProgress m 7 mem_prov))(0 := None))"
    by (rule prov_step.update [where q = "with_phase ProvisionPhaseInProgress m 7 mem_prov" and x = "Inr (mem_moved ProvisionPhaseInProgress m)"])
      (simp_all add: mem_update_start)
qed

section \<open>Properties\<close>







text \<open>
  A report that is acknowledged was applied, and one that is refused changed nothing. When no error is
  returned, the current version was in the phase the target must come from and now has the target
  phase, the message and the time; when the error is one of those the HTTP server answers with 404
  or 409, every provision is as before. At most one status is written.
\<close>

theorem report_applied:
  assumes v: "versioned c cur ver" and "run_state (UpdateProvisionPhase c ns n target message) w = (x, w')"
  shows "(x = Inr () \<longrightarrow> (\<exists>p p'. cur (w_api w) (ns, n) = Some p \<and> validTransitions target = Some (phase p)
            \<and> cur (w_api w') = (cur (w_api w))((ns, n) \<mapsto> p')
            \<and> pr_Status p' = (pr_Status p)\<lparr>pr_Phase := target, pr_Message := message, pr_LastUpdated := Some (w_clock w)\<rparr>))
     \<and> (\<forall>e. x = Inl e \<longrightarrow> IsProvisionNotFound e \<or> IsProvisionPhaseError e \<longrightarrow> cur (w_api w') = cur (w_api w))
     \<and> w_fs w' = w_fs w \<and> (\<exists>ws. w_writes w' = ws @ w_writes w \<and> length ws \<le> 1)"
  using UpdateProvisionPhase_applied [OF assms] .

theorem report_applied_witness:
  "\<exists>p'. mem_cur (w_api (snd (run_state (UpdateProvisionPhase mem_client ''default'' ''install'' ProvisionPhaseInProgress ''m'')
        (mem_world mem_start)))) mem_key = Some p' \<and> phase p' = ProvisionPhaseInProgress \<and> pr_LastUpdated (pr_Status p') = Some 7"
proof -
  let ?run = "run_state (UpdateProvisionPhase mem_client ''default'' ''install'' ProvisionPhaseInProgress ''m'') (mem_world mem_start)"
  have "fst ?run = Inr ()"
    by (simp add: UpdateProvisionPhase_def validTransitions_def api_call_def api_write_def metav1_Now_def Let_def mem_world_def
        mem_get_start mem_update_start)
  with report_applied [OF mem_versioned, of "''default''" "''install''" ProvisionPhaseInProgress "''m''" "mem_world mem_start" "fst ?run" "snd ?run"]
  show ?thesis by (auto simp: mem_key_def mem_world_def)
qed

text \<open>
  The reconciler starts a provision once and never touches it again: it writes at most once, and only
  phase Pending over a provision that had none; any other provision, and one that is gone, ends in the
  empty result without a write.
\<close>

theorem Provision_started_once:
  assumes "run_state (Provision_Reconcile r ns n) w = (out, w')"
    and "Get_Provision (pvr_Client r) ns n (w_api w) = (g, s)"
  shows "w_fs w' = w_fs w
     \<and> (case g of
          Inl e \<Rightarrow> w_writes w' = w_writes w \<and> w_api w' = s \<and> (out = Result 0 \<longleftrightarrow> IsNotFound (ApiErr e))
        | Inr p \<Rightarrow>
            if phase p = ProvisionPhaseUnset
            then w_writes w' = (ProvStatus (started p), w_fs w) # w_writes w
                 \<and> w_api w' = snd (Update_Provision_status (pvr_Client r) (started p) s)
                 \<and> (out = Result 0 \<longleftrightarrow> \<not> isl (fst (Update_Provision_status (pvr_Client r) (started p) s)))
            else w_writes w' = w_writes w \<and> w_api w' = s \<and> out = Result 0)"
  using assms
  by (auto simp: Provision_Reconcile_def api_call_def api_write_def Let_def split: sum.splits if_splits prod.splits)

theorem Provision_started_once_witness:
  "fst (run_state (Provision_Reconcile \<lparr>pvr_Client = mem_client\<rparr> ''default'' ''install'') (mem_world mem_start)) = Result 0"
  using Provision_started_once [OF prod.collapse [symmetric], of "\<lparr>pvr_Client = mem_client\<rparr>" "''default''" "''install''" "mem_world mem_start"
      "Inr mem_prov" mem_start]
  by (simp add: mem_get_start mem_world_def)

end
