(* ===== verification/HttpdProps.thy ===== *)
theory HttpdProps
  imports HttpdServer ProvisionProps
begin

text \<open>
  The properties of the HTTP server, and the sample cluster of their witnesses: machines and provisions
  in lists, one config, two artifacts, and templates whose text is copied.
\<close>

section \<open>The sample cluster\<close>

type_synonym web_state = "Machine list \<times> Provision list"

definition web_machine :: "string \<Rightarrow> string \<Rightarrow> Machine" where
  "web_machine n mac =
     \<lparr>mach_meta = \<lparr>om_name = n, om_namespace = ''default'', om_resourceVersion = 1\<rparr>, mach_Spec = \<lparr>mach_MAC = mac\<rparr>\<rparr>"

definition web_artifact :: "string \<Rightarrow> string \<Rightarrow> BootArtifact" where
  "web_artifact n url =
     \<lparr>ba_meta = \<lparr>om_name = n, om_namespace = ''default'', om_resourceVersion = 1\<rparr>,
      ba_Spec = \<lparr>ba_URL = url, ba_SHA256 = Some (replicate 64 CHR ''0''), ba_SHA512 = None\<rparr>,
      ba_Status = \<lparr>ba_Phase = BootArtifactPhaseReady, ba_Message = [], ba_FailureCount = 0, ba_LastFailureTime = None,
                   ba_LastChecked = None\<rparr>\<rparr>"

definition web_config :: BootConfig where
  "web_config =
     \<lparr>bc_meta = \<lparr>om_name = ''noble'', om_namespace = ''default'', om_resourceVersion = 1\<rparr>,
      bc_Spec = \<lparr>bc_Netboot = Some \<lparr>nb_KernelRef = ''kern'', nb_InitrdRef = ''init'', nb_FirmwareRef = []\<rparr>, bc_ISO = None,
                 bc_KernelArgs = ''quiet''\<rparr>,
      bc_Status = \<lparr>bc_Phase = BootConfigPhaseReady, bc_Message = []\<rparr>\<rparr>"

definition web_automation :: ProvisionAutomation where
  "web_automation =
     \<lparr>pa_meta = \<lparr>om_name = ''auto'', om_namespace = ''default'', om_resourceVersion = 1\<rparr>,
      pa_Spec = \<lparr>pa_Files = Map.empty(''user-data'' \<mapsto> ''hello'')\<rparr>\<rparr>"

definition web_client :: "web_state Client" where
  "web_client =
     \<lparr>Get_BootArtifact = \<lambda>ns n s.
        (if n = ''kern'' then Inr (web_artifact n ''https://example.com/vmlinuz'')
         else if n = ''init'' then Inr (web_artifact n ''https://example.com/initrd.img'')
         else Inl (ApiNotFound n), s),
      Get_BootConfig = \<lambda>ns n s. (if n = ''noble'' then Inr web_config else Inl (ApiNotFound n), s),
      Get_Provision = \<lambda>ns n s. (case find (\<lambda>p. om_name (pr_meta p) = n) (snd s) of None \<Rightarrow> Inl (ApiNotFound n) | Some p \<Rightarrow> Inr p, s),
      Get_ProvisionAutomation = \<lambda>ns n s. (if n = ''auto'' then Inr web_automation else Inl (ApiNotFound n), s),
      Get_ConfigMap = \<lambda>ns n s.
        (if n = ''common'' then Inr (Map.empty(''tz'' \<mapsto> ''UTC'', ''user'' \<mapsto> ''root''))
         else if n = ''site'' then Inr (Map.empty(''user'' \<mapsto> ''admin'')) else Inl (ApiNotFound n), s),
      Get_Secret = \<lambda>ns n s. (if n = ''pw'' then Inr (Map.empty(''hash'' \<mapsto> ''x'')) else Inl (ApiNotFound n), s),
      List_BootConfigs = \<lambda>ns s. (Inr [], s),
      List_Machines = \<lambda>ns sel s. (Inr (filter (\<lambda>m. om_namespace (mach_meta m) = ns \<and> selects Machine_indexers sel m) (fst s)), s),
      List_Provisions = \<lambda>ns sel s. (Inr (filter (\<lambda>p. om_namespace (pr_meta p) = ns \<and> selects Provision_indexers sel p) (snd s)), s),
      Update_BootArtifact_status = \<lambda>a s. (Inr a, s), Update_BootConfig_status = \<lambda>b s. (Inr b, s),
      Update_Provision_status = \<lambda>p s. (Inr p, s)\<rparr>"

lemma web_lists: "lists_by_index web_client fst snd"
  by (simp add: lists_by_index_def web_client_def)

definition web_templates :: "string Templates" where
  "web_templates = \<lparr>tm_Parse = \<lambda>name t. Inr t, tm_ExecuteArgs = \<lambda>t d. Inr t, tm_ExecuteFile = \<lambda>t d. Inr t\<rparr>"

definition web_prov :: "string list \<Rightarrow> string list \<Rightarrow> Provision" where
  "web_prov cms secrets = mem_prov\<lparr>pr_Spec := (pr_Spec mem_prov)\<lparr>pr_ConfigMaps := cms, pr_Secrets := secrets\<rparr>\<rparr>"

definition web_mac :: string where
  "web_mac = ''aa-bb-cc-dd-ee-ff''"

definition web_state :: web_state where
  "web_state = ([web_machine ''node'' web_mac, web_machine ''other'' ''aa-bb-cc-dd-ee-00''], [web_prov [] []])"

definition web_world :: "web_state \<Rightarrow> web_state world" where
  "web_world s =
     \<lparr>w_fs = [], w_sched = [], w_clock = 7, w_draws = \<lambda>_. 0, w_draw = 0, w_api = s, w_trace = [], w_writes = [],
      w_events = []\<rparr>"

definition web_request :: "(string \<times> string) list \<Rightarrow> (string \<times> string) list \<Rightarrow> (string \<times> string) list \<Rightarrow> Request" where
  "web_request query form header =
     \<lparr>rq_Method = ''GET'', rq_Path = [], rq_Query = query, rq_Form = form, rq_Header = header, rq_Host = ''10.0.0.1:8080''\<rparr>"

lemma web_run_mac: "matches macRegexp web_mac" "web_mac \<noteq> []"
  by code_simp+

section \<open>The lookup by MAC address\<close>

text \<open>
  C16. The lookup by MAC address finds the one pending provision of the one machine. Given the indexes
  the manager registers, and whatever the order of the lists: it finds a provision exactly when one
  machine of the namespace has this MAC address and one Pending provision refers to it; nothing
  exactly when there is no such machine, or no Pending provision for the only one; and otherwise it
  reports a duplicate. It writes nothing.
\<close>

theorem lookup_exact:
  assumes "lists_by_index c machines provisions" and "mac \<noteq> []"
    and "\<forall>m \<in> set (machines (w_api w)). om_name (mach_meta m) \<noteq> []"
    and "run_state (PendingProvisionForMAC c ns mac) w = (x, w')"
  shows "(x = Inr (Some p) \<longleftrightarrow>
          (\<exists>m. machines_with ns mac (machines (w_api w)) = [m] \<and> pending_of ns (om_name (mach_meta m)) (provisions (w_api w)) = [p]))
     \<and> (x = Inr None \<longleftrightarrow> machines_with ns mac (machines (w_api w)) = []
          \<or> (\<exists>m. machines_with ns mac (machines (w_api w)) = [m] \<and> pending_of ns (om_name (mach_meta m)) (provisions (w_api w)) = []))
     \<and> (\<forall>e. x = Inl e \<longrightarrow> IsDuplicateError e)
     \<and> untouched w w'"
proof -
  let ?ms = "machines_with ns mac (machines (w_api w))"
  have x: "x = pending_for ns mac (machines (w_api w)) (provisions (w_api w))"
    using wpD [OF PendingProvisionForMAC_wp [OF assms(1-3)] assms(4)] by simp
  have "untouched w w'" using keeps_run [OF PendingProvisionForMAC_untouched _ assms(4), of w] by simp
  then show ?thesis
  proof (cases rule: list_01 [of ?ms])
    case (2 m)
    then show ?thesis using x \<open>untouched w w'\<close>
      by (cases rule: list_01 [of "pending_of ns (om_name (mach_meta m)) (provisions (w_api w))"])
        (auto simp: pending_for_def IsDuplicateError_def)
  qed (use x in \<open>simp_all add: pending_for_def IsDuplicateError_def\<close>)
qed

theorem lookup_exact_witness:
  "fst (run_state (PendingProvisionForMAC web_client ''default'' web_mac) (web_world web_state)) = Inr (Some (web_prov [] []))"
proof -
  have "machines_with ''default'' web_mac (fst web_state) = [web_machine ''node'' web_mac]"
    "pending_of ''default'' ''node'' (snd web_state) = [web_prov [] []]" by code_simp+
  moreover have "\<forall>m \<in> set (fst (w_api (web_world web_state))). om_name (mach_meta m) \<noteq> []"
    by (simp add: web_world_def web_state_def web_machine_def)
  ultimately show ?thesis
    using lookup_exact [OF web_lists _ _ prod.collapse [symmetric], of web_mac "web_world web_state" "''default''" "web_prov [] []"] web_run_mac
    by (simp add: web_world_def web_machine_def)
qed

text \<open>
  The server and the API accept the same MAC addresses: what the handler lets through is exactly what
  the validation of a \<^verbatim>\<open>Machine\<close> lets through, twelve hexadecimal digits of either case in six pairs with
  hyphens; in particular the value is not empty and holds no character with a meaning in a path.
\<close>

theorem mac_formats_agree:
  "matches macRegexp s = valid_MachineSpec \<lparr>mach_MAC = s\<rparr>
   \<and> (matches macRegexp s \<longrightarrow> s \<noteq> [] \<and> set s \<subseteq> set (CHR ''-'' # hex_class))"
proof -
  have "matches macRegexp s = valid_MachineSpec \<lparr>mach_MAC = s\<rparr>"
    by (simp add: valid_MachineSpec_def macRegexp_def mac_re_def)
  moreover have "set s \<subseteq> set (CHR ''-'' # hex_class)" if "matches macRegexp s"
  proof -
    have "alphabet (RRep n r) \<subseteq> alphabet r" for n r
      by (induction n) (auto simp: RRep_0 RRep_Suc)
    from this [of 5 "RSeq (RRep 2 (RCls hex_class)) (RCls ''-'')"] this [of 2 "RCls hex_class"]
    have "alphabet macRegexp \<subseteq> set (CHR ''-'' # hex_class)" by (auto simp: macRegexp_def)
    with in_re_alphabet [of macRegexp s] that show ?thesis by (auto simp: matches_iff)
  qed
  moreover have "\<not> matches macRegexp []" by code_simp
  ultimately show ?thesis by (metis)
qed

theorem mac_formats_agree_witness: "set web_mac \<subseteq> set (CHR ''-'' # hex_class)"
  using mac_formats_agree [of web_mac] web_run_mac(1) by simp

text \<open>
  The lookup compares the letters of a MAC address exactly, although both formats accept either case.
  iPXE sends lower-case digits: a machine whose address was entered with a capital letter is
  answered as if it were unknown, even when it is the only machine and has a pending provision.
\<close>

theorem mac_case_sensitive:
  assumes "lists_by_index c machines provisions" and "machines (w_api w) = [m]"
    and "valid_MachineSpec (mach_Spec m)" and "mach_MAC (mach_Spec m) \<noteq> map ascii_lower (mach_MAC (mach_Spec m))"
    and "run_state (BootDirectiveForMAC c ns (map ascii_lower (mach_MAC (mach_Spec m)))) w = (x, w')"
  shows "x = Inr None"
proof -
  let ?mac = "map ascii_lower (mach_MAC (mach_Spec m))"
  have ne: "?mac \<noteq> []" using assms(4) by auto
  obtain items s where l: "List_Machines c ns [(MachineSpecMACField, ?mac)] (w_api w) = (Inr items, s)"
    "mset items = mset (machines_with ns ?mac (machines (w_api w)))"
    by (rule List_Machines_mac [OF assms(1) ne])
  then have "items = []" using assms(2,4) by (simp add: machines_with_def)
  then show ?thesis using assms(5) l(1) by (simp add: BootDirectiveForMAC_def PendingProvisionForMAC_def api_call_def)
qed

theorem mac_case_sensitive_witness:
  "fst (run_state (BootDirectiveForMAC web_client ''default'' ''aa-bb-cc-dd-ee-ff'')
      (web_world ([web_machine ''node'' ''AA-BB-CC-DD-EE-FF''], [web_prov [] []]))) = Inr None"
proof -
  let ?m = "web_machine ''node'' ''AA-BB-CC-DD-EE-FF''"
  have "valid_MachineSpec (mach_Spec ?m)" "map ascii_lower (mach_MAC (mach_Spec ?m)) = ''aa-bb-cc-dd-ee-ff''"
    "mach_MAC (mach_Spec ?m) = ''AA-BB-CC-DD-EE-FF''"
    by code_simp+
  then show ?thesis
    using mac_case_sensitive [OF web_lists _ _ _ prod.collapse [symmetric], of "web_world ([?m], [web_prov [] []])" ?m "''default''"]
    by (simp add: web_world_def)
qed

section \<open>The boot script\<close>

text \<open>
  C27. What a machine that asks is answered. The query is refused with 400, without asking the cluster, when
  it has no well-formed MAC address; otherwise the status is 409 exactly for duplicate machines or
  provisions, 404 exactly when nothing is pending for the address, and 200 or 500 when a provision
  was found. No answer changes a status or the file system.
\<close>

theorem boot_answers:
  assumes "lists_by_index c machines provisions"
    and "\<forall>m \<in> set (machines (w_api w)). om_name (mach_meta m) \<noteq> []"
    and "mac = first_value (rq_Query r) ''mac''"
    and "found = pending_for ns mac (machines (w_api w)) (provisions (w_api w))"
    and "run_state (conditionalBootHandler tm (BootDirectiveForMAC c ns) proxyPort r) w = (resp, w')"
  shows "untouched w w'
     \<and> (\<not> matches macRegexp mac \<longrightarrow> rs_Status resp = 400 \<and> w' = w)
     \<and> (matches macRegexp mac \<longrightarrow>
          (case found of
             Inl e \<Rightarrow> rs_Status resp = 409
           | Inr None \<Rightarrow> rs_Status resp = 404
           | Inr (Some p) \<Rightarrow> rs_Status resp = 200 \<or> rs_Status resp = 500))"
proof -
  have empty: "\<not> matches macRegexp []" by code_simp
  show ?thesis
  proof (cases "matches macRegexp mac")
    case False
    then show ?thesis using assms(3,5) by (auto simp: conditionalBootHandler_def http_Error_def Let_def split: if_splits)
  next
    case True
    then have ne: "mac \<noteq> []" using empty by auto
    obtain x w1 where g: "run_state (BootDirectiveForMAC c ns mac) w = (x, w1)" by (rule prod.exhaust)
    have u: "untouched w w1" using keeps_run [OF BootDirectiveForMAC_untouched _ g, of w] by simp
    note o = wpD [OF BootDirectiveForMAC_wp [OF assms(1) ne assms(2)] g]
    show ?thesis using True ne u g o assms(3-5) pending_for_duplicate [of ns mac]
      by (auto simp: conditionalBootHandler_def http_Error_def ok_text_def Let_def split: if_splits sum.splits option.splits)
  qed
qed

theorem boot_answers_witness:
  "rs_Status (fst (run_state (conditionalBootHandler web_templates (BootDirectiveForMAC web_client ''default'') []
      (web_request [(''mac'', web_mac)] [] [])) (web_world ([], [])))) = 404"
proof -
  have "pending_for ''default'' web_mac (fst (w_api (web_world ([], [])))) (snd (w_api (web_world ([], [])))) = Inr None"
    by (simp add: pending_for_def machines_with_def web_world_def)
  with boot_answers [OF web_lists _ refl refl prod.collapse [symmetric], where w = "web_world ([], [])"
      and r = "web_request [(''mac'', web_mac)] [] []" and ns = "''default''" and tm = web_templates and proxyPort = "[]"]
    web_run_mac(1)
  show ?thesis by (simp add: web_request_def first_value_def web_world_def)
qed

lemma split_four:
  "newline \<notin> set a \<Longrightarrow> newline \<notin> set b \<Longrightarrow> newline \<notin> set c \<Longrightarrow> newline \<notin> set d \<Longrightarrow>
   split_on newline (a @ newline # b @ newline # c @ newline # d @ [newline]) = [a, b, c, d, []]"
  by (simp add: split_on_append split_on_free)

lemma boot_script_split:
  assumes "newline \<notin> set (bd_KernelPath d @ args @ bd_InitrdPath d)"
  shows "split_on newline (boot_script (d\<lparr>bd_KernelArgs := args\<rparr>)) =
    [''#!ipxe'', ''kernel /static/'' @ bd_KernelPath d @ (if args = [] then [] else CHR '' '' # args),
     ''initrd /static/'' @ bd_InitrdPath d, ''boot'', []]"
proof -
  have "boot_script (d\<lparr>bd_KernelArgs := args\<rparr>) = ''#!ipxe'' @ newline # (''kernel /static/'' @ bd_KernelPath d
      @ (if args = [] then [] else CHR '' '' # args)) @ newline # (''initrd /static/'' @ bd_InitrdPath d) @ newline # ''boot'' @ [newline]"
    by (simp add: boot_script_def)
  then show ?thesis using assms by (simp only:) (rule split_four; auto simp: newline_def)
qed

text \<open>
  C26. A 200 is the script of the directive that was found. Its body is the script with the rendered kernel
  arguments and its length is announced; as long as the paths and the arguments hold no newline
  it has exactly the lines of an iPXE script: the shebang, the kernel below \<^verbatim>\<open>/static/\<close> with its
  arguments, the initrd, and \<^verbatim>\<open>boot\<close>.
\<close>

theorem boot_script_lines:
  assumes "run_state (conditionalBootHandler tm getDirective proxyPort r) w = (resp, w')" and "rs_Status resp = 200"
  shows "\<exists>d args. fst (run_state (getDirective (first_value (rq_Query r) ''mac'')) w) = Inr (Some d)
     \<and> (if bd_KernelArgs d = [] then args = []
        else RenderKernelArgs tm (bd_KernelArgs d) (kernel_args_data r proxyPort d) = Inr args)
     \<and> (''Content-Length'', itoa (int (length (rs_Body resp)))) \<in> set (rs_Header resp)
     \<and> (newline \<notin> set (bd_KernelPath d @ args @ bd_InitrdPath d) \<longrightarrow>
          split_on newline (rs_Body resp) =
            [''#!ipxe'', ''kernel /static/'' @ bd_KernelPath d @ (if args = [] then [] else CHR '' '' # args),
             ''initrd /static/'' @ bd_InitrdPath d, ''boot'', []])"
proof -
  let ?mac = "first_value (rq_Query r) ''mac''"
  obtain x w1 where g: "run_state (getDirective ?mac) w = (x, w1)" by (rule prod.exhaust)
  obtain d args where d: "x = Inr (Some d)" "resp = ok_text (boot_script (d\<lparr>bd_KernelArgs := args\<rparr>))"
    "if bd_KernelArgs d = [] then args = [] else RenderKernelArgs tm (bd_KernelArgs d) (kernel_args_data r proxyPort d) = Inr args"
  proof -
    have "\<exists>d. x = Inr (Some d)"
      using assms g by (auto simp: conditionalBootHandler_def Let_def http_Error_def split: if_splits sum.splits option.splits)
    then obtain d where x: "x = Inr (Some d)" by blast
    show thesis
    proof (cases "bd_KernelArgs d = []")
      case True
      then have e: "d\<lparr>bd_KernelArgs := []\<rparr> = d" by simp
      show thesis using that [OF x, of "[]", unfolded e] True assms g x
        by (auto simp: conditionalBootHandler_def Let_def http_Error_def split: if_splits)
    next
      case False
      then show thesis using that [OF x] assms g x
        by (auto simp: conditionalBootHandler_def Let_def http_Error_def split: if_splits sum.splits)
    qed
  qed
  note boot_script_split [of d args]
  then show ?thesis using d g by (intro exI [of _ d] exI [of _ args]) (simp add: ok_text_def)
qed

theorem boot_script_lines_witness:
  "split_on newline (rs_Body (fst (run_state (conditionalBootHandler web_templates (BootDirectiveForMAC web_client ''default'') []
      (web_request [(''mac'', web_mac)] [] [])) (web_world web_state))))
   = [''#!ipxe'', ''kernel /static/noble/kernel/vmlinuz quiet'', ''initrd /static/noble/initrd/initrd.img'', ''boot'', []]"
proof -
  let ?run = "run_state (conditionalBootHandler web_templates (BootDirectiveForMAC web_client ''default'') []
      (web_request [(''mac'', web_mac)] [] [])) (web_world web_state)"
  have s: "rs_Status (fst ?run) = 200" by code_simp
  have g: "fst (run_state (BootDirectiveForMAC web_client ''default'' (first_value (rq_Query (web_request [(''mac'', web_mac)] [] [])) ''mac''))
      (web_world web_state)) = Inr (Some \<lparr>bd_KernelPath = ''noble/kernel/vmlinuz'', bd_KernelArgs = ''quiet'',
        bd_InitrdPath = ''noble/initrd/initrd.img'', bd_ISOPath = [], bd_ProvisionName = ''install''\<rparr>)"
    by code_simp
  have a: "RenderKernelArgs web_templates args x = Inr args" for args x by (simp add: RenderKernelArgs_def web_templates_def)
  from boot_script_lines [OF prod.collapse [symmetric] s] show ?thesis
    unfolding g by (auto simp: a newline_def)
qed

text \<open>
  The script is not safe for every artifact that the API accepts. A URL that passes the validation can
  name a file with an encoded newline; the handler decodes it and copies it into the script, where what
  follows the newline is a command of its own. Here the artifact's URL makes iPXE run \<^verbatim>\<open>shell\<close>.
\<close>

theorem script_injection:
  "let url = ''https://example.com/vmlinuz%0Ashell'';
       f = FilenameFromURL url;
       d = \<lparr>bd_KernelPath = Join [''noble'', ''kernel'', f], bd_KernelArgs = [], bd_InitrdPath = ''noble/initrd/i'',
            bd_ISOPath = [], bd_ProvisionName = ''install''\<rparr>
   in valid_BootArtifactSpec \<lparr>ba_URL = url, ba_SHA256 = Some (replicate 64 CHR ''0''), ba_SHA512 = None\<rparr>
      \<and> f = ''vmlinuz'' @ [newline] @ ''shell''
      \<and> split_on newline (boot_script d) =
          [''#!ipxe'', ''kernel /static/noble/kernel/vmlinuz'', ''shell'', ''initrd /static/noble/initrd/i'', ''boot'', []]"
  by code_simp

section \<open>The reports\<close>

lemma valid_name_nonempty: "\<not> valid_name []"
  by code_simp

lemma allowedPhases_string: "allowedPhases t = Some (ph, m) \<Longrightarrow> t = phase_string ph"
  by (auto simp: allowedPhases_def split: if_splits)

text \<open>
  C11. What the report of an installer is answered, and what it did. A malformed report is refused with 400
  without asking the cluster; 200 says that the phase of the named provision is now the reported one,
  one move ahead of what it was; 404 and 409 say that every provision is as before; the only other
  answer is 500.
\<close>

theorem status_answers:
  assumes v: "versioned c cur ver"
    and "n = first_value (rq_Form r) ''provisionName''" and "t = first_value (rq_Form r) ''phase''"
    and "run_state (updateStatusHandler (UpdateProvisionPhase c ns) r) w = (resp, w')"
  shows "(\<not> valid_name n \<or> t \<notin> {''InProgress'', ''Complete''} \<longrightarrow> rs_Status resp = 400 \<and> w' = w)
     \<and> (rs_Status resp = 200 \<longrightarrow> (\<exists>p p'. cur (w_api w) (ns, n) = Some p \<and> cur (w_api w') = (cur (w_api w))((ns, n) \<mapsto> p')
            \<and> phase_string (phase p') = t \<and> phase_move (phase p) (phase p')))
     \<and> (rs_Status resp \<in> {400, 404, 409} \<longrightarrow> cur (w_api w') = cur (w_api w))
     \<and> rs_Status resp \<in> {200, 400, 404, 409, 500}"
proof (cases "valid_name n \<and> (\<exists>ph m. allowedPhases t = Some (ph, m))")
  case False
  then have "rs_Status resp = 400 \<and> w' = w"
    using assms(2-4) by (auto simp: updateStatusHandler_def Let_def http_Error_def split: if_splits option.splits)
  then show ?thesis by simp
next
  case True
  then obtain ph m where pm: "allowedPhases t = Some (ph, m)" by blast
  have ne: "n \<noteq> []" using True valid_name_nonempty by auto
  obtain x w1 where g: "run_state (UpdateProvisionPhase c ns n ph m) w = (x, w1)" by (rule prod.exhaust)
  have r: "w' = w1" "rs_Status resp = (case x of
      Inl e \<Rightarrow> if IsProvisionNotFound e then 404 else if IsProvisionPhaseError e then 409 else 500 | Inr _ \<Rightarrow> 200)"
    using assms(2-4) True ne pm g
    by (auto simp: updateStatusHandler_def Let_def http_Error_def split: if_splits sum.splits)
  have t: "t \<in> {''InProgress'', ''Complete''}" using pm by (auto simp: allowedPhases_def split: if_splits)
  note a = UpdateProvisionPhase_applied [OF v g]
  show ?thesis
  proof (cases x)
    case (Inl e)
    then show ?thesis using a r True t by auto
  next
    case (Inr u)
    then obtain p p' where "cur (w_api w) (ns, n) = Some p" "validTransitions ph = Some (phase p)"
      "cur (w_api w1) = (cur (w_api w))((ns, n) \<mapsto> p')" "phase p' = ph" using a by auto
    then show ?thesis using r Inr True t allowedPhases_string [OF pm] validTransitions_move [of ph "phase p"] by auto
  qed
qed

theorem status_answers_witness:
  "let run = run_state (updateStatusHandler (UpdateProvisionPhase mem_client ''default'')
               (web_request [] [(''provisionName'', ''install''), (''phase'', ''InProgress'')] [])) (mem_world mem_start) in
   rs_Status (fst run) = 200
   \<and> (\<exists>p'. mem_cur (w_api (snd run)) mem_key = Some p' \<and> phase_string (phase p') = ''InProgress'')"
proof -
  let ?r = "web_request [] [(''provisionName'', ''install''), (''phase'', ''InProgress'')] []"
  let ?run = "run_state (updateStatusHandler (UpdateProvisionPhase mem_client ''default'') ?r) (mem_world mem_start)"
  have f: "first_value (rq_Form ?r) ''provisionName'' = ''install''" "first_value (rq_Form ?r) ''phase'' = ''InProgress''"
    by (simp_all add: web_request_def first_value_def)
  have "valid_name ''install''" by code_simp
  then have s: "rs_Status (fst ?run) = 200"
    by (simp add: updateStatusHandler_def f allowedPhases_def UpdateProvisionPhase_def validTransitions_def api_call_def
        api_write_def metav1_Now_def Let_def mem_world_def mem_get_start mem_update_start)
  with status_answers [OF mem_versioned refl refl prod.collapse [symmetric], of ?r "''default''" "mem_world mem_start"]
  show ?thesis unfolding f Let_def by (auto simp: mem_key_def)
qed

section \<open>Names in URLs\<close>

text \<open>
  A provision name that the handlers let through is a single path segment of lower-case letters,
  digits, dots and hyphens, with a letter or digit at both ends: it can stand in a path or a URL as it is.
\<close>

theorem valid_name_safe:
  assumes "valid_name s"
  shows "safe_component s \<and> set s \<subseteq> set (lower_class @ digit_class @ ''.-'')
     \<and> hd s \<in> set (lower_class @ digit_class) \<and> last s \<in> set (lower_class @ digit_class) \<and> length s \<le> 253"
proof -
  have "in_re nameRegexp s" using assms by (simp add: valid_name_def matches_iff)
  then obtain a t where s: "s = a # t" "a \<in> set (lower_class @ digit_class)"
    and t: "t = [] \<or> (\<exists>u b. t = u @ [b] \<and> set u \<subseteq> set (lower_class @ digit_class @ ''.-'') \<and> b \<in> set (lower_class @ digit_class))"
    unfolding nameRegexp_def by (auto simp: in_RSeq ROpt_def in_RStar_RCls)
  have al: "set s \<subseteq> set (lower_class @ digit_class @ ''.-'')" using s t by auto
  have "slash \<notin> set (lower_class @ digit_class @ ''.-'')" "CHR ''.'' \<notin> set (lower_class @ digit_class)" by code_simp+
  then have "safe_component s" using s al by (auto simp: safe_component_def)
  then show ?thesis using s t al assms by (auto simp: valid_name_def)
qed

theorem valid_name_safe_witness: "safe_component ''node-1.install''"
proof -
  have "valid_name ''node-1.install''" by code_simp
  from valid_name_safe [OF this] show ?thesis by simp
qed

section \<open>The host\<close>

text \<open>The host the request names, behind a proxy or not.\<close>

definition named_host :: "Request \<Rightarrow> string" where
  "named_host r = (let f = first_value (rq_Header r) ''X-Forwarded-Host'' in if f = [] then rq_Host r else f)"

text \<open>
  C31. The forwarded port replaces the port of the host. For a host name, an IPv4 address, or an IPv6 address
  in brackets with a port, the result of \<^verbatim>\<open>resolveHost\<close> splits back into exactly that host and the forwarded
  port; without a forwarded port the named host is taken as it is.
\<close>

theorem resolveHost_port:
  assumes "named_host r = JoinHostPort h q \<or> (named_host r = h \<and> colon \<notin> set h)"
    and "bracketless h" "h \<noteq> []" and "bracketless q" "colon \<notin> set q"
    and "bracketless (first_value (rq_Header r) ''X-Forwarded-Port'')"
    and "colon \<notin> set (first_value (rq_Header r) ''X-Forwarded-Port'')"
  shows "if first_value (rq_Header r) ''X-Forwarded-Port'' = [] then resolveHost r = named_host r
     else SplitHostPort (resolveHost r) = Some (h, first_value (rq_Header r) ''X-Forwarded-Port'')"
proof -
  have "SplitHostPort (named_host r) = Some (h, q) \<or> (SplitHostPort (named_host r) = None \<and> named_host r = h)"
    using assms(1-5) Split_Join Split_no_port by metis
  then show ?thesis
    using assms(3,6,7) Split_Join [OF assms(2,6,7)] by (auto simp: resolveHost_def named_host_def Let_def)
qed

theorem resolveHost_port_witness:
  "SplitHostPort (resolveHost (web_request [] [] [(''X-Forwarded-Host'', ''[fd00::1]:80''), (''X-Forwarded-Port'', ''8080'')]))
   = Some (''fd00::1'', ''8080'')"
proof -
  let ?r = "web_request [] [] [(''X-Forwarded-Host'', ''[fd00::1]:80''), (''X-Forwarded-Port'', ''8080'')]"
  have p: "first_value (rq_Header ?r) ''X-Forwarded-Port'' = ''8080''" by code_simp
  have "named_host ?r = JoinHostPort ''fd00::1'' ''80''" "bracketless ''fd00::1''" "bracketless ''80''" "bracketless ''8080''"
    "colon \<notin> set ''80''" "colon \<notin> set ''8080''"
    by code_simp+
  with resolveHost_port [of ?r "''fd00::1''" "''80''"] show ?thesis by (simp add: p)
qed

text \<open>
  An IPv6 host breaks the URLs. A forwarded host in brackets without a port is put into brackets again
  when there is a forwarded port, and the result is no host and port any more; and the proxy URL of a
  host that does split loses the brackets, so that its address and its port run together.
\<close>

theorem ipv6_urls_broken:
  assumes "bracketless h" and "colon \<in> set h" and "port \<noteq> []"
  shows "(named_host r = CHR ''['' # h @ [CHR '']''] \<and> first_value (rq_Header r) ''X-Forwarded-Port'' = port \<longrightarrow>
            resolveHost r = ''[['' @ h @ '']]:'' @ port \<and> SplitHostPort (resolveHost r) = None)
     \<and> (bracketless q \<and> colon \<notin> set q \<and> resolveHost r = JoinHostPort h q \<and> proxyPort \<noteq> [] \<longrightarrow>
            ka_ProxyURL (kernel_args_data r proxyPort d) = ''http://'' @ h @ '':'' @ proxyPort
            \<and> SplitHostPort (h @ '':'' @ proxyPort) = None)"
proof -
  have 1: "resolveHost r = ''[['' @ h @ '']]:'' @ port"
    if "named_host r = CHR ''['' # h @ [CHR '']'']" "first_value (rq_Header r) ''X-Forwarded-Port'' = port"
    using that assms Split_bracketed_host [OF assms(1)] by (auto simp: resolveHost_def named_host_def JoinHostPort_def Let_def colon_def)
  have 2: "SplitHostPort (''[['' @ x) = None" for x using Split_double_bracket [of x] by simp
  have 3: "SplitHostPort (h @ colon # p) = None" for p
  proof (cases "last_index_byte colon (h @ colon # p)")
    case (Some i)
    have "hd (h @ colon # p) \<noteq> CHR ''[''" using assms(1) by (cases h) (auto simp: bracketless_def)
    moreover have "colon \<in> set (take i (h @ colon # p))"
    proof -
      have ge: "last_index_byte c (a @ c # b) = Some j \<Longrightarrow> length a \<le> j" for a b j and c :: char
        by (induction a arbitrary: j) (auto simp: last_index_byte_None split: option.splits if_splits)
      have "length h \<le> i" using ge [OF Some] .
      then show ?thesis using assms(2) by simp
    qed
    ultimately show ?thesis by (simp add: SplitHostPort_def Some)
  qed (simp add: SplitHostPort_def)
  show ?thesis
    using 1 2 3 Split_Join [OF assms(1), of q] by (auto simp: kernel_args_data_def Let_def colon_def)
qed

theorem ipv6_urls_broken_witness:
  "resolveHost (web_request [] [] [(''X-Forwarded-Host'', ''[fd00::1]''), (''X-Forwarded-Port'', ''8080'')]) = ''[[fd00::1]]:8080''"
proof -
  let ?r = "web_request [] [] [(''X-Forwarded-Host'', ''[fd00::1]''), (''X-Forwarded-Port'', ''8080'')]"
  have "bracketless ''fd00::1''" "colon \<in> set ''fd00::1''" "named_host ?r = ''[fd00::1]''"
    "first_value (rq_Header ?r) ''X-Forwarded-Port'' = ''8080''" by code_simp+
  with ipv6_urls_broken [of "''fd00::1''" "''8080''" ?r] show ?thesis by simp
qed

section \<open>Automation files\<close>

text \<open>
  C29. An automation file is rendered with the data of its provision. When the provision, its automation and
  every ConfigMap and Secret it names are there, the template of that file name is executed on: under
  each key the value of the last named ConfigMap that has the key, the same for Secrets and apart
  from them, the URL for reports and the name of the provision; and what the template gives is the result.
\<close>

theorem automation_rendered:
  assumes "Get_Provision c ns n (w_api w) = (Inr p, s)"
    and "Get_ProvisionAutomation c ns (pr_ProvisionAutomationRef (pr_Spec p)) s = (Inr pa, s)"
    and "pa_Files (pa_Spec pa) fileName = Some content"
    and "\<forall>m \<in> set (pr_ConfigMaps (pr_Spec p)). Get_ConfigMap c ns m s = (Inr (cm m), s)"
    and "\<forall>m \<in> set (pr_Secrets (pr_Spec p)). Get_Secret c ns m s = (Inr (sec m), s)"
    and "run_state (RenderAutomationFile tm c ns n fileName statusURL) w = (x, w')"
  shows "\<exists>data. (\<forall>k. td_ConfigMaps data k = last_with cm (pr_ConfigMaps (pr_Spec p)) k)
     \<and> (\<forall>k. td_Secrets data k = last_with sec (pr_Secrets (pr_Spec p)) k)
     \<and> td_UpdatePhaseURL data = statusURL \<and> td_ProvisionName data = n
     \<and> (\<forall>out. x = Inr out \<longleftrightarrow> (\<exists>t. tm_Parse tm fileName content = Inr t \<and> tm_ExecuteFile tm t data = Inr out))"
proof -
  let ?d = "\<lparr>td_ConfigMaps = last_with cm (pr_ConfigMaps (pr_Spec p)), td_Secrets = last_with sec (pr_Secrets (pr_Spec p)),
      td_UpdatePhaseURL = [], td_ProvisionName = []\<rparr>"
  have set_api: "v\<lparr>w_api := s\<rparr> = v" if "w_api v = s" for v :: "'a world" using that by (cases v) simp
  have 1: "wp (merge_named (\<lambda>n. api_call (Get_ConfigMap c ns n)) ''configmap'' (pr_ConfigMaps (pr_Spec p)) Map.empty)
      (\<lambda>x w'. x = Inr (Map.empty ++ last_with cm (pr_ConfigMaps (pr_Spec p))) \<and> w' = w\<lparr>w_api := s\<rparr>) (w\<lparr>w_api := s\<rparr>)"
    by (rule merge_named_wp) (use assms(4) set_api in \<open>auto simp: api_call_def\<close>)
  have 2: "wp (merge_named (\<lambda>n. api_call (Get_Secret c ns n)) ''secret'' (pr_Secrets (pr_Spec p)) Map.empty)
      (\<lambda>x w'. x = Inr (Map.empty ++ last_with sec (pr_Secrets (pr_Spec p))) \<and> w' = w\<lparr>w_api := s\<rparr>) (w\<lparr>w_api := s\<rparr>)"
    by (rule merge_named_wp) (use assms(5) set_api in \<open>auto simp: api_call_def\<close>)
  have "wp (buildTemplateData c ns p) (\<lambda>x w'. x = Inr ?d) (w\<lparr>w_api := s\<rparr>)"
    unfolding buildTemplateData_def by (rule wp_step [OF 1]) (auto simp: wp_bind wp_return intro: wp_mono [OF 2])
  then obtain w2 where b: "run_state (buildTemplateData c ns p) (w\<lparr>w_api := s\<rparr>) = (Inr ?d, w2)"
    by (auto simp: wp_def split: prod.splits)
  let ?data = "\<lparr>td_ConfigMaps = last_with cm (pr_ConfigMaps (pr_Spec p)), td_Secrets = last_with sec (pr_Secrets (pr_Spec p)),
      td_UpdatePhaseURL = statusURL, td_ProvisionName = n\<rparr>"
  have "(case tm_Parse tm fileName content of
      Inl err \<Rightarrow> Inl (Wrapped (''parsing template '' @ quote fileName @ '': '') (PlainErr err) [])
    | Inr t \<Rightarrow> (case tm_ExecuteFile tm t ?data of
        Inl err \<Rightarrow> Inl (Wrapped (''executing template '' @ quote fileName @ '': '') (PlainErr err) []) | Inr out \<Rightarrow> Inr out)) = x"
    using assms(6) unfolding RenderAutomationFile_def by (simp add: api_call_def assms(1-3) b Let_def)
  then have "x = Inr out \<longleftrightarrow> (\<exists>t. tm_Parse tm fileName content = Inr t \<and> tm_ExecuteFile tm t ?data = Inr out)" for out
    by (auto split: sum.splits)
  then show ?thesis by (intro exI [of _ ?data]) simp
qed

theorem automation_rendered_witness:
  "fst (run_state (RenderAutomationFile web_templates web_client ''default'' ''install'' ''user-data'' ''u'')
      (web_world ([], [web_prov [''common'', ''site''] [''pw'']]))) = Inr ''hello''
   \<and> last_with (\<lambda>m. if m = ''common'' then Map.empty(''tz'' \<mapsto> ''UTC'', ''user'' \<mapsto> ''root'') else Map.empty(''user'' \<mapsto> ''admin''))
        [''common'', ''site''] ''user'' = Some ''admin''"
proof -
  let ?s = "([], [web_prov [''common'', ''site''] [''pw'']])"
  let ?w = "web_world ?s"
  let ?cm = "\<lambda>m. if m = ''common'' then Map.empty(''tz'' \<mapsto> ''UTC'', ''user'' \<mapsto> ''root'') else Map.empty(''user'' \<mapsto> ''admin'')"
  have "Get_Provision web_client ''default'' ''install'' (w_api ?w) = (Inr (web_prov [''common'', ''site''] [''pw'']), ?s)"
    by (simp add: web_client_def web_world_def web_prov_def mem_prov_def)
  note g = this
  obtain data where "\<forall>out. fst (run_state (RenderAutomationFile web_templates web_client ''default'' ''install'' ''user-data'' ''u'') ?w) = Inr out
      \<longleftrightarrow> (\<exists>t. tm_Parse web_templates ''user-data'' ''hello'' = Inr t \<and> tm_ExecuteFile web_templates t data = Inr out)"
    using automation_rendered [OF g _ _ _ _ prod.collapse [symmetric], where pa = web_automation and fileName = "''user-data''"
      and content = "''hello''" and cm = ?cm and sec = "\<lambda>m. Map.empty(''hash'' \<mapsto> ''x'')" and tm = web_templates and statusURL = "''u''"]
    by (auto simp: web_client_def web_automation_def web_prov_def mem_prov_def)
  then have "fst (run_state (RenderAutomationFile web_templates web_client ''default'' ''install'' ''user-data'' ''u'') ?w) = Inr ''hello''"
    by (simp add: web_templates_def)
  moreover have "last_with ?cm [''common'', ''site''] ''user'' = Some ''admin''" by (simp add: last_with_def)
  ultimately show ?thesis by blast
qed

text \<open>
  Every missing object is answered with 404, also a ConfigMap that the provision names: an error
  in the cluster's configuration that the documentation of \<^verbatim>\<open>IsAutomationNotFound\<close> does not count as
  not found, and that is not logged. The answer changes no status and no file.
\<close>

theorem automation_missing:
  assumes "valid_name n" and "fileName \<noteq> []"
    and "Get_Provision c ns n (w_api w) = (g, s1)"
    and "Get_ProvisionAutomation c ns (pr_ProvisionAutomationRef (pr_Spec p)) s1 = (a, s2)"
    and "(\<exists>t. g = Inl (ApiNotFound t))
       \<or> (g = Inr p \<and> (\<exists>t. a = Inl (ApiNotFound t)))
       \<or> (g = Inr p \<and> (\<exists>pa. a = Inr pa \<and> pa_Files (pa_Spec pa) fileName = None))
       \<or> (g = Inr p \<and> (\<exists>pa cm cms t s3. a = Inr pa \<and> pr_ConfigMaps (pr_Spec p) = cm # cms
              \<and> Get_ConfigMap c ns cm s2 = (Inl (ApiNotFound t), s3)))"
    and "run_state (automationFileHandler (RenderAutomationFile tm c ns) n fileName r) w = (resp, w')"
  shows "rs_Status resp = 404 \<and> untouched w w'"
proof -
  let ?u = "''http://'' @ resolveHost r @ ''/dynamic/status''"
  obtain x w1 where x: "run_state (RenderAutomationFile tm c ns n fileName ?u) w = (x, w1)" by (rule prod.exhaust)
  have u: "untouched w w1" using keeps_run [OF RenderAutomationFile_untouched _ x, of w] by simp
  have "\<exists>e. x = Inl e \<and> IsAutomationNotFound e"
    using assms(3-5) x
    by (auto simp: RenderAutomationFile_def buildTemplateData_def api_call_def IsAutomationNotFound_def split: option.splits)
  then show ?thesis using assms(1,2,6) x u by (auto simp: automationFileHandler_def http_Error_def)
qed

theorem automation_missing_witness:
  "rs_Status (fst (run_state (automationFileHandler (RenderAutomationFile web_templates web_client ''default'') ''install'' ''user-data''
      (web_request [] [] [])) (web_world ([], [web_prov [''gone''] []])))) = 404"
proof -
  let ?s = "([], [web_prov [''gone''] []])"
  have v: "valid_name ''install''" by code_simp
  have g: "Get_Provision web_client ''default'' ''install'' (w_api (web_world ?s)) = (Inr (web_prov [''gone''] []), ?s)"
    by (simp add: web_client_def web_world_def web_prov_def mem_prov_def)
  have a: "Get_ProvisionAutomation web_client ''default'' (pr_ProvisionAutomationRef (pr_Spec (web_prov [''gone''] []))) ?s
      = (Inr web_automation, ?s)"
    by (simp add: web_client_def web_prov_def mem_prov_def)
  have c: "Get_ConfigMap web_client ''default'' ''gone'' ?s = (Inl (ApiNotFound ''gone''), ?s)"
    by (simp add: web_client_def)
  show ?thesis
    by (rule automation_missing [OF v _ g a _ prod.collapse [symmetric], THEN conjunct1])
      (use c in \<open>simp_all add: web_prov_def\<close>)
qed

end
