(* ===== verification/BootChain.thy ===== *)
theory BootChain
  imports ArtifactProps ConfigProps HttpdProps
begin

text \<open>
  The components together: the paths that the HTTP server writes into a boot script lead, through the
  links that the config reconciler made, to the files that the artifact reconciler verified.
\<close>

section \<open>Static files\<close>

text \<open>
  The file behind \<^verbatim>\<open>/static/\<close>: the chart makes nginx serve it from the directory \<^verbatim>\<open>boot\<close> of the data
  directory, by putting the rest of the path after it.
\<close>

definition static_file :: "'s BootConfigReconciler \<Rightarrow> string \<Rightarrow> string" where
  "static_file r p = bcr_DataDir r @ slash # ''boot'' @ slash # p"

lemma Join_relative:
  assumes "\<And>c. c \<in> set cs \<Longrightarrow> safe_component c" and "cs \<noteq> []"
  shows "Join cs = join_with [slash] cs" and "comps (Join cs) = cs"
proof -
  have free: "slash \<notin> set c \<and> c \<noteq> [] \<and> c \<noteq> ''.''" if "c \<in> set cs" for c using safe_componentD [OF assms(1) [OF that]] by simp
  have sp: "split_on slash (join_with [slash] cs) = cs"
    by (rule split_on_join_with) (use free assms(2) in auto)
  have nr: "\<not> rooted (join_with [slash] cs)"
  proof -
    obtain c t where cs: "cs = c # t" using assms(2) by (cases cs) auto
    then obtain x y where "c = x # y" using free [of c] by (cases c) auto
    then show ?thesis using free [of c] cs by (cases t) (auto simp: rooted_def)
  qed
  have "clean_comps (join_with [slash] cs) = cs"
    using nr sp foldl_clean_step_safe [OF assms(1), of cs False "[]"] by (simp add: clean_comps_def)
  moreover have "dropWhile (\<lambda>e. e = []) cs = cs" using free assms(2) by (cases cs) auto
  ultimately show J: "Join cs = join_with [slash] cs"
    using nr assms(2) by (cases cs) (auto simp: Join_def Clean_def)
  show "comps (Join cs) = cs" unfolding J comps_def sp by (rule filter_True) (use free in blast)
qed

lemma comps_static_file:
  assumes "comps (bcr_DataDir r) = data_comps r" and "\<And>c. c \<in> set cs \<Longrightarrow> safe_component c" and "cs \<noteq> []"
  shows "comps (static_file r (Join cs)) = data_comps r @ ''boot'' # cs"
proof -
  have "comps (static_file r (Join cs)) = comps (bcr_DataDir r) @ comps ''boot'' @ comps (Join cs)"
    unfolding static_file_def by (simp only: comps_append_slash)
  then show ?thesis by (simp add: assms(1) Join_relative(2) [OF assms(2,3)] comps_safe [OF safe_boot])
qed

section \<open>The surroundings\<close>

text \<open>No artifact changes its name or its specification between the look-ups.\<close>

definition settled :: "'s BootConfigReconciler \<Rightarrow> bool" where
  "settled r \<longleftrightarrow>
     (\<forall>ns n a a'. serves r ns n a \<longrightarrow> serves r ns n a' \<longrightarrow> om_name (ba_meta a) = om_name (ba_meta a') \<and> ba_Spec a = ba_Spec a')"

text \<open>Every config that the server gives is assembled, in directories that are no links.\<close>

definition configs_assembled :: "'s BootConfigReconciler \<Rightarrow> string \<Rightarrow> fsys \<Rightarrow> bool" where
  "configs_assembled r ns fs \<longleftrightarrow>
     (\<forall>n s bc s'. Get_BootConfig (bcr_Client r) ns n s = (Inr bc, s') \<longrightarrow>
        om_namespace (bc_meta bc) = ns \<and> safe_component (om_name (bc_meta bc)) \<and> boot_basis r bc fs
        \<and> plain_dir fs (boot_comps r (om_name (bc_meta bc)) @ [''kernel''])
        \<and> plain_dir fs (boot_comps r (om_name (bc_meta bc)) @ [''initrd'']))"

text \<open>Every artifact that is Ready is on disk with its digest.\<close>

definition artifacts_verified :: "'s BootConfigReconciler \<Rightarrow> 's BootArtifactReconciler \<Rightarrow> fsys \<Rightarrow> bool" where
  "artifacts_verified r ra fs \<longleftrightarrow>
     (\<forall>ns n a. serves r ns n a \<longrightarrow> ba_Phase (ba_Status a) = BootArtifactPhaseReady \<longrightarrow>
        safe_component (om_name (ba_meta a)) \<and> plain_dir fs (data_comps r @ [''artifacts'', om_name (ba_meta a)])
        \<and> (\<exists>c t m. look fs (artifact_comps r a) = Some (FileN c t m) \<and> digest_ok ra a c))"

text \<open>A file of a config in a sub-directory, read by the static path, and a link followed from it.\<close>

lemma static_names:
  assumes "comps (bcr_DataDir r) = data_comps r" and "rooted (bcr_DataDir r)"
    and cs: "\<forall>c \<in> set cs. safe_component c" and "safe_component f" and "CHR 0x00 \<notin> set (static_file r (Join (cs @ [f])))"
  shows "names (static_file r (Join (cs @ [f]))) (data_comps r @ ''boot'' # cs) f"
proof -
  have safe: "safe_component x" if "x \<in> set (cs @ [f])" for x using that assms(3,4) by auto
  have c: "comps (static_file r (Join (cs @ [f]))) = (data_comps r @ ''boot'' # cs) @ [f]"
    using comps_static_file [OF assms(1), of "cs @ [f]"] safe by simp
  have "no_dotdot ((data_comps r @ ''boot'' # cs) @ [f])"
    using clean_comps_rooted_safe [OF assms(2)] safe safe_boot
    by (auto simp: no_dotdot_def data_comps_def dest: safe_componentD)
  then show ?thesis using c assms(5) by (simp add: names_def static_file_def)
qed

lemma static_reads_link:
  assumes dd: "comps (bcr_DataDir r) = data_comps r" "rooted (bcr_DataDir r)" and n: "safe_component n" "safe_component sub"
    and a: "safe_component (om_name (ba_meta a))" "plain_dir fs (data_comps r @ [''artifacts'', om_name (ba_meta a)])"
      "look fs (artifact_comps r a) = Some (FileN c t m)"
    and pl: "plain_dir fs (boot_comps r n @ [sub])"
    and lk: "look fs (boot_comps r n @ [sub, file_of a]) = Some (LinkN (link_target [''..'', ''..'', ''..''] a))"
    and nul: "CHR 0x00 \<notin> set (static_file r (Join [n, sub, file_of a]))"
  shows "read_file (static_file r (Join [n, sub, file_of a])) fs = Some c"
proof -
  have f: "safe_component (file_of a)" by (simp add: file_of_def filename_safe)
  have nm: "names (static_file r (Join [n, sub, file_of a])) (boot_comps r n @ [sub]) (file_of a)"
    using static_names [OF dd, of "[n, sub]" "file_of a"] n f nul by (simp add: boot_comps_def)
  then show ?thesis
    using a f pl lk
    by (intro link_reads [where dd = "data_comps r" and p = "[''boot'', n, sub]" and f = "file_of a" and k = 2
          and n = "om_name (ba_meta a)" and g = "file_of a"])
      (simp_all add: names_def boot_comps_def artifact_comps_def link_target_def file_of_def eval_nat_numeral)
qed

lemma static_link_reads:
  assumes "artifacts_verified r ra fs" and "ready_artifact r bc ref a"
    and "comps (bcr_DataDir r) = data_comps r" and "rooted (bcr_DataDir r)"
    and "safe_component n" and "safe_component sub"
    and "plain_dir fs (boot_comps r n @ [sub])"
    and "look fs (boot_comps r n @ [sub, file_of a]) = Some (LinkN (link_target [''..'', ''..'', ''..''] a))"
    and "CHR 0x00 \<notin> set (static_file r (Join [n, sub, file_of a]))"
  shows "\<exists>c. read_file (static_file r (Join [n, sub, file_of a])) fs = Some c \<and> digest_ok ra a c"
proof -
  obtain c t m where v: "safe_component (om_name (ba_meta a))" "plain_dir fs (data_comps r @ [''artifacts'', om_name (ba_meta a)])"
    "look fs (artifact_comps r a) = Some (FileN c t m)" "digest_ok ra a c"
    using assms(1,2) unfolding artifacts_verified_def ready_artifact_def by blast
  then show ?thesis using static_reads_link [OF assms(3-6) v(1-3) assms(7-9)] by blast
qed

section \<open>What the directive was made from\<close>

lemma netboot_directive_made:
  assumes "run_state (BootDirectiveForMAC c ns mac) w = (Inr (Some d), w')" and "bd_ISOPath d = []"
    and "\<forall>n s bc s'. Get_BootConfig c ns n s = (Inr bc, s') \<longrightarrow> safe_component (om_name (bc_meta bc))"
  obtains n s bc s' nb k sk sk' i si si' where "Get_BootConfig c ns n s = (Inr bc, s')"
    "bc_ISO (bc_Spec bc) = None" "bc_Netboot (bc_Spec bc) = Some nb"
    "Get_BootArtifact c ns (nb_KernelRef nb) sk = (Inr k, sk')" "Get_BootArtifact c ns (nb_InitrdRef nb) si = (Inr i, si')"
    "bd_KernelPath d = Join [om_name (bc_meta bc), ''kernel'', file_of k]"
    "bd_InitrdPath d = Join [om_name (bc_meta bc), ''initrd'', file_of i]"
proof -
  have J: "Join [x, FilenameFromURL u] \<noteq> []" if "safe_component x" for x u
  proof -
    have "comps (Join [x, FilenameFromURL u]) = [x, FilenameFromURL u]"
      by (rule Join_relative(2)) (use that filename_safe in auto)
    then show ?thesis by (auto simp: comps_def)
  qed
  show thesis
    using assms J
    by (fastforce simp: BootDirectiveForMAC_def iso_directive_def netboot_directive_def api_call_def file_of_def
        split: prod.splits sum.splits option.splits intro: that)
qed

section \<open>Properties\<close>

lemma settled_file:
  "settled r \<Longrightarrow> serves r ns n a \<Longrightarrow> serves r ns n a' \<Longrightarrow> file_of a = file_of a'"
  unfolding settled_def file_of_def by metis


definition chain_disk :: fsys where
  "chain_disk =
     [([''data''], DirN 0), ([''data'', ''artifacts''], DirN 0), ([''data'', ''boot''], DirN 0),
      ([''data'', ''artifacts'', ''kern''], DirN 0), ([''data'', ''artifacts'', ''kern'', ''vmlinuz''], FileN ''K'' 1 420),
      ([''data'', ''artifacts'', ''init''], DirN 0), ([''data'', ''artifacts'', ''init'', ''initrd.img''], FileN ''I'' 2 420),
      ([''data'', ''boot'', ''noble''], DirN 0), ([''data'', ''boot'', ''noble'', ''kernel''], DirN 0),
      ([''data'', ''boot'', ''noble'', ''initrd''], DirN 0),
      ([''data'', ''boot'', ''noble'', ''kernel'', ''vmlinuz''], LinkN ''../../../artifacts/kern/vmlinuz''),
      ([''data'', ''boot'', ''noble'', ''initrd'', ''initrd.img''], LinkN ''../../../artifacts/init/initrd.img'')]"

definition chain_configs :: "web_state BootConfigReconciler" where
  "chain_configs = \<lparr>bcr_Client = web_client, bcr_DataDir = ''/data'', bcr_diskfs = \<lambda>_. Inl ''no image''\<rparr>"

definition chain_artifacts :: "web_state BootArtifactReconciler" where
  "chain_artifacts =
     \<lparr>bar_Client = web_client, bar_DataDir = ''/data'', bar_HTTPClient = \<lambda>_. HttpError ''offline'', bar_Recorder = False,
      bar_sha256 = \<lambda>_. replicate 32 (CHR 0x00), bar_sha512 = \<lambda>_. []\<rparr>"

lemma chain_serves:
  "serves chain_configs ns n a \<longleftrightarrow>
     (n = ''kern'' \<and> a = web_artifact ''kern'' ''https://example.com/vmlinuz'')
     \<or> (n = ''init'' \<and> a = web_artifact ''init'' ''https://example.com/initrd.img'')"
  by (auto simp: serves_def chain_configs_def web_client_def)

lemma chain_config:
  "Get_BootConfig (bcr_Client chain_configs) ns n s = (Inr bc, s') \<longleftrightarrow> n = ''noble'' \<and> bc = web_config \<and> s' = s"
  by (auto simp: chain_configs_def web_client_def)

lemma chain_files:
  "FilenameFromURL ''https://example.com/vmlinuz'' = ''vmlinuz''" "FilenameFromURL ''https://example.com/initrd.img'' = ''initrd.img''"
  by code_simp+

lemma chain_comps: "data_comps chain_configs = [''data'']"
  unfolding chain_configs_def data_comps_def by code_simp

lemma chain_settled: "settled chain_configs"
  by (auto simp: settled_def chain_serves)

lemma chain_plain_dirs:
  "plain_dir chain_disk [''data'', ''boot'', ''noble'', ''kernel'']" "plain_dir chain_disk [''data'', ''boot'', ''noble'', ''initrd'']"
  "plain_dir chain_disk [''data'', ''artifacts'', ''kern'']" "plain_dir chain_disk [''data'', ''artifacts'', ''init'']"
  by (rule plain_dir_list, code_simp)+

lemma chain_looks:
  "look chain_disk [''data'', ''boot'', ''noble'', ''kernel'', ''vmlinuz''] = Some (LinkN ''../../../artifacts/kern/vmlinuz'')"
  "look chain_disk [''data'', ''boot'', ''noble'', ''initrd'', ''initrd.img''] = Some (LinkN ''../../../artifacts/init/initrd.img'')"
  "look chain_disk [''data'', ''artifacts'', ''kern'', ''vmlinuz''] = Some (FileN ''K'' 1 420)"
  "look chain_disk [''data'', ''artifacts'', ''init'', ''initrd.img''] = Some (FileN ''I'' 2 420)"
  by code_simp+

lemma chain_targets:
  "link_target [''..'', ''..'', ''..''] (web_artifact ''kern'' ''https://example.com/vmlinuz'') = ''../../../artifacts/kern/vmlinuz''"
  "link_target [''..'', ''..'', ''..''] (web_artifact ''init'' ''https://example.com/initrd.img'') = ''../../../artifacts/init/initrd.img''"
  by code_simp+

lemma chain_verified: "artifacts_verified chain_configs chain_artifacts chain_disk"
proof -
  have "equal_fold (hex_encode (replicate 32 (CHR 0x00))) (replicate 64 CHR ''0'')" by code_simp
  then have "digest_ok chain_artifacts (web_artifact n u) c" for n u c
    by (simp add: digest_ok_def web_artifact_def expectedHash_def sum_bytes_def chain_artifacts_def)
  then show ?thesis
    by (auto simp: artifacts_verified_def chain_serves chain_comps artifact_comps_def web_artifact_def chain_files chain_looks
        chain_plain_dirs safe_component_def slash_def)
qed

lemma chain_assembled: "configs_assembled chain_configs ''default'' chain_disk"
proof -
  have "netboot_basis chain_configs web_config \<lparr>nb_KernelRef = ''kern'', nb_InitrdRef = ''init'', nb_FirmwareRef = []\<rparr> chain_disk"
    unfolding netboot_basis_def
    by (rule exI [of _ "web_artifact ''kern'' ''https://example.com/vmlinuz''"],
        rule exI [of _ "web_artifact ''init'' ''https://example.com/initrd.img''"])
      (simp add: ready_artifact_def chain_serves boot_comps_def chain_comps chain_targets chain_looks chain_files file_of_def
        web_config_def, simp add: web_artifact_def chain_files chain_looks)
  then have "boot_basis chain_configs web_config chain_disk" by (simp add: boot_basis_def web_config_def)
  then show ?thesis
    using chain_plain_dirs
    by (simp add: configs_assembled_def chain_config boot_comps_def chain_comps) (simp add: web_config_def safe_component_def slash_def)
qed


end
