(* ===== verification/LinkLive.thy ===== *)
theory LinkLive
  imports ConfigRuns CalmRules
begin

text \<open>
  Work in one directory without faults: it is made, emptied of its entries, and holds the one link that
  \<^verbatim>\<open>ensureSymlink\<close> puts there.
\<close>

section \<open>Names without NUL\<close>

text \<open>Names that the operating system takes: components without a NUL byte.\<close>

definition os_names :: "path \<Rightarrow> bool" where
  "os_names p \<longleftrightarrow> (\<forall>c \<in> set p. safe_component c \<and> CHR 0x00 \<notin> set c)"

text \<open>Every entry of a file system has such a name.\<close>

definition sane_names :: "fsys \<Rightarrow> bool" where
  "sane_names fs \<longleftrightarrow> (\<forall>q. look fs q \<noteq> None \<longrightarrow> os_names q)"

lemma os_names_append [simp]: "os_names (p @ q) \<longleftrightarrow> os_names p \<and> os_names q"
  by (auto simp: os_names_def)

lemma os_names_Cons [simp]: "os_names (c # q) \<longleftrightarrow> safe_component c \<and> CHR 0x00 \<notin> set c \<and> os_names q"
  by (auto simp: os_names_def)

lemma os_names_Nil [simp]: "os_names []"
  by (simp add: os_names_def)

lemma sane_change:
  "sane_names fs \<Longrightarrow> (\<And>q. look fs' q \<noteq> look fs q \<Longrightarrow> look fs' q \<noteq> None \<Longrightarrow> os_names q) \<Longrightarrow> sane_names fs'"
  unfolding sane_names_def by metis

lemma join_no_nul: "CHR 0x00 \<notin> set (join_with [slash] cs) \<longleftrightarrow> (\<forall>c \<in> set cs. CHR 0x00 \<notin> set c)"
  by (induction "[slash]" cs rule: join_with.induct) (auto simp: slash_def)

text \<open>The string names the directory, and the system takes it.\<close>

definition dir_at :: "string \<Rightarrow> path \<Rightarrow> bool" where
  "dir_at s d \<longleftrightarrow> dir_name s d \<and> os_names d \<and> s \<noteq> [] \<and> CHR 0x00 \<notin> set s"

lemma dir_at_Join:
  assumes "dir_name s d" and "os_names (d @ [f])"
  shows "dir_at (Join [s, f]) (d @ [f])" and "names (Join [s, f]) d f"
proof -
  have n: "dir_name (Join [s, f]) (d @ [f])" by (rule dir_name_sub) (use assms in auto)
  have "Join [s, f] = slash # join_with [slash] (d @ [f])"
    using Join_rooted [of s "[f]"] assms by (simp add: dir_name_def)
  moreover have "CHR 0x00 \<notin> set (slash # join_with [slash] (d @ [f]))"
    using assms(2) join_no_nul [of "d @ [f]"] by (auto simp: os_names_def slash_def)
  ultimately have "Join [s, f] \<noteq> []" "CHR 0x00 \<notin> set (Join [s, f])" by simp_all
  with n assms show "dir_at (Join [s, f]) (d @ [f])" and "names (Join [s, f]) d f"
    using dir_name_no_dotdot [OF n] by (simp_all add: dir_at_def names_def dir_name_def)
qed

lemma dir_at_resolve:
  assumes "dir_at s d" and "plain_dir fs d"
  shows "resolve follow fs s = Inr d"
proof -
  have "walk fs 40 follow [] (d @ []) = walk fs 40 follow ([] @ d) []"
    by (rule walk_dirs) (use assms dir_name_no_dotdot in \<open>auto simp: dir_at_def no_dotdot_def plain_dir_def\<close>)
  then show ?thesis using assms by (simp add: resolve_def dir_at_def dir_name_def)
qed

lemma below_entry: "below (d @ [e]) q \<Longrightarrow> below q d \<Longrightarrow> False"
  by (auto simp: below_iff)

section \<open>Making a directory\<close>

text \<open>The missing directories of a path, and nothing else.\<close>

definition dirs_made :: "path \<Rightarrow> fsys \<Rightarrow> fsys \<Rightarrow> bool" where
  "dirs_made d fs fs' \<longleftrightarrow>
     plain_dir fs' d
     \<and> (plain_dir fs d \<longrightarrow> fs' = fs)
     \<and> (\<forall>q. look fs' q \<noteq> look fs q \<longrightarrow> below q d \<and> look fs q = None \<and> (\<exists>t. look fs' q = Some (DirN t)))"

lemma mkdir_comps_present:
  assumes "plain_dir fs (dn @ cs)" and "no_dotdot (dn @ cs)"
  shows "mkdir_comps t dn cs fs = (Inr (), fs)"
  using assms
proof (induction cs arbitrary: dn)
  case (Cons c cs)
  have at: "below (dn @ [c]) (dn @ c # cs)" by (simp add: below_iff)
  obtain u where u: "look fs (dn @ [c]) = Some (DirN u)" using Cons.prems(1) at unfolding plain_dir_def by blast
  have "walk fs 40 True [] ((dn @ [c]) @ []) = walk fs 40 True ([] @ dn @ [c]) []"
    by (rule walk_dirs)
      (use Cons.prems below_trans [OF _ at] in \<open>auto simp: no_dotdot_def plain_dir_def\<close>)
  then show ?case using Cons.IH [of "dn @ [c]"] Cons.prems u by simp
qed simp

lemma MkdirAll_calm:
  assumes "calm w" and "dir_at s d" and "open_way (w_fs w) d"
  shows "wp (os_MkdirAll s) (\<lambda>x w'. x = Inr () \<and> quiet w w' \<and> dirs_made d (w_fs w) (w_fs w')) w"
  unfolding os_MkdirAll_def
proof (rule wp_calm [OF assms(1)], goal_cases)
  case (1 x w')
  have d: "comps s = d" "no_dotdot d" using assms(2) dir_name_no_dotdot by (auto simp: dir_at_def dir_name_def)
  have "x = Inr () \<and> plain_dir (w_fs w') d"
    using fs_mkdir_all_ok [OF _ _ _ _ 1(2)] assms d by (auto simp: dir_at_def)
  moreover have "below q d \<and> look (w_fs w) q = None \<and> (\<exists>t. look (w_fs w') q = Some (DirN t))"
    if "look (w_fs w') q \<noteq> look (w_fs w) q" for q
    using fs_mkdir_all_where [OF 1(2) that] fs_mkdir_all_frame [OF 1(2) that] d open_way_plain [OF assms(3)] by auto
  moreover have "w_fs w' = w_fs w" if "plain_dir (w_fs w) d"
    using 1(2) mkdir_comps_present [of "w_fs w" "[]" d] that d assms(2) by (simp add: fs_mkdir_all_def dir_at_def)
  ultimately show ?case using 1(1) by (simp add: dirs_made_def)
qed

section \<open>A directory with one link\<close>

text \<open>Readlink says whether the link is there.\<close>

lemma Readlink_calm:
  assumes "calm w" and "names l d f" and "plain_dir (w_fs w) d"
  shows "wp (os_Readlink l) (\<lambda>x w'. quiet w w' \<and> w_fs w' = w_fs w
     \<and> (x = Inr t \<longleftrightarrow> look (w_fs w) (d @ [f]) = Some (LinkN t))) w"
  unfolding os_Readlink_def
  by (rule wp_calm_read [OF assms(1)])
    (auto simp: fs_readlink_def names_resolve [OF assms(2,3)] split: option.splits node.splits)

lemma ReadDir_calm:
  assumes "calm w" and "dir_at s d" and "plain_dir (w_fs w) d"
  shows "wp (os_ReadDir s) (\<lambda>x w'. quiet w w' \<and> w_fs w' = w_fs w \<and> x = Inr (children d (w_fs w))) w"
proof -
  obtain t where "look (w_fs w) d = Some (DirN t)" using assms(3) below_refl unfolding plain_dir_def by blast
  then show ?thesis
    unfolding os_ReadDir_def
    by (intro wp_calm_read [OF assms(1)]) (simp add: fs_read_dir_def dir_at_resolve [OF assms(2,3)])
qed

text \<open>The entries of the list are gone with all below them.\<close>

definition removed :: "path \<Rightarrow> string set \<Rightarrow> fsys \<Rightarrow> fsys \<Rightarrow> bool" where
  "removed d es fs fs' \<longleftrightarrow> (\<forall>q. look fs' q = (if \<exists>e \<in> es. below (d @ [e]) q then None else look fs q))"

lemma removed_plain_dir: "removed d es fs fs' \<Longrightarrow> plain_dir fs d \<Longrightarrow> plain_dir fs' d"
  by (auto simp: removed_def plain_dir_def dest: below_entry)

lemma RemoveAll_calm:
  assumes "calm w" and "names l d e" and "plain_dir (w_fs w) d"
  shows "wp (os_RemoveAll l) (\<lambda>x w'. quiet w w' \<and> removed d {e} (w_fs w) (w_fs w')) w"
  unfolding os_RemoveAll_def
proof (rule wp_calm [OF assms(1)], goal_cases)
  case (1 x w')
  then have "w_fs w' = del_tree (d @ [e]) (w_fs w)"
    using names_resolve [OF assms(2,3), of False] by (simp add: fs_remove_all_def)
  then show ?case using 1(1) by (auto simp: removed_def look_del_tree below_iff)
qed

lemma remove_entries_calm:
  assumes "calm w" and "dir_name s d" and "os_names d" and "plain_dir (w_fs w) d" and "os_names es"
  shows "wp (remove_entries s es) (\<lambda>x w'. quiet w w' \<and> removed d (set es) (w_fs w) (w_fs w')) w"
  using assms(1,4,5)
proof (induction es arbitrary: w)
  case Nil
  then show ?case by (simp add: wp_return removed_def)
next
  case (Cons e es)
  have n: "names (Join [s, e]) d e" by (rule dir_at_Join) (use assms(2,3) Cons.prems(3) in auto)
  show ?case
    unfolding remove_entries.simps
  proof (rule wp_step [OF RemoveAll_calm [OF Cons.prems(1) n Cons.prems(2)]], goal_cases)
    case (1 x w1)
    then have w1: "calm w1" "plain_dir (w_fs w1) d" using removed_plain_dir Cons.prems(2) quiet_calm by auto
    show ?case
      by (rule wp_mono [OF Cons.IH [OF w1]])
        (use 1 Cons.prems(3) in \<open>auto simp: removed_def intro: quiet_trans\<close>)
  qed
qed

text \<open>The link is the only entry, or it was there and nothing has changed.\<close>

definition link_only :: "path \<Rightarrow> string \<Rightarrow> string \<Rightarrow> fsys \<Rightarrow> fsys \<Rightarrow> bool" where
  "link_only d f t fs fs' \<longleftrightarrow>
     (if look fs (d @ [f]) = Some (LinkN t) then fs' = fs
      else (\<forall>e. look fs' (d @ [e]) = (if e = f then Some (LinkN t) else None)))
     \<and> (\<forall>q. \<not> (below d q \<and> q \<noteq> d) \<longrightarrow> look fs' q = look fs q)
     \<and> (\<forall>q. look fs' q = look fs q \<or> look fs' q = None \<or> q = d @ [f])"

lemma Symlink_calm:
  assumes "calm w" and "names l d f" and "plain_dir (w_fs w) d" and "look (w_fs w) (d @ [f]) = None" and "t \<noteq> []"
  shows "wp (os_Symlink t l) (\<lambda>x w'. x = Inr () \<and> quiet w w'
     \<and> (\<forall>q. look (w_fs w') q = (if q = d @ [f] then Some (LinkN t) else look (w_fs w) q))) w"
  unfolding os_Symlink_def
proof (rule wp_calm [OF assms(1)], goal_cases)
  case (1 x w')
  then have "x = Inr ()" "w_fs w' = put (d @ [f]) (LinkN t) (w_fs w)"
    using names_resolve [OF assms(2,3), of False] assms(4,5) by (simp_all add: fs_symlink_def)
  then show ?case using 1(1) by (simp add: look_put)
qed

lemma children_os_names: "sane_names fs \<Longrightarrow> os_names (children d fs)"
  unfolding sane_names_def by (subst os_names_def) (fastforce simp: set_children)

lemma ensureSymlink_calm:
  assumes "calm w" and s: "dir_at s d" and f: "os_names [f]" and "plain_dir (w_fs w) d" and "sane_names (w_fs w)" and "t \<noteq> []"
  shows "wp (ensureSymlink s f t) (\<lambda>x w'. x = Inr () \<and> quiet w w' \<and> link_only d f t (w_fs w) (w_fs w')) w"
proof -
  have dn: "dir_name s d" "os_names d" using s by (auto simp: dir_at_def)
  have n: "names (Join [s, f]) d f" by (rule dir_at_Join) (use dn f in auto)
  show ?thesis
    unfolding ensureSymlink_def Let_def
  proof (rule wp_step [OF Readlink_calm [OF assms(1) n assms(4), where t = t]], rule wp_ifI, goal_cases)
    case (1 x w1)
    then show ?case by (simp add: wp_return link_only_def)
  next
    case r: (2 x w1)
    then have w1: "calm w1" "w_fs w1 = w_fs w" "quiet w w1" by (auto simp: quiet_def)
    show ?case
    proof (rule wp_step [OF ReadDir_calm [OF w1(1) s]], goal_cases)
      case (2 y w2)
      then have y: "y = Inr (children d (w_fs w))" and w2: "calm w2" "w_fs w2 = w_fs w" "quiet w w2"
        using w1 by (auto simp: quiet_def)
      have "wp (remove_entries s (children d (w_fs w)))
          (\<lambda>x w'. quiet w2 w' \<and> removed d (set (children d (w_fs w))) (w_fs w) (w_fs w')) w2"
        using remove_entries_calm [OF w2(1) dn _ children_os_names [OF assms(5)]] assms(4) w2(2) by simp
      then show ?case
        unfolding y sum.case
      proof (rule wp_step, goal_cases)
        case (1 u w3)
        then have w3: "calm w3" "quiet w w3" "plain_dir (w_fs w3) d"
          using quiet_trans [OF w2(3)] quiet_calm removed_plain_dir assms(4) by blast+
        have gone: "look (w_fs w3) (d @ [e]) = None" for e
          using 1 by (auto simp: removed_def set_children)
        show ?case
          by (rule wp_step [OF Symlink_calm [OF w3(1) n w3(3) gone assms(6)]])
            (use 1 r w1 w3(2) gone in \<open>auto simp: wp_return link_only_def removed_def below_iff intro: quiet_trans\<close>)
      qed
    qed (use w1 assms(4) in simp)
  qed
qed

end
