(* ===== verification/ConcatLive.thy ===== *)
theory ConcatLive
  imports LinkLive
begin

text \<open>
  \<^verbatim>\<open>concatenateFiles\<close> without faults: from sources that are files elsewhere it makes, in a directory emptied
  for it, the one file that holds their bytes one after the other, unless the file there is newer than both.
\<close>

section \<open>Sources\<close>

text \<open>The string names a file with this content below real directories.\<close>

definition on_disk :: "string \<Rightarrow> string \<Rightarrow> fsys \<Rightarrow> bool" where
  "on_disk s c fs \<longleftrightarrow> (\<exists>d f t m. names s d f \<and> plain_dir fs d \<and> look fs (d @ [f]) = Some (FileN c t m))"

text \<open>Outside of the directory nothing has changed.\<close>

definition outside_same :: "path \<Rightarrow> fsys \<Rightarrow> fsys \<Rightarrow> bool" where
  "outside_same d fs fs' \<longleftrightarrow> (\<forall>q. \<not> (below d q \<and> q \<noteq> d) \<longrightarrow> look fs' q = look fs q)"

lemma outside_same_refl [simp]: "outside_same d fs fs"
  by (simp add: outside_same_def)

lemma outside_same_trans [trans]: "outside_same d fs fs' \<Longrightarrow> outside_same d fs' fs'' \<Longrightarrow> outside_same d fs fs''"
  by (simp add: outside_same_def)

lemma outside_same_plain: "outside_same d fs fs' \<Longrightarrow> plain_dir fs d \<Longrightarrow> plain_dir fs' d"
  unfolding outside_same_def plain_dir_def by (metis below_antisym)

lemma on_disk_outside:
  assumes "on_disk s c fs" and "outside_same d fs fs'" and "\<not> below d (comps s)"
  shows "on_disk s c fs'"
proof -
  obtain e f t m where e: "names s e f" "plain_dir fs e" "look fs (e @ [f]) = Some (FileN c t m)"
    using assms(1) unfolding on_disk_def by blast
  have "\<not> below d (e @ [f])" using assms(3) e(1) by (simp add: names_def)
  then have same: "look fs' q = look fs q" if "below q (e @ [f])" for q
    using assms(2) below_trans [OF _ that] unfolding outside_same_def by blast
  have "plain_dir fs' e" using e(2) same by (auto simp: plain_dir_def below_snoc)
  then show ?thesis unfolding on_disk_def using e(1,3) same [of "e @ [f]"] by force
qed

lemma on_disk_read: "on_disk s c fs \<Longrightarrow> read_file s fs = Some c"
  unfolding on_disk_def using read_file_names(4) by blast

text \<open>The directory of a path that was joined from it.\<close>

lemma dir_at_Dir:
  assumes "dir_at s d" and "os_names [f]"
  shows "dir_at (Dir (Join [s, f])) d"
proof -
  have d: "dir_name s d" "os_names d" using assms(1) by (auto simp: dir_at_def)
  have "dir_name (Dir (Join [s, f])) d" by (rule dir_name_Dir [OF d(1)]) (use assms(2) in simp)
  moreover have "Dir (Join [s, f]) = slash # join_with [slash] d"
    using Dir_Join_rooted [of s "[]" f] d assms(2) by (simp add: dir_name_def)
  ultimately show ?thesis using d join_no_nul [of d] by (auto simp: dir_at_def os_names_def slash_def)
qed

section \<open>The calls\<close>

lemma Open_calm:
  assumes "calm w" and "on_disk s c (w_fs w)"
  shows "wp (os_Open s) (\<lambda>x w'. quiet w w' \<and> w_fs w' = w_fs w \<and> (\<exists>h. x = Inr h \<and> fs_read h (w_fs w) = Inr c)) w"
proof -
  obtain h where "fs_open s (w_fs w) = Inr h" "fs_read h (w_fs w) = Inr c"
    using assms(2) read_file_names(2,3) unfolding on_disk_def by blast
  then show ?thesis unfolding os_Open_def by (intro wp_calm_read [OF assms(1)]) auto
qed

lemma ReadAll_calm:
  assumes "calm w" and "fs_read h (w_fs w) = Inr c"
  shows "wp (os_ReadAll s h) (\<lambda>x w'. quiet w w' \<and> w_fs w' = w_fs w \<and> x = Inr c) w"
  unfolding os_ReadAll_def by (rule wp_calm_read [OF assms(1)]) (use assms(2) in auto)

lemma Stat_calm:
  assumes "calm w"
  shows "wp (os_Stat s) (\<lambda>x w'. quiet w w' \<and> w_fs w' = w_fs w \<and> x = map_err (PathError ''stat'' s) (fs_stat s (w_fs w))) w"
  unfolding os_Stat_def by (rule wp_calm_read [OF assms(1)]) auto

text \<open>The directory has the one entry, a file.\<close>

definition one_file :: "path \<Rightarrow> string \<Rightarrow> string \<Rightarrow> nat \<Rightarrow> fsys \<Rightarrow> bool" where
  "one_file d e c m fs \<longleftrightarrow>
     plain_dir fs d \<and> (\<exists>t. \<forall>x. look fs (d @ [x]) = (if x = e then Some (FileN c t m) else None))"

lemma one_fileD: "one_file d e c m fs \<Longrightarrow> plain_dir fs d \<and> (\<exists>t. look fs (d @ [e]) = Some (FileN c t m))"
  by (auto simp: one_file_def)

lemma put_outside: "below d p \<Longrightarrow> p \<noteq> d \<Longrightarrow> outside_same d fs (put p n fs)"
  by (auto simp: outside_same_def look_put)

lemma one_file_put:
  assumes "plain_dir fs d" and "\<And>x. x \<noteq> e \<Longrightarrow> look fs (d @ [x]) = None"
  shows "one_file d e c m (put (d @ [e]) (FileN c t m) fs)" and "outside_same d fs (put (d @ [e]) (FileN c t m) fs)"
proof -
  show o: "outside_same d fs (put (d @ [e]) (FileN c t m) fs)" by (rule put_outside) auto
  show "one_file d e c m (put (d @ [e]) (FileN c t m) fs)"
    using outside_same_plain [OF o assms(1)] assms(2) by (auto simp: one_file_def look_put)
qed

lemma one_file_other: "one_file d e c m fs \<Longrightarrow> x \<noteq> e \<Longrightarrow> look fs (d @ [x]) = None"
  by (auto simp: one_file_def)

lemma Write_calm:
  assumes "calm w" and "one_file d e c m (w_fs w)"
  shows "wp (os_Write p (d @ [e]) a) (\<lambda>x w'. x = Inr (length a) \<and> quiet w w' \<and> one_file d e (c @ a) m (w_fs w')
     \<and> outside_same d (w_fs w) (w_fs w')) w"
  unfolding os_Write_def
proof (rule wp_calm [OF assms(1)], goal_cases)
  case (1 x w')
  obtain t where t: "look (w_fs w) (d @ [e]) = Some (FileN c t m)" "plain_dir (w_fs w) d"
    using one_fileD [OF assms(2)] by blast
  then have "x = Inr (length a)" "w_fs w' = put (d @ [e]) (FileN (c @ a) (w_clock w') m) (w_fs w)"
    using 1(2) by (simp_all add: fs_append_def)
  then show ?case using 1(1) one_file_put [OF t(2) one_file_other [OF assms(2)]] by simp
qed

lemma Chmod_calm:
  assumes "calm w" and "one_file d e c m (w_fs w)" and "names p d e"
  shows "wp (os_Chmod p m') (\<lambda>x w'. x = Inr () \<and> quiet w w' \<and> one_file d e c m' (w_fs w')
     \<and> outside_same d (w_fs w) (w_fs w')) w"
  unfolding os_Chmod_def
proof (rule wp_calm [OF assms(1)], goal_cases)
  case (1 x w')
  obtain t where t: "look (w_fs w) (d @ [e]) = Some (FileN c t m)" "plain_dir (w_fs w) d"
    using one_fileD [OF assms(2)] by blast
  then have "resolve True (w_fs w) p = Inr (d @ [e])" using names_resolve [OF assms(3) t(2)] by (simp add: is_link_def)
  then have "x = Inr ()" "w_fs w' = put (d @ [e]) (FileN c t m') (w_fs w)"
    using 1(2) t(1) by (simp_all add: fs_chmod_def)
  then show ?case using 1(1) one_file_put [OF t(2) one_file_other [OF assms(2)]] by simp
qed

lemma Rename_calm:
  assumes "calm w" and "one_file d e c m (w_fs w)" and "names p d e" and "names q d f" and "e \<noteq> f"
  shows "wp (os_Rename p q) (\<lambda>x w'. x = Inr () \<and> quiet w w' \<and> one_file d f c m (w_fs w')
     \<and> outside_same d (w_fs w) (w_fs w')) w"
  unfolding os_Rename_def
proof (rule wp_calm [OF assms(1)], goal_cases)
  case (1 x w')
  obtain t where t: "look (w_fs w) (d @ [e]) = Some (FileN c t m)" "plain_dir (w_fs w) d"
    using one_fileD [OF assms(2)] by blast
  have "look (w_fs w) (d @ [f]) = None" by (rule one_file_other [OF assms(2) assms(5) [symmetric]])
  then have eff: "x = Inr ()" "w_fs w' = put (d @ [f]) (FileN c t m) (del (d @ [e]) (w_fs w))"
    using 1(2) t(1) by (simp_all add: fs_rename_def names_resolve [OF assms(3) t(2)] names_resolve [OF assms(4) t(2)])
  have o: "outside_same d (w_fs w) (del (d @ [e]) (w_fs w))" by (auto simp: outside_same_def look_del)
  have gone: "look (del (d @ [e]) (w_fs w)) (d @ [y]) = None" for y
    using one_file_other [OF assms(2), of y] by (auto simp: look_del)
  show ?case
    unfolding map_err_simps eff
    using 1(1) one_file_put [OF outside_same_plain [OF o t(2)] gone, of f] outside_same_trans [OF o] by blast
qed

section \<open>The temporary file\<close>

lemma digits_no_nul: "CHR 0x00 \<notin> set (digits n)"
proof (induction n rule: digits.induct)
  case (1 n)
  have "CHR 0x00 \<noteq> char_of (48 + k)" if "k < 10" for k :: nat
  proof
    assume "CHR 0x00 = char_of (48 + k)"
    then have "(of_char (CHR 0x00) :: nat) = of_char (char_of (48 + k) :: char)" by simp
    then show False using that by simp
  qed
  from this [of n] this [of "n mod 10"] show ?case using 1 by (subst digits.simps) auto
qed

lemma temp_names:
  assumes "dir_at s d" and "slash \<notin> set pre" and "2 < length pre" and "CHR 0x00 \<notin> set pre"
  shows "names (s @ slash # pre @ digits i) d (pre @ digits i)"
proof -
  have sf: "safe_component (pre @ digits i)" by (rule temp_name_safe [OF assms(2,3)])
  have "comps (s @ slash # pre @ digits i) = d @ [pre @ digits i]"
    using assms(1) comps_safe [OF sf] by (simp add: comps_append_slash dir_at_def dir_name_def)
  moreover have "no_dotdot (d @ [pre @ digits i])"
    using assms(1) dir_name_no_dotdot [of s d] safe_componentD(3) [OF sf] by (auto simp: no_dotdot_def dir_at_def)
  ultimately show ?thesis
    using assms(1,4) digits_no_nul [of i] by (auto simp: names_def dir_at_def slash_def)
qed

lemma CreateTemp_calm:
  assumes "calm w" and "dir_at s d" and "slash \<notin> set pre" "2 < length pre" "CHR 0x00 \<notin> set pre"
    and pl: "plain_dir (w_fs w) d" and empty: "\<And>x. look (w_fs w) (d @ [x]) = None"
  shows "wp (os_CreateTemp s pre) (\<lambda>x w'. quiet w w' \<and> (\<exists>i. x = Inr (s @ slash # pre @ digits i, d @ [pre @ digits i])
     \<and> one_file d (pre @ digits i) [] 384 (w_fs w')) \<and> outside_same d (w_fs w) (w_fs w')) w"
  unfolding wp_os_CreateTemp
proof (rule wp_calm, goal_cases)
  case (2 x w')
  let ?i = "w_draws w (w_draw w)"
  have "resolve False (w_fs w) (s @ slash # pre @ digits ?i) = Inr (d @ [pre @ digits ?i])"
    by (rule names_resolve [OF temp_names [OF assms(2-5)] pl]) simp
  then have eff: "x = Inr (s @ slash # pre @ digits ?i, d @ [pre @ digits ?i])"
    "w_fs w' = put (d @ [pre @ digits ?i]) (FileN [] (w_clock w') 384) (w_fs w)"
    using 2(2) empty by (simp_all add: create_temp.simps [of 10000] Let_def)
  have "quiet w w'" using 2(1) by (simp add: quiet_def)
  then show ?case
    unfolding map_err_simps eff using one_file_put [OF pl empty] by blast
qed (use assms(1) in \<open>simp add: calm_def\<close>)

section \<open>Copying\<close>

lemma copy_source_calm:
  assumes "calm w" and "one_file d e c m (w_fs w)" and "on_disk src a (w_fs w)"
  shows "wp (copy_source p (d @ [e]) src) (\<lambda>x w'. x = Inr () \<and> quiet w w' \<and> one_file d e (c @ a) m (w_fs w')
     \<and> outside_same d (w_fs w) (w_fs w')) w"
  unfolding copy_source_def
proof (rule wp_try [OF Open_calm [OF assms(1,3)]], goal_cases)
  case (2 h w1)
  then have w1: "quiet w w1" "w_fs w1 = w_fs w" "fs_read h (w_fs w1) = Inr a" by auto
  show ?case
  proof (rule wp_step [OF ReadAll_calm [OF quiet_calm [OF w1(1)] w1(3)]], goal_cases)
    case (1 x w2)
    then have x: "x = Inr a" and w2: "quiet w w2" "w_fs w2 = w_fs w" using w1 by (auto intro: quiet_trans)
    have f2: "one_file d e c m (w_fs w2)" using assms(2) w2(2) by simp
    show ?case
      unfolding x sum.case
    proof (rule wp_step [OF Write_calm [OF quiet_calm [OF w2(1)] f2]], goal_cases)
      case (1 n w3)
      then have w3: "quiet w w3" "n = Inr (length a)" "one_file d e (c @ a) m (w_fs w3)" "outside_same d (w_fs w) (w_fs w3)"
        using w2 by (auto intro: quiet_trans)
      show ?case
        by (rule wp_step [OF Close_calm [OF quiet_calm [OF w3(1)]]])
          (use w3 in \<open>auto simp: wp_return intro: quiet_trans\<close>)
    qed
  qed
qed simp

lemma copy_sources_calm:
  assumes "calm w" and "one_file d e c m (w_fs w)"
    and "\<forall>s \<in> set srcs. on_disk s (content s) (w_fs w) \<and> \<not> below d (comps s)"
  shows "wp (copy_sources p (d @ [e]) srcs) (\<lambda>x w'. x = Inr () \<and> quiet w w'
     \<and> one_file d e (c @ concat (map content srcs)) m (w_fs w') \<and> outside_same d (w_fs w) (w_fs w')) w"
  using assms
proof (induction srcs arbitrary: w c)
  case Nil
  then show ?case by (simp add: wp_return)
next
  case (Cons s srcs)
  have s: "on_disk s (content s) (w_fs w)" using Cons.prems(3) by simp
  show ?case
    unfolding copy_sources.simps
  proof (rule wp_try [OF copy_source_calm [OF Cons.prems(1,2) s]], goal_cases)
    case (2 u w1)
    then have w1: "quiet w w1" "one_file d e (c @ content s) m (w_fs w1)" "outside_same d (w_fs w) (w_fs w1)" by auto
    have "\<forall>t \<in> set srcs. on_disk t (content t) (w_fs w1) \<and> \<not> below d (comps t)"
      using Cons.prems(3) on_disk_outside [OF _ w1(3)] by simp
    from Cons.IH [OF quiet_calm [OF w1(1)] w1(2) this] show ?case
      by (rule wp_mono) (use w1 in \<open>auto intro: quiet_trans outside_same_trans\<close>)
  qed simp
qed

section \<open>Concatenating\<close>

text \<open>\<^verbatim>\<open>concat_into\<close> with what follows it: the temporary file is closed again and its name removed.\<close>

lemma concat_into_calm:
  assumes "calm w" and s: "dir_at s d" and e: "names tmp d e" and f: "names dst d f" and "e \<noteq> f"
    and "one_file d e [] m (w_fs w)"
    and "\<forall>s \<in> set srcs. on_disk s (content s) (w_fs w) \<and> \<not> below d (comps s)"
  shows "wp (concat_into dst srcs tmp (d @ [e])) (\<lambda>x w'. x = Inr () \<and> quiet w w'
     \<and> one_file d f (concat (map content srcs)) 292 (w_fs w') \<and> outside_same d (w_fs w) (w_fs w')) w"
  unfolding concat_into_def
proof (rule wp_try [OF copy_sources_calm [OF assms(1,6,7)]], goal_cases)
  case (2 u w1)
  then have w1: "quiet w w1" "one_file d e (concat (map content srcs)) m (w_fs w1)" "outside_same d (w_fs w) (w_fs w1)" by auto
  show ?case
  proof (rule wp_try [OF Close_calm [OF quiet_calm [OF w1(1)]]], goal_cases)
    case (2 u w2)
    then have w2: "quiet w w2" "one_file d e (concat (map content srcs)) m (w_fs w2)" "outside_same d (w_fs w) (w_fs w2)"
      using w1 by (auto intro: quiet_trans)
    show ?case
    proof (rule wp_try [OF Chmod_calm [OF quiet_calm [OF w2(1)] w2(2) e]], goal_cases)
      case (2 u w3)
      then have w3: "quiet w w3" "one_file d e (concat (map content srcs)) 292 (w_fs w3)" "outside_same d (w_fs w) (w_fs w3)"
        using w2 by (auto intro: quiet_trans outside_same_trans)
      show ?case
        by (rule wp_try [OF Rename_calm [OF quiet_calm [OF w3(1)] w3(2) e f assms(5)]])
          (use w3 in \<open>auto simp: wp_return intro: quiet_trans outside_same_trans\<close>)
    qed simp
  qed simp
qed simp

lemma concat_current_calm:
  assumes "calm w" and "on_disk a ca (w_fs w)" and "on_disk b cb (w_fs w)"
  shows "wp (concat_current dst a b) (\<lambda>x w'. quiet w w' \<and> w_fs w' = w_fs w
     \<and> x = Inr (newer_than_both dst a b (w_fs w))) w"
proof -
  obtain na nb where st: "fs_stat a (w_fs w) = Inr na" "fs_stat b (w_fs w) = Inr nb"
    using assms(2,3) on_disk_read read_file_stat by metis
  show ?thesis
    unfolding concat_current_def
  proof (rule wp_try [OF Stat_calm [OF assms(1)]], goal_cases)
    case (1 err w1)
    then have "\<not> newer_than_both dst a b (w_fs w)" by (auto simp: newer_than_both_def)
    with 1 show ?case by (simp add: wp_return)
  next
    case (2 nd w1)
    then have w1: "quiet w w1" "w_fs w1 = w_fs w" and nd: "fs_stat dst (w_fs w) = Inr nd"
      by (cases "fs_stat dst (w_fs w)"; auto)+
    show ?case
    proof (rule wp_try [OF Stat_calm [OF quiet_calm [OF w1(1)]]], goal_cases)
      case (2 v w2)
      then have w2: "quiet w w2" "w_fs w2 = w_fs w" "v = na" using w1 st by (auto intro: quiet_trans)
      show ?case
        by (rule wp_try [OF Stat_calm [OF quiet_calm [OF w2(1)]]])
          (use w2 st nd in \<open>auto simp: wp_return newer_than_both_def intro: quiet_trans\<close>)
    qed (use w1 st in auto)
  qed
qed

text \<open>The directory is emptied.\<close>

lemma empty_dir_calm:
  assumes "calm w" and s: "dir_at s d" and pl: "plain_dir (w_fs w) d" and sane: "sane_names (w_fs w)"
  shows "wp (remove_entries s (children d (w_fs w))) (\<lambda>u w'. quiet w w' \<and> outside_same d (w_fs w) (w_fs w')
     \<and> (\<forall>x. look (w_fs w') (d @ [x]) = None)) w"
proof -
  have d: "dir_name s d" "os_names d" using s by (auto simp: dir_at_def)
  have "removed d (set (children d fs)) fs fs' \<Longrightarrow> outside_same d fs fs' \<and> (\<forall>x. look fs' (d @ [x]) = None)" for fs fs'
    by (auto simp: removed_def set_children outside_same_def below_iff)
  then show ?thesis
    by (intro wp_mono [OF remove_entries_calm [OF assms(1) d pl children_os_names [OF sane]]]) blast
qed

lemma Remove_absent_calm:
  assumes "calm w" and "names s d f" and "plain_dir (w_fs w) d" and "look (w_fs w) (d @ [f]) = None"
  shows "wp (os_Remove s) (\<lambda>x w'. quiet w w' \<and> w_fs w' = w_fs w) w"
  unfolding os_Remove_def
  by (rule wp_calm [OF assms(1)]) (use assms(4) in \<open>simp add: fs_remove_def names_resolve [OF assms(2,3)]\<close>)

text \<open>From the empty directory to the one file.\<close>

lemma fill_dir_calm:
  assumes "calm w" and s: "dir_at s d" and n: "names dst d f" and np: "\<not> has_prefix ''.concat-'' f"
    and pl: "plain_dir (w_fs w) d" and empty: "\<And>x. look (w_fs w) (d @ [x]) = None"
    and src: "\<forall>s \<in> set srcs. on_disk s (content s) (w_fs w) \<and> \<not> below d (comps s)"
  shows "wp (do {
      tmp \<leftarrow> os_CreateTemp s ''.concat-'';
      (case tmp of
         Inl err \<Rightarrow> State_Monad.return (Inl (Wrapped ''creating temp file: '' (OsErr err) []))
       | Inr (tmpPath, h) \<Rightarrow> do {
           res \<leftarrow> concat_into dst srcs tmpPath h;
           _ \<leftarrow> os_Close tmpPath;
           _ \<leftarrow> os_Remove tmpPath;
           State_Monad.return res
         })
    }) (\<lambda>x w'. x = Inr () \<and> quiet w w' \<and> outside_same d (w_fs w) (w_fs w')
      \<and> one_file d f (concat (map content srcs)) 292 (w_fs w')) w"
proof -
  have pre: "slash \<notin> set ''.concat-''" "2 < length ''.concat-''" "CHR 0x00 \<notin> set ''.concat-''" by (simp_all add: slash_def)
  show ?thesis
  proof (rule wp_try [OF CreateTemp_calm [OF assms(1) s pre pl empty]], goal_cases)
    case (2 v w1)
    then obtain i where v: "v = (s @ slash # ''.concat-'' @ digits i, d @ [''.concat-'' @ digits i])"
      and w1: "quiet w w1" "one_file d (''.concat-'' @ digits i) [] 384 (w_fs w1)" "outside_same d (w_fs w) (w_fs w1)" by auto
    let ?e = "''.concat-'' @ digits i"
    note tn = temp_names [OF s pre, of i]
    have ne: "?e \<noteq> f" using np concat_temp_other by metis
    have "\<forall>s \<in> set srcs. on_disk s (content s) (w_fs w1) \<and> \<not> below d (comps s)"
      using src on_disk_outside [OF _ w1(3)] by blast
    from concat_into_calm [OF quiet_calm [OF w1(1)] s tn n ne w1(2) this] show ?case
      unfolding v prod.case sum.case
    proof (rule wp_step, goal_cases)
      case (1 res w2)
      then have w2: "quiet w w2" "res = Inr ()" "one_file d f (concat (map content srcs)) 292 (w_fs w2)" "outside_same d (w_fs w) (w_fs w2)"
        using w1 by (auto intro: quiet_trans outside_same_trans)
      show ?case
      proof (rule wp_step [OF Close_calm [OF quiet_calm [OF w2(1)]]], goal_cases)
        case (1 x w3)
        then have w3: "quiet w w3" "w_fs w3 = w_fs w2" using w2 by (auto intro: quiet_trans)
        have "plain_dir (w_fs w3) d" "look (w_fs w3) (d @ [?e]) = None"
          using one_fileD [OF w2(3)] one_file_other [OF w2(3) ne] w3(2) by simp_all
        from Remove_absent_calm [OF quiet_calm [OF w3(1)] tn this] show ?case
          by (rule wp_step) (use w2 w3 in \<open>auto simp: wp_return intro: quiet_trans\<close>)
      qed
    qed
  qed simp
qed

lemma concatenateFiles_calm:
  assumes "calm w" and s: "dir_at (Dir dst) d" and n: "names dst d f" and np: "\<not> has_prefix ''.concat-'' f"
    and pl: "plain_dir (w_fs w) d" and sane: "sane_names (w_fs w)"
    and a: "on_disk a ca (w_fs w)" "\<not> below d (comps a)" and b: "on_disk b cb (w_fs w)" "\<not> below d (comps b)"
  shows "wp (concatenateFiles dst a b) (\<lambda>x w'. x = Inr () \<and> quiet w w' \<and> outside_same d (w_fs w) (w_fs w')
     \<and> (if newer_than_both dst a b (w_fs w) then w_fs w' = w_fs w else one_file d f (ca @ cb) 292 (w_fs w'))) w"
  unfolding concatenateFiles_def
proof (rule wp_try [OF concat_current_calm [OF assms(1) a(1) b(1)]], goal_cases)
  case (2 cur w1)
  then have w1: "quiet w w1" "w_fs w1 = w_fs w" and cur: "cur = newer_than_both dst a b (w_fs w)" by auto
  show ?case
  proof (rule wp_ifI, goal_cases)
    case 1
    then show ?case using w1 cur by (simp add: wp_return)
  next
    case stale: 2
    have "plain_dir (w_fs w1) d" using pl w1(2) by simp
    then show ?case
      unfolding Let_def
    proof (rule wp_try [OF ReadDir_calm [OF quiet_calm [OF w1(1)] s]], goal_cases)
      case (2 es w2)
      then have w2: "quiet w w2" "w_fs w2 = w_fs w" and es: "es = children d (w_fs w2)" using w1 by (auto intro: quiet_trans)
      have "plain_dir (w_fs w2) d" "sane_names (w_fs w2)" using pl sane w2(2) by simp_all
      from empty_dir_calm [OF quiet_calm [OF w2(1)] s this] show ?case
        unfolding es
      proof (rule wp_step, goal_cases)
        case (1 u w3)
        then have w3: "quiet w w3" "outside_same d (w_fs w) (w_fs w3)" "\<And>x. look (w_fs w3) (d @ [x]) = None"
          using w2 by (auto intro: quiet_trans)
        let ?content = "\<lambda>s. if s = a then ca else cb"
        have content: "concat (map ?content [a, b]) = ca @ cb" using on_disk_read [OF a(1)] on_disk_read [OF b(1)] by auto
        have same: "a = b \<Longrightarrow> ca = cb" using on_disk_read [OF a(1)] on_disk_read [OF b(1)] by simp
        then have "\<forall>s \<in> set [a, b]. on_disk s (?content s) (w_fs w3) \<and> \<not> below d (comps s)"
          using on_disk_outside [OF a(1) w3(2) a(2)] on_disk_outside [OF b(1) w3(2) b(2)] a(2) b(2) by auto
        from fill_dir_calm [OF quiet_calm [OF w3(1)] s n np outside_same_plain [OF w3(2) pl] w3(3) this] show ?case
          unfolding content by (rule wp_mono) (use w3 stale cur in \<open>auto intro: quiet_trans outside_same_trans\<close>)
      qed
    qed simp
  qed
qed simp

end
