(* ===== verification/ConfigLive.thy ===== *)
theory ConfigLive
  imports ConcatLive
begin

text \<open>
  The BootConfig reconciler makes progress: without faults, with ready artifacts and nothing but
  directories on the way, one call of \<^verbatim>\<open>Reconcile\<close> empties the two directories of stale entries, puts the links
  in place and reports Ready; on a boot directory that is assembled it changes nothing.
\<close>

section \<open>Reporting\<close>

text \<open>In the states \<open>S\<close> the server accepts an update of the status of the config.\<close>

definition config_server :: "'s Client \<Rightarrow> 's set \<Rightarrow> BootConfig \<Rightarrow> bool" where
  "config_server c S bc \<longleftrightarrow> (\<forall>s \<in> S. \<forall>st. \<exists>b' s'. Update_BootConfig_status c (bc\<lparr>bc_Status := st\<rparr>) s = (Inr b', s'))"

text \<open>The config is reported Ready over the present file system, unless it is already.\<close>

definition config_reported :: "BootConfig \<Rightarrow> 's world \<Rightarrow> 's world \<Rightarrow> bool" where
  "config_reported bc w w' \<longleftrightarrow>
     (if bc_Phase (bc_Status bc) = BootConfigPhaseReady then w_writes w' = w_writes w
      else w_writes w' =
        (ConfigStatus (bc\<lparr>bc_Status := (bc_Status bc)\<lparr>bc_Phase := BootConfigPhaseReady, bc_Message := []\<rparr>\<rparr>), w_fs w')
        # w_writes w)"

lemma setReady_config_calm:
  assumes "calm w" and "config_server (bcr_Client r) S bc" and "w_api w \<in> S"
  shows "wp (BootConfig_setReady r bc)
    (\<lambda>x w'. x = Result 0 \<and> calm w' \<and> w_fs w' = w_fs w \<and> config_reported bc w w') w"
proof -
  let ?b = "bc\<lparr>bc_Status := (bc_Status bc)\<lparr>bc_Phase := BootConfigPhaseReady, bc_Message := []\<rparr>\<rparr>"
  obtain b' s' where "Update_BootConfig_status (bcr_Client r) ?b (w_api w) = (Inr b', s')"
    using assms(2,3) unfolding config_server_def by metis
  then show ?thesis
    using assms(1) unfolding BootConfig_setReady_def BootConfig_update_def
    by (auto simp: wp_simps api_write_def calm_def config_reported_def)
qed

section \<open>Assembling\<close>

text \<open>There is room for the boot directory: nothing but directories is in the way.\<close>

definition boot_room :: "'s BootConfigReconciler \<Rightarrow> string \<Rightarrow> fsys \<Rightarrow> bool" where
  "boot_room r n fs \<longleftrightarrow>
     sane_names fs \<and> open_way fs (boot_comps r n @ [''kernel'']) \<and> open_way fs (boot_comps r n @ [''initrd''])"

lemma os_kernel: "os_names [''kernel'']" and os_initrd: "os_names [''initrd'']"
  by (simp_all add: safe_component_def slash_def)

lemma dirs_made_sane: "dirs_made d fs fs' \<Longrightarrow> sane_names fs \<Longrightarrow> os_names d \<Longrightarrow> sane_names fs'"
  by (rule sane_change) (auto simp: dirs_made_def below_iff)

lemma dirs_made_open: "dirs_made d fs fs' \<Longrightarrow> open_way fs p \<Longrightarrow> open_way fs' p"
  unfolding dirs_made_def open_way_def by metis

lemma dirs_made_plain: "dirs_made d fs fs' \<Longrightarrow> plain_dir fs p \<Longrightarrow> plain_dir fs' p"
  unfolding dirs_made_def plain_dir_def by (metis option.distinct(1))

lemma link_only_sane: "link_only d f t fs fs' \<Longrightarrow> sane_names fs \<Longrightarrow> os_names (d @ [f]) \<Longrightarrow> sane_names fs'"
  by (rule sane_change) (auto simp: link_only_def)

lemma link_only_plain: "link_only d f t fs fs' \<Longrightarrow> plain_dir fs p \<Longrightarrow> \<not> (below d p \<and> p \<noteq> d) \<Longrightarrow> plain_dir fs' p"
  unfolding link_only_def plain_dir_def by (metis below_trans below_antisym)

lemma link_target_nonempty:
  assumes "safe_component (om_name (ba_meta a))"
  shows "link_target [''..'', ''..'', ''..''] a \<noteq> []"
proof -
  have "comps (Join (replicate (Suc 2) ''..'' @ [''artifacts'', om_name (ba_meta a), file_of a])) \<noteq> []"
    by (subst relative_target(1)) (use assms safe_artifacts filename_safe in \<open>auto simp: file_of_def\<close>)
  then show ?thesis by (auto simp: link_target_def eval_nat_numeral comps_def)
qed

section \<open>The initrd\<close>

text \<open>
  What \<^verbatim>\<open>Reconcile\<close> takes for current: the link, or with a firmware a file that looks newer than both sources.
\<close>

definition initrd_path :: "'s BootConfigReconciler \<Rightarrow> string \<Rightarrow> BootArtifact \<Rightarrow> string" where
  "initrd_path r n i = Join [Join [Join [bcr_DataDir r, ''boot'', n], ''initrd''], file_of i]"

definition initrd_current ::
  "'s BootConfigReconciler \<Rightarrow> string \<Rightarrow> BootArtifact \<Rightarrow> BootArtifact option \<Rightarrow> fsys \<Rightarrow> bool" where
  "initrd_current r n i fw fs \<longleftrightarrow>
     (case fw of
        None \<Rightarrow> look fs (boot_comps r n @ [''initrd'', file_of i]) = Some (LinkN (link_target [''..'', ''..'', ''..''] i))
      | Some v \<Rightarrow> newer_than_both (initrd_path r n i) (artifact_string r i) (artifact_string r v) fs)"

text \<open>What it makes: the link, or the bytes of the initrd followed by those of the firmware.\<close>

definition initrd_made ::
  "'s BootConfigReconciler \<Rightarrow> string \<Rightarrow> BootArtifact \<Rightarrow> BootArtifact option \<Rightarrow> fsys \<Rightarrow> bool" where
  "initrd_made r n i fw fs \<longleftrightarrow>
     (case fw of
        None \<Rightarrow> look fs (boot_comps r n @ [''initrd'', file_of i]) = Some (LinkN (link_target [''..'', ''..'', ''..''] i))
      | Some v \<Rightarrow> \<exists>ci cv t. read_file (artifact_string r i) fs = Some ci \<and> read_file (artifact_string r v) fs = Some cv
          \<and> look fs (boot_comps r n @ [''initrd'', file_of i]) = Some (FileN (ci @ cv) t 292))"

text \<open>With a firmware the two sources are files.\<close>

definition sources_ok :: "'s BootConfigReconciler \<Rightarrow> BootArtifact \<Rightarrow> BootArtifact option \<Rightarrow> fsys \<Rightarrow> bool" where
  "sources_ok r i fw fs \<longleftrightarrow>
     (\<forall>v. fw = Some v \<longrightarrow> \<not> has_prefix ''.concat-'' (file_of i)
        \<and> (\<exists>c. on_disk (artifact_string r i) c fs) \<and> (\<exists>c. on_disk (artifact_string r v) c fs))"

lemma link_only_outside: "link_only d f t fs fs' \<Longrightarrow> outside_same d fs fs'"
  by (simp add: link_only_def outside_same_def)

lemma artifact_not_boot:
  assumes "rooted (bcr_DataDir r)" and "safe_component (om_name (ba_meta a))"
  shows "\<not> below (boot_comps r n @ x) (comps (artifact_string r a))"
  using artifact_dir_name [OF assms] by (auto simp: dir_name_def artifact_comps_def boot_comps_def below_iff)

lemma missing_not_current:
  assumes rt: "rooted (bcr_DataDir r)" and n: "os_names (boot_comps r n)" and f: "os_names [file_of i]"
    and pl: "plain_dir fs (boot_comps r n @ [''initrd''])" and no: "look fs (boot_comps r n @ [''initrd'', file_of i]) = None"
  shows "\<not> initrd_current r n i fw fs"
proof -
  have bn: "dir_name (Join [bcr_DataDir r, ''boot'', n]) (boot_comps r n)"
    by (rule boot_dir_name [OF rt]) (use n in \<open>simp add: boot_comps_def\<close>)
  have "dir_at (Join [Join [bcr_DataDir r, ''boot'', n], ''initrd'']) (boot_comps r n @ [''initrd''])"
    by (rule dir_at_Join(1) [OF bn]) (use n in \<open>simp add: os_names_def safe_component_def slash_def\<close>)
  then have "names (initrd_path r n i) (boot_comps r n @ [''initrd'']) (file_of i)"
    unfolding initrd_path_def by (intro dir_at_Join(2)) (use f in \<open>simp_all add: dir_at_def\<close>)
  then have "fs_stat (initrd_path r n i) fs = Inl ENOENT"
    by (rule names_missing) (use pl no in \<open>auto simp: open_way_def plain_dir_def\<close>)
  then show ?thesis using no by (simp add: initrd_current_def newer_than_both_def split: option.split)
qed

lemma assemble_initrd_calm:
  fixes r :: "'s BootConfigReconciler"
  assumes "calm w" and rt: "rooted (bcr_DataDir r)" and n: "os_names (boot_comps r (om_name (bc_meta bc)))"
    and i: "os_names [om_name (ba_meta i), file_of i]" and v: "\<forall>v. fw = Some v \<longrightarrow> safe_component (om_name (ba_meta v))"
    and pl: "plain_dir (w_fs w) (boot_comps r (om_name (bc_meta bc)) @ [''initrd''])" and sane: "sane_names (w_fs w)"
    and src: "sources_ok r i fw (w_fs w)"
  shows "wp (assemble_initrd r bc i fw) (\<lambda>x w'. x = Inr () \<and> quiet w w'
     \<and> outside_same (boot_comps r (om_name (bc_meta bc)) @ [''initrd'']) (w_fs w) (w_fs w')
     \<and> (if initrd_current r (om_name (bc_meta bc)) i fw (w_fs w) then w_fs w' = w_fs w
        else initrd_made r (om_name (bc_meta bc)) i fw (w_fs w'))) w"
proof -
  let ?n = "om_name (bc_meta bc)"
  let ?d = "boot_comps r ?n @ [''initrd'']" and ?s = "Join [Join [bcr_DataDir r, ''boot'', ?n], ''initrd'']"
  have bn: "dir_name (Join [bcr_DataDir r, ''boot'', ?n]) (boot_comps r ?n)"
    by (rule boot_dir_name [OF rt]) (use n in \<open>simp add: boot_comps_def\<close>)
  have d: "dir_at ?s ?d" by (rule dir_at_Join(1) [OF bn]) (use n os_initrd in simp)
  have f: "os_names [file_of i]" using i by simp
  show ?thesis
  proof (cases fw)
    case None
    have "wp (ensureSymlink ?s (file_of i) (link_target [''..'', ''..'', ''..''] i)) (\<lambda>x w'. x = Inr () \<and> quiet w w'
        \<and> link_only ?d (file_of i) (link_target [''..'', ''..'', ''..''] i) (w_fs w) (w_fs w')) w"
      by (rule ensureSymlink_calm [OF assms(1) d f pl sane]) (use i in \<open>simp add: link_target_nonempty\<close>)
    then show ?thesis
      unfolding assemble_initrd_def Let_def None option.case
      by (rule wp_mono) (auto simp: initrd_current_def initrd_made_def link_only_def outside_same_def)
  next
    case (Some v)
    obtain ci cv where c: "on_disk (artifact_string r i) ci (w_fs w)" "on_disk (artifact_string r v) cv (w_fs w)"
      and np: "\<not> has_prefix ''.concat-'' (file_of i)" using src Some unfolding sources_ok_def by blast
    have ap: "\<not> below ?d (comps (artifact_string r i))" "\<not> below ?d (comps (artifact_string r v))"
      using artifact_not_boot [OF rt] i assms(5) Some by auto
    have dn: "dir_name ?s ?d" "os_names (?d @ [file_of i])" using d f by (simp_all add: dir_at_def)
    have da: "dir_at (Dir (Join [?s, file_of i])) ?d" by (rule dir_at_Dir [OF d f])
    from concatenateFiles_calm [OF assms(1) da dir_at_Join(2) [OF dn] np pl sane c(1) ap(1) c(2) ap(2)] show ?thesis
      unfolding assemble_initrd_def Let_def Some option.case
    proof (rule wp_mono, goal_cases)
      case (1 x w')
      have "read_file (artifact_string r i) (w_fs w') = Some ci" "read_file (artifact_string r v) (w_fs w') = Some cv"
        using 1 on_disk_read [OF on_disk_outside [OF c(1) _ ap(1)]] on_disk_read [OF on_disk_outside [OF c(2) _ ap(2)]] by blast+
      then show ?case
        using 1 one_fileD [of ?d "file_of i" "ci @ cv" 292 "w_fs w'"]
        by (auto simp: initrd_current_def initrd_made_def initrd_path_def)
    qed
  qed
qed

section \<open>The whole directory\<close>

text \<open>The kernel link, and an initrd that is current.\<close>

definition boot_current ::
  "'s BootConfigReconciler \<Rightarrow> string \<Rightarrow> BootArtifact \<Rightarrow> BootArtifact \<Rightarrow> BootArtifact option \<Rightarrow> fsys \<Rightarrow> bool" where
  "boot_current r n k i fw fs \<longleftrightarrow>
     plain_dir fs (boot_comps r n @ [''kernel'']) \<and> plain_dir fs (boot_comps r n @ [''initrd''])
     \<and> look fs (boot_comps r n @ [''kernel'', file_of k]) = Some (LinkN (link_target [''..'', ''..'', ''..''] k))
     \<and> initrd_current r n i fw fs"

text \<open>The kernel link, and an initrd that is current or has just been made.\<close>

definition boot_set ::
  "'s BootConfigReconciler \<Rightarrow> string \<Rightarrow> BootArtifact \<Rightarrow> BootArtifact \<Rightarrow> BootArtifact option \<Rightarrow> fsys \<Rightarrow> bool" where
  "boot_set r n k i fw fs \<longleftrightarrow>
     plain_dir fs (boot_comps r n @ [''kernel'']) \<and> plain_dir fs (boot_comps r n @ [''initrd''])
     \<and> look fs (boot_comps r n @ [''kernel'', file_of k]) = Some (LinkN (link_target [''..'', ''..'', ''..''] k))
     \<and> (initrd_current r n i fw fs \<or> initrd_made r n i fw fs)"

lemma on_disk_dirs: "dirs_made d fs fs' \<Longrightarrow> on_disk s c fs \<Longrightarrow> on_disk s c fs'"
proof -
  assume m: "dirs_made d fs fs'" and "on_disk s c fs"
  then obtain e f t m' where e: "names s e f" "plain_dir fs e" "look fs (e @ [f]) = Some (FileN c t m')"
    unfolding on_disk_def by blast
  have "look fs' (e @ [f]) = look fs (e @ [f])" using m e(3) unfolding dirs_made_def by (metis option.distinct(1))
  then show ?thesis unfolding on_disk_def using e dirs_made_plain [OF m e(2)] by auto
qed

lemma sources_ok_dirs: "dirs_made d fs fs' \<Longrightarrow> sources_ok r i fw fs \<Longrightarrow> sources_ok r i fw fs'"
  unfolding sources_ok_def by (blast intro: on_disk_dirs)

lemma sources_ok_outside:
  assumes "outside_same (boot_comps r n @ x) fs fs'" and "rooted (bcr_DataDir r)"
    and "safe_component (om_name (ba_meta i))" and "\<forall>v. fw = Some v \<longrightarrow> safe_component (om_name (ba_meta v))"
    and "sources_ok r i fw fs"
  shows "sources_ok r i fw fs'"
  using assms(3-5) on_disk_outside [OF _ assms(1) artifact_not_boot [OF assms(2)]] unfolding sources_ok_def by blast

text \<open>Outside of the directory, nothing but missing directories on the way to it are made.\<close>

definition changes_below :: "path \<Rightarrow> fsys \<Rightarrow> fsys \<Rightarrow> bool" where
  "changes_below d fs fs' \<longleftrightarrow>
     (\<forall>q. \<not> below d q \<longrightarrow> look fs' q = look fs q \<or> (below q d \<and> look fs q = None \<and> (\<exists>t. look fs' q = Some (DirN t))))"

lemma changes_below_kept: "changes_below d fs fs' \<Longrightarrow> \<not> below d q \<Longrightarrow> look fs q = Some n \<Longrightarrow> look fs' q = Some n"
  by (auto simp: changes_below_def)

lemma changes_below_absent: "changes_below d fs fs' \<Longrightarrow> \<not> below d q \<Longrightarrow> \<not> below q d \<Longrightarrow> look fs' q = look fs q"
  by (auto simp: changes_below_def)

lemma changes_below_plain:
  assumes ch: "changes_below d fs fs'" and d: "\<not> below d p" and pl: "plain_dir fs p"
  shows "plain_dir fs' p"
  unfolding plain_dir_def
proof (intro allI impI)
  fix q assume q: "below q p"
  then have "\<not> below d q" using below_trans [of d q p] d by blast
  then show "\<exists>t. look fs' q = Some (DirN t)"
    using changes_below_kept [OF ch] pl q unfolding plain_dir_def by blast
qed

lemma changes_below_open:
  assumes ch: "changes_below d fs fs'" and d: "\<not> below d p" and op: "open_way fs p"
  shows "open_way fs' p"
  unfolding open_way_def
proof (intro allI impI)
  fix q assume q: "below q p"
  then have "\<not> below d q" using below_trans [of d q p] d by blast
  then have "look fs' q = look fs q \<or> (\<exists>t. look fs' q = Some (DirN t))" using ch unfolding changes_below_def by blast
  then show "look fs' q = None \<or> (\<exists>t. look fs' q = Some (DirN t))" using op q by (auto simp: open_way_def)
qed

text \<open>The four steps together.\<close>

lemma boot_made:
  assumes "dirs_made (b @ [''kernel'']) fs fs1" and "dirs_made (b @ [''initrd'']) fs1 fs2"
    and "link_only (b @ [''kernel'']) f t fs2 fs3" and o4: "outside_same (b @ [''initrd'']) fs3 fs4"
  shows "plain_dir fs4 (b @ [''kernel''])" and "plain_dir fs4 (b @ [''initrd''])" and "look fs4 (b @ [''kernel'', f]) = Some (LinkN t)"
    and "plain_dir fs (b @ [''kernel'']) \<Longrightarrow> plain_dir fs (b @ [''initrd'']) \<Longrightarrow> look fs (b @ [''kernel'', f]) = Some (LinkN t) \<Longrightarrow>
      fs3 = fs"
    and "changes_below b fs fs4" and "look fs (b @ [''initrd'', g]) = None \<Longrightarrow> look fs3 (b @ [''initrd'', g]) = None"
proof -
  have p2: "plain_dir fs2 (b @ [''kernel''])" "plain_dir fs2 (b @ [''initrd''])"
    using assms(1,2) dirs_made_plain [OF assms(2)] by (auto simp: dirs_made_def)
  have p3: "plain_dir fs3 (b @ [''kernel''])" "plain_dir fs3 (b @ [''initrd''])"
    by (rule link_only_plain [OF assms(3)], use p2 in \<open>auto simp: below_iff\<close>)+
  have same: "look fs4 q = look fs3 q" if "\<not> below (b @ [''initrd'']) q" for q
    using o4 that by (simp add: outside_same_def)
  have "\<not> below (b @ [''initrd'']) q" if "below q (b @ [''kernel''])" for q using that by (auto simp: below_iff)
  then show "plain_dir fs4 (b @ [''kernel''])" using p3(1) same by (simp add: plain_dir_def)
  show "plain_dir fs4 (b @ [''initrd''])" by (rule outside_same_plain [OF o4 p3(2)])
  have "look fs3 (b @ [''kernel'', f]) = Some (LinkN t)" using assms(3) by (auto simp: link_only_def split: if_splits)
  then show "look fs4 (b @ [''kernel'', f]) = Some (LinkN t)" using same by (simp add: below_iff)
  have k2: "look fs3 q = look fs2 q" if "\<not> below (b @ [''kernel'']) q" for q
    using assms(3) that by (simp add: link_only_def)
  show "changes_below b fs fs4"
    unfolding changes_below_def
  proof (intro allI impI)
    fix q assume q: "\<not> below b q"
    then have "look fs4 q = look fs2 q"
      using same [of q] k2 [of q] below_trans [of b "b @ [_]" q] by (auto simp: below_iff)
    moreover have "below q b" if "below q (b @ [c])" for c using that q by (auto simp: below_snoc)
    ultimately show "look fs4 q = look fs q \<or> (below q b \<and> look fs q = None \<and> (\<exists>t. look fs4 q = Some (DirN t)))"
      using assms(1,2) unfolding dirs_made_def by metis
  qed
  have long: "\<not> below (b @ [''initrd'', g]) (b @ [c])" for c by (auto simp: below_iff)
  then have "look fs2 (b @ [''initrd'', g]) = look fs (b @ [''initrd'', g])"
    using assms(1,2) unfolding dirs_made_def by metis
  then show "look fs (b @ [''initrd'', g]) = None \<Longrightarrow> look fs3 (b @ [''initrd'', g]) = None"
    using k2 by (simp add: below_iff)
  assume fs: "plain_dir fs (b @ [''kernel''])" "plain_dir fs (b @ [''initrd''])" "look fs (b @ [''kernel'', f]) = Some (LinkN t)"
  then have "fs2 = fs" using assms(1,2) by (simp add: dirs_made_def)
  then show "fs3 = fs" using assms(3) fs(3) by (simp add: link_only_def)
qed

lemma room_kernel:
  assumes "boot_room r n fs" and "os_names (boot_comps r n)" and "dirs_made (boot_comps r n @ [''kernel'']) fs fs1"
  shows "open_way fs1 (boot_comps r n @ [''initrd''])" and "sane_names fs1"
  using dirs_made_open [OF assms(3)] dirs_made_sane [OF assms(3)] assms(1,2) os_kernel by (auto simp: boot_room_def)

lemma room_initrd:
  assumes "sane_names fs1" and "os_names (boot_comps r n)" and "dirs_made (boot_comps r n @ [''kernel'']) fs fs1"
    and "dirs_made (boot_comps r n @ [''initrd'']) fs1 fs2"
  shows "sane_names fs2" and "plain_dir fs2 (boot_comps r n @ [''kernel''])" and "plain_dir fs2 (boot_comps r n @ [''initrd''])"
  using dirs_made_sane [OF assms(4,1)] dirs_made_plain [OF assms(4)] assms(2-4) os_initrd by (auto simp: dirs_made_def)

lemma room_linked:
  assumes "sane_names fs2" and "os_names (boot_comps r n @ [''kernel'', f])" and "link_only (boot_comps r n @ [''kernel'']) f t fs2 fs3"
    and "plain_dir fs2 (boot_comps r n @ [''initrd''])"
  shows "sane_names fs3" and "plain_dir fs3 (boot_comps r n @ [''initrd''])"
  using link_only_sane [OF assms(3,1)] link_only_plain [OF assms(3,4)] assms(2) by (auto simp: below_iff)

lemma assemble_calm:
  fixes r :: "'s BootConfigReconciler"
  assumes "calm w" and srv: "config_server (bcr_Client r) S bc" and S: "w_api w \<in> S" and rt: "rooted (bcr_DataDir r)"
    and n: "os_names (boot_comps r (om_name (bc_meta bc)))"
    and k: "os_names [om_name (ba_meta k), file_of k]" and i: "os_names [om_name (ba_meta i), file_of i]"
    and v: "\<forall>v. fw = Some v \<longrightarrow> safe_component (om_name (ba_meta v))"
    and room: "boot_room r (om_name (bc_meta bc)) (w_fs w)" and src: "sources_ok r i fw (w_fs w)"
  shows "wp (assemble r bc k i fw) (\<lambda>x w'. x = Result 0 \<and> boot_set r (om_name (bc_meta bc)) k i fw (w_fs w')
     \<and> config_reported bc w w' \<and> (boot_current r (om_name (bc_meta bc)) k i fw (w_fs w) \<longrightarrow> w_fs w' = w_fs w)
     \<and> changes_below (boot_comps r (om_name (bc_meta bc))) (w_fs w) (w_fs w')
     \<and> (look (w_fs w) (boot_comps r (om_name (bc_meta bc)) @ [''initrd'', file_of i]) = None
         \<longrightarrow> initrd_made r (om_name (bc_meta bc)) i fw (w_fs w'))) w"
proof -
  let ?n = "om_name (bc_meta bc)" and ?up = "link_target [''..'', ''..'', ''..'']"
  let ?b = "Join [bcr_DataDir r, ''boot'', ?n]" and ?kd = "boot_comps r ?n @ [''kernel'']" and ?id = "boot_comps r ?n @ [''initrd'']"
  have bn: "dir_name ?b (boot_comps r ?n)" by (rule boot_dir_name [OF rt]) (use n in \<open>simp add: boot_comps_def\<close>)
  have kd: "dir_at (Join [?b, ''kernel'']) ?kd" by (rule dir_at_Join(1) [OF bn]) (use n os_kernel in simp)
  have id: "dir_at (Join [?b, ''initrd'']) ?id" by (rule dir_at_Join(1) [OF bn]) (use n os_initrd in simp)
  have kf: "os_names [file_of k]" "os_names (boot_comps r ?n @ [''kernel'', file_of k])" and kt: "?up k \<noteq> []"
    using k n os_kernel by (simp_all add: link_target_nonempty)
  have jn: "safe_component (om_name (ba_meta i))" using i by simp
  show ?thesis
    unfolding assemble_eq Let_def
  proof (rule wp_try [OF MkdirAll_calm [OF assms(1) kd]], goal_cases)
    case (3 u w1)
    then have w1: "calm w1" "dirs_made ?kd (w_fs w) (w_fs w1)" "w_writes w1 = w_writes w" "w_api w1 = w_api w" by (auto simp: quiet_def)
    note r1 = room_kernel [OF room n w1(2)]
    show ?case
    proof (rule wp_try [OF MkdirAll_calm [OF w1(1) id r1(1)]], goal_cases)
      case (2 u w2)
      then have w2: "calm w2" "dirs_made ?id (w_fs w1) (w_fs w2)" "w_writes w2 = w_writes w" "w_api w2 = w_api w"
        using w1 by (auto simp: quiet_def)
      note r2 = room_initrd [OF r1(2) n w1(2) w2(2)]
      show ?case
      proof (rule wp_try [OF ensureSymlink_calm [OF w2(1) kd kf(1) r2(2,1) kt]], goal_cases)
        case (2 u w3)
        then have w3: "calm w3" "link_only ?kd (file_of k) (?up k) (w_fs w2) (w_fs w3)" "w_writes w3 = w_writes w" "w_api w3 = w_api w"
          using w2 by (auto simp: quiet_def)
        note r3 = room_linked [OF r2(1) kf(2) w3(2) r2(3)]
        note s3 = sources_ok_outside [OF link_only_outside [OF w3(2)] rt jn v sources_ok_dirs [OF w2(2) sources_ok_dirs [OF w1(2) src]]]
        from assemble_initrd_calm [OF w3(1) rt n i v r3(2,1) s3] show ?case
        proof (rule wp_try, goal_cases)
          case (2 u w4)
          then have w4: "calm w4" "outside_same ?id (w_fs w3) (w_fs w4)" "w_writes w4 = w_writes w" "w_api w4 \<in> S"
            and ini: "if initrd_current r ?n i fw (w_fs w3) then w_fs w4 = w_fs w3 else initrd_made r ?n i fw (w_fs w4)"
            using w3 S by (auto simp: quiet_def)
          note made = boot_made [OF w1(2) w2(2) w3(2) w4(2)]
          have "boot_set r ?n k i fw (w_fs w4)" "boot_current r ?n k i fw (w_fs w) \<Longrightarrow> w_fs w4 = w_fs w"
            using made ini by (auto simp: boot_set_def boot_current_def split: if_splits)
          moreover have "initrd_made r ?n i fw (w_fs w4)" if "look (w_fs w) (boot_comps r ?n @ [''initrd'', file_of i]) = None"
            using ini missing_not_current [OF rt n _ r3(2) made(6) [OF that]] i by (simp split: if_splits)
          ultimately show ?case using made(5)
            by (intro wp_mono [OF setReady_config_calm [OF w4(1) srv w4(4)]]) (use w4(3) in \<open>simp add: config_reported_def\<close>)
        qed simp
      qed simp
    qed simp
  qed (use room in \<open>simp_all add: boot_room_def\<close>)
qed

section \<open>Reconciling\<close>

text \<open>In the states \<open>S\<close>, which the question does not leave, the server has the artifact, and it is Ready.\<close>

definition has_ready :: "'s BootConfigReconciler \<Rightarrow> 's set \<Rightarrow> string \<Rightarrow> string \<Rightarrow> BootArtifact \<Rightarrow> bool" where
  "has_ready r S ns n a \<longleftrightarrow>
     (\<forall>s \<in> S. \<exists>s' \<in> S. Get_BootArtifact (bcr_Client r) ns n s = (Inr a, s'))
     \<and> ba_Phase (ba_Status a) = BootArtifactPhaseReady
     \<and> os_names [om_name (ba_meta a), file_of a]"

lemma has_readyD:
  assumes "has_ready r S ns n a"
  shows "os_names [om_name (ba_meta a), file_of a]" and "ba_Phase (ba_Status a) = BootArtifactPhaseReady"
  using assms unfolding has_ready_def by blast+

lemma getArtifact_calm:
  assumes "calm w" and "has_ready r S ns n a" and "w_api w \<in> S"
  shows "wp (getArtifact r n ns)
    (\<lambda>x w'. x = Inr a \<and> calm w' \<and> w_api w' \<in> S \<and> w_fs w' = w_fs w \<and> w_writes w' = w_writes w) w"
proof -
  obtain s' where "s' \<in> S" "Get_BootArtifact (bcr_Client r) ns n (w_api w) = (Inr a, s')"
    using assms(2,3) unfolding has_ready_def by blast
  then show ?thesis
    using assms(1) by (simp add: getArtifact_def api_call_def wp_State calm_def)
qed

text \<open>What follows does not see where the artifact came from.\<close>

lemma getArtifact_then:
  assumes "calm w" and "has_ready r S ns n a" and "w_api w \<in> S"
    and "\<And>w'. calm w' \<Longrightarrow> w_api w' \<in> S \<Longrightarrow> w_fs w' = w_fs w \<Longrightarrow> w_writes w' = w_writes w \<Longrightarrow> wp (g a) Q w'"
  shows "wp (State_Monad.bind (getArtifact r n ns) (\<lambda>x. case x of Inl e \<Rightarrow> f e | Inr v \<Rightarrow> g v)) Q w"
  by (rule wp_try [OF getArtifact_calm [OF assms(1-3)]]) (use assms(4) in auto)

text \<open>The artifacts of a config in mode A.\<close>

definition all_ready ::
  "'s BootConfigReconciler \<Rightarrow> 's set \<Rightarrow> BootConfig \<Rightarrow> BootConfigNetbootSpec \<Rightarrow> BootArtifact \<Rightarrow> BootArtifact \<Rightarrow> BootArtifact option \<Rightarrow> bool"
where
  "all_ready r S bc nb k i fw \<longleftrightarrow>
     has_ready r S (om_namespace (bc_meta bc)) (nb_KernelRef nb) k
     \<and> has_ready r S (om_namespace (bc_meta bc)) (nb_InitrdRef nb) i
     \<and> (case fw of
          None \<Rightarrow> nb_FirmwareRef nb = []
        | Some v \<Rightarrow> nb_FirmwareRef nb \<noteq> [] \<and> has_ready r S (om_namespace (bc_meta bc)) (nb_FirmwareRef nb) v)"

lemma reconcileNetboot_calm:
  assumes arts: "all_ready r S bc nb k i fw" and "calm w" and S: "w_api w \<in> S"
    and asm: "\<And>w'. calm w' \<Longrightarrow> w_api w' \<in> S \<Longrightarrow> w_fs w' = w_fs w \<Longrightarrow> w_writes w' = w_writes w \<Longrightarrow> wp (assemble r bc k i fw) Q w'"
  shows "wp (reconcileNetboot r bc nb) Q w"
proof -
  have k: "has_ready r S (om_namespace (bc_meta bc)) (nb_KernelRef nb) k"
    and i: "has_ready r S (om_namespace (bc_meta bc)) (nb_InitrdRef nb) i"
    using arts by (simp_all add: all_ready_def)
  show ?thesis
    unfolding reconcileNetboot_def
  proof (rule getArtifact_then [OF assms(2) k S], rule getArtifact_then [OF _ i], assumption, assumption, goal_cases)
    case (1 w1 w2)
    then have w2: "calm w2" "w_api w2 \<in> S" "w_fs w2 = w_fs w" "w_writes w2 = w_writes w" by simp_all
    show ?case
    proof (cases fw)
      case None
      then show ?thesis using asm [OF w2] has_readyD(2) [OF k] has_readyD(2) [OF i] arts by (simp add: all_ready_def)
    next
      case (Some v)
      then have v: "nb_FirmwareRef nb \<noteq> []" "has_ready r S (om_namespace (bc_meta bc)) (nb_FirmwareRef nb) v"
        using arts by (simp_all add: all_ready_def)
      show ?thesis
        using v(1) has_readyD(2) [OF k] has_readyD(2) [OF i] asm has_readyD(2) [OF v(2)] w2 Some
        by (simp del: wp_bind) (rule getArtifact_then [OF w2(1) v(2) w2(2)], simp)
    qed
  qed
qed

lemma Config_calm:
  assumes get: "Get_BootConfig (bcr_Client r) ns name (w_api w) = (Inr bc, s)"
    and spec: "bc_ISO (bc_Spec bc) = None" "bc_Netboot (bc_Spec bc) = Some nb"
    and arts: "all_ready r S bc nb k i fw"
    and c: "calm w" and S: "s \<in> S" and srv: "config_server (bcr_Client r) S bc" and rt: "rooted (bcr_DataDir r)"
    and n: "os_names (boot_comps r (om_name (bc_meta bc)))"
    and room: "boot_room r (om_name (bc_meta bc)) (w_fs w)" and src: "sources_ok r i fw (w_fs w)"
  shows "wp (BootConfig_Reconcile r ns name) (\<lambda>x w'. x = Result 0 \<and> boot_set r (om_name (bc_meta bc)) k i fw (w_fs w')
     \<and> config_reported bc w w' \<and> (boot_current r (om_name (bc_meta bc)) k i fw (w_fs w) \<longrightarrow> w_fs w' = w_fs w)
     \<and> changes_below (boot_comps r (om_name (bc_meta bc))) (w_fs w) (w_fs w')
     \<and> (look (w_fs w) (boot_comps r (om_name (bc_meta bc)) @ [''initrd'', file_of i]) = None
         \<longrightarrow> initrd_made r (om_name (bc_meta bc)) i fw (w_fs w'))) w"
    (is "wp _ ?Q w")
proof -
  have names: "os_names [om_name (ba_meta k), file_of k]" "os_names [om_name (ba_meta i), file_of i]"
    "\<forall>v. fw = Some v \<longrightarrow> safe_component (om_name (ba_meta v))"
    using arts by (auto simp: all_ready_def has_ready_def)
  have "wp (assemble r bc k i fw) ?Q w'" if "calm w'" "w_api w' \<in> S" "w_fs w' = w_fs w" "w_writes w' = w_writes w" for w'
    by (rule wp_mono [OF assemble_calm [OF that(1) srv that(2) rt n names]])
      (use room src that in \<open>auto simp: config_reported_def\<close>)
  then have "wp (reconcileNetboot r bc nb) ?Q (w\<lparr>w_api := s\<rparr>)"
    by (intro reconcileNetboot_calm [OF arts]) (use c S in \<open>simp_all add: calm_def\<close>)
  then show ?thesis
    unfolding BootConfig_Reconcile_def
    by (intro wp_api_call_bind [where f = "Get_BootConfig (bcr_Client r) ns name", OF get]) (simp add: spec)
qed

end
