(* ===== verification/ConfigProgress.thy ===== *)
theory ConfigProgress
  imports ConfigLive ConfigProps
begin

text \<open>
  That the BootConfig reconciler gets to its goal and then rests, applied to the small concrete world of
  \<open>ConfigProps\<close>.
\<close>

section \<open>Progress\<close>


section \<open>Rest\<close>


section \<open>The concrete world\<close>

lemma os_names_list: "list_all (\<lambda>c. safe_component c \<and> CHR 0x00 \<notin> set c) p \<Longrightarrow> os_names p"
  by (simp add: os_names_def list_all_iff)

lemma sane_names_list: "list_all (\<lambda>(q, n). list_all (\<lambda>c. safe_component c \<and> CHR 0x00 \<notin> set c) q) fs \<Longrightarrow> sane_names fs"
  unfolding sane_names_def os_names_def list_all_iff using look_mem by fastforce

lemma open_way_list:
  assumes "list_all (\<lambda>n. case look fs (take n p) of None \<Rightarrow> True | Some (DirN _) \<Rightarrow> True | _ \<Rightarrow> False) [0..<Suc (length p)]"
  shows "open_way fs p"
  unfolding open_way_def
proof (intro allI impI)
  fix q assume "below q p"
  then obtain n where n: "q = take n p" "n \<in> set [0..<Suc (length p)]"
    by (auto simp: below_iff intro!: that [of "length q"])
  from assms [unfolded list_all_iff, THEN bspec, OF n(2)] show "look fs q = None \<or> (\<exists>t. look fs q = Some (DirN t))"
    unfolding n(1) by (auto split: option.splits node.splits)
qed

abbreviation "cfg_ready nb \<equiv> cfg_reconciler (Some (cfg_config (Some nb) None)) (cfg_arts BootArtifactPhaseReady)"

lemma cfg_has_ready:
  assumes "n \<in> {''kern'', ''init'', ''firm''}"
  shows "has_ready (cfg_ready nb) UNIV ns n (cfg_artifact n BootArtifactPhaseReady)"
proof -
  have "os_names [n, file_of (cfg_artifact n BootArtifactPhaseReady)]"
    using assms
    by (elim insertE emptyE; simp only: file_of_def cfg_artifact_simps cfg_files)
      (simp_all add: safe_component_def slash_def)
  then show ?thesis using assms by (auto simp: has_ready_def cfg_reconciler_def cfg_client_def)
qed

lemma cfg_server: "config_server (bcr_Client (cfg_reconciler bc arts)) UNIV b"
  by (simp add: config_server_def cfg_reconciler_def cfg_client_def)

lemma cfg_calm: "calm (cfg_world fs [])"
  by (simp add: calm_def cfg_world_def)

lemma cfg_os_names: "os_names (boot_comps (cfg_reconciler bc arts) ''noble'')"
  unfolding cfg_boot by (rule os_names_list) code_simp

lemma cfg_room: "boot_room (cfg_reconciler bc arts) ''noble'' cfg_disk"
  unfolding boot_room_def cfg_boot
  by (intro conjI sane_names_list open_way_list) code_simp+

lemma on_disk_list:
  assumes "names s d f" and "list_all (\<lambda>n. case look fs (take n d) of Some (DirN _) \<Rightarrow> True | _ \<Rightarrow> False) [0..<Suc (length d)]"
    and "look fs (d @ [f]) = Some (FileN c t m)"
  shows "on_disk s c fs"
  unfolding on_disk_def using assms(1,3) plain_dir_list [OF assms(2)] by blast

lemma cfg_on_disk:
  "on_disk (artifact_string (cfg_reconciler bc arts) (cfg_artifact ''init'' ph)) ''I'' cfg_disk"
  "on_disk (artifact_string (cfg_reconciler bc arts) (cfg_artifact ''firm'' ph)) ''F'' cfg_disk"
proof -
  have "artifact_string (cfg_reconciler bc arts) (cfg_artifact ''init'' ph) = ''/data/artifacts/init/init.bin''"
    "artifact_string (cfg_reconciler bc arts) (cfg_artifact ''firm'' ph) = ''/data/artifacts/firm/firm.bin''"
    unfolding artifact_string_def cfg_artifact_simps cfg_files by (simp_all add: cfg_reconciler_def) code_simp+
  moreover have "on_disk ''/data/artifacts/init/init.bin'' ''I'' cfg_disk"
    by (rule on_disk_list [where d = "[''data'', ''artifacts'', ''init'']" and f = "''init.bin''" and t = 2 and m = 420])
      (unfold names_def no_dotdot_def, code_simp+)
  moreover have "on_disk ''/data/artifacts/firm/firm.bin'' ''F'' cfg_disk"
    by (rule on_disk_list [where d = "[''data'', ''artifacts'', ''firm'']" and f = "''firm.bin''" and t = 3 and m = 420])
      (unfold names_def no_dotdot_def, code_simp+)
  ultimately show "on_disk (artifact_string (cfg_reconciler bc arts) (cfg_artifact ''init'' ph)) ''I'' cfg_disk"
    "on_disk (artifact_string (cfg_reconciler bc arts) (cfg_artifact ''firm'' ph)) ''F'' cfg_disk" by simp_all
qed

lemma cfg_sources_ok:
  "sources_ok (cfg_reconciler bc arts) (cfg_artifact ''init'' ph) (Some (cfg_artifact ''firm'' ph)) cfg_disk"
  using cfg_on_disk [of bc arts ph] unfolding sources_ok_def file_of_def cfg_artifact_simps cfg_files
  by (auto simp: has_prefix_def)

lemma cfg_all_ready:
  "all_ready (cfg_ready (cfg_netboot ''firm'')) UNIV (cfg_config (Some (cfg_netboot ''firm'')) None) (cfg_netboot ''firm'')
     (cfg_artifact ''kern'' BootArtifactPhaseReady) (cfg_artifact ''init'' BootArtifactPhaseReady)
     (Some (cfg_artifact ''firm'' BootArtifactPhaseReady))"
  by (simp add: all_ready_def cfg_has_ready)


text \<open>The assembled directory of a config without firmware, and the config reported Ready.\<close>

definition cfg_rest :: fsys where
  "cfg_rest =
     cfg_booted @ [([''data'', ''boot'', ''noble'', ''initrd''], DirN 0),
       ([''data'', ''boot'', ''noble'', ''initrd'', ''init.bin''], LinkN ''../../../artifacts/init/init.bin'')]"

definition cfg_reported :: BootConfig where
  "cfg_reported = (cfg_config (Some (cfg_netboot [])) None)
     \<lparr>bc_Status := \<lparr>bc_Phase = BootConfigPhaseReady, bc_Message = []\<rparr>\<rparr>"

abbreviation "cfg_resting \<equiv> cfg_reconciler (Some cfg_reported) (cfg_arts BootArtifactPhaseReady)"

lemma cfg_reported_simps [simp]:
  "bc_meta cfg_reported = bc_meta (cfg_config (Some (cfg_netboot [])) None)"
  "bc_Spec cfg_reported = bc_Spec (cfg_config (Some (cfg_netboot [])) None)"
  "bc_Phase (bc_Status cfg_reported) = BootConfigPhaseReady"
  by (simp_all add: cfg_reported_def)

lemma cfg_rest_room: "boot_room (cfg_reconciler bc arts) ''noble'' cfg_rest"
  unfolding boot_room_def cfg_boot
  by (intro conjI sane_names_list open_way_list) code_simp+

lemma cfg_rest_current:
  "boot_current (cfg_reconciler bc arts) ''noble'' (cfg_artifact ''kern'' ph) (cfg_artifact ''init'' ph) None cfg_rest"
proof -
  have f: "file_of (cfg_artifact ''kern'' ph) = ''kern.bin''" "file_of (cfg_artifact ''init'' ph) = ''init.bin''"
    by (simp_all only: file_of_def cfg_artifact_simps cfg_files)
  have t: "Join [''..'', ''..'', ''..'', ''artifacts'', ''kern'', ''kern.bin''] = ''../../../artifacts/kern/kern.bin''"
    "Join [''..'', ''..'', ''..'', ''artifacts'', ''init'', ''init.bin''] = ''../../../artifacts/init/init.bin''" by code_simp+
  have "plain_dir cfg_rest [''data'', ''boot'', ''noble'', ''kernel'']" "plain_dir cfg_rest [''data'', ''boot'', ''noble'', ''initrd'']"
    by (rule plain_dir_list, code_simp)+
  moreover have "look cfg_rest [''data'', ''boot'', ''noble'', ''kernel'', ''kern.bin''] = Some (LinkN ''../../../artifacts/kern/kern.bin'')"
    "look cfg_rest [''data'', ''boot'', ''noble'', ''initrd'', ''init.bin''] = Some (LinkN ''../../../artifacts/init/init.bin'')"
    by code_simp+
  ultimately show ?thesis
    by (simp add: boot_current_def initrd_current_def link_target_def cfg_boot f t)
qed


end
