(* ===== verification/ObjectStore.thy ===== *)
theory ObjectStore
  imports ArtifactLive ConfigLive HttpdBoot OsBlind
begin

text \<open>
  An API server that stores objects, as one client with the right to write sees it: reads serve what is
  stored, an update of a status changes that status and nothing else. Such a server is good for both reconcilers, and
  what they and the boot lookup do to its objects follows from the calls they make.
\<close>

section \<open>The contract\<close>

text \<open>What is stored, as far as the reconcilers of artifacts and configs and the boot lookup read it.\<close>

record 's objects =
  st_artifact :: "'s \<Rightarrow> string \<Rightarrow> string \<Rightarrow> BootArtifact option"
  st_config :: "'s \<Rightarrow> string \<Rightarrow> string \<Rightarrow> BootConfig option"
  st_machines :: "'s \<Rightarrow> Machine list"
  st_provisions :: "'s \<Rightarrow> Provision list"

definition same_lists :: "'s objects \<Rightarrow> 's \<Rightarrow> 's \<Rightarrow> bool" where
  "same_lists V s s' \<longleftrightarrow> st_machines V s' = st_machines V s \<and> st_provisions V s' = st_provisions V s"

definition same_objects :: "'s objects \<Rightarrow> 's \<Rightarrow> 's \<Rightarrow> bool" where
  "same_objects V s s' \<longleftrightarrow> st_artifact V s' = st_artifact V s \<and> st_config V s' = st_config V s \<and> same_lists V s s'"

text \<open>Objects are stored under their own namespace and name.\<close>

definition keyed :: "'s objects \<Rightarrow> bool" where
  "keyed V \<longleftrightarrow>
     (\<forall>s ns n a. st_artifact V s ns n = Some a \<longrightarrow> om_namespace (ba_meta a) = ns \<and> om_name (ba_meta a) = n)
     \<and> (\<forall>s ns n b. st_config V s ns n = Some b \<longrightarrow> om_namespace (bc_meta b) = ns \<and> om_name (bc_meta b) = n)"

definition reads_objects :: "'s Client \<Rightarrow> 's objects \<Rightarrow> bool" where
  "reads_objects c V \<longleftrightarrow>
     (\<forall>ns n s r s'. Get_BootArtifact c ns n s = (r, s') \<longrightarrow> same_objects V s s'
        \<and> (\<forall>a. st_artifact V s ns n = Some a \<longrightarrow> r = Inr a) \<and> (st_artifact V s ns n = None \<longrightarrow> (\<exists>e. r = Inl (ApiNotFound e))))
     \<and> (\<forall>ns n s r s'. Get_BootConfig c ns n s = (r, s') \<longrightarrow> same_objects V s s'
        \<and> (\<forall>b. st_config V s ns n = Some b \<longrightarrow> r = Inr b) \<and> (st_config V s ns n = None \<longrightarrow> (\<exists>e. r = Inl (ApiNotFound e))))
     \<and> (\<forall>ns sel s. same_objects V s (snd (List_Machines c ns sel s)) \<and> same_objects V s (snd (List_Provisions c ns sel s)))"

text \<open>
  The update of a status goes through when the object is there in the version the caller read; the answer is
  the object as it is stored then. Whatever the answer, no other object changes, and no specification.
\<close>

definition artifact_updated :: "'s objects \<Rightarrow> BootArtifact \<Rightarrow> 's \<Rightarrow> api_error + BootArtifact \<Rightarrow> 's \<Rightarrow> bool" where
  "artifact_updated V a s r s' \<longleftrightarrow>
     st_config V s' = st_config V s \<and> same_lists V s s'
     \<and> (\<forall>ns n. \<not> (ns = om_namespace (ba_meta a) \<and> n = om_name (ba_meta a)) \<longrightarrow> st_artifact V s' ns n = st_artifact V s ns n)
     \<and> (case st_artifact V s (om_namespace (ba_meta a)) (om_name (ba_meta a)) of
          None \<Rightarrow> (\<exists>e. r = Inl e) \<and> st_artifact V s' (om_namespace (ba_meta a)) (om_name (ba_meta a)) = None
        | Some b \<Rightarrow> \<exists>b'. st_artifact V s' (om_namespace (ba_meta a)) (om_name (ba_meta a)) = Some b' \<and> ba_Spec b' = ba_Spec b
            \<and> (\<forall>a'. r = Inr a' \<longrightarrow> a' = b' \<and> ba_Status a' = ba_Status a) \<and> (ba_meta b = ba_meta a \<longrightarrow> (\<exists>a'. r = Inr a')))"

definition updates_artifacts :: "'s Client \<Rightarrow> 's objects \<Rightarrow> bool" where
  "updates_artifacts c V \<longleftrightarrow>
     (\<forall>a s. artifact_updated V a s (fst (Update_BootArtifact_status c a s)) (snd (Update_BootArtifact_status c a s)))"

definition updates_configs :: "'s Client \<Rightarrow> 's objects \<Rightarrow> bool" where
  "updates_configs c V \<longleftrightarrow>
     (\<forall>a s r s'. Update_BootConfig_status c a s = (r, s') \<longrightarrow>
        st_artifact V s' = st_artifact V s \<and> same_lists V s s'
        \<and> (\<forall>ns n. map_option bc_Spec (st_config V s' ns n) = map_option bc_Spec (st_config V s ns n))
        \<and> (\<forall>b. st_config V s (om_namespace (bc_meta a)) (om_name (bc_meta a)) = Some b \<and> bc_meta b = bc_meta a \<longrightarrow> (\<exists>a'. r = Inr a')))"

definition object_store :: "'s Client \<Rightarrow> 's objects \<Rightarrow> bool" where
  "object_store c V \<longleftrightarrow> keyed V \<and> reads_objects c V \<and> updates_artifacts c V \<and> updates_configs c V
     \<and> lists_by_index c (st_machines V) (st_provisions V)"

lemma store_reads:
  assumes "object_store c V"
  shows "Get_BootArtifact c ns n s = (r, s') \<Longrightarrow> same_objects V s s'
      \<and> (\<forall>a. st_artifact V s ns n = Some a \<longrightarrow> r = Inr a) \<and> (st_artifact V s ns n = None \<longrightarrow> (\<exists>e. r = Inl (ApiNotFound e)))"
    and "Get_BootConfig c ns n s = (x, s') \<Longrightarrow> same_objects V s s'
      \<and> (\<forall>b. st_config V s ns n = Some b \<longrightarrow> x = Inr b) \<and> (st_config V s ns n = None \<longrightarrow> (\<exists>e. x = Inl (ApiNotFound e)))"
    and "same_objects V s (snd (List_Machines c ns sel s))" and "same_objects V s (snd (List_Provisions c ns sel s))"
  using assms unfolding object_store_def reads_objects_def by blast+

lemma store_update:
  assumes "object_store c V" and "Update_BootArtifact_status c a s = (r, s')"
  shows "artifact_updated V a s r s'"
proof -
  have "artifact_updated V a s (fst (Update_BootArtifact_status c a s)) (snd (Update_BootArtifact_status c a s))"
    using assms(1) by (simp add: object_store_def updates_artifacts_def)
  then show ?thesis by (simp add: assms(2))
qed

lemma store_updated:
  assumes "object_store c V" and "Update_BootArtifact_status c a s = (Inr a', s')"
  shows "st_artifact V s' (om_namespace (ba_meta a)) (om_name (ba_meta a)) = Some a'" and "ba_Status a' = ba_Status a"
  using store_update [OF assms] by (auto simp: artifact_updated_def split: option.splits)

lemma store_get_same:
  assumes "object_store c V"
  shows "same_objects V s (snd (Get_BootArtifact c ns n s))" and "same_objects V s (snd (Get_BootConfig c ns n s))"
  using store_reads(1,2) [OF assms prod.collapse [symmetric]] by blast+

lemma store_get:
  assumes "object_store c V" and "st_artifact V s ns n = Some a"
  obtains s' where "Get_BootArtifact c ns n s = (Inr a, s')" "same_objects V s s'"
  using store_reads(1) [OF assms(1), of ns n s] assms(2) that by (cases "Get_BootArtifact c ns n s") simp

lemma store_got:
  assumes "object_store c V" and "Get_BootArtifact c ns n s = (Inr a, s')"
  shows "st_artifact V s ns n = Some a" and "same_objects V s s'"
  using store_reads(1) [OF assms] by (cases "st_artifact V s ns n"; simp)+

lemma store_get_config:
  assumes "object_store c V" and "st_config V s ns n = Some b"
  obtains s' where "Get_BootConfig c ns n s = (Inr b, s')" "same_objects V s s'"
  using store_reads(2) [OF assms(1), of ns n s] assms(2) that by (cases "Get_BootConfig c ns n s") simp

lemma store_got_config:
  assumes "object_store c V" and "Get_BootConfig c ns n s = (Inr b, s')"
  shows "st_config V s ns n = Some b" and "same_objects V s s'"
  using store_reads(2) [OF assms] by (cases "st_config V s ns n"; simp)+

lemma store_key:
  assumes "object_store c V" and "st_artifact V s ns n = Some a"
  shows "om_namespace (ba_meta a) = ns" and "om_name (ba_meta a) = n"
  using assms unfolding object_store_def keyed_def by blast+

lemma store_config_key:
  assumes "object_store c V" and "st_config V s ns n = Some b"
  shows "om_namespace (bc_meta b) = ns" and "om_name (bc_meta b) = n"
  using assms unfolding object_store_def keyed_def by blast+

section \<open>A store is a good server\<close>

lemma store_good:
  assumes st: "object_store c V"
  shows "good_server c"
  unfolding good_server_def
proof (intro conjI allI impI)
  fix a s assume "holds c a s"
  then obtain b s1 where b: "Get_BootArtifact c (om_namespace (ba_meta a)) (om_name (ba_meta a)) s = (Inr b, s1)"
      "ba_meta b = ba_meta a" "ba_Spec b = ba_Spec a"
    unfolding holds_def by blast
  note sb = store_got(1) [OF st b(1)]
  obtain r s' where u: "Update_BootArtifact_status c a s = (r, s')" by force
  obtain a' where a': "r = Inr a'" "st_artifact V s' (om_namespace (ba_meta a)) (om_name (ba_meta a)) = Some a'"
      "ba_Spec a' = ba_Spec b" "ba_Status a' = ba_Status a"
    using store_update [OF st u] sb b(2) by (auto simp: artifact_updated_def)
  note k = store_key [OF st a'(2)]
  obtain s'' where "Get_BootArtifact c (om_namespace (ba_meta a)) (om_name (ba_meta a)) s' = (Inr a', s'')"
    by (rule store_get [OF st a'(2)])
  then show "\<exists>a' s'. Update_BootArtifact_status c a s = (Inr a', s') \<and> ba_Spec a' = ba_Spec a \<and> ba_Status a' = ba_Status a
      \<and> same_key a' a \<and> (\<exists>s''. Get_BootArtifact c (om_namespace (ba_meta a')) (om_name (ba_meta a')) s' = (Inr a', s''))"
    using u a' b(3) k by (auto simp: same_key_def)
next
  fix ns n s a s' assume g: "Get_BootArtifact c ns n s = (Inr a, s')"
  then have a: "st_artifact V s' ns n = Some a" using store_got [OF st g] by (simp add: same_objects_def)
  obtain s'' where "Get_BootArtifact c ns n s' = (Inr a, s'')" by (rule store_get [OF st a])
  then show "holds c a s'" using store_key [OF st a] unfolding holds_def by metis
qed

section \<open>What the programs do to the objects\<close>

text \<open>An invariant of the server's state; the operating system has no part in it.\<close>

definition api_inv :: "('s \<Rightarrow> bool) \<Rightarrow> 's world \<Rightarrow> bool" where
  "api_inv P w \<longleftrightarrow> P (w_api w)"

interpretation api: os_blind "api_inv P" for P
  by unfold_locales (simp_all add: api_inv_def stepped_def)

lemma api_api_call: "(\<And>s. P s \<Longrightarrow> P (snd (f s))) \<Longrightarrow> keeps (api_inv P) (api_call f)"
  by (auto simp: keeps_def api_call_def wp_State api_inv_def split: prod.splits) (metis snd_conv)

lemma api_api_write: "(\<And>s. P s \<Longrightarrow> P (snd (f s))) \<Longrightarrow> keeps (api_inv P) (api_write x f)"
  by (auto simp: keeps_def api_write_def wp_State api_inv_def split: prod.splits) (metis snd_conv)

text \<open>A sequence whose second part is known to get a good value.\<close>

lemma keeps_bind_where:
  assumes "\<And>w. I w \<Longrightarrow> wp m (\<lambda>x w'. I w' \<and> R x) w" and "\<And>x. R x \<Longrightarrow> keeps I (f x)"
  shows "keeps I (State_Monad.bind m f)"
  unfolding keeps_def wp_bind
proof (intro allI impI)
  fix w assume "I w"
  then show "wp m (\<lambda>x. wp (f x) (\<lambda>_. I)) w"
    by (rule wp_mono [OF assms(1)]) (use assms(2) in \<open>auto simp: keeps_def\<close>)
qed

subsection \<open>The artifact reconciler\<close>

text \<open>What its calls for one artifact keep.\<close>

definition artifact_kept :: "'s Client \<Rightarrow> string \<Rightarrow> string \<Rightarrow> ('s \<Rightarrow> bool) \<Rightarrow> bool" where
  "artifact_kept c ns n P \<longleftrightarrow>
     (\<forall>m n' s. P s \<longrightarrow> P (snd (Get_BootArtifact c m n' s)))
     \<and> (\<forall>a s. om_namespace (ba_meta a) = ns \<and> om_name (ba_meta a) = n \<longrightarrow> P s \<longrightarrow> P (snd (Update_BootArtifact_status c a s)))"

lemma api_artifact_update:
  assumes "artifact_kept (bar_Client r) (om_namespace (ba_meta a)) (om_name (ba_meta a)) P" and "ba_meta a' = ba_meta a"
  shows "keeps (api_inv P) (api_write x (Update_BootArtifact_status (bar_Client r) a'))"
  by (rule api_api_write) (use assms in \<open>simp add: artifact_kept_def\<close>)

lemma api_statuses [keeps_intros]:
  assumes "artifact_kept (bar_Client r) (om_namespace (ba_meta a)) (om_name (ba_meta a)) P"
  shows "keeps (api_inv P) (BootArtifact_setReady r a)" and "keeps (api_inv P) (BootArtifact_setFailure r a msg)"
  unfolding BootArtifact_setReady_def BootArtifact_setFailure_def Let_def
  by (intro keeps_intros api_artifact_update [OF assms]; simp)+

lemma api_fetch [keeps_intros]:
  assumes "artifact_kept (bar_Client r) (om_namespace (ba_meta a)) (om_name (ba_meta a)) P"
  shows "keeps (api_inv P) (fetch r a fp tmp)"
proof -
  have "keeps (api_inv P) (publish r a fp tmp)" unfolding publish_def by (intro keeps_intros assms)
  then have "keeps (api_inv P) (store_body r a fp tmp n body rerr)" for n body rerr
    unfolding store_body_def Let_def by (intro keeps_intros assms)
  then show ?thesis unfolding fetch_def using assms by (auto intro!: keeps_intros split: sum.split http_reply.split)
qed

lemma api_got:
  assumes "object_store c V" and "artifact_kept c ns n P" and "api_inv P w"
  shows "wp (api_call (Get_BootArtifact c ns' n'))
    (\<lambda>x w'. api_inv P w' \<and> (\<forall>a. x = Inr a \<longrightarrow> om_namespace (ba_meta a) = ns' \<and> om_name (ba_meta a) = n')) w"
proof -
  obtain r s' where g: "Get_BootArtifact c ns' n' (w_api w) = (r, s')" by force
  have "P s'" using assms(2,3) g unfolding artifact_kept_def api_inv_def by (metis snd_conv)
  moreover have "om_namespace (ba_meta a) = ns' \<and> om_name (ba_meta a) = n'" if "r = Inr a" for a
    using store_got(1) [OF assms(1) g [unfolded that]] store_key [OF assms(1)] by blast
  ultimately show ?thesis using g by (simp add: api_call_def wp_State api_inv_def)
qed

lemma api_updated:
  assumes st: "object_store c V" and k: "artifact_kept c (om_namespace (ba_meta a)) (om_name (ba_meta a)) P" and "api_inv P w"
  shows "wp (api_write x (Update_BootArtifact_status c a))
    (\<lambda>x w'. api_inv P w' \<and> (\<forall>a'. x = Inr a' \<longrightarrow> same_key a' a)) w"
proof -
  obtain r s' where g: "Update_BootArtifact_status c a (w_api w) = (r, s')" by force
  have "P s'" using k assms(3) g unfolding artifact_kept_def api_inv_def by (metis snd_conv)
  moreover have "same_key a' a" if "r = Inr a'" for a'
    using store_key [OF st store_updated(1) [OF st g [unfolded that]]] by (simp add: same_key_def)
  ultimately show ?thesis using g by (simp add: api_write_def wp_State api_inv_def)
qed

lemma api_download:
  assumes st: "object_store (bar_Client r) V"
    and k: "artifact_kept (bar_Client r) (om_namespace (ba_meta a)) (om_name (ba_meta a)) P"
  shows "keeps (api_inv P) (download r a fp)"
proof -
  have rest: "keeps (api_inv P) (State_Monad.bind (os_MkdirAll (Dir fp)) (\<lambda>mk. case mk of
        Inl err \<Rightarrow> BootArtifact_setFailure r a2 (''creating directory: '' @ os_error_text err)
      | Inr _ \<Rightarrow> State_Monad.bind (fetch r a2 fp (fp @ ''.tmp'')) (\<lambda>out.
          State_Monad.bind (os_Remove (fp @ ''.tmp'')) (\<lambda>_. State_Monad.return out))))"
    if "same_key a2 a" for a2
    using k that by (intro keeps_intros) (simp_all add: same_key_def)
  have got: "keeps (api_inv P) (State_Monad.bind (api_call (Get_BootArtifact (bar_Client r) (om_namespace (ba_meta a1)) (om_name (ba_meta a1))))
      (\<lambda>g. case g of Inl err \<Rightarrow> State_Monad.return (ReconcileError (Wrapped ''re-fetching artifact: '' (ApiErr err) []))
       | Inr a2 \<Rightarrow> State_Monad.bind (os_MkdirAll (Dir fp)) (\<lambda>mk. case mk of
          Inl err \<Rightarrow> BootArtifact_setFailure r a2 (''creating directory: '' @ os_error_text err)
        | Inr _ \<Rightarrow> State_Monad.bind (fetch r a2 fp (fp @ ''.tmp'')) (\<lambda>out.
            State_Monad.bind (os_Remove (fp @ ''.tmp'')) (\<lambda>_. State_Monad.return out)))))"
    if "same_key a1 a" for a1
    by (rule keeps_bind_where [OF api_got [OF st k]], assumption)
      (intro keeps_sum keeps_return rest, use that in \<open>simp add: same_key_def\<close>)
  show ?thesis
    unfolding download_def Let_def
    by (rule keeps_bind_where [OF api_updated [OF st]], use k in simp, assumption)
      (intro keeps_sum keeps_return got, simp)
qed

lemma api_Artifact_Reconcile:
  assumes st: "object_store (bar_Client r) V" and k: "artifact_kept (bar_Client r) ns n P"
  shows "keeps (api_inv P) (BootArtifact_Reconcile r ns n)"
  unfolding BootArtifact_Reconcile_def Let_def
proof (rule keeps_bind_where [OF api_got [OF st k]], assumption, rule keeps_sum, goal_cases)
  case (2 g a)
  then have ka: "artifact_kept (bar_Client r) (om_namespace (ba_meta a)) (om_name (ba_meta a)) P" using k by simp
  have ve: "keeps (api_inv P) (verifyExisting r a fp)" for fp
    unfolding verifyExisting_def Let_def by (intro keeps_intros ka)
  show ?case by (intro keeps_intros ve api_download [OF st ka] ka)
qed (rule keeps_return)

text \<open>The reconciler of one artifact changes the status of that artifact alone.\<close>

definition artifact_frame :: "'s objects \<Rightarrow> string \<Rightarrow> string \<Rightarrow> 's \<Rightarrow> 's \<Rightarrow> bool" where
  "artifact_frame V ns n s s' \<longleftrightarrow>
     st_config V s' = st_config V s \<and> same_lists V s s'
     \<and> (\<forall>m k. map_option ba_Spec (st_artifact V s' m k) = map_option ba_Spec (st_artifact V s m k))
     \<and> (\<forall>m k. \<not> (m = ns \<and> k = n) \<longrightarrow> st_artifact V s' m k = st_artifact V s m k)"

lemma artifact_frame_refl: "artifact_frame V ns n s s"
  by (simp add: artifact_frame_def same_lists_def)

lemma artifact_frame_same: "artifact_frame V ns n s t \<Longrightarrow> same_objects V t t' \<Longrightarrow> artifact_frame V ns n s t'"
  by (simp add: artifact_frame_def same_objects_def same_lists_def)

lemma artifact_frame_update:
  assumes st: "object_store c V" and f: "artifact_frame V ns n s t" and key: "om_namespace (ba_meta a) = ns" "om_name (ba_meta a) = n"
    and u: "Update_BootArtifact_status c a t = (r, t')"
  shows "artifact_frame V ns n s t'"
proof -
  note u' = store_update [OF st u, unfolded artifact_updated_def key]
  have "map_option ba_Spec (st_artifact V t' ns n) = map_option ba_Spec (st_artifact V t ns n)"
    using u' by (auto split: option.splits)
  then have "map_option ba_Spec (st_artifact V t' m k) = map_option ba_Spec (st_artifact V t m k)" for m k
    using u' by (cases "m = ns \<and> k = n") simp_all
  then show ?thesis
    using f u' unfolding artifact_frame_def same_lists_def by simp
qed

lemma artifact_frame_kept:
  assumes st: "object_store c V"
  shows "artifact_kept c ns n (artifact_frame V ns n s)"
  unfolding artifact_kept_def
proof (intro conjI allI impI, goal_cases)
  case (1 m k t)
  then show ?case by (rule artifact_frame_same) (rule store_get_same(1) [OF st])
next
  case (2 a t)
  then show ?case by (intro artifact_frame_update [OF st _ _ _ prod.collapse [symmetric]]) simp_all
qed

lemma Artifact_Reconcile_frame:
  assumes "object_store (bar_Client r) V"
  shows "wp (BootArtifact_Reconcile r ns n) (\<lambda>_ w'. artifact_frame V ns n (w_api w) (w_api w')) w"
  by (rule wp_mono [OF keepsD [OF api_Artifact_Reconcile [OF assms artifact_frame_kept [OF assms, of ns n "w_api w"]]]])
    (simp_all add: api_inv_def artifact_frame_refl)

text \<open>The status that was written last, when it was Ready, is what is stored.\<close>

lemma last_ready_stored:
  assumes st: "object_store (bar_Client r) V" and l: "last_ready r a w"
  shows "\<exists>b. st_artifact V (w_api w) (om_namespace (ba_meta a)) (om_name (ba_meta a)) = Some b
    \<and> ba_Phase (ba_Status b) = BootArtifactPhaseReady"
proof -
  obtain b b' s where b: "ready_status (ba_Status b)" "same_key b a" "Update_BootArtifact_status (bar_Client r) b s = (Inr b', w_api w)"
    using l unfolding last_ready_def by blast
  then show ?thesis using store_updated [OF st b(3)] by (auto simp: same_key_def ready_status_def)
qed

subsection \<open>The config reconciler\<close>

definition config_kept :: "'s Client \<Rightarrow> ('s \<Rightarrow> bool) \<Rightarrow> bool" where
  "config_kept c P \<longleftrightarrow>
     (\<forall>m n s. P s \<longrightarrow> P (snd (Get_BootArtifact c m n s))) \<and> (\<forall>m n s. P s \<longrightarrow> P (snd (Get_BootConfig c m n s)))
     \<and> (\<forall>b s. P s \<longrightarrow> P (snd (Update_BootConfig_status c b s)))"

lemma api_config_calls [keeps_intros]:
  assumes "config_kept (bcr_Client r) P"
  shows "keeps (api_inv P) (api_call (Get_BootConfig (bcr_Client r) ns n))" and "keeps (api_inv P) (getArtifact r n ns)"
    and "keeps (api_inv P) (BootConfig_setReady r bc)" and "keeps (api_inv P) (setPending r bc msg)" and "keeps (api_inv P) (setError r bc msg)"
  using assms unfolding BootConfig_setReady_def setPending_def setError_def BootConfig_update_def getArtifact_def config_kept_def
  by (auto intro!: keeps_intros api_api_call api_api_write)

lemma api_Config_Reconcile:
  assumes "config_kept (bcr_Client r) P"
  shows "keeps (api_inv P) (BootConfig_Reconcile r ns n)"
proof -
  have "keeps (api_inv P) (assemble r bc k i fw)" for bc k i fw
    unfolding assemble_def Let_def by (intro keeps_intros assms)
  then have "keeps (api_inv P) (reconcileNetboot r bc nb)" for bc nb
    unfolding reconcileNetboot_def by (intro keeps_intros assms)
  moreover have "keeps (api_inv P) (reconcileISO r bc i)" for bc i
    unfolding reconcileISO_def Let_def by (intro keeps_intros assms)
  ultimately show ?thesis
    unfolding BootConfig_Reconcile_def by (intro keeps_intros assms)
qed

text \<open>It changes statuses of configs alone.\<close>

definition config_frame :: "'s objects \<Rightarrow> 's \<Rightarrow> 's \<Rightarrow> bool" where
  "config_frame V s s' \<longleftrightarrow>
     st_artifact V s' = st_artifact V s \<and> same_lists V s s'
     \<and> (\<forall>m k. map_option bc_Spec (st_config V s' m k) = map_option bc_Spec (st_config V s m k))"

lemma config_frame_refl: "config_frame V s s"
  by (simp add: config_frame_def same_lists_def)

lemma config_frame_same: "config_frame V s t \<Longrightarrow> same_objects V t t' \<Longrightarrow> config_frame V s t'"
  by (simp add: config_frame_def same_objects_def same_lists_def)

lemma config_frame_update:
  assumes "object_store c V" and "config_frame V s t" and "Update_BootConfig_status c b t = (r, t')"
  shows "config_frame V s t'"
  using assms unfolding object_store_def updates_configs_def config_frame_def same_lists_def by metis

lemma config_frame_kept:
  assumes st: "object_store c V"
  shows "config_kept c (config_frame V s)"
  unfolding config_kept_def
proof (intro conjI allI impI, goal_cases)
  case (3 b t)
  then show ?case by (rule config_frame_update [OF st _ prod.collapse [symmetric]])
qed (rule config_frame_same, assumption, rule store_get_same [OF st])+

lemma Config_Reconcile_frame:
  assumes "object_store (bcr_Client r) V"
  shows "wp (BootConfig_Reconcile r ns n) (\<lambda>_ w'. config_frame V (w_api w) (w_api w')) w"
  by (rule wp_mono [OF keepsD [OF api_Config_Reconcile [OF config_frame_kept [OF assms, of "w_api w"]]]])
    (simp_all add: api_inv_def config_frame_refl)

subsection \<open>The boot lookup\<close>

lemma api_lookup:
  assumes "object_store c V"
  shows "keeps (api_inv (same_objects V s)) (PendingProvisionForMAC c ns mac)"
proof -
  have "same_objects V s (snd (List_Machines c ns sel t))" "same_objects V s (snd (List_Provisions c ns sel t))"
    if "same_objects V s t" for sel t
    using that store_reads(3,4) [OF assms, of t ns sel] by (simp_all add: same_objects_def same_lists_def)
  then show ?thesis
    unfolding PendingProvisionForMAC_def by (intro keeps_intros api_api_call)
qed

end
