(* ===== verification/ClusterServer.thy ===== *)
theory ClusterServer
  imports ObjectStore
begin

text \<open>
  A small API server with lists of objects and optimistic concurrency: an update of a status must come with the
  metadata of the stored object, and counts up its resource version. It is an object store.
\<close>

section \<open>Objects in a list\<close>

definition keyed_by :: "string \<Rightarrow> string \<Rightarrow> ObjectMeta \<Rightarrow> bool" where
  "keyed_by ns n m \<longleftrightarrow> om_namespace m = ns \<and> om_name m = n"

definition bump :: "ObjectMeta \<Rightarrow> ObjectMeta" where
  "bump m = m\<lparr>om_resourceVersion := om_resourceVersion m + 1\<rparr>"

definition list_get :: "('o \<Rightarrow> ObjectMeta) \<Rightarrow> string \<Rightarrow> string \<Rightarrow> 'o list \<Rightarrow> 'o option" where
  "list_get meta ns n xs = find (\<lambda>x. keyed_by ns n (meta x)) xs"

definition list_put :: "('o \<Rightarrow> ObjectMeta) \<Rightarrow> 'o \<Rightarrow> 'o list \<Rightarrow> 'o list" where
  "list_put meta y xs = map (\<lambda>x. if keyed_by (om_namespace (meta y)) (om_name (meta y)) (meta x) then y else x) xs"

lemma keyed_by_bump [simp]: "keyed_by ns n (bump m) \<longleftrightarrow> keyed_by ns n m"
  "om_namespace (bump m) = om_namespace m" "om_name (bump m) = om_name m"
  by (simp_all add: keyed_by_def bump_def)

lemma list_get_key: "list_get meta ns n xs = Some x \<Longrightarrow> om_namespace (meta x) = ns \<and> om_name (meta x) = n"
  by (auto simp: list_get_def find_Some_iff keyed_by_def)

lemma list_put_other:
  "\<not> (ns = om_namespace (meta y) \<and> n = om_name (meta y)) \<Longrightarrow> list_get meta ns n (list_put meta y xs) = list_get meta ns n xs"
  by (induction xs) (auto simp: list_get_def list_put_def keyed_by_def)

lemma list_put_same:
  "list_get meta (om_namespace (meta y)) (om_name (meta y)) (list_put meta y xs)
    = map_option (\<lambda>_. y) (list_get meta (om_namespace (meta y)) (om_name (meta y)) xs)"
  by (induction xs) (auto simp: list_get_def list_put_def keyed_by_def)

section \<open>The server\<close>

record cluster =
  cl_artifacts :: "BootArtifact list"
  cl_configs :: "BootConfig list"
  cl_machines :: "Machine list"
  cl_provisions :: "Provision list"

definition cluster_update_artifact :: "BootArtifact \<Rightarrow> cluster \<Rightarrow> (api_error + BootArtifact) \<times> cluster" where
  "cluster_update_artifact a s =
     (case list_get ba_meta (om_namespace (ba_meta a)) (om_name (ba_meta a)) (cl_artifacts s) of
        None \<Rightarrow> (Inl (ApiNotFound (om_name (ba_meta a))), s)
      | Some b \<Rightarrow>
          if ba_meta b \<noteq> ba_meta a then (Inl (ApiConflict (om_name (ba_meta a))), s)
          else let b' = b\<lparr>ba_Status := ba_Status a, ba_meta := bump (ba_meta b)\<rparr>
               in (Inr b', s\<lparr>cl_artifacts := list_put ba_meta b' (cl_artifacts s)\<rparr>))"

definition cluster_update_config :: "BootConfig \<Rightarrow> cluster \<Rightarrow> (api_error + BootConfig) \<times> cluster" where
  "cluster_update_config a s =
     (case list_get bc_meta (om_namespace (bc_meta a)) (om_name (bc_meta a)) (cl_configs s) of
        None \<Rightarrow> (Inl (ApiNotFound (om_name (bc_meta a))), s)
      | Some b \<Rightarrow>
          if bc_meta b \<noteq> bc_meta a then (Inl (ApiConflict (om_name (bc_meta a))), s)
          else let b' = b\<lparr>bc_Status := bc_Status a, bc_meta := bump (bc_meta b)\<rparr>
               in (Inr b', s\<lparr>cl_configs := list_put bc_meta b' (cl_configs s)\<rparr>))"

definition cluster_update_provision :: "Provision \<Rightarrow> cluster \<Rightarrow> (api_error + Provision) \<times> cluster" where
  "cluster_update_provision p s =
     (case list_get pr_meta (om_namespace (pr_meta p)) (om_name (pr_meta p)) (cl_provisions s) of
        None \<Rightarrow> (Inl (ApiNotFound (om_name (pr_meta p))), s)
      | Some q \<Rightarrow>
          if pr_meta q \<noteq> pr_meta p then (Inl (ApiConflict (om_name (pr_meta p))), s)
          else (Inr (q\<lparr>pr_Status := pr_Status p, pr_meta := bump (pr_meta q)\<rparr>),
            s\<lparr>cl_provisions := map (\<lambda>x. if keyed_by (om_namespace (pr_meta p)) (om_name (pr_meta p)) (pr_meta x)
              then x\<lparr>pr_Status := pr_Status p, pr_meta := bump (pr_meta x)\<rparr> else x) (cl_provisions s)\<rparr>))"

definition cluster_client :: "cluster Client" where
  "cluster_client =
     \<lparr>Get_BootArtifact = \<lambda>ns n s. (case list_get ba_meta ns n (cl_artifacts s) of None \<Rightarrow> Inl (ApiNotFound n) | Some a \<Rightarrow> Inr a, s),
      Get_BootConfig = \<lambda>ns n s. (case list_get bc_meta ns n (cl_configs s) of None \<Rightarrow> Inl (ApiNotFound n) | Some a \<Rightarrow> Inr a, s),
      Get_Provision = \<lambda>ns n s. (case list_get pr_meta ns n (cl_provisions s) of None \<Rightarrow> Inl (ApiNotFound n) | Some a \<Rightarrow> Inr a, s),
      Get_ProvisionAutomation = \<lambda>ns n s. (Inl (ApiNotFound n), s),
      Get_ConfigMap = \<lambda>ns n s. (Inl (ApiNotFound n), s), Get_Secret = \<lambda>ns n s. (Inl (ApiNotFound n), s),
      List_BootConfigs = \<lambda>ns s. (Inr (filter (\<lambda>b. om_namespace (bc_meta b) = ns) (cl_configs s)), s),
      List_Machines = \<lambda>ns sel s.
        (Inr (filter (\<lambda>m. om_namespace (mach_meta m) = ns \<and> selects Machine_indexers sel m) (cl_machines s)), s),
      List_Provisions = \<lambda>ns sel s.
        (Inr (filter (\<lambda>p. om_namespace (pr_meta p) = ns \<and> selects Provision_indexers sel p) (cl_provisions s)), s),
      Update_BootArtifact_status = cluster_update_artifact, Update_BootConfig_status = cluster_update_config,
      Update_Provision_status = cluster_update_provision\<rparr>"

definition cluster_objects :: "cluster objects" where
  "cluster_objects =
     \<lparr>st_artifact = \<lambda>s ns n. list_get ba_meta ns n (cl_artifacts s), st_config = \<lambda>s ns n. list_get bc_meta ns n (cl_configs s),
      st_machines = cl_machines, st_provisions = cl_provisions\<rparr>"

lemma cluster_artifact_updated:
  "artifact_updated cluster_objects a s (fst (cluster_update_artifact a s)) (snd (cluster_update_artifact a s))"
proof (cases "list_get ba_meta (om_namespace (ba_meta a)) (om_name (ba_meta a)) (cl_artifacts s)")
  case None
  then show ?thesis by (simp add: artifact_updated_def cluster_update_artifact_def cluster_objects_def same_lists_def)
next
  case (Some b)
  then show ?thesis
    using list_get_key [OF Some] list_put_same [of ba_meta "b\<lparr>ba_Status := ba_Status a, ba_meta := bump (ba_meta b)\<rparr>" "cl_artifacts s"]
      list_put_other [of _ ba_meta "b\<lparr>ba_Status := ba_Status a, ba_meta := bump (ba_meta b)\<rparr>" _ "cl_artifacts s"]
    by (cases "ba_meta b = ba_meta a")
      (simp_all add: artifact_updated_def cluster_update_artifact_def cluster_objects_def same_lists_def Let_def)
qed

lemma cluster_config_updated:
  assumes "cluster_update_config a s = (r, s')"
  shows "map_option bc_Spec (list_get bc_meta ns n (cl_configs s')) = map_option bc_Spec (list_get bc_meta ns n (cl_configs s))"
proof (cases "list_get bc_meta (om_namespace (bc_meta a)) (om_name (bc_meta a)) (cl_configs s)")
  case None
  then show ?thesis using assms by (auto simp: cluster_update_config_def)
next
  case (Some b)
  show ?thesis
  proof (cases "ns = om_namespace (bc_meta a) \<and> n = om_name (bc_meta a)")
    case True
    then show ?thesis
      using assms Some list_get_key [OF Some] list_put_same [of bc_meta "b\<lparr>bc_Status := bc_Status a, bc_meta := bump (bc_meta b)\<rparr>" "cl_configs s"]
      by (auto simp: cluster_update_config_def Let_def split: if_splits)
  next
    case False
    then show ?thesis
      using assms Some list_get_key [OF Some] list_put_other [of ns bc_meta "b\<lparr>bc_Status := bc_Status a, bc_meta := bump (bc_meta b)\<rparr>" n "cl_configs s"]
      by (auto simp: cluster_update_config_def Let_def split: if_splits)
  qed
qed

lemma cluster_store: "object_store cluster_client cluster_objects"
  unfolding object_store_def
proof (intro conjI)
  show "keyed cluster_objects" by (auto simp: keyed_def cluster_objects_def dest: list_get_key)
  show "reads_objects cluster_client cluster_objects"
    by (auto simp: reads_objects_def cluster_client_def cluster_objects_def same_objects_def same_lists_def)
  show "updates_artifacts cluster_client cluster_objects"
    using cluster_artifact_updated by (simp add: updates_artifacts_def cluster_client_def)
  show "lists_by_index cluster_client (st_machines cluster_objects) (st_provisions cluster_objects)"
    by (simp add: lists_by_index_def cluster_client_def cluster_objects_def)
  have "cl_artifacts s' = cl_artifacts s \<and> cl_machines s' = cl_machines s \<and> cl_provisions s' = cl_provisions s"
    if "cluster_update_config a s = (r, s')" for a s r s'
    using that by (auto simp: cluster_update_config_def Let_def split: option.splits if_splits)
  moreover have "\<exists>a'. r = Inr a'"
    if "cluster_update_config a s = (r, s')"
      "list_get bc_meta (om_namespace (bc_meta a)) (om_name (bc_meta a)) (cl_configs s) = Some b" "bc_meta b = bc_meta a" for a s r s' b
    using that by (auto simp: cluster_update_config_def Let_def)
  moreover note cluster_config_updated
  moreover have "Update_BootConfig_status cluster_client = cluster_update_config" by (simp add: cluster_client_def)
  ultimately show "updates_configs cluster_client cluster_objects"
    unfolding updates_configs_def cluster_objects_def same_lists_def objects.simps by metis
qed

end
