(* ===== verification/EndToEnd.thy ===== *)
theory EndToEnd
  imports BootChain ConfigProgress ClusterServer
begin

text \<open>
  The whole way of a netboot machine: from objects that somebody created and an empty data directory, over
  the downloads and the assembling of the boot directory, to the boot directive whose paths serve what the
  mirrors sent.
\<close>

section \<open>What is wanted\<close>

text \<open>An artifact, as far as nobody but its author decides it, and what its mirror sends.\<close>

record download =
  dl_name :: string
  dl_spec :: BootArtifactSpec
  dl_body :: string

abbreviation dl_file :: "download \<Rightarrow> string" where
  "dl_file j \<equiv> FilenameFromURL (ba_URL (dl_spec j))"

abbreviation dl_dir :: "'s BootConfigReconciler \<Rightarrow> download \<Rightarrow> path" where
  "dl_dir r j \<equiv> data_comps r @ [''artifacts'', dl_name j]"

text \<open>The two reconcilers of one manager share the client and the data directory.\<close>

definition wired :: "'s BootArtifactReconciler \<Rightarrow> 's BootConfigReconciler \<Rightarrow> bool" where
  "wired ra r \<longleftrightarrow>
     bar_Client ra = bcr_Client r \<and> bar_DataDir ra = bcr_DataDir r \<and> rooted (bcr_DataDir r)
     \<and> comps (bcr_DataDir r) = data_comps r \<and> CHR 0x00 \<notin> set (bcr_DataDir r)"

text \<open>The mirror sends a body with the declared digest, under a name that the file system takes.\<close>

definition good_mirror :: "'s BootArtifactReconciler \<Rightarrow> download \<Rightarrow> bool" where
  "good_mirror ra j \<longleftrightarrow>
     os_names [dl_name j, dl_file j] \<and> reply_ok ra (ba_URL (dl_spec j)) (dl_body j)
     \<and> (\<forall>a. ba_Spec a = dl_spec j \<longrightarrow> digest_ok ra a (dl_body j))"

text \<open>The server has the artifacts, and has them as Ready.\<close>

definition listed :: "'s objects \<Rightarrow> string \<Rightarrow> download set \<Rightarrow> 's \<Rightarrow> bool" where
  "listed V ns js s \<longleftrightarrow> (\<forall>j \<in> js. map_option ba_Spec (st_artifact V s ns (dl_name j)) = Some (dl_spec j))"

definition ready_in :: "'s objects \<Rightarrow> string \<Rightarrow> download set \<Rightarrow> 's \<Rightarrow> bool" where
  "ready_in V ns js s \<longleftrightarrow>
     (\<forall>j \<in> js. map_option (\<lambda>a. ba_Phase (ba_Status a)) (st_artifact V s ns (dl_name j)) = Some BootArtifactPhaseReady)"

text \<open>On disk: the file is there; there is room for it; nothing is where the boot directory goes.\<close>

definition fetched :: "'s BootConfigReconciler \<Rightarrow> download \<Rightarrow> fsys \<Rightarrow> bool" where
  "fetched r j fs \<longleftrightarrow> plain_dir fs (dl_dir r j) \<and> (\<exists>t m. look fs (dl_dir r j @ [dl_file j]) = Some (FileN (dl_body j) t m))"

definition slot_free :: "'s BootConfigReconciler \<Rightarrow> download \<Rightarrow> fsys \<Rightarrow> bool" where
  "slot_free r j fs \<longleftrightarrow> art_slot fs (dl_dir r j) (dl_file j) \<and> look fs (dl_dir r j @ [dl_file j]) = None"

definition boot_free :: "'s BootConfigReconciler \<Rightarrow> string \<Rightarrow> fsys \<Rightarrow> bool" where
  "boot_free r cn fs \<longleftrightarrow> boot_room r cn fs \<and> (\<forall>q. below (boot_comps r cn) q \<longrightarrow> look fs q = None)"

section \<open>One download\<close>

lemma art_inv_changes:
  assumes "art_inv good d f fs fs'"
  shows "changes_below d fs fs'"
  unfolding changes_below_def
proof (intro allI impI)
  fix q assume "\<not> below d q"
  then have "q \<noteq> d @ [f]" "q \<noteq> d @ [f @ ''.tmp'']" by auto
  then show "look fs' q = look fs q \<or> (below q d \<and> look fs q = None \<and> (\<exists>t. look fs' q = Some (DirN t)))"
    using assms unfolding art_inv_def by blast
qed

text \<open>Two directories of artifacts, or one and the boot directory, are apart.\<close>

lemma dl_apart:
  "dl_name j' \<noteq> dl_name j \<Longrightarrow> \<not> below (dl_dir r j) (dl_dir r j' @ p)"
  "dl_name j' \<noteq> dl_name j \<Longrightarrow> \<not> below (dl_dir r j @ p) (dl_dir r j')"
  "\<not> below (dl_dir r j @ p) (boot_comps r cn @ q)" "\<not> below (boot_comps r cn @ p) (dl_dir r j @ q)"
  by (auto simp: below_iff boot_comps_def)

lemma fetched_kept:
  assumes ch: "changes_below d fs fs'" and n: "\<not> below d (dl_dir r j @ [dl_file j])" and f: "fetched r j fs"
  shows "fetched r j fs'"
proof -
  have "\<not> below d (dl_dir r j)" using n below_trans [OF _ below_append] by blast
  then have "plain_dir fs' (dl_dir r j)" using changes_below_plain [OF ch] f by (simp add: fetched_def)
  then show ?thesis using f changes_below_kept [OF ch n] unfolding fetched_def by blast
qed

lemma slot_free_kept:
  assumes ch: "changes_below (dl_dir r j) fs fs'" and n: "dl_name j' \<noteq> dl_name j" and sl: "slot_free r j' fs"
  shows "slot_free r j' fs'"
proof -
  have "look fs' (dl_dir r j' @ [x]) = look fs (dl_dir r j' @ [x])" for x
    by (rule changes_below_absent [OF ch]) (use n in \<open>auto simp: below_iff\<close>)
  moreover have "open_way fs' (dl_dir r j')"
    by (rule changes_below_open [OF ch]) (use n sl in \<open>auto simp: below_iff slot_free_def art_slot_def\<close>)
  ultimately show ?thesis using sl by (simp add: slot_free_def art_slot_def)
qed

lemma boot_free_kept:
  assumes ch: "changes_below (dl_dir r j) fs fs'" and b: "boot_free r cn fs" and sane: "sane_names fs'"
  shows "boot_free r cn fs'"
proof -
  have "open_way fs' (boot_comps r cn @ p)" if "open_way fs (boot_comps r cn @ p)" for p
    by (rule changes_below_open [OF ch _ that]) (simp add: dl_apart(3) [where p = "[]", simplified])
  moreover have "look fs' q = look fs q" if "below (boot_comps r cn) q" for q
    by (rule changes_below_absent [OF ch]) (use that in \<open>auto simp: below_iff boot_comps_def\<close>)
  ultimately show ?thesis using b sane by (simp add: boot_free_def boot_room_def)
qed

lemma art_inv_sane:
  assumes "art_inv good d f fs fs'" and "look fs' (d @ [f @ ''.tmp'']) = None" and "sane_names fs" and "os_names (d @ [f])"
  shows "sane_names fs'"
proof (rule sane_change [OF assms(3)])
  fix q assume "look fs' q \<noteq> look fs q" "look fs' q \<noteq> None"
  then have "q = d @ [f] \<or> below q d" using assms(1,2) unfolding art_inv_def by metis
  then show "os_names q" using assms(4) by (auto simp: below_iff)
qed

text \<open>How far the downloads are: \<open>done\<close> in place and Ready, \<open>todo\<close> with room, all else as it was in the state \<open>s\<close>.\<close>

definition progress ::
  "'s objects \<Rightarrow> 's BootConfigReconciler \<Rightarrow> string \<Rightarrow> string \<Rightarrow> 's \<Rightarrow> download set \<Rightarrow> download set \<Rightarrow> 's world \<Rightarrow> bool" where
  "progress V r ns cn s dn todo w \<longleftrightarrow>
     calm w \<and> boot_free r cn (w_fs w) \<and> (\<forall>j \<in> dn. fetched r j (w_fs w)) \<and> (\<forall>j \<in> todo. slot_free r j (w_fs w))
     \<and> listed V ns (dn \<union> todo) (w_api w) \<and> ready_in V ns dn (w_api w)
     \<and> st_config V (w_api w) = st_config V s \<and> same_lists V s (w_api w)"

lemma wired_names:
  assumes w: "wired ra r" and n: "os_names (data_comps r)" and j: "os_names [dl_name j, dl_file j]"
    and a: "om_name (ba_meta a) = dl_name j" "ba_Spec a = dl_spec j"
  shows "art_names (filePath ra a) (dl_dir r j) (dl_file j)" and "art_dir ra (dl_name j) = dl_dir r j"
    and "filePath ra a = artifact_string r a"
proof -
  have rt: "rooted (bar_DataDir ra)" and d: "bar_DataDir ra = bcr_DataDir r" using w by (simp_all add: wired_def)
  show dir: "art_dir ra (dl_name j) = dl_dir r j" by (simp add: art_dir_def data_comps_def d)
  show "filePath ra a = artifact_string r a" by (simp add: filePath_def artifact_string_def d)
  have sp: "filePath ra a = slash # join_with [slash] (data_comps r @ [''artifacts'', dl_name j, dl_file j])"
    using Join_rooted [OF rt, of "[''artifacts'', dl_name j, dl_file j]"] j safe_artifacts a
    by (auto simp: filePath_def data_comps_def d)
  have "CHR 0x00 \<notin> set (filePath ra a)"
    unfolding sp using n j join_no_nul [of "data_comps r @ [''artifacts'', dl_name j, dl_file j]"] by (auto simp: os_names_def slash_def)
  then show "art_names (filePath ra a) (dl_dir r j) (dl_file j)"
    using filePath_names [OF rt, of a] a j dir by simp
qed

text \<open>One reconciliation moves an artifact over.\<close>

lemma fetch_one:
  assumes st: "object_store (bcr_Client r) V" and w: "wired ra r" and n: "os_names (data_comps r)"
    and p: "progress V r ns cn s dn (insert j todo) w" and m: "good_mirror ra j"
    and fresh: "dl_name j \<notin> dl_name ` (dn \<union> todo)"
  shows "wp (BootArtifact_Reconcile ra ns (dl_name j)) (\<lambda>out w'. out = Result 0 \<and> progress V r ns cn s (insert j dn) todo w') w"
proof (rule wpI)
  fix out w' assume run: "run_state (BootArtifact_Reconcile ra ns (dl_name j)) w = (out, w')"
  have cl: "bar_Client ra = bcr_Client r" and rt: "rooted (bar_DataDir ra)" using w by (simp_all add: wired_def)
  note st' = st [folded cl]
  obtain a where a: "st_artifact V (w_api w) ns (dl_name j) = Some a" "ba_Spec a = dl_spec j"
    using p by (auto simp: progress_def listed_def)
  note key = store_key [OF st a(1)]
  have mj: "os_names [dl_name j, dl_file j]" "reply_ok ra (ba_URL (ba_Spec a)) (dl_body j)" "digest_ok ra a (dl_body j)"
    using m a(2) by (simp_all add: good_mirror_def)
  note nm = wired_names [OF w n mj(1) key(2) a(2)]
  obtain s1 where get: "Get_BootArtifact (bar_Client ra) ns (dl_name j) (w_api w) = (Inr a, s1)"
    by (rule store_get [OF st' a(1)])
  have sl: "art_slot (w_fs w) (dl_dir r j) (dl_file j)" "look (w_fs w) (dl_dir r j @ [dl_file j]) = None"
    using p by (simp_all add: progress_def slot_free_def)
  have c: "calm w" using p by (simp add: progress_def)
  have fn: "FilenameFromURL (ba_URL (ba_Spec a)) = dl_file j" by (simp add: a(2))
  from wpD [OF Reconcile_downloads [OF get nm(1) c store_good [OF st'] sl(1) disjI1 [OF sl(2)] mj(2,3)] run]
  have live: "out = Result 0" "stored (dl_dir r j) (dl_file j) (dl_body j) w'" "last_ready ra a w'"
    "look (w_fs w') (dl_dir r j @ [dl_file j @ ''.tmp'']) = None" by simp_all
  have "art_run ra (filePath ra a) (any_served ra) (art_dir ra (om_name (ba_meta a))) (FilenameFromURL (ba_URL (ba_Spec a))) w w'"
    by (rule Reconcile_run(1) [OF get rt _ _ _ run])
      (use mj(1) key(2) nm(1,2) sl in \<open>auto simp: art_slot_def open_way_plain is_link_def art_names_def art_paths_def\<close>)
  then have inv: "art_inv (any_served ra) (dl_dir r j) (dl_file j) (w_fs w) (w_fs w')"
    by (simp add: run_inv_def key(2) nm(2) fn)
  note ch = art_inv_changes [OF inv]
  have fr: "artifact_frame V ns (dl_name j) (w_api w) (w_api w')"
    by (rule wpD [OF Artifact_Reconcile_frame [OF st'] run])
  have "sane_names (w_fs w')"
    by (rule art_inv_sane [OF inv live(4)]) (use p n mj(1) safe_artifacts in \<open>auto simp: progress_def boot_free_def boot_room_def slash_def\<close>)
  then have "boot_free r cn (w_fs w')" using boot_free_kept [OF ch] p by (simp add: progress_def)
  moreover have other: "dl_name i \<noteq> dl_name j" if "i \<in> dn \<union> todo" for i
    using fresh image_eqI [OF refl that, of dl_name] by metis
  moreover have "fetched r i (w_fs w')" if "i \<in> dn" for i
    by (rule fetched_kept [OF ch dl_apart(1)]) (use that p other in \<open>auto simp: progress_def\<close>)
  moreover have "slot_free r i (w_fs w')" if "i \<in> todo" for i
    by (rule slot_free_kept [OF ch]) (use that p other in \<open>auto simp: progress_def\<close>)
  moreover have "ready_in V ns (insert j dn) (w_api w')"
    using last_ready_stored [OF st' live(3)] key p fr other by (auto simp: ready_in_def progress_def artifact_frame_def)
  ultimately show "out = Result 0 \<and> progress V r ns cn s (insert j dn) todo w'"
    using live p fr by (auto simp: progress_def fetched_def stored_def listed_def artifact_frame_def same_lists_def)
qed

section \<open>All downloads\<close>

text \<open>The manager works on the artifacts one after the other; what a reconciliation returns only concerns its retry.\<close>

fun fetch_all :: "'s BootArtifactReconciler \<Rightarrow> string \<Rightarrow> string list \<Rightarrow> ('s, unit) io" where
  "fetch_all r ns [] = State_Monad.return ()"
| "fetch_all r ns (n # refs) = do {
     _ \<leftarrow> BootArtifact_Reconcile r ns n;
     fetch_all r ns refs
   }"

lemma fetch_all_done:
  assumes st: "object_store (bcr_Client r) V" and w: "wired ra r" and n: "os_names (data_comps r)"
    and "progress V r ns cn s dn (set js) w" and "\<forall>j \<in> set js. good_mirror ra j"
    and "distinct (map dl_name js)" and "dl_name ` dn \<inter> dl_name ` set js = {}"
  shows "wp (fetch_all ra ns (map dl_name js)) (\<lambda>_. progress V r ns cn s (dn \<union> set js) {}) w"
  using assms(4-7)
proof (induction js arbitrary: dn w)
  case (Cons j js)
  have "wp (BootArtifact_Reconcile ra ns (dl_name j)) (\<lambda>out w'. out = Result 0 \<and> progress V r ns cn s (insert j dn) (set js) w') w"
    by (rule fetch_one [OF st assms(2) n]) (use Cons.prems in auto)
  then show ?case
    unfolding fetch_all.simps list.map
  proof (rule wp_step, goal_cases)
    case (1 out w')
    then show ?case using Cons.IH [of "insert j dn" w'] Cons.prems by (simp add: image_iff)
  qed
qed (simp add: wp_return)

section \<open>The boot directory\<close>

text \<open>The artifact that the server has for a download that is done.\<close>

definition stored_as :: "'s objects \<Rightarrow> 's BootConfigReconciler \<Rightarrow> string \<Rightarrow> 's world \<Rightarrow> download \<Rightarrow> BootArtifact \<Rightarrow> bool" where
  "stored_as V r ns w j a \<longleftrightarrow>
     st_artifact V (w_api w) ns (dl_name j) = Some a \<and> om_name (ba_meta a) = dl_name j \<and> ba_Spec a = dl_spec j
     \<and> ba_Phase (ba_Status a) = BootArtifactPhaseReady \<and> os_names [dl_name j, dl_file j] \<and> fetched r j (w_fs w)"

lemma progress_stored:
  assumes st: "object_store c V" and p: "progress V r ns cn s dn todo w" and j: "j \<in> dn" "good_mirror ra j"
  shows "\<exists>a. stored_as V r ns w j a"
proof -
  obtain a where a: "st_artifact V (w_api w) ns (dl_name j) = Some a" "ba_Spec a = dl_spec j" "ba_Phase (ba_Status a) = BootArtifactPhaseReady"
    using p j(1) unfolding progress_def listed_def ready_in_def by fastforce
  then have "stored_as V r ns w j a"
    using store_key [OF st a(1)] p j by (simp add: stored_as_def progress_def good_mirror_def)
  then show ?thesis ..
qed

lemma stored_as_names:
  assumes "stored_as V r ns w j a"
  shows "file_of a = dl_file j" and "artifact_comps r a = dl_dir r j @ [dl_file j]" and "os_names [om_name (ba_meta a), file_of a]"
    and "om_name (ba_meta a) = dl_name j"
  using assms by (simp_all add: stored_as_def file_of_def artifact_comps_def)

lemma stored_as_on_disk:
  assumes "stored_as V r ns w j a" and w: "wired ra r" and n: "os_names (data_comps r)" and "fetched r j fs"
  shows "on_disk (artifact_string r a) (dl_body j) fs"
proof -
  have "art_names (artifact_string r a) (dl_dir r j) (dl_file j)"
    using wired_names [OF w n, of j a] assms(1) by (simp add: stored_as_def)
  then show ?thesis
    using art_namesD(2) assms(4) unfolding on_disk_def fetched_def by blast
qed

text \<open>A server that stores objects has a Ready artifact in every state that reading leads to.\<close>

lemma stored_ready:
  assumes st: "object_store (bcr_Client r) V" and a: "stored_as V r ns w j a"
  shows "has_ready r {t. same_objects V (w_api w) t} ns (dl_name j) a"
  unfolding has_ready_def
proof (intro conjI ballI)
  fix t assume "t \<in> {t. same_objects V (w_api w) t}"
  then have t: "same_objects V (w_api w) t" by simp
  then have "st_artifact V t ns (dl_name j) = Some a" using a by (simp add: same_objects_def stored_as_def)
  from store_get [OF st this] obtain t' where "Get_BootArtifact (bcr_Client r) ns (dl_name j) t = (Inr a, t')" "same_objects V t t'"
    by blast
  then show "\<exists>s' \<in> {t. same_objects V (w_api w) t}. Get_BootArtifact (bcr_Client r) ns (dl_name j) t = (Inr a, s')"
    using t by (auto simp: same_objects_def same_lists_def)
qed (use a in \<open>simp_all add: stored_as_def file_of_def\<close>)

lemma stored_config_server:
  assumes st: "object_store c V" and b: "st_config V s ns cn = Some bc"
  shows "config_server c {t. same_objects V s t} bc"
  unfolding config_server_def
proof (intro ballI allI)
  fix t status assume "t \<in> {t. same_objects V s t}"
  then have t: "st_config V t (om_namespace (bc_meta bc)) (om_name (bc_meta bc)) = Some bc"
    using b store_config_key [OF st b] by (simp add: same_objects_def)
  obtain x t' where u: "Update_BootConfig_status c (bc\<lparr>bc_Status := status\<rparr>) t = (x, t')" by force
  have "\<forall>b. st_config V t (om_namespace (bc_meta (bc\<lparr>bc_Status := status\<rparr>))) (om_name (bc_meta (bc\<lparr>bc_Status := status\<rparr>))) = Some b
      \<and> bc_meta b = bc_meta (bc\<lparr>bc_Status := status\<rparr>) \<longrightarrow> (\<exists>a'. x = Inr a')"
    using st u unfolding object_store_def updates_configs_def by blast
  then show "\<exists>b' s'. Update_BootConfig_status c (bc\<lparr>bc_Status := status\<rparr>) t = (Inr b', s')" using u t by simp
qed

text \<open>One reconciliation of the config, when its artifacts are done.\<close>

lemma boot_one:
  assumes st: "object_store (bcr_Client r) V" and w: "wired ra r" and n: "os_names (boot_comps r cn)"
    and b: "st_config V (w_api w) ns cn = Some bc" "bc_ISO (bc_Spec bc) = None" "bc_Netboot (bc_Spec bc) = Some nb"
    and c: "calm w" and free: "boot_free r cn (w_fs w)"
    and k: "stored_as V r ns w jk k" "dl_name jk = nb_KernelRef nb" and i: "stored_as V r ns w ji i" "dl_name ji = nb_InitrdRef nb"
    and fw: "rel_option (stored_as V r ns w) jf fw" "nb_FirmwareRef nb = (case jf of None \<Rightarrow> [] | Some v \<Rightarrow> dl_name v)"
      "jf \<noteq> None \<Longrightarrow> \<not> has_prefix ''.concat-'' (dl_file ji)"
  shows "wp (BootConfig_Reconcile r ns cn) (\<lambda>x w'. x = Result 0 \<and> boot_set r cn k i fw (w_fs w') \<and> initrd_made r cn i fw (w_fs w')
     \<and> changes_below (boot_comps r cn) (w_fs w) (w_fs w')) w"
proof -
  note key = store_config_key [OF st b(1)]
  have nd: "os_names (data_comps r)" using n by (simp add: boot_comps_def)
  have v: "has_ready r {t. same_objects V (w_api w) t} ns (dl_name f) v" "nb_FirmwareRef nb = dl_name f" "dl_name f \<noteq> []"
    "on_disk (artifact_string r v) (dl_body f) (w_fs w)" "\<not> has_prefix ''.concat-'' (file_of i)" if "jf = Some f" "fw = Some v" for f v
    using that fw stored_ready [OF st] stored_as_on_disk [OF _ w nd, of V ns w f v] stored_as_names(1) [OF i(1)]
    by (auto simp: stored_as_def safe_component_def)
  have "all_ready r {t. same_objects V (w_api w) t} bc nb k i fw"
    using stored_ready [OF st k(1)] stored_ready [OF st i(1)] k(2) i(2) v fw(1,2) key
    by (cases fw; cases jf) (simp_all add: all_ready_def)
  moreover have "on_disk (artifact_string r i) (dl_body ji) (w_fs w)"
    by (rule stored_as_on_disk [OF i(1) w nd]) (use i(1) in \<open>simp add: stored_as_def\<close>)
  then have "sources_ok r i fw (w_fs w)"
    using v(4,5) fw(1) by (cases jf; cases fw) (auto simp: sources_ok_def)
  moreover obtain s1 where "Get_BootConfig (bcr_Client r) ns cn (w_api w) = (Inr bc, s1)" "same_objects V (w_api w) s1"
    by (rule store_get_config [OF st b(1)])
  ultimately show ?thesis
    using wp_mono [OF Config_calm [OF _ b(2,3) _ c _ stored_config_server [OF st b(1)]]] w n free key
    by (force simp: boot_free_def wired_def)
qed

section \<open>What is served\<close>

lemma static_nul:
  assumes "CHR 0x00 \<notin> set (bcr_DataDir r)" and "os_names cs" and "cs \<noteq> []"
  shows "CHR 0x00 \<notin> set (static_file r (Join cs))"
proof -
  have "Join cs = join_with [slash] cs" by (rule Join_relative(1)) (use assms(2,3) in \<open>auto simp: os_names_def\<close>)
  then show ?thesis using assms join_no_nul [of cs] by (auto simp: static_file_def os_names_def slash_def)
qed

lemma static_path:
  assumes w: "wired ra r" and n: "os_names (boot_comps r cn)" and f: "os_names (cs @ [f])"
  shows "names (static_file r (Join (cn # cs @ [f]))) (boot_comps r cn @ cs) f"
proof -
  have cn: "os_names [cn]" using n by (simp add: boot_comps_def)
  have "names (static_file r (Join ((cn # cs) @ [f]))) (data_comps r @ ''boot'' # cn # cs) f"
    by (rule static_names) (use w cn f static_nul [of r "(cn # cs) @ [f]"] in \<open>auto simp: wired_def os_names_def\<close>)
  then show ?thesis by (simp add: boot_comps_def)
qed

text \<open>A link to an artifact that is in place reads as what was downloaded.\<close>

lemma link_serves:
  assumes w: "wired ra r" and n: "os_names (boot_comps r cn)" and a: "stored_as V r ns w j a" and "fetched r j fs"
    and sub: "os_names [sub]" "plain_dir fs (boot_comps r cn @ [sub])"
    and lk: "look fs (boot_comps r cn @ [sub, file_of a]) = Some (LinkN (link_target [''..'', ''..'', ''..''] a))"
  shows "read_file (static_file r (Join [cn, sub, file_of a])) fs = Some (dl_body j)"
proof -
  note nm = stored_as_names [OF a]
  have cn: "safe_component cn" "CHR 0x00 \<notin> set cn" using n by (simp_all add: boot_comps_def)
  obtain t m where f: "plain_dir fs (dl_dir r j)" "look fs (dl_dir r j @ [dl_file j]) = Some (FileN (dl_body j) t m)"
    using assms(4) unfolding fetched_def by blast
  show ?thesis
    by (rule static_reads_link [OF _ _ cn(1) _ _ _ _ sub(2) lk static_nul, where t = t and m = m])
      (use w cn sub nm f in \<open>simp_all add: wired_def\<close>)
qed

text \<open>So does the initrd, the link or the file that was put together.\<close>

definition initrd_body :: "download \<Rightarrow> download option \<Rightarrow> string" where
  "initrd_body ji jf = dl_body ji @ (case jf of None \<Rightarrow> [] | Some f \<Rightarrow> dl_body f)"

lemma initrd_serves:
  assumes w: "wired ra r" and n: "os_names (boot_comps r cn)" and i: "stored_as V r ns w0 ji i" "fetched r ji fs"
    and fw: "rel_option (stored_as V r ns w0) jf fw" "\<forall>f \<in> set_option jf. fetched r f fs"
    and pl: "plain_dir fs (boot_comps r cn @ [''initrd''])" and made: "initrd_made r cn i fw fs"
  shows "read_file (static_file r (Join [cn, ''initrd'', file_of i])) fs = Some (initrd_body ji jf)"
proof (cases fw)
  case None
  then have "look fs (boot_comps r cn @ [''initrd'', file_of i]) = Some (LinkN (link_target [''..'', ''..'', ''..''] i))" "jf = None"
    using made fw(1) by (simp_all add: initrd_made_def)
  then show ?thesis using link_serves [OF w n i _ pl] os_initrd by (simp add: initrd_body_def)
next
  case (Some v)
  then obtain f where f: "jf = Some f" "stored_as V r ns w0 f v" using fw(1) by (cases jf) auto
  obtain ci cv t where made': "read_file (artifact_string r i) fs = Some ci" "read_file (artifact_string r v) fs = Some cv"
    "look fs (boot_comps r cn @ [''initrd'', file_of i]) = Some (FileN (ci @ cv) t 292)"
    using made Some by (auto simp: initrd_made_def)
  have nd: "os_names (data_comps r)" using n by (simp add: boot_comps_def)
  have "ci = dl_body ji" "cv = dl_body f"
    using made'(1,2) on_disk_read [OF stored_as_on_disk [OF i(1) w nd i(2)]] on_disk_read [OF stored_as_on_disk [OF f(2) w nd]] fw(2) f(1)
    by simp_all
  moreover have "names (static_file r (Join [cn, ''initrd'', file_of i])) (boot_comps r cn @ [''initrd'']) (file_of i)"
    using static_path [OF w n, of "[''initrd'']" "file_of i"] stored_as_names(3) [OF i(1)] os_initrd by simp
  ultimately show ?thesis
    using read_file_names(4) [of _ "boot_comps r cn @ [''initrd'']" "file_of i" fs] pl made'(3) f(1) by (simp add: initrd_body_def)
qed

text \<open>The directive of a machine whose provision has the config: the lookup finds the provision, the server has the config.\<close>

lemma directive_config:
  assumes st: "object_store c V" and "mac \<noteq> []" and "\<forall>m \<in> set (st_machines V (w_api w)). om_name (mach_meta m) \<noteq> []"
    and p: "pending_for ns mac (st_machines V (w_api w)) (st_provisions V (w_api w)) = Inr (Some p)"
    and b: "st_config V (w_api w) ns (pr_BootConfigRef (pr_Spec p)) = Some bc"
    and rest: "\<And>w1. same_objects V (w_api w) (w_api w1) \<Longrightarrow> w_fs w1 = w_fs w \<Longrightarrow>
      wp (case bc_ISO (bc_Spec bc) of
            Some isoSpec \<Rightarrow> iso_directive c ns p bc isoSpec
          | None \<Rightarrow>
              (case bc_Netboot (bc_Spec bc) of
                 None \<Rightarrow> State_Monad.return (Inl (PlainErr (''boot config '' @ quote (om_name (bc_meta bc)) @ '' has neither netboot nor iso'')))
               | Some nb \<Rightarrow> netboot_directive c ns p bc nb)) Q w1"
  shows "wp (BootDirectiveForMAC c ns mac) Q w"
proof -
  have "lists_by_index c (st_machines V) (st_provisions V)" using st by (simp add: object_store_def)
  note found = PendingProvisionForMAC_wp [OF this assms(2,3)]
  have "wp (PendingProvisionForMAC c ns mac) (\<lambda>_. api_inv (same_objects V (w_api w))) w"
    by (rule keepsD [OF api_lookup [OF st]]) (simp add: api_inv_def same_objects_def same_lists_def)
  from wp_conj [OF found this] show ?thesis
    unfolding BootDirectiveForMAC_def
  proof (rule wp_step, goal_cases)
    case (1 x w1)
    then have x: "x = Inr (Some p)" and same: "same_objects V (w_api w) (w_api w1)" and fs: "w_fs w1 = w_fs w"
      using p by (simp_all add: api_inv_def)
    have b1: "st_config V (w_api w1) ns (pr_BootConfigRef (pr_Spec p)) = Some bc" using b same by (simp add: same_objects_def)
    obtain s2 where g2: "Get_BootConfig c ns (pr_BootConfigRef (pr_Spec p)) (w_api w1) = (Inr bc, s2)" and s2: "same_objects V (w_api w1) s2"
      by (rule store_get_config [OF st b1])
    have "same_objects V (w_api w) (w_api (w1\<lparr>w_api := s2\<rparr>))" using same s2 by (simp add: same_objects_def same_lists_def)
    from rest [OF this] fs show ?case
      unfolding x sum.case option.case
      by (intro wp_api_call_bind [where f = "Get_BootConfig c ns (pr_BootConfigRef (pr_Spec p))", OF g2]) simp
  qed
qed

lemma directive_of_store:
  assumes st: "object_store c V" and "mac \<noteq> []" and "\<forall>m \<in> set (st_machines V (w_api w)). om_name (mach_meta m) \<noteq> []"
    and p: "pending_for ns mac (st_machines V (w_api w)) (st_provisions V (w_api w)) = Inr (Some p)"
    and b: "st_config V (w_api w) ns (pr_BootConfigRef (pr_Spec p)) = Some bc" "bc_ISO (bc_Spec bc) = None" "bc_Netboot (bc_Spec bc) = Some nb"
    and k: "st_artifact V (w_api w) ns (nb_KernelRef nb) = Some k" and i: "st_artifact V (w_api w) ns (nb_InitrdRef nb) = Some i"
  shows "wp (BootDirectiveForMAC c ns mac) (\<lambda>x w'. x = Inr (Some
      \<lparr>bd_KernelPath = Join [om_name (bc_meta bc), ''kernel'', file_of k], bd_KernelArgs = bc_KernelArgs (bc_Spec bc),
       bd_InitrdPath = Join [om_name (bc_meta bc), ''initrd'', file_of i], bd_ISOPath = [],
       bd_ProvisionName = om_name (pr_meta p)\<rparr>) \<and> w_fs w' = w_fs w) w"
proof (rule directive_config [OF st assms(2,3) p b(1)], goal_cases)
  case (1 w1)
  then have same: "same_objects V (w_api w) (w_api w1)" and fs: "w_fs w1 = w_fs w" by simp_all
  have k1: "st_artifact V (w_api w1) ns (nb_KernelRef nb) = Some k" using k same by (simp add: same_objects_def)
  obtain s3 where g3: "Get_BootArtifact c ns (nb_KernelRef nb) (w_api w1) = (Inr k, s3)" and s3: "same_objects V (w_api w1) s3"
    by (rule store_get [OF st k1])
  have i3: "st_artifact V s3 ns (nb_InitrdRef nb) = Some i" using i same s3 by (simp add: same_objects_def)
  obtain s4 where g4: "Get_BootArtifact c ns (nb_InitrdRef nb) s3 = (Inr i, s4)"
    by (rule store_get [OF st i3])
  show ?case
    by (simp add: b wp_bind api_call_def wp_State netboot_directive_def g3 g4 wp_return file_of_def fs)
qed

section \<open>From the cluster to the machine\<close>

text \<open>The config asks for a kernel, an initrd and perhaps a firmware, and these are the artifacts of its namespace.\<close>

definition netboot_order ::
  "'s objects \<Rightarrow> string \<Rightarrow> string \<Rightarrow> BootConfig \<Rightarrow> download \<Rightarrow> download \<Rightarrow> download option \<Rightarrow> download list \<Rightarrow> 's \<Rightarrow> bool" where
  "netboot_order V ns cn bc jk ji jf js s \<longleftrightarrow>
     st_config V s ns cn = Some bc \<and> bc_ISO (bc_Spec bc) = None
     \<and> bc_Netboot (bc_Spec bc) = Some
          \<lparr>nb_KernelRef = dl_name jk, nb_InitrdRef = dl_name ji, nb_FirmwareRef = (case jf of None \<Rightarrow> [] | Some f \<Rightarrow> dl_name f)\<rparr>
     \<and> (jf \<noteq> None \<longrightarrow> \<not> has_prefix ''.concat-'' (dl_file ji))
     \<and> set js = {jk, ji} \<union> set_option jf \<and> distinct (map dl_name js) \<and> listed V ns (set js) s"

text \<open>The address belongs to one machine with one pending provision.\<close>

definition machine_waits :: "'s objects \<Rightarrow> string \<Rightarrow> string \<Rightarrow> Provision \<Rightarrow> 's \<Rightarrow> bool" where
  "machine_waits V ns mac p s \<longleftrightarrow>
     mac \<noteq> [] \<and> (\<forall>m \<in> set (st_machines V s). om_name (mach_meta m) \<noteq> [])
     \<and> pending_for ns mac (st_machines V s) (st_provisions V s) = Inr (Some p)"

text \<open>The manager's work for a config and its artifacts, in an order in which each finds what it needs, then the machine.\<close>

definition netboot_run ::
  "'s BootArtifactReconciler \<Rightarrow> 's BootConfigReconciler \<Rightarrow> string \<Rightarrow> string list \<Rightarrow> string \<Rightarrow> string \<Rightarrow>
   ('s, go_error + BootDirective option) io" where
  "netboot_run ra r ns refs cn mac = do {
     _ \<leftarrow> fetch_all ra ns refs;
     _ \<leftarrow> BootConfig_Reconcile r ns cn;
     BootDirectiveForMAC (bcr_Client r) ns mac
   }"

text \<open>
  A machine with a pending provision of the config is answered with a good directive, whoever asks for it; here a
  directive is good when its paths serve the bytes.
\<close>

definition boots :: "'s objects \<Rightarrow> string \<Rightarrow> string \<Rightarrow> (BootDirective \<Rightarrow> bool) \<Rightarrow> 's world \<Rightarrow> bool" where
  "boots V ns cn good w \<longleftrightarrow>
     (\<forall>c mac p. object_store c V \<and> machine_waits V ns mac p (w_api w) \<and> pr_BootConfigRef (pr_Spec p) = cn \<longrightarrow>
        wp (BootDirectiveForMAC c ns mac)
          (\<lambda>x w'. (\<exists>d. x = Inr (Some d) \<and> bd_ProvisionName d = om_name (pr_meta p) \<and> good d) \<and> w_fs w' = w_fs w) w)"

definition netboot_good :: "'s BootConfigReconciler \<Rightarrow> BootConfig \<Rightarrow> string \<Rightarrow> string \<Rightarrow> fsys \<Rightarrow> BootDirective \<Rightarrow> bool" where
  "netboot_good r bc kc ic fs d \<longleftrightarrow>
     bd_KernelArgs d = bc_KernelArgs (bc_Spec bc) \<and> bd_ISOPath d = []
     \<and> read_file (static_file r (bd_KernelPath d)) fs = Some kc \<and> read_file (static_file r (bd_InitrdPath d)) fs = Some ic"

lemma bootsD:
  assumes "boots V ns cn good w" and "object_store c V" and "machine_waits V ns mac p (w_api w)" and "pr_BootConfigRef (pr_Spec p) = cn"
  shows "wp (BootDirectiveForMAC c ns mac)
     (\<lambda>x w'. (\<exists>d. x = Inr (Some d) \<and> bd_ProvisionName d = om_name (pr_meta p) \<and> good d) \<and> w_fs w' = w_fs w) w"
  using assms unfolding boots_def by blast

lemma waits_same_lists: "same_lists V s s' \<Longrightarrow> machine_waits V ns mac p s' \<longleftrightarrow> machine_waits V ns mac p s"
  by (simp add: machine_waits_def same_lists_def)

text \<open>After the downloads and the config, the directive and what its paths serve.\<close>

lemma booted_serves:
  assumes st: "object_store (bcr_Client r) V" and w: "wired ra r" and n: "os_names (boot_comps r cn)"
    and ord: "netboot_order V ns cn bc jk ji jf js s"
    and pr: "progress V r ns cn s (set js) {} w1" and k: "stored_as V r ns w1 jk k" and i: "stored_as V r ns w1 ji i"
    and fw: "rel_option (stored_as V r ns w1) jf fw"
    and set: "boot_set r cn k i fw (w_fs w2)" and made: "initrd_made r cn i fw (w_fs w2)"
    and ch: "changes_below (boot_comps r cn) (w_fs w1) (w_fs w2)" and fr: "config_frame V (w_api w1) (w_api w2)"
  shows "boots V ns cn (netboot_good r bc (dl_body jk) (initrd_body ji jf) (w_fs w2)) w2"
  unfolding boots_def
proof (intro allI impI, elim conjE)
  fix c mac p
  assume st': "object_store c V" and mach: "machine_waits V ns mac p (w_api w2)" "pr_BootConfigRef (pr_Spec p) = cn"
  have "st_config V (w_api w1) ns cn = Some bc" using pr ord by (simp add: progress_def netboot_order_def)
  then obtain b2 where b2: "st_config V (w_api w2) ns cn = Some b2" "bc_Spec b2 = bc_Spec bc"
    using fr unfolding config_frame_def by (metis map_option_eq_Some)
  note key = store_config_key(2) [OF st b2(1)]
  have kept: "fetched r j (w_fs w2)" if "j \<in> set js" for j
    by (rule fetched_kept [OF ch]) (use that pr dl_apart(4) [of r cn "[]"] in \<open>auto simp: progress_def\<close>)
  have js: "jk \<in> set js" "ji \<in> set js" "set_option jf \<subseteq> set js" using ord by (auto simp: netboot_order_def)
  have kr: "read_file (static_file r (Join [cn, ''kernel'', file_of k])) (w_fs w2) = Some (dl_body jk)"
    by (rule link_serves [OF w n k kept [OF js(1)] os_kernel]) (use set in \<open>simp_all add: boot_set_def\<close>)
  have ir: "read_file (static_file r (Join [cn, ''initrd'', file_of i])) (w_fs w2) = Some (initrd_body ji jf)"
    by (rule initrd_serves [OF w n i kept [OF js(2)] fw _ _ made]) (use set js(3) kept in \<open>auto simp: boot_set_def\<close>)
  have arts: "st_artifact V (w_api w2) = st_artifact V (w_api w1)" using fr by (simp add: config_frame_def)
  show "wp (BootDirectiveForMAC c ns mac) (\<lambda>x w'. (\<exists>d. x = Inr (Some d) \<and> bd_ProvisionName d = om_name (pr_meta p)
      \<and> netboot_good r bc (dl_body jk) (initrd_body ji jf) (w_fs w2) d) \<and> w_fs w' = w_fs w2) w2"
    by (rule wp_mono [OF directive_of_store [OF st', of mac w2 ns p b2 _ k i]])
      (use mach arts b2 ord k i kr ir key in \<open>auto simp: machine_waits_def netboot_order_def stored_as_def netboot_good_def\<close>)
qed

lemma netboot_prepared:
  assumes st: "object_store (bcr_Client r) V" and w: "wired ra r" and n: "os_names (boot_comps r cn)"
    and ord: "netboot_order V ns cn bc jk ji jf js (w_api w)" and mir: "\<forall>j \<in> set js. good_mirror ra j"
    and disk: "calm w" "boot_free r cn (w_fs w)" "\<forall>j \<in> set js. slot_free r j (w_fs w)"
  shows "wp (fetch_all ra ns (map dl_name js)) (\<lambda>_. wp (BootConfig_Reconcile r ns cn) (\<lambda>_ w2. same_lists V (w_api w) (w_api w2)
     \<and> boots V ns cn (netboot_good r bc (dl_body jk) (initrd_body ji jf) (w_fs w2)) w2)) w"
proof -
  have nd: "os_names (data_comps r)" using n by (simp add: boot_comps_def)
  have "listed V ns (set js) (w_api w)" using ord unfolding netboot_order_def by blast
  then have "progress V r ns cn (w_api w) {} (set js) w"
    using disk by (simp add: progress_def ready_in_def same_lists_def)
  from fetch_all_done [OF st w nd this mir] ord
  have "wp (fetch_all ra ns (map dl_name js)) (\<lambda>_. progress V r ns cn (w_api w) (set js) {}) w" by (simp add: netboot_order_def)
  then show ?thesis
  proof (rule wp_mono, goal_cases)
    case (1 u w1)
    have js: "jk \<in> set js" "ji \<in> set js" "set_option jf \<subseteq> set js" using ord by (auto simp: netboot_order_def)
    have ex: "\<exists>a. stored_as V r ns w1 j a" if "j \<in> set js" for j
      using progress_stored [OF st 1, of j ra] mir that by simp
    obtain k where k: "stored_as V r ns w1 jk k" using ex [OF js(1)] ..
    obtain i where i: "stored_as V r ns w1 ji i" using ex [OF js(2)] ..
    have "\<exists>fw. rel_option (stored_as V r ns w1) jf fw"
    proof (cases jf)
      case (Some f)
      then obtain v where "stored_as V r ns w1 f v" using ex [of f] js(3) by auto
      then show ?thesis using Some by (intro exI [of _ "Some v"]) simp
    qed (simp add: exI [of _ None])
    then obtain fw where fw: "rel_option (stored_as V r ns w1) jf fw" ..
    have b: "st_config V (w_api w1) ns cn = Some bc" "calm w1" "boot_free r cn (w_fs w1)" "same_lists V (w_api w) (w_api w1)"
      using 1 ord by (simp_all add: progress_def netboot_order_def)
    have "wp (BootConfig_Reconcile r ns cn) (\<lambda>x w'. x = Result 0 \<and> boot_set r cn k i fw (w_fs w') \<and> initrd_made r cn i fw (w_fs w')
     \<and> changes_below (boot_comps r cn) (w_fs w1) (w_fs w')) w1"
      by (rule boot_one [OF st w n b(1) _ _ b(2,3) k _ i _ fw]) (use ord in \<open>auto simp: netboot_order_def\<close>)
    from wp_conj [OF this Config_Reconcile_frame [OF st]] show ?case
      by (rule wp_mono) (use booted_serves [OF st w n ord 1 k i fw] b(4) in \<open>auto simp: config_frame_def same_lists_def\<close>)
  qed
qed

text \<open>
  C2. A machine boots what was downloaded. Start with a cluster whose API server stores objects, a config that
  names a kernel, an initrd and perhaps a firmware, mirrors that send bodies with the declared digests, a machine
  with one pending provision for the config, and a data directory with nothing where the files go. When no call
  fails, the reconcilations of the artifacts, in any order, and of the config lead to a boot directive for the
  machine, with the arguments of the config, whose kernel path serves exactly the bytes of the
  kernel and whose initrd path those of the initrd, followed by those of the firmware.
\<close>

theorem machine_boots_downloads:
  assumes st: "object_store (bcr_Client r) V" and w: "wired ra r" and n: "os_names (boot_comps r cn)"
    and ord: "netboot_order V ns cn bc jk ji jf js (w_api w)" and mir: "\<forall>j \<in> set js. good_mirror ra j"
    and mach: "machine_waits V ns mac p (w_api w)" "pr_BootConfigRef (pr_Spec p) = cn"
    and disk: "calm w" "boot_free r cn (w_fs w)" "\<forall>j \<in> set js. slot_free r j (w_fs w)"
    and run: "run_state (netboot_run ra r ns (map dl_name js) cn mac) w = (out, w')"
  shows "\<exists>d. out = Inr (Some d) \<and> bd_ProvisionName d = om_name (pr_meta p) \<and> bd_KernelArgs d = bc_KernelArgs (bc_Spec bc)
     \<and> bd_ISOPath d = [] \<and> read_file (static_file r (bd_KernelPath d)) (w_fs w') = Some (dl_body jk)
     \<and> read_file (static_file r (bd_InitrdPath d)) (w_fs w') = Some (initrd_body ji jf)"
proof -
  note waits = waits_same_lists [of V "w_api w" _ ns mac p]
  have "wp (netboot_run ra r ns (map dl_name js) cn mac) (\<lambda>x w'. \<exists>d. x = Inr (Some d) \<and> bd_ProvisionName d = om_name (pr_meta p)
     \<and> netboot_good r bc (dl_body jk) (initrd_body ji jf) (w_fs w') d) w"
    unfolding netboot_run_def wp_bind
    by (rule wp_mono [OF netboot_prepared [OF st w n ord mir disk]], elim wp_mono conjE, rule wp_mono [OF bootsD [OF _ st]])
      (use mach waits in auto)
  from wpD [OF this run] show ?thesis by (auto simp: netboot_good_def)
qed

section \<open>A small cluster\<close>

text \<open>The stand-in for a digest is the body itself, filled up to 32 bytes.\<close>

definition e2e_sha :: "string \<Rightarrow> string" where
  "e2e_sha c = take 32 (c @ replicate 32 (CHR 0x00))"

definition e2e_download :: "string \<Rightarrow> string \<Rightarrow> string \<Rightarrow> download" where
  "e2e_download n url body =
     \<lparr>dl_name = n, dl_spec = \<lparr>ba_URL = url, ba_SHA256 = Some (hex_encode (e2e_sha body)), ba_SHA512 = None\<rparr>, dl_body = body\<rparr>"

definition e2e_kernel :: download where "e2e_kernel = e2e_download ''kern'' ''https://example.com/vmlinuz'' ''KK''"
definition e2e_initrd :: download where "e2e_initrd = e2e_download ''init'' ''https://example.com/initrd.img'' ''II''"
definition e2e_firmware :: download where "e2e_firmware = e2e_download ''firm'' ''https://example.com/firmware.cpio'' ''F''"

definition e2e_jobs :: "download list" where
  "e2e_jobs = [e2e_firmware, e2e_kernel, e2e_initrd]"

definition e2e_artifacts :: "download list \<Rightarrow> cluster BootArtifactReconciler" where
  "e2e_artifacts js =
     \<lparr>bar_Client = cluster_client, bar_DataDir = ''/data'',
      bar_HTTPClient = \<lambda>url. (case find (\<lambda>j. ba_URL (dl_spec j) = url) js of
        None \<Rightarrow> HttpReply 404 (-1) [] None | Some j \<Rightarrow> HttpReply 200 (int (length (dl_body j))) (dl_body j) None),
      bar_Recorder = True, bar_sha256 = e2e_sha, bar_sha512 = \<lambda>_. []\<rparr>"

definition e2e_configs :: "cluster BootConfigReconciler" where
  "e2e_configs = \<lparr>bcr_Client = cluster_client, bcr_DataDir = ''/data'', bcr_diskfs = \<lambda>_. Inl ''no image''\<rparr>"

definition e2e_config :: BootConfig where
  "e2e_config = web_config\<lparr>bc_Spec := (bc_Spec web_config)\<lparr>bc_Netboot :=
     Some \<lparr>nb_KernelRef = ''kern'', nb_InitrdRef = ''init'', nb_FirmwareRef = ''firm''\<rparr>\<rparr>,
     bc_Status := \<lparr>bc_Phase = BootConfigPhaseUnset, bc_Message = []\<rparr>\<rparr>"

definition e2e_cluster :: "download list \<Rightarrow> BootConfig \<Rightarrow> cluster" where
  "e2e_cluster js bc =
     \<lparr>cl_artifacts = map (\<lambda>j. \<lparr>ba_meta = \<lparr>om_name = dl_name j, om_namespace = ''default'', om_resourceVersion = 1\<rparr>, ba_Spec = dl_spec j,
        ba_Status = \<lparr>ba_Phase = BootArtifactPhaseUnset, ba_Message = [], ba_FailureCount = 0, ba_LastFailureTime = None,
          ba_LastChecked = None\<rparr>\<rparr>) js,
      cl_configs = [bc], cl_machines = [web_machine ''node'' web_mac], cl_provisions = [web_prov [] []]\<rparr>"

definition e2e_world :: "download list \<Rightarrow> BootConfig \<Rightarrow> cluster world" where
  "e2e_world js bc =
     \<lparr>w_fs = [], w_sched = [], w_clock = 7, w_draws = \<lambda>_. 0, w_draw = 0, w_api = e2e_cluster js bc, w_trace = [], w_writes = [],
      w_events = []\<rparr>"

lemma e2e_comps: "data_comps e2e_configs = [''data'']"
  unfolding e2e_configs_def data_comps_def by code_simp

lemma e2e_wired: "wired (e2e_artifacts js) e2e_configs"
proof -
  have "comps ''/data'' = [''data'']" "rooted ''/data''" "CHR 0x00 \<notin> set ''/data''" by code_simp+
  then show ?thesis
    unfolding wired_def e2e_comps by (simp add: e2e_artifacts_def e2e_configs_def)
qed

lemma e2e_good_mirror:
  assumes "list_all (\<lambda>j. list_all (\<lambda>c. safe_component c \<and> CHR 0x00 \<notin> set c) [dl_name j, dl_file j]
      \<and> \<not> isl (url_parse (ba_URL (dl_spec j))) \<and> find (\<lambda>i. ba_URL (dl_spec i) = ba_URL (dl_spec j)) js = Some j
      \<and> ba_SHA256 (dl_spec j) = Some (hex_encode (e2e_sha (dl_body j)))) js"
    and "j \<in> set js"
  shows "good_mirror (e2e_artifacts js) j"
proof -
  have j: "os_names [dl_name j, dl_file j]" "\<not> isl (url_parse (ba_URL (dl_spec j)))"
    "find (\<lambda>i. ba_URL (dl_spec i) = ba_URL (dl_spec j)) js = Some j" "ba_SHA256 (dl_spec j) = Some (hex_encode (e2e_sha (dl_body j)))"
    using assms by (auto simp: list_all_iff os_names_def)
  have "reply_ok (e2e_artifacts js) (ba_URL (dl_spec j)) (dl_body j)"
    using j(3) sum.collapse(2) [OF j(2), symmetric] by (auto simp: reply_ok_def e2e_artifacts_def intro!: exI)
  moreover have "digest_ok (e2e_artifacts js) a (dl_body j)" if "ba_Spec a = dl_spec j" for a
    using that j(4) by (simp add: digest_ok_def expectedHash_def sum_bytes_def e2e_artifacts_def)
  ultimately show ?thesis using j(1) by (simp add: good_mirror_def)
qed

lemma e2e_mirror: "\<forall>j \<in> set e2e_jobs. good_mirror (e2e_artifacts e2e_jobs) j"
  by (intro ballI e2e_good_mirror) code_simp

lemma e2e_order: "netboot_order cluster_objects ''default'' ''noble'' e2e_config e2e_kernel e2e_initrd (Some e2e_firmware) e2e_jobs
  (e2e_cluster e2e_jobs e2e_config)"
proof -
  have "distinct (map dl_name e2e_jobs)" "\<not> has_prefix ''.concat-'' (dl_file e2e_initrd)" by code_simp+
  moreover have "listed cluster_objects ''default'' (set e2e_jobs) (e2e_cluster e2e_jobs e2e_config)"
    by (simp add: listed_def e2e_jobs_def e2e_kernel_def e2e_initrd_def e2e_firmware_def e2e_download_def cluster_objects_def
        e2e_cluster_def list_get_def keyed_by_def)
  ultimately show ?thesis
    by (auto simp: netboot_order_def cluster_objects_def e2e_cluster_def list_get_def keyed_by_def e2e_config_def web_config_def
        e2e_jobs_def e2e_kernel_def e2e_initrd_def e2e_firmware_def e2e_download_def)
qed

lemma e2e_machine: "machine_waits cluster_objects ''default'' web_mac (web_prov [] []) (e2e_cluster js bc)"
proof -
  have "pending_for ''default'' web_mac [web_machine ''node'' web_mac] [web_prov [] []] = Inr (Some (web_prov [] []))" by code_simp
  then show ?thesis
    using web_run_mac by (simp add: machine_waits_def cluster_objects_def e2e_cluster_def web_machine_def)
qed

lemma e2e_disk: "boot_free e2e_configs ''noble'' []" "slot_free e2e_configs j []"
proof -
  have "look [] q = (if q = [] then Some (DirN 0) else None)" for q by (simp add: look_def)
  then show "boot_free e2e_configs ''noble'' []" "slot_free e2e_configs j []"
    by (auto simp: boot_free_def boot_room_def sane_names_def open_way_def slot_free_def art_slot_def boot_comps_def below_iff)
qed

theorem machine_boots_downloads_witness:
  "\<exists>d w'. run_state (netboot_run (e2e_artifacts e2e_jobs) e2e_configs ''default'' [''firm'', ''kern'', ''init''] ''noble'' web_mac) (e2e_world e2e_jobs e2e_config)
       = (Inr (Some d), w')
     \<and> read_file (static_file e2e_configs (bd_KernelPath d)) (w_fs w') = Some ''KK''
     \<and> read_file (static_file e2e_configs (bd_InitrdPath d)) (w_fs w') = Some ''IIF''"
proof -
  obtain x w' where run: "run_state (netboot_run (e2e_artifacts e2e_jobs) e2e_configs ''default'' (map dl_name e2e_jobs) ''noble'' web_mac) (e2e_world e2e_jobs e2e_config)
      = (x, w')" by force
  have st: "object_store (bcr_Client e2e_configs) cluster_objects" by (simp add: e2e_configs_def cluster_store)
  have n: "os_names (boot_comps e2e_configs ''noble'')"
    unfolding boot_comps_def e2e_comps by (rule os_names_list) code_simp
  have w: "calm (e2e_world e2e_jobs e2e_config)" "w_api (e2e_world e2e_jobs e2e_config) = e2e_cluster e2e_jobs e2e_config"
    "w_fs (e2e_world e2e_jobs e2e_config) = []" by (simp_all add: e2e_world_def calm_def)
  have c: "map dl_name e2e_jobs = [''firm'', ''kern'', ''init'']" "dl_body e2e_kernel = ''KK''"
    "initrd_body e2e_initrd (Some e2e_firmware) = ''IIF''" "pr_BootConfigRef (pr_Spec (web_prov [] [])) = ''noble''" by code_simp+
  have d: "boot_free e2e_configs ''noble'' (w_fs (e2e_world e2e_jobs e2e_config))" "\<forall>j \<in> set e2e_jobs. slot_free e2e_configs j (w_fs (e2e_world e2e_jobs e2e_config))"
    using e2e_disk w(3) by simp_all
  from machine_boots_downloads [OF st e2e_wired n e2e_order [folded w(2)] e2e_mirror e2e_machine [of e2e_jobs e2e_config, folded w(2)] c(4) w(1) d run]
  show ?thesis using run unfolding c by blast
qed

end
