(* ===== verification/IsoLive.thy ===== *)
theory IsoLive
  imports ConfigLive
begin

text \<open>
  The ISO mode makes progress: without faults, with a Ready image on disk that holds both files, one call of
  \<^verbatim>\<open>Reconcile\<close> extracts the kernel and the initrd next to the link to the image and reports Ready.
\<close>

section \<open>Calls on one entry\<close>

text \<open>One entry of the file system is set, everything else is as it was.\<close>

definition entry_set :: "path \<Rightarrow> node option \<Rightarrow> fsys \<Rightarrow> fsys \<Rightarrow> bool" where
  "entry_set p n fs fs' \<longleftrightarrow> (\<forall>q. look fs' q = (if q = p then n else look fs q))"

lemma entry_set_trans: "entry_set p n fs fs' \<Longrightarrow> entry_set p n' fs' fs'' \<Longrightarrow> entry_set p n' fs fs''"
  by (simp add: entry_set_def)

lemma entry_set_plain: "entry_set (d @ [f]) n fs fs' \<Longrightarrow> plain_dir fs d \<Longrightarrow> plain_dir fs' d"
  by (auto simp: entry_set_def plain_dir_def dest: below_entry)

lemma entry_set_sane: "entry_set p n fs fs' \<Longrightarrow> os_names p \<Longrightarrow> sane_names fs \<Longrightarrow> sane_names fs'"
  by (rule sane_change) (auto simp: entry_set_def split: if_splits)

lemma create_temp_entry:
  assumes "calm w" and "dir_at s d" and "slash \<notin> set pre" "2 < length pre" "CHR 0x00 \<notin> set pre"
    and pl: "plain_dir (w_fs w) d" and free: "\<And>i. look (w_fs w) (d @ [pre @ digits i]) = None"
  shows "wp (os_CreateTemp s pre) (\<lambda>x w'. quiet w w' \<and> (\<exists>i t. x = Inr (s @ slash # pre @ digits i, d @ [pre @ digits i])
     \<and> entry_set (d @ [pre @ digits i]) (Some (FileN [] t 384)) (w_fs w) (w_fs w'))) w"
  unfolding wp_os_CreateTemp
proof (rule wp_calm, goal_cases)
  case (2 x w')
  let ?i = "w_draws w (w_draw w)"
  have "resolve False (w_fs w) (s @ slash # pre @ digits ?i) = Inr (d @ [pre @ digits ?i])"
    by (rule names_resolve [OF temp_names [OF assms(2-5)] pl]) simp
  then have eff: "x = Inr (s @ slash # pre @ digits ?i, d @ [pre @ digits ?i])"
    "w_fs w' = put (d @ [pre @ digits ?i]) (FileN [] (w_clock w') 384) (w_fs w)"
    using 2(2) free by (simp_all add: create_temp.simps [of 10000] Let_def)
  have "quiet w w'" using 2(1) by (simp add: quiet_def)
  then show ?case
    unfolding map_err_simps eff by (auto simp: entry_set_def look_put)
qed (use assms(1) in \<open>simp add: calm_def\<close>)

lemma write_entry:
  assumes "calm w" and "look (w_fs w) (d @ [e]) = Some (FileN c t m)"
  shows "wp (os_Write s (d @ [e]) a) (\<lambda>x w'. x = Inr (length a) \<and> quiet w w'
     \<and> (\<exists>t. entry_set (d @ [e]) (Some (FileN (c @ a) t m)) (w_fs w) (w_fs w'))) w"
  unfolding os_Write_def
proof (rule wp_calm [OF assms(1)], goal_cases)
  case (1 x w')
  then have "x = Inr (length a)" "w_fs w' = put (d @ [e]) (FileN (c @ a) (w_clock w') m) (w_fs w)"
    using assms(2) by (simp_all add: fs_append_def)
  then show ?case using 1(1) by (auto simp: entry_set_def look_put)
qed

lemma chmod_entry:
  assumes "calm w" and "names s d e" and "plain_dir (w_fs w) d" and "look (w_fs w) (d @ [e]) = Some (FileN c t m)"
  shows "wp (os_Chmod s m') (\<lambda>x w'. x = Inr () \<and> quiet w w' \<and> entry_set (d @ [e]) (Some (FileN c t m')) (w_fs w) (w_fs w')) w"
  unfolding os_Chmod_def
proof (rule wp_calm [OF assms(1)], goal_cases)
  case (1 x w')
  have "resolve True (w_fs w) s = Inr (d @ [e])" using names_resolve [OF assms(2,3)] assms(4) by (simp add: is_link_def)
  then have "x = Inr ()" "w_fs w' = put (d @ [e]) (FileN c t m') (w_fs w)"
    using 1(2) assms(4) by (simp_all add: fs_chmod_def)
  then show ?case using 1(1) by (simp add: entry_set_def look_put)
qed

lemma rename_entry:
  assumes "calm w" and "names s d e" and "names s' d f" and pl: "plain_dir (w_fs w) d" and "e \<noteq> f"
    and "look (w_fs w) (d @ [e]) = Some (FileN c t m)" and nd: "\<And>t. look (w_fs w) (d @ [f]) \<noteq> Some (DirN t)"
  shows "wp (os_Rename s s') (\<lambda>x w'. x = Inr () \<and> quiet w w'
     \<and> (\<forall>q. look (w_fs w') q = (if q = d @ [f] then Some (FileN c t m) else if q = d @ [e] then None else look (w_fs w) q))) w"
  unfolding os_Rename_def
proof (rule wp_calm [OF assms(1)], goal_cases)
  case (1 x w')
  then have "x = Inr ()" "w_fs w' = put (d @ [f]) (FileN c t m) (del (d @ [e]) (w_fs w))"
    using assms(6) nd
    by (auto simp: fs_rename_def names_resolve [OF assms(2) pl] names_resolve [OF assms(3) pl] split: option.splits node.splits)
  then show ?case using 1(1) by (simp add: look_put look_del)
qed

section \<open>One file\<close>

text \<open>From the open temporary file to the entry.\<close>

lemma extract_into_calm:
  assumes "calm w" and e: "names tmp d e" and f: "names dst d f" and "e \<noteq> f" and pl: "plain_dir (w_fs w) d"
    and "look (w_fs w) (d @ [e]) = Some (FileN [] t m)" and nd: "\<And>t. look (w_fs w) (d @ [f]) \<noteq> Some (DirN t)"
    and len: "length c \<le> maxExtractedFileSize"
  shows "wp (extract_into src (c, None) dst tmp (d @ [e])) (\<lambda>x w'. x = Inr () \<and> quiet w w'
     \<and> (\<exists>t. \<forall>q. look (w_fs w') q = (if q = d @ [f] then Some (FileN c t 292) else if q = d @ [e] then None else look (w_fs w) q))) w"
proof -
  have take: "take (maxExtractedFileSize + 1) c = c" using len by simp
  have copied: "wp (io_Copy tmp (d @ [e]) c None) (\<lambda>x w'. x = Inr (length c) \<and> quiet w w'
      \<and> (\<exists>t. entry_set (d @ [e]) (Some (FileN c t m)) (w_fs w) (w_fs w'))) w"
    unfolding io_Copy_def by (rule wp_step [OF write_entry [OF assms(1,6)]]) (simp add: wp_return)
  show ?thesis
    unfolding extract_into_def Let_def fst_conv snd_conv if_cancel take
  proof (rule wp_try [OF copied], goal_cases)
    case (2 k w1)
    then obtain t1 where w1: "quiet w w1" "entry_set (d @ [e]) (Some (FileN c t1 m)) (w_fs w) (w_fs w1)" and k: "k = length c" by auto
    have small: "\<not> maxExtractedFileSize < length c" using len by simp
    show ?case
      unfolding k if_not_P [OF small]
    proof (rule wp_try [OF Close_calm [OF quiet_calm [OF w1(1)]]], goal_cases)
      case (2 u w2)
      then have w2: "quiet w w2" "entry_set (d @ [e]) (Some (FileN c t1 m)) (w_fs w) (w_fs w2)" using w1 by (auto intro: quiet_trans)
      have l2: "look (w_fs w2) (d @ [e]) = Some (FileN c t1 m)" using w2(2) by (simp add: entry_set_def)
      show ?case
      proof (rule wp_try [OF chmod_entry [OF quiet_calm [OF w2(1)] e entry_set_plain [OF w2(2) pl] l2]], goal_cases)
        case (2 u w3)
        then have w3: "quiet w w3" "entry_set (d @ [e]) (Some (FileN c t1 292)) (w_fs w) (w_fs w3)"
          using w2 entry_set_trans by (auto intro: quiet_trans)
        have l3: "look (w_fs w3) (d @ [e]) = Some (FileN c t1 292)" "\<And>t. look (w_fs w3) (d @ [f]) \<noteq> Some (DirN t)"
          using w3(2) nd assms(4) by (auto simp: entry_set_def)
        show ?case
          by (rule wp_try [OF rename_entry [OF quiet_calm [OF w3(1)] e f entry_set_plain [OF w3(2) pl] assms(4) l3]])
            (use w3 in \<open>auto simp: wp_return entry_set_def intro: quiet_trans\<close>)
      qed simp
    qed simp
  qed simp
qed

text \<open>The extracted file under its name; what was the entry before is replaced, unless it is a directory.\<close>

lemma extractFile_calm:
  assumes "calm w" and s: "dir_at (Dir dst) d" and f: "names dst d f" and np: "\<not> has_prefix ''.extract-'' f"
    and pl: "plain_dir (w_fs w) d" and all: "\<forall>i. look (w_fs w) (d @ [''.extract-'' @ digits i]) = None"
    and nd: "\<forall>t. look (w_fs w) (d @ [f]) \<noteq> Some (DirN t)"
    and files: "files (slash # trim_prefix [slash] src) = Inr (c, None)" and len: "length c \<le> maxExtractedFileSize"
  shows "wp (extractFile files src dst) (\<lambda>x w'. x = Inr () \<and> quiet w w'
     \<and> (\<exists>t. entry_set (d @ [f]) (Some (FileN c t 292)) (w_fs w) (w_fs w'))) w"
proof -
  have pre: "slash \<notin> set ''.extract-''" "2 < length ''.extract-''" "CHR 0x00 \<notin> set ''.extract-''" by (simp_all add: slash_def)
  have free: "\<And>i. look (w_fs w) (d @ [''.extract-'' @ digits i]) = None" using all by blast
  show ?thesis
    unfolding extractFile_def files sum.case
  proof (rule wp_try [OF create_temp_entry [OF assms(1) s pre pl free]], goal_cases)
    case (2 v w1)
    then obtain i t where v: "v = (Dir dst @ slash # ''.extract-'' @ digits i, d @ [''.extract-'' @ digits i])"
      and w1: "quiet w w1" "entry_set (d @ [''.extract-'' @ digits i]) (Some (FileN [] t 384)) (w_fs w) (w_fs w1)" by auto
    define e where "e = ''.extract-'' @ digits i"
    have n: "names (Dir dst @ slash # e) d e" unfolding e_def by (rule temp_names [OF s pre])
    have ef: "e \<noteq> f" and new: "look (w_fs w) (d @ [e]) = None" using np free by (auto simp: has_prefix_def e_def)
    note w1 = w1 [folded e_def]
    have pl1: "plain_dir (w_fs w1) d" by (rule entry_set_plain [OF w1(2) pl])
    have l1: "look (w_fs w1) (d @ [e]) = Some (FileN [] t 384)" "\<And>t. look (w_fs w1) (d @ [f]) \<noteq> Some (DirN t)"
      using w1(2) nd ef by (auto simp: entry_set_def)
    show ?case
      unfolding v prod.case e_def [symmetric]
    proof (rule wp_step [OF extract_into_calm [OF quiet_calm [OF w1(1)] n f ef pl1 l1 len]], goal_cases)
      case (1 x w2)
      then obtain t2 where x: "x = Inr ()" "quiet w1 w2" and l: "\<And>q. look (w_fs w2) q =
          (if q = d @ [f] then Some (FileN c t2 292) else if q = d @ [e] then None else look (w_fs w1) q)" by blast
      have w2: "quiet w w2" "entry_set (d @ [f]) (Some (FileN c t2 292)) (w_fs w) (w_fs w2)" "look (w_fs w2) (d @ [e]) = None"
        using quiet_trans [OF w1(1) x(2)] w1(2) l new ef by (auto simp: entry_set_def)
      show ?case
      proof (rule wp_step [OF Close_calm [OF quiet_calm [OF w2(1)]]], goal_cases)
        case (1 u w3)
        then have w3: "quiet w w3" "w_fs w3 = w_fs w2" using w2(1) by (auto intro: quiet_trans)
        have "plain_dir (w_fs w3) d" "look (w_fs w3) (d @ [e]) = None" using w3(2) entry_set_plain [OF w2(2) pl] w2(3) by simp_all
        from Remove_absent_calm [OF quiet_calm [OF w3(1)] n this] show ?case
          by (rule wp_step) (use x w2 w3 in \<open>auto simp: wp_return intro: quiet_trans\<close>)
      qed
    qed
  qed simp
qed

section \<open>Both files\<close>

definition newer :: "string \<Rightarrow> string \<Rightarrow> fsys \<Rightarrow> bool" where
  "newer dst src fs \<longleftrightarrow> (\<exists>a b. fs_stat dst fs = Inr a \<and> fs_stat src fs = Inr b \<and> mod_time b < mod_time a)"

text \<open>Nothing in the directory is in the way of the two files or of a temporary one.\<close>

definition extract_room :: "path \<Rightarrow> fsys \<Rightarrow> bool" where
  "extract_room d fs \<longleftrightarrow>
     (\<forall>i. look fs (d @ [''.extract-'' @ digits i]) = None)
     \<and> (\<forall>t. look fs (d @ [''vmlinuz'']) \<noteq> Some (DirN t)) \<and> (\<forall>t. look fs (d @ [''initrd'']) \<noteq> Some (DirN t))"

text \<open>What the image holds.\<close>

definition image_holds :: "iso_files \<Rightarrow> string \<Rightarrow> string \<Rightarrow> bool" where
  "image_holds files p c \<longleftrightarrow> files (slash # trim_prefix [slash] p) = Inr (c, None) \<and> length c \<le> maxExtractedFileSize"

text \<open>The two files are extracted and nothing else has changed.\<close>

definition extracted :: "path \<Rightarrow> string \<Rightarrow> string \<Rightarrow> fsys \<Rightarrow> fsys \<Rightarrow> bool" where
  "extracted d kc ic fs fs' \<longleftrightarrow>
     (\<exists>t t'. \<forall>q. look fs' q = (if q = d @ [''initrd''] then Some (FileN ic t' 292)
        else if q = d @ [''vmlinuz''] then Some (FileN kc t 292) else look fs q))"

lemma extracted_plain:
  assumes "extracted d kc ic fs fs'" and "plain_dir fs d"
  shows "plain_dir fs' d"
  unfolding plain_dir_def
proof (intro allI impI)
  fix q assume q: "below q d"
  then have "q \<noteq> d @ [e]" for e using below_entry [of d e q] by auto
  then have "look fs' q = look fs q" using assms(1) unfolding extracted_def by metis
  then show "\<exists>t. look fs' q = Some (DirN t)" using assms(2) q by (simp add: plain_dir_def)
qed

lemma os_vmlinuz: "os_names [''vmlinuz'']"
  by (simp add: safe_component_def slash_def)

lemma extract_targets_calm:
  assumes "calm w" and s: "dir_at b d" and pl: "plain_dir (w_fs w) d" and room: "extract_room d (w_fs w)"
    and k: "image_holds files kp kc" and i: "image_holds files ip ic"
  shows "wp (extract_targets files [(kp, Join [b, ''vmlinuz'']), (ip, Join [b, ''initrd''])])
    (\<lambda>x w'. x = Inr () \<and> quiet w w' \<and> extracted d kc ic (w_fs w) (w_fs w')) w"
proof -
  have d: "dir_name b d" "os_names d" using s by (auto simp: dir_at_def)
  have kn: "names (Join [b, ''vmlinuz'']) d ''vmlinuz''" by (rule dir_at_Join(2) [OF d(1)]) (use d os_vmlinuz in simp)
  have iN: "names (Join [b, ''initrd'']) d ''initrd''" by (rule dir_at_Join(2) [OF d(1)]) (use d os_initrd in simp)
  have np: "\<not> has_prefix ''.extract-'' ''vmlinuz''" "\<not> has_prefix ''.extract-'' ''initrd''" by (simp_all add: has_prefix_def)
  have free: "\<forall>i. look (w_fs w) (d @ [''.extract-'' @ digits i]) = None"
    and nd: "\<forall>t. look (w_fs w) (d @ [''vmlinuz'']) \<noteq> Some (DirN t)" "\<forall>t. look (w_fs w) (d @ [''initrd'']) \<noteq> Some (DirN t)"
    using room unfolding extract_room_def by blast+
  have kf: "files (slash # trim_prefix [slash] kp) = Inr (kc, None)" "length kc \<le> maxExtractedFileSize"
    and fi: "files (slash # trim_prefix [slash] ip) = Inr (ic, None)" "length ic \<le> maxExtractedFileSize"
    using k i unfolding image_holds_def by blast+
  show ?thesis
    unfolding extract_targets.simps
  proof (rule wp_try [OF extractFile_calm [where files = files and src = kp, OF assms(1) dir_at_Dir [OF s os_vmlinuz] kn np(1) pl free nd(1) kf]], goal_cases)
    case (2 u w1)
    then obtain t where w1: "quiet w w1" "entry_set (d @ [''vmlinuz'']) (Some (FileN kc t 292)) (w_fs w) (w_fs w1)" by auto
    have pl1: "plain_dir (w_fs w1) d" by (rule entry_set_plain [OF w1(2) pl])
    have r1: "\<forall>i. look (w_fs w1) (d @ [''.extract-'' @ digits i]) = None" "\<forall>t. look (w_fs w1) (d @ [''initrd'']) \<noteq> Some (DirN t)"
      using w1(2) free nd(2) by (auto simp: entry_set_def)
    show ?case
    proof (rule wp_try [OF extractFile_calm [where files = files and src = ip, OF quiet_calm [OF w1(1)] dir_at_Dir [OF s os_initrd] iN np(2) pl1 r1 fi]], goal_cases)
      case (2 u w2)
      then obtain t' where w2: "quiet w1 w2" "entry_set (d @ [''initrd'']) (Some (FileN ic t' 292)) (w_fs w1) (w_fs w2)" by auto
      have "extracted d kc ic (w_fs w) (w_fs w2)"
        unfolding extracted_def using w1(2) w2(2) by (auto simp: entry_set_def)
      then show ?case using quiet_trans [OF w1(1) w2(1)] by (simp add: wp_return)
    qed simp
  qed simp
qed

lemma upToDate_calm:
  assumes "calm w" and "fs_stat src (w_fs w) = Inr n"
  shows "wp (upToDate dst (mod_time n)) (\<lambda>x w'. quiet w w' \<and> w_fs w' = w_fs w \<and> x = newer dst src (w_fs w)) w"
  unfolding upToDate_def
  by (rule wp_step [OF Stat_calm [OF assms(1)]])
    (use assms(2) in \<open>cases "fs_stat dst (w_fs w)"; auto simp: wp_return newer_def\<close>)

lemma read_image_calm:
  assumes "calm w" and "on_disk s c (w_fs w)"
  shows "wp (read_image s) (\<lambda>x w'. quiet w w' \<and> w_fs w' = w_fs w \<and> x = Inr c) w"
  unfolding read_image_def
proof (rule wp_try [OF Open_calm [OF assms]], goal_cases)
  case (2 h w1)
  then have w1: "quiet w w1" "w_fs w1 = w_fs w" "fs_read h (w_fs w1) = Inr c" by auto
  show ?case
    by (rule wp_mono [OF ReadAll_calm [OF quiet_calm [OF w1(1)] w1(3)]]) (use w1 in \<open>auto intro: quiet_trans\<close>)
qed simp

lemma extractFromISO_calm:
  assumes "calm w" and s: "dir_at b d" and pl: "plain_dir (w_fs w) d" and room: "extract_room d (w_fs w)"
    and iso: "on_disk isoPath img (w_fs w)" and fs: "diskfs (Inr img) = Inr (Inr files)"
    and k: "image_holds files kp kc" and i: "image_holds files ip ic"
  shows "wp (extractFromISO diskfs isoPath kp ip b) (\<lambda>x w'. x = Inr () \<and> quiet w w'
     \<and> (if newer (Join [b, ''vmlinuz'']) isoPath (w_fs w) \<and> newer (Join [b, ''initrd'']) isoPath (w_fs w) then w_fs w' = w_fs w
        else extracted d kc ic (w_fs w) (w_fs w'))) w"
proof -
  obtain n where st: "fs_stat isoPath (w_fs w) = Inr n" using on_disk_read [OF iso] read_file_stat by blast
  let ?new = "newer (Join [b, ''vmlinuz'']) isoPath (w_fs w)" and ?new2 = "newer (Join [b, ''initrd'']) isoPath (w_fs w)"
  show ?thesis
    unfolding extractFromISO_def Let_def
  proof (rule wp_try [OF Stat_calm [OF assms(1)]], goal_cases)
    case (2 v w1)
    then have v: "v = n" and w1: "quiet w w1" "w_fs w1 = w_fs w" using st by auto
    have st1: "fs_stat isoPath (w_fs w1) = Inr n" using st w1(2) by simp
    show ?case
      unfolding v
    proof (rule wp_step [OF upToDate_calm [OF quiet_calm [OF w1(1)] st1]], goal_cases)
      case (1 kn w2)
      then have w2: "quiet w w2" "w_fs w2 = w_fs w" "kn = ?new" using w1 by (auto intro: quiet_trans)
      have st2: "fs_stat isoPath (w_fs w2) = Inr n" using st w2(2) by simp
      have "wp (if kn then upToDate (Join [b, ''initrd'']) (mod_time n) else State_Monad.return False)
          (\<lambda>x w'. quiet w w' \<and> w_fs w' = w_fs w \<and> x = (?new \<and> ?new2)) w2"
        by (intro wp_ifI wp_returnI wp_mono [OF upToDate_calm [OF quiet_calm [OF w2(1)] st2]])
          (use w2 in \<open>auto intro: quiet_trans\<close>)
      then show ?case
      proof (rule wp_step, goal_cases)
        case (1 cur w3)
        show ?case
        proof (rule wp_ifI, goal_cases)
          case 2
          then have stale: "\<not> (?new \<and> ?new2)" and w3: "quiet w w3" "w_fs w3 = w_fs w" using 1 by auto
          have "on_disk isoPath img (w_fs w3)" using iso w3(2) by simp
          from read_image_calm [OF quiet_calm [OF w3(1)] this] show ?case
          proof (rule wp_step, goal_cases)
            case (1 image w4)
            then have w4: "quiet w w4" "w_fs w4 = w_fs w" and im: "image = Inr img" using w3 by (auto intro: quiet_trans)
            have "plain_dir (w_fs w4) d" "extract_room d (w_fs w4)" using pl room w4(2) by simp_all
            from extract_targets_calm [OF quiet_calm [OF w4(1)] s this k i] show ?case
              unfolding im fs sum.case by (rule wp_mono) (use w4 stale in \<open>auto intro: quiet_trans\<close>)
          qed
        qed (use 1 in \<open>simp add: wp_return\<close>)
      qed
    qed
  qed (use st in auto)
qed

section \<open>The link to the image\<close>

lemma ensureFileSymlink_calm:
  assumes "calm w" and l: "names l d f" and pl: "plain_dir (w_fs w) d" and nd: "\<forall>t. look (w_fs w) (d @ [f]) \<noteq> Some (DirN t)" and "t \<noteq> []"
  shows "wp (ensureFileSymlink l t) (\<lambda>x w'. x = Inr () \<and> quiet w w' \<and> entry_set (d @ [f]) (Some (LinkN t)) (w_fs w) (w_fs w')
     \<and> (look (w_fs w) (d @ [f]) = Some (LinkN t) \<longrightarrow> w_fs w' = w_fs w)) w"
  unfolding ensureFileSymlink_def
proof (rule wp_step [OF Readlink_calm [OF assms(1) l pl, where t = t]], rule wp_ifI, goal_cases)
  case (1 x w1)
  then show ?case by (simp add: wp_return entry_set_def)
next
  case (2 x w1)
  then have w1: "quiet w w1" "w_fs w1 = w_fs w" and r: "look (w_fs w) (d @ [f]) \<noteq> Some (LinkN t)" by auto
  have "plain_dir (w_fs w1) d" "\<forall>t. look (w_fs w1) (d @ [f]) \<noteq> Some (DirN t)" using pl nd w1(2) by simp_all
  from Remove_file_calm [OF quiet_calm [OF w1(1)] l this] show ?case
  proof (rule wp_step, goal_cases)
    case (1 u w2)
    then have w2: "quiet w w2" "entry_set (d @ [f]) None (w_fs w) (w_fs w2)"
      using w1 by (auto simp: entry_set_def intro: quiet_trans)
    have pl2: "plain_dir (w_fs w2) d" "look (w_fs w2) (d @ [f]) = None"
      using entry_set_plain [OF w2(2) pl] w2(2) by (simp_all add: entry_set_def)
    show ?case
      by (rule wp_step [OF Symlink_calm [OF quiet_calm [OF w2(1)] l pl2 assms(5)]])
        (use w2 r in \<open>auto simp: wp_return entry_set_def intro: quiet_trans\<close>)
  qed
qed

section \<open>Reconciling\<close>

text \<open>There is room for the boot directory and what goes into it.\<close>

definition iso_room :: "'s BootConfigReconciler \<Rightarrow> string \<Rightarrow> BootArtifact \<Rightarrow> fsys \<Rightarrow> bool" where
  "iso_room r n a fs \<longleftrightarrow>
     open_way fs (boot_comps r n) \<and> extract_room (boot_comps r n) fs
     \<and> (\<forall>t. look fs (boot_comps r n @ [file_of a]) \<noteq> Some (DirN t)) \<and> file_of a \<notin> {''vmlinuz'', ''initrd''}"

text \<open>What \<^verbatim>\<open>extractFromISO\<close> takes for current, and what it makes.\<close>

definition iso_current :: "'s BootConfigReconciler \<Rightarrow> string \<Rightarrow> BootArtifact \<Rightarrow> fsys \<Rightarrow> bool" where
  "iso_current r n a fs \<longleftrightarrow>
     newer (Join [Join [bcr_DataDir r, ''boot'', n], ''vmlinuz'']) (artifact_string r a) fs
     \<and> newer (Join [Join [bcr_DataDir r, ''boot'', n], ''initrd'']) (artifact_string r a) fs"

definition iso_made :: "'s BootConfigReconciler \<Rightarrow> string \<Rightarrow> string \<Rightarrow> string \<Rightarrow> fsys \<Rightarrow> bool" where
  "iso_made r n kc ic fs \<longleftrightarrow>
     (\<exists>t. look fs (boot_comps r n @ [''vmlinuz'']) = Some (FileN kc t 292))
     \<and> (\<exists>t. look fs (boot_comps r n @ [''initrd'']) = Some (FileN ic t 292))"

text \<open>The image and the two files in it.\<close>

definition image_ok :: "'s BootConfigReconciler \<Rightarrow> BootConfigISOSpec \<Rightarrow> string \<Rightarrow> string \<Rightarrow> string \<Rightarrow> bool" where
  "image_ok r i img kc ic \<longleftrightarrow>
     (\<exists>files. bcr_diskfs r (Inr img) = Inr (Inr files) \<and> image_holds files (iso_KernelPath i) kc \<and> image_holds files (iso_InitrdPath i) ic)
     \<and> isSafeISOPath (iso_KernelPath i) \<and> isSafeISOPath (iso_InitrdPath i)"

text \<open>The link to the image is in its place.\<close>

definition iso_linked :: "'s BootConfigReconciler \<Rightarrow> string \<Rightarrow> BootArtifact \<Rightarrow> fsys \<Rightarrow> bool" where
  "iso_linked r n a fs \<longleftrightarrow>
     plain_dir fs (boot_comps r n) \<and> look fs (boot_comps r n @ [file_of a]) = Some (LinkN (link_target [''..'', ''..''] a))"

lemma missing_not_newer:
  assumes "names s d f" and "plain_dir fs d" and "look fs (d @ [f]) = None"
  shows "\<not> newer s src fs"
proof -
  have "fs_stat s fs = Inl ENOENT" by (rule names_missing [OF assms(1) _ assms(3)]) (use assms(2) in \<open>auto simp: open_way_def plain_dir_def\<close>)
  then show ?thesis by (simp add: newer_def)
qed

text \<open>The last two steps, seen from the directory as it was made.\<close>

lemma iso_steps:
  assumes mk: "dirs_made b fs fs1"
    and x: "if cur then fs2 = fs1 else extracted b kc ic fs1 fs2" and l: "entry_set (b @ [f]) (Some (LinkN t)) fs2 fs3"
    and f: "f \<notin> {''vmlinuz'', ''initrd''}"
  shows "plain_dir fs3 b" and "look fs3 (b @ [f]) = Some (LinkN t)" and "changes_below b fs fs3"
    and "\<not> cur \<Longrightarrow> (\<exists>t. look fs3 (b @ [''vmlinuz'']) = Some (FileN kc t 292)) \<and> (\<exists>t. look fs3 (b @ [''initrd'']) = Some (FileN ic t 292))"
proof -
  have out: "look fs3 q = look fs1 q" if "\<forall>e. q \<noteq> b @ [e]" for q
    using x l that by (auto simp: extracted_def entry_set_def split: if_splits)
  have "plain_dir fs1 b" using mk by (simp add: dirs_made_def)
  then show "plain_dir fs3 b" using out by (auto simp: plain_dir_def below_iff)
  show "look fs3 (b @ [f]) = Some (LinkN t)" using l by (simp add: entry_set_def)
  show "\<not> cur \<Longrightarrow> (\<exists>t. look fs3 (b @ [''vmlinuz'']) = Some (FileN kc t 292)) \<and> (\<exists>t. look fs3 (b @ [''initrd'']) = Some (FileN ic t 292))"
    using x l f by (auto simp: extracted_def entry_set_def)
  show "changes_below b fs fs3"
    unfolding changes_below_def
  proof (intro allI impI)
    fix q assume "\<not> below b q"
    then have "look fs3 q = look fs1 q" by (intro out) auto
    then show "look fs3 q = look fs q \<or> (below q b \<and> look fs q = None \<and> (\<exists>t. look fs3 q = Some (DirN t)))"
      using mk unfolding dirs_made_def by metis
  qed
qed

lemma link_target2_nonempty:
  assumes "safe_component (om_name (ba_meta a))"
  shows "link_target [''..'', ''..''] a \<noteq> []"
proof -
  have "comps (Join (replicate (Suc 1) ''..'' @ [''artifacts'', om_name (ba_meta a), file_of a])) \<noteq> []"
    by (subst relative_target(1)) (use assms safe_artifacts filename_safe in \<open>auto simp: file_of_def\<close>)
  then show ?thesis by (auto simp: link_target_def comps_def)
qed

text \<open>The room survives the making of the directory.\<close>

lemma dirs_made_entry: "dirs_made b fs fs' \<Longrightarrow> look fs' (b @ [e]) = look fs (b @ [e])"
  unfolding dirs_made_def using below_entry [of b e b] by (auto simp: below_iff)

lemma extract_room_made: "dirs_made b fs fs' \<Longrightarrow> extract_room b fs \<Longrightarrow> extract_room b fs'"
  by (simp add: extract_room_def dirs_made_entry)

lemma boot_dir_at:
  assumes "rooted (bcr_DataDir r)" and "os_names (boot_comps r n)"
  shows "dir_at (Join [bcr_DataDir r, ''boot'', n]) (boot_comps r n)"
proof -
  have "Join [bcr_DataDir r, ''boot'', n] = slash # join_with [slash] (boot_comps r n)"
    using Join_rooted [OF assms(1), of "[''boot'', n]"] assms(2) safe_boot by (auto simp: boot_comps_def data_comps_def)
  moreover have "dir_name (Join [bcr_DataDir r, ''boot'', n]) (boot_comps r n)"
    by (rule boot_dir_name [OF assms(1)]) (use assms(2) in \<open>simp add: boot_comps_def\<close>)
  ultimately show ?thesis
    using assms(2) join_no_nul [of "boot_comps r n"] by (auto simp: dir_at_def os_names_def slash_def)
qed

text \<open>
  What one reconcile reaches: the link in its place, \<open>Ready\<close> reported, nothing written outside the boot
  directory, the two files made where there were none, and no write at all where all was in place.
\<close>

abbreviation iso_reached :: "'s BootConfigReconciler \<Rightarrow> BootConfig \<Rightarrow> BootArtifact \<Rightarrow> string \<Rightarrow> string \<Rightarrow> 's world \<Rightarrow> ctrl_out \<Rightarrow> 's world \<Rightarrow> bool" where
  "iso_reached r bc a kc ic w x w' \<equiv>
     x = Result 0 \<and> iso_linked r (om_name (bc_meta bc)) a (w_fs w')
     \<and> config_reported bc w w' \<and> changes_below (boot_comps r (om_name (bc_meta bc))) (w_fs w) (w_fs w')
     \<and> (look (w_fs w) (boot_comps r (om_name (bc_meta bc)) @ [''vmlinuz'']) = None \<longrightarrow> iso_made r (om_name (bc_meta bc)) kc ic (w_fs w'))
     \<and> (iso_linked r (om_name (bc_meta bc)) a (w_fs w) \<and> iso_current r (om_name (bc_meta bc)) a (w_fs w) \<longrightarrow> w_fs w' = w_fs w)"

text \<open>The file system after the three steps.\<close>

lemma iso_steps_reached:
  assumes bn: "dir_name (Join [bcr_DataDir r, ''boot'', n]) (boot_comps r n)" and n: "os_names (boot_comps r n)"
    and mk: "dirs_made (boot_comps r n) fs fs1"
    and x: "if iso_current r n a fs1 then fs2 = fs1 else extracted (boot_comps r n) kc ic fs1 fs2"
    and l: "entry_set (boot_comps r n @ [file_of a]) (Some (LinkN (link_target [''..'', ''..''] a))) fs2 fs3"
    and f: "file_of a \<notin> {''vmlinuz'', ''initrd''}"
    and same: "look fs (boot_comps r n @ [file_of a]) = Some (LinkN (link_target [''..'', ''..''] a)) \<Longrightarrow> fs3 = fs2"
  shows "iso_linked r n a fs3" and "changes_below (boot_comps r n) fs fs3"
    and "look fs (boot_comps r n @ [''vmlinuz'']) = None \<Longrightarrow> iso_made r n kc ic fs3"
    and "iso_linked r n a fs \<Longrightarrow> iso_current r n a fs \<Longrightarrow> fs3 = fs"
proof -
  note st = iso_steps [OF mk x l f]
  have pl: "plain_dir fs1 (boot_comps r n)" using mk by (simp add: dirs_made_def)
  show "iso_linked r n a fs3" and "changes_below (boot_comps r n) fs fs3" using st by (simp_all add: iso_linked_def)
  show "iso_made r n kc ic fs3" if "look fs (boot_comps r n @ [''vmlinuz'']) = None"
    using st(4) missing_not_newer [OF dir_at_Join(2) [OF bn, of "''vmlinuz''"] pl] dirs_made_entry [OF mk] that n os_vmlinuz
    by (simp add: iso_current_def iso_made_def)
  show "fs3 = fs" if "iso_linked r n a fs" "iso_current r n a fs"
  proof -
    have "fs1 = fs" using that(1) mk by (simp add: dirs_made_def iso_linked_def)
    then show ?thesis using x same that by (simp add: iso_linked_def)
  qed
qed

text \<open>The last step: the link, then the status.\<close>

lemma iso_link_calm:
  fixes r :: "'s BootConfigReconciler"
  defines "b \<equiv> (\<lambda>bc. boot_comps r (om_name (bc_meta bc)))" and "dir \<equiv> (\<lambda>bc. Join [bcr_DataDir r, ''boot'', om_name (bc_meta bc)])"
  assumes srv: "config_server (bcr_Client r) S bc" and bn: "dir_name (dir bc) (b bc)" and n: "os_names (b bc)"
    and a: "os_names [om_name (ba_meta a), file_of a]"
    and room: "iso_room r (om_name (bc_meta bc)) a (w_fs w)"
    and w1: "w_api w1 \<in> S" "w_writes w1 = w_writes w" and mk: "dirs_made (b bc) (w_fs w) fs2" and w3: "quiet w1 w3" "calm w3"
    and ex: "if iso_current r (om_name (bc_meta bc)) a fs2 then w_fs w3 = fs2 else extracted (b bc) kc ic fs2 (w_fs w3)"
  shows "wp (State_Monad.bind (ensureFileSymlink (Join [dir bc, file_of a]) (link_target [''..'', ''..''] a)) (\<lambda>l. case l of
            Inl err \<Rightarrow> setError r bc (''creating iso symlink: '' @ error_text err)
          | Inr _ \<Rightarrow> BootConfig_setReady r bc)) (iso_reached r bc a kc ic w) w3"
proof -
  let ?b = "b bc" and ?t = "link_target [''..'', ''..''] a"
  have ln: "names (Join [dir bc, file_of a]) ?b (file_of a)" by (rule dir_at_Join(2) [OF bn]) (use n a in simp)
  have f: "file_of a \<notin> {''vmlinuz'', ''initrd''}" using room by (simp add: iso_room_def)
  have pl2: "plain_dir fs2 ?b" using mk by (simp add: dirs_made_def)
  have pl3: "plain_dir (w_fs w3) ?b" using ex pl2 extracted_plain [OF _ pl2] by (simp split: if_splits)
  have entry: "look (w_fs w3) (?b @ [file_of a]) = look (w_fs w) (?b @ [file_of a])"
    using ex f dirs_made_entry [OF mk] by (auto simp: extracted_def split: if_splits)
  have tn: "?t \<noteq> []" by (rule link_target2_nonempty) (use a in simp)
  have nd3: "\<forall>t. look (w_fs w3) (?b @ [file_of a]) \<noteq> Some (DirN t)" using room entry by (simp add: iso_room_def b_def)
  show ?thesis
  proof (rule wp_try [OF ensureFileSymlink_calm [OF w3(2) ln pl3 nd3 tn]], goal_cases)
    case (2 u w4)
    then have w4: "quiet w1 w4" "entry_set (?b @ [file_of a]) (Some (LinkN ?t)) (w_fs w3) (w_fs w4)"
      and same: "look (w_fs w) (?b @ [file_of a]) = Some (LinkN ?t) \<Longrightarrow> w_fs w4 = w_fs w3"
      using w3 entry by (auto intro: quiet_trans)
    note fin = iso_steps_reached [OF bn [unfolded b_def dir_def] n [unfolded b_def] mk [unfolded b_def] ex [unfolded b_def]
      w4(2) [unfolded b_def] f same [unfolded b_def]]
    have w4': "w_api w4 \<in> S" "w_writes w4 = w_writes w" using w4(1) w1 by (simp_all add: quiet_def)
    show ?case
      by (rule wp_mono [OF setReady_config_calm [OF quiet_calm [OF w4(1)] srv w4'(1)]])
        (use fin w4'(2) in \<open>auto simp: config_reported_def\<close>)
  qed simp
qed

lemma reconcileISO_calm:
  fixes r :: "'s BootConfigReconciler"
  assumes c: "calm w" and srv: "config_server (bcr_Client r) S bc" and S: "w_api w \<in> S" and rt: "rooted (bcr_DataDir r)"
    and n: "os_names (boot_comps r (om_name (bc_meta bc)))"
    and a: "has_ready r S (om_namespace (bc_meta bc)) (iso_ArtifactRef i) a"
    and room: "iso_room r (om_name (bc_meta bc)) a (w_fs w)"
    and iso: "on_disk (artifact_string r a) img (w_fs w)" and img: "image_ok r i img kc ic"
  shows "wp (reconcileISO r bc i) (iso_reached r bc a kc ic w) w"
proof -
  let ?n = "om_name (bc_meta bc)"
  let ?s = "Join [bcr_DataDir r, ''boot'', ?n]" and ?d = "boot_comps r ?n" and ?t = "link_target [''..'', ''..''] a"
  note an = has_readyD [OF a]
  obtain files where files: "bcr_diskfs r (Inr img) = Inr (Inr files)" "image_holds files (iso_KernelPath i) kc"
    "image_holds files (iso_InitrdPath i) ic" and safe: "isSafeISOPath (iso_KernelPath i)" "isSafeISOPath (iso_InitrdPath i)"
    using img unfolding image_ok_def by blast
  have bn: "dir_name ?s ?d" by (rule boot_dir_name [OF rt]) (use n in \<open>simp add: boot_comps_def\<close>)
  have bd: "dir_at ?s ?d" by (rule boot_dir_at [OF rt n])
  have steps: "wp (State_Monad.bind (os_MkdirAll ?s) (\<lambda>mk. case mk of
        Inl err \<Rightarrow> setError r bc (''creating boot dir: '' @ os_error_text err)
      | Inr _ \<Rightarrow> State_Monad.bind (extractFromISO (bcr_diskfs r) (artifact_string r a) (iso_KernelPath i) (iso_InitrdPath i) ?s) (\<lambda>x. case x of
          Inl err \<Rightarrow> setError r bc (''extracting from iso: '' @ error_text err)
        | Inr _ \<Rightarrow> State_Monad.bind (ensureFileSymlink (Join [?s, file_of a]) ?t) (\<lambda>l. case l of
            Inl err \<Rightarrow> setError r bc (''creating iso symlink: '' @ error_text err)
          | Inr _ \<Rightarrow> BootConfig_setReady r bc)))) (iso_reached r bc a kc ic w) w1"
    if w1: "calm w1" "w_api w1 \<in> S" "w_fs w1 = w_fs w" "w_writes w1 = w_writes w" for w1
  proof (rule wp_try [OF MkdirAll_calm [OF w1(1) bd]], goal_cases)
    case (3 u w2)
    then have w2: "quiet w1 w2" "dirs_made ?d (w_fs w) (w_fs w2)" using w1(3) by auto
    have pl2: "plain_dir (w_fs w2) ?d" using w2(2) by (simp add: dirs_made_def)
    have r2: "extract_room ?d (w_fs w2)" by (rule extract_room_made [OF w2(2)]) (use room in \<open>simp add: iso_room_def\<close>)
    show ?case
    proof (rule wp_try [OF extractFromISO_calm [where diskfs = "bcr_diskfs r" and files = files, OF quiet_calm [OF w2(1)] bd pl2 r2 on_disk_dirs [OF w2(2) iso] files]], goal_cases)
      case (2 u w3)
      then have "quiet w1 w3" "if iso_current r ?n a (w_fs w2) then w_fs w3 = w_fs w2 else extracted ?d kc ic (w_fs w2) (w_fs w3)"
        using w2(1) by (auto simp: iso_current_def intro: quiet_trans)
      then show ?case
        by (intro iso_link_calm [OF srv bn n an(1) room w1(2,4) w2(2)]) (auto intro: quiet_calm)
    qed simp
  qed (use room w1(3) in \<open>simp_all add: iso_room_def\<close>)
  show ?thesis
    unfolding reconcileISO_def Let_def
  proof (intro wp_ifI getArtifact_then [OF c a S], goal_cases)
    case (4 w1)
    then show ?case
      using steps [of w1] unfolding artifact_string_def file_of_def link_target_def append_Cons append_Nil by blast
  qed (use safe an(2) in simp_all)
qed

lemma Config_iso_calm:
  fixes r :: "'s BootConfigReconciler"
  assumes get: "Get_BootConfig (bcr_Client r) ns name (w_api w) = (Inr bc, s)" and spec: "bc_ISO (bc_Spec bc) = Some i"
    and c: "calm w" and S: "s \<in> S" and srv: "config_server (bcr_Client r) S bc" and rt: "rooted (bcr_DataDir r)"
    and n: "os_names (boot_comps r (om_name (bc_meta bc)))"
    and a: "has_ready r S (om_namespace (bc_meta bc)) (iso_ArtifactRef i) a"
    and room: "iso_room r (om_name (bc_meta bc)) a (w_fs w)"
    and iso: "on_disk (artifact_string r a) img (w_fs w)" and img: "image_ok r i img kc ic"
  shows "wp (BootConfig_Reconcile r ns name) (\<lambda>x w'. x = Result 0 \<and> iso_linked r (om_name (bc_meta bc)) a (w_fs w')
     \<and> config_reported bc w w' \<and> changes_below (boot_comps r (om_name (bc_meta bc))) (w_fs w) (w_fs w')
     \<and> (look (w_fs w) (boot_comps r (om_name (bc_meta bc)) @ [''vmlinuz'']) = None \<longrightarrow> iso_made r (om_name (bc_meta bc)) kc ic (w_fs w'))
     \<and> (iso_linked r (om_name (bc_meta bc)) a (w_fs w) \<and> iso_current r (om_name (bc_meta bc)) a (w_fs w) \<longrightarrow> w_fs w' = w_fs w)) w"
    (is "wp _ ?Q w")
proof -
  let ?w = "w\<lparr>w_api := s\<rparr>"
  have "calm ?w" "w_api ?w \<in> S" "iso_room r (om_name (bc_meta bc)) a (w_fs ?w)" "on_disk (artifact_string r a) img (w_fs ?w)"
    using c S room iso by (simp_all add: calm_def)
  from reconcileISO_calm [OF this(1) srv this(2) rt n a this(3,4) img]
  have "wp (reconcileISO r bc i) ?Q ?w" by (rule wp_mono) (simp add: config_reported_def)
  then show ?thesis
    unfolding BootConfig_Reconcile_def
    by (intro wp_api_call_bind [where f = "Get_BootConfig (bcr_Client r) ns name", OF get]) (simp add: spec)
qed

end
