(* ===== verification/EndToEndIso.thy ===== *)
theory EndToEndIso
  imports EndToEnd IsoLive
begin

text \<open>
  The whole way of a machine that boots from an ISO image: the image is downloaded, its kernel and initrd are
  extracted, and the boot directive serves both, and the image itself.
\<close>

section \<open>The config\<close>

definition iso_order :: "'s objects \<Rightarrow> string \<Rightarrow> string \<Rightarrow> BootConfig \<Rightarrow> BootConfigISOSpec \<Rightarrow> download \<Rightarrow> 's \<Rightarrow> bool" where
  "iso_order V ns cn bc i j s \<longleftrightarrow>
     st_config V s ns cn = Some bc \<and> bc_ISO (bc_Spec bc) = Some i \<and> iso_ArtifactRef i = dl_name j
     \<and> dl_file j \<notin> {''vmlinuz'', ''initrd''} \<and> listed V ns {j} s"

lemma boot_free_room:
  assumes "boot_free r cn fs" and "file_of a \<notin> {''vmlinuz'', ''initrd''}"
  shows "iso_room r cn a fs"
proof -
  have "look fs (boot_comps r cn @ [e]) = None" for e using assms(1) by (simp add: boot_free_def)
  moreover have "open_way fs (boot_comps r cn)"
    using assms(1) below_trans [OF _ below_append] unfolding boot_free_def boot_room_def open_way_def by blast
  ultimately show ?thesis using assms(2) by (simp add: iso_room_def extract_room_def)
qed

lemma boot_iso:
  assumes st: "object_store (bcr_Client r) V" and w: "wired ra r" and n: "os_names (boot_comps r cn)"
    and b: "st_config V (w_api w) ns cn = Some bc" "bc_ISO (bc_Spec bc) = Some i" and c: "calm w" and free: "boot_free r cn (w_fs w)"
    and a: "stored_as V r ns w j a" "dl_name j = iso_ArtifactRef i" "dl_file j \<notin> {''vmlinuz'', ''initrd''}"
    and img: "image_ok r i (dl_body j) kc ic"
  shows "wp (BootConfig_Reconcile r ns cn) (\<lambda>x w'. x = Result 0 \<and> iso_linked r cn a (w_fs w') \<and> iso_made r cn kc ic (w_fs w')
     \<and> changes_below (boot_comps r cn) (w_fs w) (w_fs w')) w"
proof -
  note key = store_config_key [OF st b(1)]
  have nd: "os_names (data_comps r)" using n by (simp add: boot_comps_def)
  obtain s1 where get: "Get_BootConfig (bcr_Client r) ns cn (w_api w) = (Inr bc, s1)" and s1: "s1 \<in> {t. same_objects V (w_api w) t}"
    by (rule store_get_config [OF st b(1)]) simp
  have rt: "rooted (bcr_DataDir r)" using w by (simp add: wired_def)
  have ready: "has_ready r {t. same_objects V (w_api w) t} (om_namespace (bc_meta bc)) (iso_ArtifactRef i) a"
    using stored_ready [OF st a(1)] a(2) key by simp
  have disk: "on_disk (artifact_string r a) (dl_body j) (w_fs w)"
    by (rule stored_as_on_disk [OF a(1) w nd]) (use a(1) in \<open>simp add: stored_as_def\<close>)
  have room: "iso_room r cn a (w_fs w)" using boot_free_room [OF free] stored_as_names(1) [OF a(1)] a(3) by simp
  have no: "look (w_fs w) (boot_comps r cn @ [''vmlinuz'']) = None" using free by (simp add: boot_free_def)
  show ?thesis
    by (rule wp_mono [OF Config_iso_calm [OF get b(2) c s1 stored_config_server [OF st b(1)] rt _ ready _ disk img]])
      (use key n room no in auto)
qed

section \<open>What is served\<close>

lemma directive_iso:
  assumes st: "object_store c V" and "mac \<noteq> []" and "\<forall>m \<in> set (st_machines V (w_api w)). om_name (mach_meta m) \<noteq> []"
    and p: "pending_for ns mac (st_machines V (w_api w)) (st_provisions V (w_api w)) = Inr (Some p)"
    and b: "st_config V (w_api w) ns (pr_BootConfigRef (pr_Spec p)) = Some bc" "bc_ISO (bc_Spec bc) = Some i"
    and a: "st_artifact V (w_api w) ns (iso_ArtifactRef i) = Some a"
  shows "wp (BootDirectiveForMAC c ns mac) (\<lambda>x w'. x = Inr (Some
      \<lparr>bd_KernelPath = Join [om_name (bc_meta bc), ''vmlinuz''], bd_KernelArgs = bc_KernelArgs (bc_Spec bc),
       bd_InitrdPath = Join [om_name (bc_meta bc), ''initrd''], bd_ISOPath = Join [om_name (bc_meta bc), file_of a],
       bd_ProvisionName = om_name (pr_meta p)\<rparr>) \<and> w_fs w' = w_fs w) w"
proof (rule directive_config [OF st assms(2,3) p b(1)], goal_cases)
  case (1 w1)
  then have same: "same_objects V (w_api w) (w_api w1)" and fs: "w_fs w1 = w_fs w" by simp_all
  have a1: "st_artifact V (w_api w1) ns (iso_ArtifactRef i) = Some a" using a same by (simp add: same_objects_def)
  obtain s3 where "Get_BootArtifact c ns (iso_ArtifactRef i) (w_api w1) = (Inr a, s3)"
    by (rule store_get [OF st a1])
  then show ?case
    by (simp add: b wp_bind api_call_def wp_State iso_directive_def wp_return file_of_def fs)
qed

text \<open>The extracted files and the image, by their static paths.\<close>

lemma iso_serves:
  assumes w: "wired ra r" and n: "os_names (boot_comps r cn)" and a: "stored_as V r ns w0 j a" and f: "fetched r j fs"
    and l: "iso_linked r cn a fs" and m: "iso_made r cn kc ic fs"
  shows "read_file (static_file r (Join [cn, ''vmlinuz''])) fs = Some kc"
    and "read_file (static_file r (Join [cn, ''initrd''])) fs = Some ic"
    and "read_file (static_file r (Join [cn, file_of a])) fs = Some (dl_body j)"
proof -
  note nm = stored_as_names [OF a]
  have path: "names (static_file r (Join [cn, e])) (boot_comps r cn) e" if "os_names [e]" for e
    using static_path [OF w n, of "[]" e] that by simp
  have pl: "plain_dir fs (boot_comps r cn)" using l by (simp add: iso_linked_def)
  show "read_file (static_file r (Join [cn, ''vmlinuz''])) fs = Some kc" "read_file (static_file r (Join [cn, ''initrd''])) fs = Some ic"
    using m read_file_names(4) [OF path [OF os_vmlinuz] pl] read_file_names(4) [OF path [OF os_initrd] pl]
    unfolding iso_made_def by blast+
  obtain t u where fl: "plain_dir fs (dl_dir r j)" "look fs (dl_dir r j @ [dl_file j]) = Some (FileN (dl_body j) t u)"
    using f unfolding fetched_def by blast
  have "os_names [file_of a]" using nm(3) by simp
  from path [OF this] show "read_file (static_file r (Join [cn, file_of a])) fs = Some (dl_body j)"
    using nm fl pl l
    by (intro link_reads [where dd = "data_comps r" and p = "[''boot'', cn]" and f = "file_of a" and k = 1
          and n = "dl_name j" and g = "dl_file j"])
      (simp_all add: names_def boot_comps_def iso_linked_def link_target_def eval_nat_numeral)
qed

section \<open>From the cluster to the machine\<close>

definition iso_good :: "'s BootConfigReconciler \<Rightarrow> BootConfig \<Rightarrow> string \<Rightarrow> string \<Rightarrow> string \<Rightarrow> fsys \<Rightarrow> BootDirective \<Rightarrow> bool" where
  "iso_good r bc kc ic img fs d \<longleftrightarrow>
     bd_KernelArgs d = bc_KernelArgs (bc_Spec bc) \<and> read_file (static_file r (bd_KernelPath d)) fs = Some kc
     \<and> read_file (static_file r (bd_InitrdPath d)) fs = Some ic \<and> read_file (static_file r (bd_ISOPath d)) fs = Some img"

lemma iso_prepared:
  assumes st: "object_store (bcr_Client r) V" and w: "wired ra r" and n: "os_names (boot_comps r cn)"
    and ord: "iso_order V ns cn bc i j (w_api w)" and mir: "good_mirror ra j" and img: "image_ok r i (dl_body j) kc ic"
    and disk: "calm w" "boot_free r cn (w_fs w)" "slot_free r j (w_fs w)"
  shows "wp (fetch_all ra ns [dl_name j]) (\<lambda>_. wp (BootConfig_Reconcile r ns cn) (\<lambda>_ w2. same_lists V (w_api w) (w_api w2)
     \<and> boots V ns cn (iso_good r bc kc ic (dl_body j) (w_fs w2)) w2)) w"
proof -
  have nd: "os_names (data_comps r)" using n by (simp add: boot_comps_def)
  have "progress V r ns cn (w_api w) {} (set [j]) w"
    using disk ord by (simp add: progress_def iso_order_def ready_in_def same_lists_def)
  from fetch_all_done [OF st w nd this] mir
  have "wp (fetch_all ra ns [dl_name j]) (\<lambda>_. progress V r ns cn (w_api w) {j} {}) w" by simp
  then show ?thesis
  proof (rule wp_mono, goal_cases)
    case (1 u w1)
    obtain a where a: "stored_as V r ns w1 j a" using progress_stored [OF st 1 _ mir] by blast
    have b: "st_config V (w_api w1) ns cn = Some bc" "bc_ISO (bc_Spec bc) = Some i" "calm w1" "boot_free r cn (w_fs w1)"
      "dl_name j = iso_ArtifactRef i" "dl_file j \<notin> {''vmlinuz'', ''initrd''}" "same_lists V (w_api w) (w_api w1)" "fetched r j (w_fs w1)"
      using 1 ord by (simp_all add: progress_def iso_order_def)
    from wp_conj [OF boot_iso [OF st w n b(1-4) a b(5,6) img] Config_Reconcile_frame [OF st]] show ?case
    proof (rule wp_mono, goal_cases)
      case (1 x w2)
      then have w2: "iso_linked r cn a (w_fs w2)" "iso_made r cn kc ic (w_fs w2)" "changes_below (boot_comps r cn) (w_fs w1) (w_fs w2)"
        and fr: "config_frame V (w_api w1) (w_api w2)" by simp_all
      have "fetched r j (w_fs w2)"
        by (rule fetched_kept [OF w2(3)]) (use b(8) dl_apart(4) [of r cn "[]"] in simp_all)
      note sv = iso_serves [OF w n a this w2(1,2)]
      obtain b2 where b2: "st_config V (w_api w2) ns cn = Some b2" "bc_Spec b2 = bc_Spec bc"
        using fr b(1) unfolding config_frame_def by (metis map_option_eq_Some)
      have "boots V ns cn (iso_good r bc kc ic (dl_body j) (w_fs w2)) w2"
        unfolding boots_def
      proof (intro allI impI, elim conjE, goal_cases)
        case (1 c mac p)
        then show ?case
          by (intro wp_mono [OF directive_iso [of c V mac w2 ns p b2 i a]])
            (use fr b2 b a sv store_config_key(2) [OF st b2(1)] in
              \<open>auto simp: machine_waits_def config_frame_def stored_as_def iso_good_def\<close>)
      qed
      then show ?case using fr b(7) by (simp add: config_frame_def same_lists_def)
    qed
  qed
qed

text \<open>
  C3. A machine boots from the image that was downloaded. Start with a cluster whose API server stores objects, a
  config that names an image and two files in it, a mirror that sends the image with the declared digest, a machine
  with one pending provision for the config, and a data directory with nothing where the files go. When no call
  fails, the reconciliations of the artifact and of the config lead to a boot directive for the machine whose
  kernel and initrd paths serve the two files of the image, and whose ISO path serves the image.
\<close>

theorem machine_boots_image:
  assumes st: "object_store (bcr_Client r) V" and w: "wired ra r" and n: "os_names (boot_comps r cn)"
    and ord: "iso_order V ns cn bc i j (w_api w)" and mir: "good_mirror ra j" and img: "image_ok r i (dl_body j) kc ic"
    and mach: "machine_waits V ns mac p (w_api w)" "pr_BootConfigRef (pr_Spec p) = cn"
    and disk: "calm w" "boot_free r cn (w_fs w)" "slot_free r j (w_fs w)"
    and run: "run_state (netboot_run ra r ns [dl_name j] cn mac) w = (out, w')"
  shows "\<exists>d. out = Inr (Some d) \<and> bd_ProvisionName d = om_name (pr_meta p) \<and> bd_KernelArgs d = bc_KernelArgs (bc_Spec bc)
     \<and> read_file (static_file r (bd_KernelPath d)) (w_fs w') = Some kc
     \<and> read_file (static_file r (bd_InitrdPath d)) (w_fs w') = Some ic
     \<and> read_file (static_file r (bd_ISOPath d)) (w_fs w') = Some (dl_body j)"
proof -
  note waits = waits_same_lists [of V "w_api w" _ ns mac p]
  have "wp (netboot_run ra r ns [dl_name j] cn mac) (\<lambda>x w'. \<exists>d. x = Inr (Some d) \<and> bd_ProvisionName d = om_name (pr_meta p)
     \<and> iso_good r bc kc ic (dl_body j) (w_fs w') d) w"
    unfolding netboot_run_def wp_bind
    by (rule wp_mono [OF iso_prepared [OF st w n ord mir img disk]], elim wp_mono conjE, rule wp_mono [OF bootsD [OF _ st]])
      (use mach waits in auto)
  from wpD [OF this run] show ?thesis by (auto simp: iso_good_def)
qed

section \<open>A small cluster\<close>

text \<open>An image of four bytes: the first two are the kernel, the others the initrd.\<close>

definition e2e_image :: download where
  "e2e_image = e2e_download ''image'' ''https://example.com/live.iso'' ''KKII''"

definition e2e_iso_spec :: BootConfigISOSpec where
  "e2e_iso_spec = \<lparr>iso_ArtifactRef = ''image'', iso_KernelPath = ''casper/vmlinuz'', iso_InitrdPath = ''/casper/initrd''\<rparr>"

definition e2e_iso_config :: BootConfig where
  "e2e_iso_config = e2e_config\<lparr>bc_Spec := (bc_Spec e2e_config)\<lparr>bc_Netboot := None, bc_ISO := Some e2e_iso_spec\<rparr>\<rparr>"

definition e2e_files :: "string \<Rightarrow> iso_files" where
  "e2e_files img p =
     (if p = ''/casper/vmlinuz'' then Inr (take 2 img, None) else if p = ''/casper/initrd'' then Inr (drop 2 img, None)
      else Inl ''no such file'')"

definition e2e_iso_configs :: "cluster BootConfigReconciler" where
  "e2e_iso_configs = e2e_configs\<lparr>bcr_diskfs := \<lambda>x. case x of Inl _ \<Rightarrow> Inl ''no image'' | Inr img \<Rightarrow> Inr (Inr (e2e_files img))\<rparr>"

lemma e2e_iso_simps [simp]:
  "bcr_Client e2e_iso_configs = cluster_client" "bcr_DataDir e2e_iso_configs = bcr_DataDir e2e_configs"
  "data_comps e2e_iso_configs = data_comps e2e_configs" "boot_comps e2e_iso_configs = boot_comps e2e_configs"
  "wired ra e2e_iso_configs = wired ra e2e_configs" "boot_free e2e_iso_configs = boot_free e2e_configs"
  "slot_free e2e_iso_configs = slot_free e2e_configs" "static_file e2e_iso_configs = static_file e2e_configs"
  by (simp_all add: e2e_iso_configs_def e2e_configs_def data_comps_def boot_comps_def wired_def boot_free_def boot_room_def
      slot_free_def static_file_def fun_eq_iff)

lemma e2e_iso_order: "iso_order cluster_objects ''default'' ''noble'' e2e_iso_config e2e_iso_spec e2e_image (e2e_cluster [e2e_image] e2e_iso_config)"
proof -
  have "dl_file e2e_image \<notin> {''vmlinuz'', ''initrd''}" by code_simp
  then show ?thesis
    by (simp add: iso_order_def listed_def e2e_image_def e2e_download_def cluster_objects_def e2e_cluster_def list_get_def keyed_by_def
        e2e_iso_config_def e2e_iso_spec_def e2e_config_def web_config_def)
qed

lemma e2e_image_ok: "image_ok e2e_iso_configs e2e_iso_spec ''KKII'' ''KK'' ''II''"
proof -
  have "e2e_files ''KKII'' (slash # trim_prefix [slash] (iso_KernelPath e2e_iso_spec)) = Inr (''KK'', None)"
      "e2e_files ''KKII'' (slash # trim_prefix [slash] (iso_InitrdPath e2e_iso_spec)) = Inr (''II'', None)"
      "isSafeISOPath (iso_KernelPath e2e_iso_spec)" "isSafeISOPath (iso_InitrdPath e2e_iso_spec)"
    by code_simp+
  moreover have "length ''KK'' \<le> maxExtractedFileSize" "length ''II'' \<le> maxExtractedFileSize"
    by (simp_all add: maxExtractedFileSize_def)
  moreover have "bcr_diskfs e2e_iso_configs (Inr ''KKII'') = Inr (Inr (e2e_files ''KKII''))"
    by (simp add: e2e_iso_configs_def)
  ultimately show ?thesis unfolding image_ok_def image_holds_def by blast
qed

theorem machine_boots_image_witness:
  "\<exists>d w'. run_state (netboot_run (e2e_artifacts [e2e_image]) e2e_iso_configs ''default'' [''image''] ''noble'' web_mac)
         (e2e_world [e2e_image] e2e_iso_config) = (Inr (Some d), w')
     \<and> read_file (static_file e2e_configs (bd_KernelPath d)) (w_fs w') = Some ''KK''
     \<and> read_file (static_file e2e_configs (bd_InitrdPath d)) (w_fs w') = Some ''II''
     \<and> read_file (static_file e2e_configs (bd_ISOPath d)) (w_fs w') = Some ''KKII''"
proof -
  let ?w = "e2e_world [e2e_image] e2e_iso_config"
  obtain x w' where run: "run_state (netboot_run (e2e_artifacts [e2e_image]) e2e_iso_configs ''default'' [dl_name e2e_image] ''noble'' web_mac)
      ?w = (x, w')" by force
  have st: "object_store (bcr_Client e2e_iso_configs) cluster_objects" by (simp add: cluster_store)
  have wd: "wired (e2e_artifacts [e2e_image]) e2e_iso_configs" by (simp add: e2e_wired)
  have n: "os_names (boot_comps e2e_iso_configs ''noble'')"
    unfolding e2e_iso_simps boot_comps_def e2e_comps by (rule os_names_list) code_simp
  have mir: "good_mirror (e2e_artifacts [e2e_image]) e2e_image" by (rule e2e_good_mirror) (code_simp, simp)
  have w: "calm ?w" "w_api ?w = e2e_cluster [e2e_image] e2e_iso_config" "w_fs ?w = []" by (simp_all add: e2e_world_def calm_def)
  have c: "dl_name e2e_image = ''image''" "dl_body e2e_image = ''KKII''" "pr_BootConfigRef (pr_Spec (web_prov [] [])) = ''noble''" by code_simp+
  have d: "boot_free e2e_iso_configs ''noble'' (w_fs ?w)" "slot_free e2e_iso_configs e2e_image (w_fs ?w)"
    using e2e_disk w(3) by simp_all
  from machine_boots_image [OF st wd n e2e_iso_order [folded w(2)] mir e2e_image_ok [folded c(2)]
      e2e_machine [of "[e2e_image]" e2e_iso_config, folded w(2)] c(3) w(1) d run]
  show ?thesis using run unfolding c e2e_iso_simps by blast
qed

end
