(* ===== verification/HttpWire.thy ===== *)
theory HttpWire
  imports HttpdServer GoUrl
begin

text \<open>
  From the request on the wire to what the handlers read of it: \<^verbatim>\<open>net/url.ParseQuery\<close> behind
  \<^verbatim>\<open>r.URL.Query\<close> and \<^verbatim>\<open>r.FormValue\<close>. The parsing of the request line and of the headers is not part of it: the
  path is given as its segments, the type of the body as the media type that
  \<^verbatim>\<open>mime.ParseMediaType\<close> reads in the header (empty when there is none), and a multipart body as its fields.
\<close>

section \<open>Query strings\<close>

definition amp :: char where
  "amp = CHR 0x26"

definition eq_sign :: char where
  "eq_sign = CHR 0x3D"

text \<open>\<^verbatim>\<open>QueryUnescape\<close>: a plus sign is a space, everything else may be percent-encoded.\<close>

definition query_unescape :: "string \<Rightarrow> string + string" where
  "query_unescape s = unescape False (map (\<lambda>c. if c = CHR ''+'' then CHR '' '' else c) s)"

text \<open>One part of the query between ampersands; parts that cannot be read are left out.\<close>

definition query_pair :: "string \<Rightarrow> (string \<times> string) list" where
  "query_pair part =
     (if CHR '';'' \<in> set part \<or> part = [] then []
      else (case cut_byte eq_sign part of
              (key, v) \<Rightarrow>
                (case query_unescape key of
                   Inl _ \<Rightarrow> []
                 | Inr k \<Rightarrow> (case query_unescape v of Inl _ \<Rightarrow> [] | Inr x \<Rightarrow> [(k, x)]))))"

definition maxParams :: nat where
  "maxParams = 10000"

text \<open>The values that \<^verbatim>\<open>ParseQuery\<close> collects before and besides its errors, which the program does not look at.\<close>

definition ParseQuery :: "string \<Rightarrow> (string \<times> string) list" where
  "ParseQuery q = (let parts = split_on amp q in if maxParams < length parts then [] else concat (map query_pair parts))"

section \<open>Requests\<close>

record Wire =
  wr_Method :: string
  wr_Path :: "string list"
  wr_RawQuery :: string
  wr_MediaType :: string
  wr_Body :: string
  wr_Fields :: "(string \<times> string) list"
  wr_Header :: "(string \<times> string) list"
  wr_Host :: string

definition maxFormSize :: nat where
  "maxFormSize = 10 * 1024 * 1024"

text \<open>\<^verbatim>\<open>parsePostForm\<close>: only a POST, PUT or PATCH with the media type of a form has values in its body, up to 10 MB.\<close>

definition post_form :: "Wire \<Rightarrow> (string \<times> string) list" where
  "post_form w =
     (if wr_Method w \<in> {''POST'', ''PUT'', ''PATCH''} \<and> wr_MediaType w = ''application/x-www-form-urlencoded''
         \<and> length (wr_Body w) \<le> maxFormSize
      then ParseQuery (wr_Body w) else [])"

text \<open>\<^verbatim>\<open>r.Form\<close> as \<^verbatim>\<open>FormValue\<close> fills it: the body, then the query, then the fields of a multipart body.\<close>

definition wire_form :: "Wire \<Rightarrow> (string \<times> string) list" where
  "wire_form w = post_form w @ ParseQuery (wr_RawQuery w)
     @ (if wr_MediaType w = ''multipart/form-data'' then wr_Fields w else [])"

definition decode_request :: "Wire \<Rightarrow> Request" where
  "decode_request w =
     \<lparr>rq_Method = wr_Method w, rq_Path = wr_Path w, rq_Query = ParseQuery (wr_RawQuery w), rq_Form = wire_form w,
      rq_Header = wr_Header w, rq_Host = wr_Host w\<rparr>"

section \<open>Encoding\<close>

text \<open>How a client encodes what it sends, as \<^verbatim>\<open>QueryEscape\<close> does.\<close>

definition plain_byte :: "char \<Rightarrow> bool" where
  "plain_byte c \<longleftrightarrow> is_alpha c \<or> is_digit c \<or> c \<in> set ''-_.~''"

definition upper_hex :: "nat \<Rightarrow> char" where
  "upper_hex n = ''0123456789ABCDEF'' ! n"

definition escape_byte :: "char \<Rightarrow> string" where
  "escape_byte c = (if plain_byte c then [c] else if c = CHR '' '' then ''+''
     else [percent, upper_hex (byte c div 16), upper_hex (byte c mod 16)])"

definition query_escape :: "string \<Rightarrow> string" where
  "query_escape s = concat (map escape_byte s)"

definition query_encode :: "(string \<times> string) list \<Rightarrow> string" where
  "query_encode kvs = join_with [amp] (map (\<lambda>(k, v). query_escape k @ eq_sign # query_escape v) kvs)"

lemma upper_hex_ok:
  assumes "n < 16"
  shows "is_hex (upper_hex n)" and "unhex (upper_hex n) = n" and "upper_hex n \<noteq> CHR ''+''" and "upper_hex n \<notin> {amp, eq_sign, CHR '';''}"
proof -
  have "\<forall>n \<in> set [0..<16]. is_hex (upper_hex n) \<and> unhex (upper_hex n) = n \<and> upper_hex n \<noteq> CHR ''+''
      \<and> upper_hex n \<notin> {amp, eq_sign, CHR '';''}" by code_simp
  then show "is_hex (upper_hex n)" "unhex (upper_hex n) = n" "upper_hex n \<noteq> CHR ''+''" "upper_hex n \<notin> {amp, eq_sign, CHR '';''}"
    using assms by simp_all
qed

lemma plain_byte_ok: "plain_byte c \<Longrightarrow> c \<noteq> CHR ''+'' \<and> c \<noteq> percent \<and> c \<notin> {amp, eq_sign, CHR '';''}"
proof -
  assume "plain_byte c"
  moreover have "\<not> plain_byte (CHR ''+'')" "\<not> plain_byte percent" "\<not> plain_byte amp" "\<not> plain_byte eq_sign" "\<not> plain_byte (CHR '';'')"
    by code_simp+
  ultimately show ?thesis by auto
qed

lemma escape_byte_free: "x \<in> set (escape_byte c) \<Longrightarrow> x \<notin> {amp, eq_sign, CHR '';''}"
proof -
  have "byte c div 16 < 16" "byte c mod 16 < 16" by (simp_all add: byte_def less_mult_imp_div_less)
  moreover have "percent \<notin> {amp, eq_sign, CHR '';''}" "CHR ''+'' \<notin> {amp, eq_sign, CHR '';''}" by code_simp+
  ultimately show "x \<in> set (escape_byte c) \<Longrightarrow> ?thesis"
    using plain_byte_ok [of c] upper_hex_ok(4) by (auto simp: escape_byte_def split: if_splits)
qed

lemma query_escape_free: "x \<in> set (query_escape s) \<Longrightarrow> x \<notin> {amp, eq_sign, CHR '';''}"
  using escape_byte_free by (force simp: query_escape_def)

lemma query_unescape_escape: "query_unescape (query_escape s) = Inr s"
proof -
  have b: "16 * (byte c div 16) + byte c mod 16 = byte c" "byte c div 16 < 16" "byte c mod 16 < 16" "char_of (byte c) = c" for c
    by (simp_all add: byte_def less_mult_imp_div_less)
  have step: "unescape False (map (\<lambda>c. if c = CHR ''+'' then CHR '' '' else c) (escape_byte c) @ t)
      = (case unescape False t of Inl e \<Rightarrow> Inl e | Inr u \<Rightarrow> Inr (c # u))" for c t
    using plain_byte_ok [of c] upper_hex_ok [OF b(2) [of c]] upper_hex_ok [OF b(3) [of c]] b(1,4) [of c]
    by (auto simp: escape_byte_def percent_def split: sum.split)
  show ?thesis
    unfolding query_unescape_def query_escape_def
  proof (induction s)
    case (Cons c s)
    then show ?case using step [of c] by simp
  qed simp
qed

lemma query_pair_encoded: "query_pair (query_escape k @ eq_sign # query_escape v) = [(k, v)]"
proof -
  have "cut_byte eq_sign (a @ eq_sign # b) = (a, b)" if "eq_sign \<notin> set a" for a b
    using that by (induction a) auto
  then have "cut_byte eq_sign (query_escape k @ eq_sign # query_escape v) = (query_escape k, query_escape v)"
    using query_escape_free by blast
  moreover have "CHR '';'' \<notin> set (query_escape k @ eq_sign # query_escape v)"
    using query_escape_free [of "CHR '';''"] by (auto simp: eq_sign_def)
  ultimately show ?thesis by (simp add: query_pair_def query_unescape_escape)
qed

lemma ParseQuery_empty: "ParseQuery [] = []"
  by (simp add: ParseQuery_def maxParams_def query_pair_def)

lemma ParseQuery_encode:
  assumes "length kvs \<le> maxParams"
  shows "ParseQuery (query_encode kvs) = kvs"
proof (cases "kvs = []")
  case False
  let ?ps = "map (\<lambda>(k, v). query_escape k @ eq_sign # query_escape v) kvs"
  have "amp \<notin> set p" if "p \<in> set ?ps" for p
    using that query_escape_free [of amp] by (auto simp: amp_def eq_sign_def)
  then have "split_on amp (query_encode kvs) = ?ps"
    unfolding query_encode_def by (rule split_on_join_with) (use False in simp_all)
  moreover have "concat (map query_pair ?ps) = kvs"
    by (induction kvs) (auto simp: query_pair_encoded)
  ultimately show ?thesis using assms by (simp add: ParseQuery_def)
qed (simp add: query_encode_def ParseQuery_empty)

section \<open>The requests of a machine and of its installer\<close>

text \<open>
  The files of the installer post the name of the provision as it is, and the boot script of iPXE sends the MAC
  address as it is. This is right: neither needs an escape.
\<close>

lemma query_escape_plain: "(\<And>c. c \<in> set s \<Longrightarrow> plain_byte c) \<Longrightarrow> query_escape s = s"
  by (induction s) (simp_all add: query_escape_def escape_byte_def)

definition report_text :: "string \<Rightarrow> string \<Rightarrow> string" where
  "report_text n t = ''provisionName='' @ n @ ''&phase='' @ t"

lemma report_text_encoded:
  assumes "\<forall>c \<in> set (n @ t). plain_byte c"
  shows "report_text n t = query_encode [(''provisionName'', n), (''phase'', t)]"
proof -
  have "query_escape n = n" "query_escape t = t" using assms by (simp_all add: query_escape_plain)
  moreover have "query_escape ''provisionName'' = ''provisionName''" "query_escape ''phase'' = ''phase''" by code_simp+
  ultimately show ?thesis by (simp add: report_text_def query_encode_def amp_def eq_sign_def)
qed

lemma valid_name_plain:
  assumes "valid_name n"
  shows "\<forall>c \<in> set n. plain_byte c"
proof -
  have "alphabet nameRegexp \<subseteq> set (lower_class @ digit_class @ ''.-'')" by (auto simp: nameRegexp_def ROpt_def)
  then have "set n \<subseteq> set (lower_class @ digit_class @ ''.-'')"
    using assms in_re_alphabet [of nameRegexp n] by (auto simp: valid_name_def matches_iff)
  moreover have "list_all plain_byte (lower_class @ digit_class @ ''.-'')" by code_simp
  ultimately show ?thesis by (auto simp: list_all_iff)
qed

end
