(* ===== verification/ProvisionStore.thy ===== *)
theory ProvisionStore
  imports ClusterServer HttpWire ProvisionPhases
begin

text \<open>
  An object store that also keeps provisions, and the way of one provision of one machine through it: the reconciler
  that starts it, the machine that asks over HTTP, and the installer that reports.
\<close>

section \<open>The contract\<close>

definition prov_at :: "'s objects \<Rightarrow> 's \<Rightarrow> prov_key \<Rightarrow> Provision option" where
  "prov_at V s k = find (\<lambda>p. prov_key p = k) (st_provisions V s)"

text \<open>The provision gets the status of the given one, under metadata that the server chooses; nothing else changes.\<close>

definition status_set :: "Provision \<Rightarrow> Provision list \<Rightarrow> Provision list \<Rightarrow> bool" where
  "status_set p = list_all2 (\<lambda>q q'. if prov_key q = prov_key p
     then prov_key q' = prov_key q \<and> pr_Spec q' = pr_Spec q \<and> pr_Status q' = pr_Status p else q' = q)"

definition provision_frame :: "'s objects \<Rightarrow> 's \<Rightarrow> 's \<Rightarrow> bool" where
  "provision_frame V s s' \<longleftrightarrow>
     st_artifact V s' = st_artifact V s \<and> st_config V s' = st_config V s \<and> st_machines V s' = st_machines V s"

definition provision_store :: "'s Client \<Rightarrow> 's objects \<Rightarrow> bool" where
  "provision_store c V \<longleftrightarrow> object_store c V
     \<and> (\<forall>s k p. prov_at V s k = Some p \<longrightarrow> (\<exists>s'. Get_Provision c (fst k) (snd k) s = (Inr p, s') \<and> same_objects V s s'))
     \<and> (\<forall>s p q. prov_at V s (prov_key p) = Some q \<and> pr_meta q = pr_meta p \<longrightarrow>
          (\<exists>x s'. Update_Provision_status c p s = (Inr x, s') \<and> provision_frame V s s'
             \<and> status_set p (st_provisions V s) (st_provisions V s')))"

lemma provision_frame_trans: "provision_frame V s s' \<Longrightarrow> provision_frame V s' s'' \<Longrightarrow> provision_frame V s s''"
  by (simp add: provision_frame_def)

lemma same_provision_frame: "same_objects V s s' \<Longrightarrow> provision_frame V s s'"
  by (simp add: same_objects_def provision_frame_def same_lists_def)

section \<open>The provision of a machine\<close>

text \<open>
  The address belongs to one machine, and of the provisions of this machine no other is pending.
\<close>

definition assigned :: "'s objects \<Rightarrow> string \<Rightarrow> Provision \<Rightarrow> 's \<Rightarrow> bool" where
  "assigned V mac p s \<longleftrightarrow> mac \<noteq> [] \<and> (\<forall>m \<in> set (st_machines V s). om_name (mach_meta m) \<noteq> [])
     \<and> (\<exists>m xs ys. machines_with (om_namespace (pr_meta p)) mac (st_machines V s) = [m]
          \<and> om_name (mach_meta m) = pr_MachineRef (pr_Spec p) \<and> st_provisions V s = xs @ p # ys
          \<and> (\<forall>q \<in> set (xs @ ys). prov_key q \<noteq> prov_key p)
          \<and> pending_of (om_namespace (pr_meta p)) (pr_MachineRef (pr_Spec p)) (xs @ ys) = [])"

lemma assigned_at: "assigned V mac p s \<Longrightarrow> prov_at V s (prov_key p) = Some p"
proof -
  have "find (\<lambda>q. prov_key q = prov_key p) (xs @ p # ys) = Some p" if "\<forall>q \<in> set xs. prov_key q \<noteq> prov_key p" for xs ys
    using that by (induction xs) auto
  moreover assume "assigned V mac p s"
  ultimately show ?thesis by (auto simp: assigned_def prov_at_def)
qed

lemma assigned_lookup:
  assumes "assigned V mac p s"
  shows "pending_for (om_namespace (pr_meta p)) mac (st_machines V s) (st_provisions V s)
    = Inr (if phase p = ProvisionPhasePending then Some p else None)"
proof -
  obtain m xs ys where a: "machines_with (om_namespace (pr_meta p)) mac (st_machines V s) = [m]"
      "om_name (mach_meta m) = pr_MachineRef (pr_Spec p)" "st_provisions V s = xs @ p # ys"
      "pending_of (om_namespace (pr_meta p)) (pr_MachineRef (pr_Spec p)) (xs @ ys) = []"
    using assms unfolding assigned_def by blast
  then have "pending_of (om_namespace (pr_meta p)) (pr_MachineRef (pr_Spec p)) (st_provisions V s)
      = (if phase p = ProvisionPhasePending then [p] else [])"
    by (simp add: pending_of_def)
  then show ?thesis using a(1,2) by (simp add: pending_for_def)
qed

lemma assigned_same: "same_lists V s s' \<Longrightarrow> assigned V mac p s' \<longleftrightarrow> assigned V mac p s"
  by (simp add: assigned_def same_lists_def)

lemma assigned_set:
  assumes "assigned V mac p s" and "provision_frame V s s'" and "status_set q (st_provisions V s) (st_provisions V s')"
    and q: "prov_key q = prov_key p"
  obtains p' where "assigned V mac p' s'" "prov_key p' = prov_key p" "pr_Spec p' = pr_Spec p" "pr_Status p' = pr_Status q"
proof -
  obtain m xs ys where a: "mac \<noteq> []" "\<forall>m \<in> set (st_machines V s). om_name (mach_meta m) \<noteq> []"
      "machines_with (om_namespace (pr_meta p)) mac (st_machines V s) = [m]"
      "om_name (mach_meta m) = pr_MachineRef (pr_Spec p)" "st_provisions V s = xs @ p # ys"
      "\<forall>x \<in> set (xs @ ys). prov_key x \<noteq> prov_key p"
      "pending_of (om_namespace (pr_meta p)) (pr_MachineRef (pr_Spec p)) (xs @ ys) = []"
    using assms(1) unfolding assigned_def by blast
  have keep: "status_set q zs zs' \<longleftrightarrow> zs' = zs" if "\<forall>x \<in> set zs. prov_key x \<noteq> prov_key p" for zs zs'
    using that q unfolding status_set_def by (induction zs arbitrary: zs') (auto simp: list_all2_Cons1)
  obtain xs' p' ys' where s': "st_provisions V s' = xs' @ p' # ys'" "status_set q xs xs'" "status_set q ys ys'"
      "prov_key p' = prov_key p" "pr_Spec p' = pr_Spec p" "pr_Status p' = pr_Status q"
    using assms(3) q unfolding a(5) status_set_def by (auto simp: list_all2_append1 list_all2_Cons1)
  have "xs' = xs" "ys' = ys" using keep s'(2,3) a(6) by simp_all
  moreover have "om_namespace (pr_meta p') = om_namespace (pr_meta p)" using s'(4) by (simp add: prov_key_def)
  ultimately have "assigned V mac p' s'"
    using a s' assms(2) unfolding assigned_def provision_frame_def by auto
  then show thesis using that s' by blast
qed

lemma store_set_status:
  assumes st: "provision_store c V" and a: "assigned V mac p s" and q: "pr_meta q = pr_meta p"
  obtains x s' p' where "Update_Provision_status c q s = (Inr x, s')" "provision_frame V s s'" "assigned V mac p' s'"
    "prov_key p' = prov_key p" "pr_Spec p' = pr_Spec p" "pr_Status p' = pr_Status q"
proof -
  have k: "prov_key q = prov_key p" using q by (simp add: prov_key_def)
  then obtain x s' where u: "Update_Provision_status c q s = (Inr x, s')" "provision_frame V s s'"
      "status_set q (st_provisions V s) (st_provisions V s')"
    using st assigned_at [OF a] q unfolding provision_store_def by metis
  show thesis by (rule assigned_set [OF a u(2,3) k]) (use that u in blast)
qed

lemma store_get_provision:
  assumes "provision_store c V" and "assigned V mac p s"
  obtains s' where "Get_Provision c (om_namespace (pr_meta p)) (om_name (pr_meta p)) s = (Inr p, s')" "same_objects V s s'"
    "assigned V mac p s'"
proof -
  obtain s' where "Get_Provision c (fst (prov_key p)) (snd (prov_key p)) s = (Inr p, s')" "same_objects V s s'"
    using assms(1) assigned_at [OF assms(2)] unfolding provision_store_def by blast
  then show thesis using that assms(2) assigned_same [of V s s' mac p] by (simp add: prov_key_def same_objects_def)
qed

section \<open>What happens to it\<close>

text \<open>The provision is in the given phase now; apart from its status the objects and the files are as they were.\<close>

definition moved_to :: "'s objects \<Rightarrow> string \<Rightarrow> Provision \<Rightarrow> ProvisionPhase \<Rightarrow> 's world \<Rightarrow> 's world \<Rightarrow> bool" where
  "moved_to V mac p ph w w' \<longleftrightarrow> provision_frame V (w_api w) (w_api w') \<and> w_fs w' = w_fs w \<and> w_sched w' = w_sched w
     \<and> (\<exists>p'. assigned V mac p' (w_api w') \<and> prov_key p' = prov_key p \<and> pr_Spec p' = pr_Spec p \<and> phase p' = ph)"

lemma Provision_starts:
  assumes st: "provision_store (pvr_Client pv) V" and a: "assigned V mac p (w_api w)" and "phase p = ProvisionPhaseUnset"
  shows "wp (Provision_Reconcile pv (om_namespace (pr_meta p)) (om_name (pr_meta p)))
     (\<lambda>x w'. x = Result 0 \<and> moved_to V mac p ProvisionPhasePending w w') w"
proof -
  obtain s1 where g: "Get_Provision (pvr_Client pv) (om_namespace (pr_meta p)) (om_name (pr_meta p)) (w_api w) = (Inr p, s1)"
      "same_objects V (w_api w) s1" "assigned V mac p s1"
    by (rule store_get_provision [OF st a])
  obtain x s2 p' where u: "Update_Provision_status (pvr_Client pv) (started p) s1 = (Inr x, s2)" "provision_frame V s1 s2"
      "assigned V mac p' s2" "prov_key p' = prov_key p" "pr_Spec p' = pr_Spec p" "pr_Status p' = pr_Status (started p)"
    by (rule store_set_status [OF st g(3), of "started p"]) (simp add: started_def)
  have "provision_frame V (w_api w) s2" by (rule provision_frame_trans [OF same_provision_frame [OF g(2)] u(2)])
  then show ?thesis using u assms(3) g(1)
    by (auto simp: Provision_Reconcile_def wp_simps api_call_def api_write_def moved_to_def started_def Let_def)
qed

lemma Report_moves:
  assumes st: "provision_store c V" and a: "assigned V mac p (w_api w)" and "validTransitions target = Some (phase p)"
  shows "wp (UpdateProvisionPhase c (om_namespace (pr_meta p)) (om_name (pr_meta p)) target message)
     (\<lambda>x w'. x = Inr () \<and> moved_to V mac p target w w') w"
proof -
  obtain s1 where g: "Get_Provision c (om_namespace (pr_meta p)) (om_name (pr_meta p)) (w_api w) = (Inr p, s1)"
      "same_objects V (w_api w) s1" "assigned V mac p s1"
    by (rule store_get_provision [OF st a])
  let ?q = "with_phase target message (w_clock w) p"
  obtain x s2 p' where u: "Update_Provision_status c ?q s1 = (Inr x, s2)" "provision_frame V s1 s2"
      "assigned V mac p' s2" "prov_key p' = prov_key p" "pr_Spec p' = pr_Spec p" "pr_Status p' = pr_Status ?q"
    by (rule store_set_status [OF st g(3), of ?q]) (simp add: with_phase_def)
  have "provision_frame V (w_api w) s2" by (rule provision_frame_trans [OF same_provision_frame [OF g(2)] u(2)])
  then show ?thesis using u assms(3) g(1)
    by (auto simp: UpdateProvisionPhase_def wp_simps api_call_def api_write_def metav1_Now_def moved_to_def with_phase_def Let_def)
qed

section \<open>Over HTTP\<close>

definition asks_boot :: "string \<Rightarrow> Request \<Rightarrow> bool" where
  "asks_boot mac q \<longleftrightarrow> rq_Path q = [''conditional-boot''] \<and> rq_Method q = ''GET'' \<and> first_value (rq_Query q) ''mac'' = mac"

definition reports :: "string \<Rightarrow> string \<Rightarrow> Request \<Rightarrow> bool" where
  "reports n t q \<longleftrightarrow> rq_Path q = [''status''] \<and> rq_Method q = ''POST''
     \<and> first_value (rq_Form q) ''provisionName'' = n \<and> first_value (rq_Form q) ''phase'' = t"

text \<open>The arguments can be rendered, whatever the data are.\<close>

definition renders :: "'t Templates \<Rightarrow> string \<Rightarrow> bool" where
  "renders tm args \<longleftrightarrow> args = [] \<or> (\<forall>x. \<exists>t. RenderKernelArgs tm args x = Inr t)"

definition rendered :: "'t Templates \<Rightarrow> string \<Rightarrow> Request \<Rightarrow> BootDirective \<Rightarrow> string \<Rightarrow> bool" where
  "rendered tm proxyPort q d args \<longleftrightarrow>
     (if bd_KernelArgs d = [] then args = [] else RenderKernelArgs tm (bd_KernelArgs d) (kernel_args_data q proxyPort d) = Inr args)"

lemma macRegexp_nonempty: "matches macRegexp mac \<Longrightarrow> mac \<noteq> []"
proof -
  have "\<not> matches macRegexp []" by code_simp
  then show "matches macRegexp mac \<Longrightarrow> mac \<noteq> []" by auto
qed

lemma serve_report:
  assumes st: "provision_store c V" and a: "assigned V mac p (w_api w)" and q: "reports (om_name (pr_meta p)) t q"
    and n: "valid_name (om_name (pr_meta p))" "om_name (pr_meta p) \<noteq> []"
    and t: "allowedPhases t = Some (ph, msg)" "validTransitions ph = Some (phase p)"
  shows "wp (serve tm c (om_namespace (pr_meta p)) proxyPort q) (\<lambda>x w'. rs_Status x = 200 \<and> moved_to V mac p ph w w') w"
  using q n t(1)
  by (simp add: serve_def reports_def updateStatusHandler_def, intro wp_step [OF Report_moves [OF st a t(2)]]) (auto simp: wp_return)

text \<open>A request for the boot script keeps the objects, and is answered according to the directive.\<close>

lemma Directive_same:
  assumes st: "object_store c V"
  shows "wp (BootDirectiveForMAC c ns mac) (\<lambda>_ w'. same_objects V (w_api w) (w_api w')) w"
proof -
  have "same_objects V s t \<Longrightarrow> same_objects V s (snd (Get_BootArtifact c m n t))"
    "same_objects V s t \<Longrightarrow> same_objects V s (snd (Get_BootConfig c m n t))" for s t m n
    using store_get_same [OF st, of t m n] by (simp_all add: same_objects_def same_lists_def)
  then have "keeps (api_inv (same_objects V (w_api w))) (BootDirectiveForMAC c ns mac)"
    unfolding BootDirectiveForMAC_def iso_directive_def netboot_directive_def
    by (intro keeps_intros api_lookup [OF st] api_api_call)
  then show ?thesis
    by (rule wp_mono [OF keepsD]) (simp_all add: api_inv_def same_objects_def same_lists_def)
qed

lemma serve_boot:
  assumes q: "asks_boot mac q" "matches macRegexp mac" and d: "wp (BootDirectiveForMAC c ns mac) R w" and st: "object_store c V"
    and none: "\<And>w'. R (Inr None) w' \<Longrightarrow> same_objects V (w_api w) (w_api w') \<Longrightarrow> Q (http_Error ''no pending provision for MAC'' 404) w'"
    and some: "\<And>d w' args. R (Inr (Some d)) w' \<Longrightarrow> same_objects V (w_api w) (w_api w') \<Longrightarrow>
      rendered tm proxyPort q d args \<Longrightarrow> Q (ok_text (boot_script (d\<lparr>bd_KernelArgs := args\<rparr>))) w'"
    and good: "\<And>x w'. R x w' \<Longrightarrow> (case x of Inl e \<Rightarrow> False | Inr None \<Rightarrow> True | Inr (Some d) \<Rightarrow> renders tm (bd_KernelArgs d))"
  shows "wp (serve tm c ns proxyPort q) Q w"
  using q macRegexp_nonempty [OF q(2)]
  unfolding serve_def asks_boot_def
proof (simp add: on_get_def conditionalBootHandler_def, rule_tac wp_step [OF wp_conj [OF d Directive_same [OF st]]], goal_cases)
  case (1 x w')
  then have R: "R x w'" and same: "same_objects V (w_api w) (w_api w')" by simp_all
  note g = good [OF R]
  show ?case
  proof (cases x)
    case (Inl e)
    then show ?thesis using g by simp
  next
    case (Inr found)
    show ?thesis
    proof (cases found)
      case None
      then show ?thesis using R same none by (simp add: Inr wp_return)
    next
      case (Some d)
      note s = some [OF R [unfolded Inr Some] same]
      show ?thesis
      proof (cases "bd_KernelArgs d = []")
        case True
        then have "d\<lparr>bd_KernelArgs := []\<rparr> = d" by simp
        with s [of "[]"] show ?thesis by (simp add: Inr Some True wp_return rendered_def)
      next
        case False
        then obtain t where "RenderKernelArgs tm (bd_KernelArgs d) (kernel_args_data q proxyPort d) = Inr t"
          using g by (auto simp: Inr Some renders_def)
        with s [of t] False show ?thesis by (simp add: Inr Some wp_return rendered_def)
      qed
    qed
  qed
qed

section \<open>The small server\<close>

lemma cluster_update_provision_ok:
  assumes "prov_at cluster_objects s (prov_key p) = Some q" and "pr_meta q = pr_meta p"
  shows "\<exists>x s'. cluster_update_provision p s = (Inr x, s') \<and> provision_frame cluster_objects s s'
     \<and> status_set p (st_provisions cluster_objects s) (st_provisions cluster_objects s')"
proof -
  have k: "keyed_by (om_namespace (pr_meta p)) (om_name (pr_meta p)) (pr_meta x) \<longleftrightarrow> prov_key x = prov_key p" for x
    by (auto simp: keyed_by_def prov_key_def)
  have g: "list_get pr_meta (om_namespace (pr_meta p)) (om_name (pr_meta p)) (cl_provisions s) = Some q"
    using assms(1) by (simp add: prov_at_def list_get_def k cluster_objects_def)
  let ?q = "\<lambda>x. x\<lparr>pr_Status := pr_Status p, pr_meta := bump (pr_meta x)\<rparr>"
  have u: "cluster_update_provision p s = (Inr (?q q), s\<lparr>cl_provisions :=
      map (\<lambda>x. if prov_key x = prov_key p then ?q x else x) (cl_provisions s)\<rparr>)"
    using g assms(2) by (simp add: cluster_update_provision_def k)
  have "prov_key (?q x) = prov_key x" for x by (simp add: prov_key_def)
  then have "status_set p xs (map (\<lambda>x. if prov_key x = prov_key p then ?q x else x) xs)" for xs
    by (induction xs) (simp_all add: status_set_def)
  with u show ?thesis by (auto simp: provision_frame_def cluster_objects_def)
qed

lemma cluster_provision_store: "provision_store cluster_client cluster_objects"
  unfolding provision_store_def
proof (intro conjI allI impI, goal_cases)
  case (2 s k p)
  then have "list_get pr_meta (fst k) (snd k) (cl_provisions s) = Some p"
    by (cases k) (simp add: prov_at_def list_get_def keyed_by_def prov_key_def cluster_objects_def)
  then show ?case by (auto simp: cluster_client_def same_objects_def same_lists_def)
next
  case (3 s p q)
  then show ?case using cluster_update_provision_ok [of s p q] by (simp add: cluster_client_def)
qed (rule cluster_store)

end
