(* ===== verification/Installation.thy ===== *)
theory Installation
  imports EndToEndIso ProvisionStore
begin

text \<open>
  The life of one installation, from the objects somebody created to the last report: all three reconcilers run, the
  machine asks for its boot script, the installer reports, and the machine is never sent into a second
  installation.
\<close>

section \<open>Steps of an installation\<close>

definition in_phase :: "'s objects \<Rightarrow> string \<Rightarrow> Provision \<Rightarrow> ProvisionPhase \<Rightarrow> 's \<Rightarrow> bool" where
  "in_phase V mac p ph s \<longleftrightarrow> (\<exists>p'. assigned V mac p' s \<and> prov_key p' = prov_key p \<and> pr_Spec p' = pr_Spec p \<and> phase p' = ph)"

lemma in_phaseE:
  assumes "in_phase V mac p ph s"
  obtains p' where "assigned V mac p' s" "pr_Spec p' = pr_Spec p" "phase p' = ph" "om_namespace (pr_meta p') = om_namespace (pr_meta p)"
    "om_name (pr_meta p') = om_name (pr_meta p)" "prov_key p' = prov_key p"
  using assms unfolding in_phase_def by (auto simp: prov_key_def)

lemma in_phase_same: "in_phase V mac p ph s \<Longrightarrow> same_objects V s s' \<Longrightarrow> in_phase V mac p ph s'"
  using assigned_same [of V s s' mac] by (simp add: in_phase_def same_objects_def)

lemma in_phase_lists: "in_phase V mac p ph s \<Longrightarrow> same_lists V s s' \<Longrightarrow> in_phase V mac p ph s'"
  using assigned_same [of V s s' mac] by (simp add: in_phase_def)

lemma in_phase_waits:
  assumes "in_phase V mac p ProvisionPhasePending s"
  obtains p' where "machine_waits V (om_namespace (pr_meta p)) mac p' s" "pr_Spec p' = pr_Spec p" "om_name (pr_meta p') = om_name (pr_meta p)"
proof (rule in_phaseE [OF assms])
  fix p' assume p': "assigned V mac p' s" "pr_Spec p' = pr_Spec p" "phase p' = ProvisionPhasePending"
    "om_namespace (pr_meta p') = om_namespace (pr_meta p)" "om_name (pr_meta p') = om_name (pr_meta p)"
  then have "machine_waits V (om_namespace (pr_meta p)) mac p' s"
    using assigned_lookup [OF p'(1)] unfolding machine_waits_def assigned_def by simp
  then show thesis using that p' by blast
qed

lemma report_step:
  assumes st: "provision_store c V" and i: "in_phase V mac p ph0 (w_api w)" and q: "reports (om_name (pr_meta p)) t q"
    and n: "valid_name (om_name (pr_meta p))" "om_name (pr_meta p) \<noteq> []"
    and t: "allowedPhases t = Some (ph, msg)" "validTransitions ph = Some ph0"
  shows "wp (serve tm c (om_namespace (pr_meta p)) port q) (\<lambda>x w'. rs_Status x = 200 \<and> in_phase V mac p ph (w_api w') \<and> w_fs w' = w_fs w) w"
proof (rule in_phaseE [OF i])
  fix p' assume p': "assigned V mac p' (w_api w)" "pr_Spec p' = pr_Spec p" "phase p' = ph0"
    "om_namespace (pr_meta p') = om_namespace (pr_meta p)" "om_name (pr_meta p') = om_name (pr_meta p)" "prov_key p' = prov_key p"
  have "wp (serve tm c (om_namespace (pr_meta p')) port q) (\<lambda>x w'. rs_Status x = 200 \<and> moved_to V mac p' ph w w') w"
    by (rule serve_report [OF st p'(1)]) (use q n t p' in simp_all)
  then show ?thesis
    unfolding p'(4) by (rule wp_mono) (use p' in \<open>auto simp: moved_to_def in_phase_def\<close>)
qed

lemma idle_step:
  assumes st: "object_store c V" and i: "in_phase V mac p ph (w_api w)" "ph \<noteq> ProvisionPhasePending"
    and q: "asks_boot mac q" "matches macRegexp mac"
  shows "wp (serve tm c (om_namespace (pr_meta p)) port q) (\<lambda>x w'. rs_Status x = 404 \<and> in_phase V mac p ph (w_api w') \<and> w_fs w' = w_fs w) w"
proof (rule in_phaseE [OF i(1)])
  fix p' assume p': "assigned V mac p' (w_api w)" "phase p' = ph" "om_namespace (pr_meta p') = om_namespace (pr_meta p)"
  have l: "lists_by_index c (st_machines V) (st_provisions V)" using st by (simp add: object_store_def)
  have a: "mac \<noteq> []" "\<forall>m \<in> set (st_machines V (w_api w)). om_name (mach_meta m) \<noteq> []" using p'(1) unfolding assigned_def by blast+
  have "wp (BootDirectiveForMAC c (om_namespace (pr_meta p)) mac) (\<lambda>_. untouched w) w"
    by (rule keepsD [OF BootDirectiveForMAC_untouched]) simp
  from wp_conj [OF BootDirectiveForMAC_wp [OF l a] this]
  have d: "wp (BootDirectiveForMAC c (om_namespace (pr_meta p)) mac) (\<lambda>x w'. x = Inr None \<and> w_fs w' = w_fs w) w"
    by (rule wp_mono) (use assigned_lookup [OF p'(1)] p' i(2) in \<open>simp_all add: untouched_def\<close>)
  show ?thesis
    by (rule serve_boot [OF q d st]) (use in_phase_same [OF i(1)] in \<open>auto simp: http_Error_def\<close>)
qed

lemma script_step:
  assumes st: "object_store c V" and i: "in_phase V mac p ProvisionPhasePending (w_api w)"
    and b: "boots V (om_namespace (pr_meta p)) (pr_BootConfigRef (pr_Spec p)) good w" and g: "\<And>d. good d \<Longrightarrow> renders tm (bd_KernelArgs d)"
    and q: "asks_boot mac q" "matches macRegexp mac"
  shows "wp (serve tm c (om_namespace (pr_meta p)) port q) (\<lambda>x w'. (\<exists>d args. x = ok_text (boot_script (d\<lparr>bd_KernelArgs := args\<rparr>))
      \<and> bd_ProvisionName d = om_name (pr_meta p) \<and> rendered tm port q d args \<and> good d)
    \<and> in_phase V mac p ProvisionPhasePending (w_api w') \<and> w_fs w' = w_fs w) w"
proof (rule in_phase_waits [OF i])
  fix p' assume p': "machine_waits V (om_namespace (pr_meta p)) mac p' (w_api w)" "pr_Spec p' = pr_Spec p" "om_name (pr_meta p') = om_name (pr_meta p)"
  have d: "wp (BootDirectiveForMAC c (om_namespace (pr_meta p)) mac)
      (\<lambda>x w'. (\<exists>d. x = Inr (Some d) \<and> bd_ProvisionName d = om_name (pr_meta p') \<and> good d) \<and> w_fs w' = w_fs w) w"
    by (rule bootsD [OF b st p'(1)]) (simp add: p'(2))
  show ?thesis
    by (rule serve_boot [OF q d st]) (use in_phase_same [OF i] p'(3) g in auto)
qed

section \<open>The whole installation\<close>

text \<open>The controllers prepare, the machine asks, and asks again after each of the two reports.\<close>

definition installation ::
  "'s ProvisionReconciler \<Rightarrow> ('s, 'a) io \<Rightarrow> (Request \<Rightarrow> ('s, Response) io) \<Rightarrow> string \<Rightarrow> string \<Rightarrow> Request \<Rightarrow> Request \<Rightarrow> Request
   \<Rightarrow> ('s, Response list) io" where
  "installation pv prepare server ns n ask begun finished = do {
     _ \<leftarrow> Provision_Reconcile pv ns n;
     _ \<leftarrow> prepare;
     script \<leftarrow> server ask;
     r1 \<leftarrow> server begun;
     r2 \<leftarrow> server ask;
     r3 \<leftarrow> server finished;
     r4 \<leftarrow> server ask;
     State_Monad.return [script, r1, r2, r3, r4]
   }"

text \<open>How it goes: the script of a good directive, then nothing more to boot, and in the end the phase Complete.\<close>

definition installed ::
  "'t Templates \<Rightarrow> 's objects \<Rightarrow> string \<Rightarrow> Provision \<Rightarrow> string \<Rightarrow> Request \<Rightarrow> (fsys \<Rightarrow> BootDirective \<Rightarrow> bool) \<Rightarrow> Response list \<Rightarrow> 's world \<Rightarrow> bool" where
  "installed tm V mac p port ask good rs w \<longleftrightarrow>
     (\<exists>d args. hd rs = ok_text (boot_script (d\<lparr>bd_KernelArgs := args\<rparr>)) \<and> bd_ProvisionName d = om_name (pr_meta p)
        \<and> rendered tm port ask d args \<and> good (w_fs w) d)
     \<and> map rs_Status rs = [200, 200, 404, 200, 404] \<and> in_phase V mac p ProvisionPhaseComplete (w_api w)"

lemma reports_done:
  assumes st: "provision_store c V" and i: "in_phase V mac p ProvisionPhasePending (w_api w)"
    and n: "valid_name (om_name (pr_meta p))" "om_name (pr_meta p) \<noteq> []"
    and q: "asks_boot mac ask" "matches macRegexp mac" "reports (om_name (pr_meta p)) ''InProgress'' begun"
      "reports (om_name (pr_meta p)) ''Complete'' finished"
  shows "wp (serve tm c (om_namespace (pr_meta p)) port begun) (\<lambda>r1. wp (serve tm c (om_namespace (pr_meta p)) port ask) (\<lambda>r2.
      wp (serve tm c (om_namespace (pr_meta p)) port finished) (\<lambda>r3. wp (serve tm c (om_namespace (pr_meta p)) port ask) (\<lambda>r4 w'.
        map rs_Status [r1, r2, r3, r4] = [200, 404, 200, 404] \<and> in_phase V mac p ProvisionPhaseComplete (w_api w') \<and> w_fs w' = w_fs w)))) w"
proof -
  have os: "object_store c V" using st by (simp add: provision_store_def)
  have t: "allowedPhases ''InProgress'' = Some (ProvisionPhaseInProgress, ''Installation in progress'')"
    "validTransitions ProvisionPhaseInProgress = Some ProvisionPhasePending"
    "allowedPhases ''Complete'' = Some (ProvisionPhaseComplete, ''Installation complete'')"
    "validTransitions ProvisionPhaseComplete = Some ProvisionPhaseInProgress"
    by (simp_all add: allowedPhases_def validTransitions_def)
  show ?thesis
  proof (rule wp_mono [OF report_step [OF st i q(3) n t(1,2)]], elim conjE, goal_cases)
    case (1 r1 w1)
    note w1 = 1
    show ?case
    proof (rule wp_mono [OF idle_step [OF os 1(2) _ q(1,2)]], simp, elim conjE, goal_cases)
      case (1 r2 w2)
      note w2 = 1
      show ?case
      proof (rule wp_mono [OF report_step [OF st 1(2) q(4) n t(3,4)]], elim conjE, goal_cases)
        case (1 r3 w3)
        show ?case
          by (rule wp_mono [OF idle_step [OF os 1(2) _ q(1,2)]]) (use 1 w1 w2 in auto)
      qed
    qed
  qed
qed

lemma installation_done:
  assumes st: "provision_store c V" "provision_store (pvr_Client pv) V"
    and p: "assigned V mac p (w_api w)" "phase p = ProvisionPhaseUnset" and n: "valid_name (om_name (pr_meta p))" "om_name (pr_meta p) \<noteq> []"
    and prep: "\<And>w1. provision_frame V (w_api w) (w_api w1) \<Longrightarrow> w_fs w1 = w_fs w \<Longrightarrow> w_sched w1 = w_sched w \<Longrightarrow>
      wp prepare (\<lambda>_ w2. same_lists V (w_api w1) (w_api w2)
        \<and> boots V (om_namespace (pr_meta p)) (pr_BootConfigRef (pr_Spec p)) (good (w_fs w2)) w2) w1"
    and g: "\<And>fs d. good fs d \<Longrightarrow> renders tm (bd_KernelArgs d)"
    and q: "asks_boot mac ask" "matches macRegexp mac" "reports (om_name (pr_meta p)) ''InProgress'' begun"
      "reports (om_name (pr_meta p)) ''Complete'' finished"
  shows "wp (installation pv prepare (serve tm c (om_namespace (pr_meta p)) port) (om_namespace (pr_meta p)) (om_name (pr_meta p)) ask begun finished)
    (installed tm V mac p port ask good) w"
  unfolding installation_def
proof (rule wp_step [OF Provision_starts [OF st(2) p(1,2)]], goal_cases)
  case (1 x w1)
  then have w1: "provision_frame V (w_api w) (w_api w1)" "w_fs w1 = w_fs w" "w_sched w1 = w_sched w"
      "in_phase V mac p ProvisionPhasePending (w_api w1)"
    by (simp_all add: moved_to_def in_phase_def)
  have os: "object_store c V" using st(1) by (simp add: provision_store_def)
  show ?case
  proof (rule wp_step [OF prep [OF w1(1-3)]], goal_cases)
    case (1 y w2)
    then have b: "boots V (om_namespace (pr_meta p)) (pr_BootConfigRef (pr_Spec p)) (good (w_fs w2)) w2"
      and i: "in_phase V mac p ProvisionPhasePending (w_api w2)" using in_phase_lists [OF w1(4)] by blast+
    show ?case
    proof (rule wp_step [OF script_step [OF os i b g q(1,2)]], assumption, goal_cases)
      case (1 script w3)
      then have "in_phase V mac p ProvisionPhasePending (w_api w3)" by blast
      note r = reports_done [OF st(1) this n q]
      from 1 show ?case
        unfolding wp_bind wp_return
        by (rule_tac wp_mono [OF r], erule_tac wp_mono, erule_tac wp_mono, erule_tac wp_mono) (auto simp: installed_def ok_text_def)
    qed
  qed
qed

text \<open>
  C1. A machine is installed once. Start with objects that somebody has just created: artifacts whose mirrors send bodies with the
  declared digests, a netboot config of them, a machine, and a provision without a phase; no other provision of the
  machine is pending. When no call fails, the reconcilers of the provision, the artifacts and the config run, and the
  machine that asks for its boot script gets the script with the rendered arguments of the config, whose paths
  serve exactly the bytes of the kernel and of the initrd with the firmware. The installer's report
  \<^verbatim>\<open>InProgress\<close> is accepted, and from then on the machine gets no script any more; the report
  \<^verbatim>\<open>Complete\<close> is accepted, and it still gets none. In the end the provision is Complete.
\<close>

theorem machine_installed_once:
  assumes st: "provision_store c V" "provision_store (pvr_Client pv) V" "object_store (bcr_Client r) V" and w: "wired ra r"
    and n: "os_names (boot_comps r cn)" "valid_name pn"
    and ord: "netboot_order V ns cn bc jk ji jf js (w_api w)" and mir: "\<forall>j \<in> set js. good_mirror ra j"
    and p: "assigned V mac p (w_api w)" "phase p = ProvisionPhaseUnset" "prov_key p = (ns, pn)" "pr_BootConfigRef (pr_Spec p) = cn"
    and disk: "calm w" "boot_free r cn (w_fs w)" "\<forall>j \<in> set js. slot_free r j (w_fs w)"
    and tm: "renders tm (bc_KernelArgs (bc_Spec bc))"
    and q: "asks_boot mac ask" "matches macRegexp mac" "reports pn ''InProgress'' begun" "reports pn ''Complete'' finished"
    and run: "run_state (installation pv (do { _ \<leftarrow> fetch_all ra ns (map dl_name js); BootConfig_Reconcile r ns cn })
       (serve tm c ns port) ns pn ask begun finished) w = (out, w')"
  shows "(\<exists>d args. hd out = ok_text (boot_script (d\<lparr>bd_KernelArgs := args\<rparr>)) \<and> bd_ProvisionName d = pn
       \<and> rendered tm port ask d args \<and> bd_KernelArgs d = bc_KernelArgs (bc_Spec bc)
       \<and> read_file (static_file r (bd_KernelPath d)) (w_fs w') = Some (dl_body jk)
       \<and> read_file (static_file r (bd_InitrdPath d)) (w_fs w') = Some (initrd_body ji jf))
     \<and> map rs_Status out = [200, 200, 404, 200, 404]
     \<and> map_option phase (prov_at V (w_api w') (ns, pn)) = Some ProvisionPhaseComplete"
proof -
  have k: "om_namespace (pr_meta p) = ns" "om_name (pr_meta p) = pn" using p(3) by (simp_all add: prov_key_def)
  have ne: "pn \<noteq> []" using n(2) valid_name_nonempty by auto
  let ?good = "netboot_good r bc (dl_body jk) (initrd_body ji jf)"
  have "wp (do { _ \<leftarrow> fetch_all ra ns (map dl_name js); BootConfig_Reconcile r ns cn })
      (\<lambda>_ w2. same_lists V (w_api w1) (w_api w2) \<and> boots V ns cn (?good (w_fs w2)) w2) w1"
    if "provision_frame V (w_api w) (w_api w1)" "w_fs w1 = w_fs w" "w_sched w1 = w_sched w" for w1
    unfolding wp_bind
    by (rule netboot_prepared [OF st(3) w n(1) _ mir])
      (use that ord disk in \<open>simp_all add: provision_frame_def netboot_order_def listed_def calm_def\<close>)
  moreover have "renders tm (bd_KernelArgs d)" if "?good fs d" for fs d using that tm by (simp add: netboot_good_def)
  ultimately have "wp (installation pv (do { _ \<leftarrow> fetch_all ra ns (map dl_name js); BootConfig_Reconcile r ns cn })
      (serve tm c ns port) ns pn ask begun finished) (installed tm V mac p port ask ?good) w"
    by (intro installation_done [where good = ?good, OF st(1,2) p(1,2), unfolded k p(4), OF n(2) ne _ _ q])
  from wpD [OF this run] have i: "installed tm V mac p port ask ?good out w'" .
  then obtain p' where "assigned V mac p' (w_api w')" "prov_key p' = (ns, pn)" "phase p' = ProvisionPhaseComplete"
    using p(3) unfolding installed_def in_phase_def by auto
  with assigned_at [of V mac p' "w_api w'"] i k(2) show ?thesis
    by (auto simp: installed_def netboot_good_def)
qed

section \<open>The requests on the wire\<close>

lemma allowedPhases_plain:
  assumes "allowedPhases t = Some x"
  shows "t \<noteq> []" and "\<forall>c \<in> set t. plain_byte c"
proof -
  have "list_all plain_byte ''InProgress''" "list_all plain_byte ''Complete''" by code_simp+
  then show "t \<noteq> []" "\<forall>c \<in> set t. plain_byte c"
    using assms by (auto simp: allowedPhases_def list_all_iff split: if_splits)
qed

lemma two_params: "length [x, y] \<le> maxParams"
  by (simp add: maxParams_def)


text \<open>The boot script of iPXE asks with the MAC address as it is.\<close>

lemma macRegexp_plain:
  assumes "matches macRegexp mac"
  shows "\<forall>c \<in> set mac. plain_byte c"
proof -
  have "alphabet (RRep k r) \<subseteq> alphabet r" for k r by (induction k) (auto simp: RRep_0 RRep_Suc)
  from this [of 5 "RSeq (RRep 2 (RCls hex_class)) (RCls ''-'')"] this [of 2 "RCls hex_class"]
  have "alphabet macRegexp \<subseteq> set (CHR ''-'' # hex_class)" by (auto simp: macRegexp_def)
  then have "set mac \<subseteq> set (CHR ''-'' # hex_class)" using in_re_alphabet [of macRegexp mac] assms by (auto simp: matches_iff)
  moreover have "list_all plain_byte (CHR ''-'' # hex_class)" by code_simp
  ultimately show ?thesis by (auto simp: list_all_iff)
qed

lemma boot_asked:
  assumes "wr_Path q = [''conditional-boot'']" and "wr_Method q = ''GET''" and "wr_RawQuery q = ''mac='' @ mac" and "matches macRegexp mac"
  shows "asks_boot mac (decode_request q)"
proof -
  have "query_escape ''mac'' = ''mac''" by code_simp
  then have "''mac='' @ mac = query_encode [(''mac'', mac)]"
    using query_escape_plain [of mac] macRegexp_plain [OF assms(4)] by (simp add: query_encode_def eq_sign_def)
  moreover have "length [x] \<le> maxParams" for x :: "string \<times> string" by (simp add: maxParams_def)
  ultimately have "ParseQuery (wr_RawQuery q) = [(''mac'', mac)]" using assms(3) ParseQuery_encode by simp
  then show ?thesis using assms(1,2) by (simp add: asks_boot_def decode_request_def first_value_def)
qed

section \<open>In the small cluster\<close>

definition new_prov :: Provision where
  "new_prov = (web_prov [] [])\<lparr>pr_Status := (pr_Status (web_prov [] []))\<lparr>pr_Phase := ProvisionPhaseUnset\<rparr>\<rparr>"

definition new_world :: "cluster world" where
  "new_world = (e2e_world e2e_jobs e2e_config)\<lparr>w_api := (e2e_cluster e2e_jobs e2e_config)\<lparr>cl_provisions := [new_prov]\<rparr>\<rparr>"

definition wire_request :: "string \<Rightarrow> string \<Rightarrow> string \<Rightarrow> string \<Rightarrow> Wire" where
  "wire_request meth path query body =
     \<lparr>wr_Method = meth, wr_Path = [path], wr_RawQuery = query, wr_MediaType = ''application/x-www-form-urlencoded'',
      wr_Body = body, wr_Fields = [], wr_Header = [], wr_Host = ''10.0.0.1:8080''\<rparr>"

definition boot_request :: Request where
  "boot_request = decode_request (wire_request ''GET'' ''conditional-boot'' (''mac='' @ web_mac) [])"

definition report_wire :: "string \<Rightarrow> Wire" where
  "report_wire t = wire_request ''POST'' ''status'' [] (report_text ''install'' t)"

definition report_request :: "string \<Rightarrow> Request" where
  "report_request t = decode_request (report_wire t)"

lemma new_requests: "asks_boot web_mac boot_request" "t \<in> {''InProgress'', ''Complete''} \<Longrightarrow> reports ''install'' t (report_request t)"
proof -
  show "asks_boot web_mac boot_request"
    unfolding boot_request_def by (rule boot_asked) (simp_all add: wire_request_def web_run_mac(1))
  have "map_of (ParseQuery (report_text ''install'' u)) ''provisionName'' = Some ''install''
      \<and> map_of (ParseQuery (report_text ''install'' u)) ''phase'' = Some u" if "u \<in> {''InProgress'', ''Complete''}" for u
  proof -
    have "valid_name ''install''" by code_simp
    then have "report_text ''install'' u = query_encode [(''provisionName'', ''install''), (''phase'', u)]"
      using that valid_name_plain [of "''install''"] allowedPhases_plain(2) [of u]
      by (intro report_text_encoded) (auto simp: allowedPhases_def)
    then show ?thesis by (simp add: ParseQuery_encode [OF two_params])
  qed
  moreover have "length (report_text ''install'' u) \<le> maxFormSize" if "u \<in> {''InProgress'', ''Complete''}" for u
    using that by (auto simp: report_text_def maxFormSize_def)
  ultimately show "reports ''install'' t (report_request t)" if "t \<in> {''InProgress'', ''Complete''}"
    using that by (simp add: reports_def report_request_def report_wire_def decode_request_def wire_request_def wire_form_def
        post_form_def first_value_def)
qed


lemma new_assigned: "assigned cluster_objects web_mac new_prov (w_api new_world)"
proof -
  have "machines_with ''default'' web_mac [web_machine ''node'' web_mac] = [web_machine ''node'' web_mac]" by code_simp
  moreover have "cl_provisions (w_api new_world) = [] @ new_prov # []" by (simp add: new_world_def)
  ultimately show ?thesis
    using web_run_mac(2) unfolding assigned_def
    by (intro conjI exI [of _ "web_machine ''node'' web_mac"] exI [of _ "[]"])
      (simp_all add: new_world_def e2e_cluster_def cluster_objects_def new_prov_def web_prov_def mem_prov_def web_machine_def pending_of_def)
qed

theorem machine_installed_once_witness:
  "\<exists>out w'. run_state (installation \<lparr>pvr_Client = cluster_client\<rparr>
       (do { _ \<leftarrow> fetch_all (e2e_artifacts e2e_jobs) ''default'' (map dl_name e2e_jobs); BootConfig_Reconcile e2e_configs ''default'' ''noble'' })
       (serve web_templates cluster_client ''default'' []) ''default'' ''install'' boot_request (report_request ''InProgress'')
       (report_request ''Complete'')) new_world = (out, w')
     \<and> map rs_Status out = [200, 200, 404, 200, 404]
     \<and> map_option phase (prov_at cluster_objects (w_api w') (''default'', ''install'')) = Some ProvisionPhaseComplete"
proof -
  let ?run = "installation \<lparr>pvr_Client = cluster_client\<rparr>
       (do { _ \<leftarrow> fetch_all (e2e_artifacts e2e_jobs) ''default'' (map dl_name e2e_jobs); BootConfig_Reconcile e2e_configs ''default'' ''noble'' })
       (serve web_templates cluster_client ''default'' []) ''default'' ''install'' boot_request (report_request ''InProgress'')
       (report_request ''Complete'')"
  obtain out w' where run: "run_state ?run new_world = (out, w')" by force
  have n: "os_names (boot_comps e2e_configs ''noble'')" "valid_name ''install''"
    unfolding boot_comps_def e2e_comps by (rule os_names_list, code_simp) code_simp
  have st: "provision_store (pvr_Client \<lparr>pvr_Client = cluster_client\<rparr>) cluster_objects" "object_store (bcr_Client e2e_configs) cluster_objects"
    by (simp_all add: cluster_provision_store e2e_configs_def cluster_store)
  have ord: "netboot_order cluster_objects ''default'' ''noble'' e2e_config e2e_kernel e2e_initrd (Some e2e_firmware) e2e_jobs (w_api new_world)"
    using e2e_order by (simp add: new_world_def netboot_order_def listed_def cluster_objects_def)
  have p: "phase new_prov = ProvisionPhaseUnset" "prov_key new_prov = (''default'', ''install'')" "pr_BootConfigRef (pr_Spec new_prov) = ''noble''"
    by (simp_all add: new_prov_def web_prov_def mem_prov_def prov_key_def)
  have d: "calm new_world" "boot_free e2e_configs ''noble'' (w_fs new_world)" "\<forall>j \<in> set e2e_jobs. slot_free e2e_configs j (w_fs new_world)"
    using e2e_disk by (simp_all add: new_world_def e2e_world_def calm_def)
  have tm: "renders web_templates (bc_KernelArgs (bc_Spec e2e_config))"
    by (simp add: renders_def RenderKernelArgs_def web_templates_def)
  from machine_installed_once [OF cluster_provision_store st e2e_wired n ord e2e_mirror new_assigned p d tm new_requests(1) web_run_mac(1)
      new_requests(2) [of "''InProgress''", simplified] new_requests(2) [of "''Complete''", simplified] run]
  show ?thesis by (intro exI [of _ out] exI [of _ w'] conjI run) (elim conjE, assumption)+
qed

end
