(* ===== verification/GoHeap.thy ===== *)
theory GoHeap
  imports Prelude "HOL-Library.Monad_Syntax" "HOL-Library.AList" "HOL-Library.Multiset"
begin

text \<open>
  Memory as Go's pointers, slices and maps see it: a heap is the list of its cells, an address a position in
  it, and allocation appends a cell. \<open>None\<close> is a fault, the use of a dangling address, which Go's types exclude. The
  locale \<open>deep_copier\<close> states what a deep copy promises, and the lemmas below it build the copy of a
  pointer, a slice, a map or a struct from the copies of its parts.
\<close>

section \<open>Cells\<close>

type_synonym 'c heap = "'c list"

definition alloc :: "'c \<Rightarrow> 'c heap \<Rightarrow> nat \<times> 'c heap" where
  "alloc c h = (length h, h @ [c])"

text \<open>A cell is read at the type of the pointer.\<close>

definition load :: "('c \<Rightarrow> 'a option) \<Rightarrow> 'c heap \<Rightarrow> nat \<Rightarrow> 'a option" where
  "load get h a = (if a < length h then get (h ! a) else None)"

definition store :: "nat \<Rightarrow> 'c \<Rightarrow> 'c heap \<Rightarrow> 'c heap" where
  "store a c h = h[a := c]"

text \<open>The cells at some addresses are what they were.\<close>

definition same_cells :: "nat set \<Rightarrow> 'c heap \<Rightarrow> 'c heap \<Rightarrow> bool" where
  "same_cells A h h' \<longleftrightarrow> (\<forall>a \<in> A. a < length h' \<and> h' ! a = h ! a)"

lemma same_cells_Un [simp]: "same_cells (A \<union> B) h h' \<longleftrightarrow> same_cells A h h' \<and> same_cells B h h'"
  by (auto simp: same_cells_def)

lemma same_cells_UN [simp]: "same_cells (\<Union>(f ` A)) h h' \<longleftrightarrow> (\<forall>x \<in> A. same_cells (f x) h h')"
  by (auto simp: same_cells_def)

lemma same_cells_empty [simp]: "same_cells {} h h'"
  by (simp add: same_cells_def)

lemma same_cells_append: "A \<subseteq> {..<length h} \<Longrightarrow> same_cells A h (h @ t)"
  by (auto simp: same_cells_def nth_append)

lemma same_cells_store: "A \<subseteq> {..<length h} \<Longrightarrow> a \<notin> A \<Longrightarrow> same_cells A h (store a c h)"
  unfolding same_cells_def store_def by (metis length_list_update lessThan_iff nth_list_update_neq subsetD)

lemma load_same: "load get h a = Some x \<Longrightarrow> same_cells (insert a A) h h' \<Longrightarrow> load get h' a = Some x"
  by (auto simp: load_def same_cells_def split: if_splits)

lemma load_bound: "load get h a = Some x \<Longrightarrow> a < length h"
  by (simp add: load_def split: if_splits)

lemma load_append [simp]: "load get (h @ c # t) (length h) = get c"
  by (simp add: load_def)

lemma load_old: "load get h a = Some x \<Longrightarrow> load get (h @ t) a = Some x"
  by (simp add: load_def nth_append split: if_splits)

lemma store_append [simp]: "store (length h) c' (h @ c # t) = h @ c' # t"
  by (simp add: store_def list_update_append)

section \<open>The contract of a deep copy\<close>

text \<open>
  \<open>copy x h\<close> is the copy of \<open>x\<close> and the heap after it, \<open>view h x\<close> the value that \<open>x\<close> stands for, \<open>None\<close> when it leads to a dangling
  address, and \<open>reach h x\<close> the addresses it leads to. A copy adds cells and changes none; it stands for
  the same value, and leads to new cells only.
\<close>

locale deep_copier =
  fixes copy :: "'a \<Rightarrow> 'c heap \<Rightarrow> ('a \<times> 'c heap) option"
    and view :: "'c heap \<Rightarrow> 'a \<Rightarrow> 'v option"
    and reach :: "'c heap \<Rightarrow> 'a \<Rightarrow> nat set"
  assumes copies: "view h x = Some v \<Longrightarrow>
      \<exists>y t. copy x h = Some (y, h @ t) \<and> view (h @ t) y = Some v \<and> reach (h @ t) y \<subseteq> {length h..<length (h @ t)}"
    and view_same: "view h x = Some v \<Longrightarrow> same_cells (reach h x) h h' \<Longrightarrow> view h' x = Some v"
    and reach_same: "view h x = Some v \<Longrightarrow> same_cells (reach h x) h h' \<Longrightarrow> reach h' x = reach h x"
    and reach_dom: "view h x = Some v \<Longrightarrow> reach h x \<subseteq> {..<length h}"
begin

lemma view_append: "view h x = Some v \<Longrightarrow> view (h @ t) x = Some v"
  using view_same same_cells_append [OF reach_dom] by blast

lemma reach_append: "view h x = Some v \<Longrightarrow> reach (h @ t) x = reach h x"
  using reach_same same_cells_append [OF reach_dom] by blast

lemma copyE:
  assumes "view h x = Some v" and "copy x h = Some (y, h')"
  obtains t where "h' = h @ t" "view h' y = Some v" "reach h' y \<subseteq> {length h..<length h'}"
  using copies [OF assms(1)] assms(2) by auto

text \<open>A copy and its original share no cell.\<close>

lemma copy_apart:
  assumes "view h x = Some v" and "copy x h = Some (y, h')"
  shows "reach h' x \<inter> reach h' y = {}"
proof -
  obtain t where t: "h' = h @ t" "reach h' y \<subseteq> {length h..<length h'}" using copyE [OF assms] by metis
  then have "reach h' x \<subseteq> {..<length h}" using reach_append [OF assms(1)] reach_dom [OF assms(1)] by metis
  then show ?thesis using t(2) by fastforce
qed

text \<open>So whatever is done to the cells of one of them, the other one keeps its value.\<close>

lemma original_kept:
  assumes "view h x = Some v" and "copy x h = Some (y, h')" and "same_cells (- reach h' y \<inter> {..<length h'}) h' h''"
  shows "view h'' x = Some v"
proof -
  obtain t where t: "h' = h @ t" using copyE [OF assms(1,2)] by metis
  have x: "view h' x = Some v" unfolding t by (rule view_append [OF assms(1)])
  have "same_cells (reach h' x) h' h''"
    using copy_apart [OF assms(1,2)] reach_dom [OF x] assms(3) by (auto simp: same_cells_def)
  then show ?thesis by (rule view_same [OF x])
qed

lemma copy_kept:
  assumes "view h x = Some v" and "copy x h = Some (y, h')" and "same_cells (reach h' y) h' h''"
  shows "view h'' y = Some v"
  using copyE [OF assms(1,2)] view_same assms(3) by metis

end

text \<open>The obligations of the contract for one value.\<close>

definition copied where
  "copied copy view reach h x v \<longleftrightarrow>
     (\<exists>y t. copy x h = Some (y, h @ t) \<and> view (h @ t) y = Some v \<and> reach (h @ t) y \<subseteq> {length h..<length (h @ t)})"

definition settled where
  "settled view reach h x v \<longleftrightarrow> reach h x \<subseteq> {..<length h}
     \<and> (\<forall>h'. same_cells (reach h x) h h' \<longrightarrow> view h' x = Some v \<and> reach h' x = reach h x)"

lemma deep_copierI:
  assumes "\<And>h x v. view h x = Some v \<Longrightarrow> copied copy view reach h x v \<and> settled view reach h x v"
  shows "deep_copier copy view reach"
  by unfold_locales (use assms in \<open>unfold copied_def settled_def, blast+\<close>)

section \<open>Plain values and structs\<close>

lemma plain_copier: "deep_copier (\<lambda>x h. Some (x, h)) (\<lambda>h x. Some (f x)) (\<lambda>h x. {})"
  by unfold_locales auto

text \<open>A struct with two fields that are copied deeply; \<open>mk\<close> puts their values to what the rest of the struct says.\<close>

lemma struct2_copier:
  assumes A: "deep_copier c1 v1 r1" and B: "deep_copier c2 v2 r2"
    and copy: "\<And>x h. copy x h = do { (p, h) \<leftarrow> c1 (f x) h; (q, h) \<leftarrow> c2 (g x) h; Some (u x p q, h) }"
    and view: "\<And>h x. view h x = do { a \<leftarrow> v1 h (f x); b \<leftarrow> v2 h (g x); Some (mk x a b) }"
    and reach: "\<And>h x. reach h x = r1 h (f x) \<union> r2 h (g x)"
    and sel: "\<And>x p q. f (u x p q) = p" "\<And>x p q. g (u x p q) = q" "\<And>x p q. mk (u x p q) = mk x"
  shows "deep_copier copy view reach"
proof unfold_locales
  fix h h' x v assume v: "view h x = Some v"
  then obtain a b where a: "v1 h (f x) = Some a" and b: "v2 h (g x) = Some b" and ab: "v = mk x a b"
    by (auto simp: view bind_eq_Some_conv)
  show "reach h x \<subseteq> {..<length h}"
    using deep_copier.reach_dom [OF A a] deep_copier.reach_dom [OF B b] by (simp add: reach)
  show "view h' x = Some v" "reach h' x = reach h x" if "same_cells (reach h x) h h'"
    using deep_copier.view_same [OF A a] deep_copier.view_same [OF B b] deep_copier.reach_same [OF A a]
      deep_copier.reach_same [OF B b] that by (simp_all add: reach view ab)
  obtain p t where p: "c1 (f x) h = Some (p, h @ t)" "v1 (h @ t) p = Some a" "r1 (h @ t) p \<subseteq> {length h..<length (h @ t)}"
    using deep_copier.copies [OF A a] by blast
  obtain q t' where q: "c2 (g x) (h @ t) = Some (q, (h @ t) @ t')" "v2 ((h @ t) @ t') q = Some b"
      "r2 ((h @ t) @ t') q \<subseteq> {length (h @ t)..<length ((h @ t) @ t')}"
    using deep_copier.copies [OF B deep_copier.view_append [OF B b]] by blast
  have "v1 ((h @ t) @ t') p = Some a" "r1 ((h @ t) @ t') p = r1 (h @ t) p"
    by (rule deep_copier.view_append [OF A p(2)], rule deep_copier.reach_append [OF A p(2)])
  then have "copy x h = Some (u x p q, h @ t @ t') \<and> view (h @ t @ t') (u x p q) = Some v
      \<and> reach (h @ t @ t') (u x p q) \<subseteq> {length h..<length (h @ t @ t')}"
    using p q by (auto simp: copy view reach sel ab)
  then show "\<exists>y t. copy x h = Some (y, h @ t) \<and> view (h @ t) y = Some v \<and> reach (h @ t) y \<subseteq> {length h..<length (h @ t)}"
    by blast
qed

lemma struct1_copier:
  assumes "deep_copier c1 v1 r1"
    and "\<And>x h. copy x h = do { (p, h) \<leftarrow> c1 (f x) h; Some (u x p, h) }"
    and "\<And>h x. view h x = do { a \<leftarrow> v1 h (f x); Some (mk x a) }"
    and "\<And>h x. reach h x = r1 h (f x)" and "\<And>x p. f (u x p) = p" "\<And>x p. mk (u x p) = mk x"
  shows "deep_copier copy view reach"
  by (rule struct2_copier [OF assms(1) plain_copier [of "\<lambda>_. ()"], where f = f and g = "\<lambda>_. ()" and u = "\<lambda>x p _. u x p"
        and mk = "\<lambda>x a _. mk x a"]) (simp_all add: assms)

definition copy_both where
  "copy_both c1 c2 = (\<lambda>(x, y) h. do { (p, h) \<leftarrow> c1 x h; (q, h) \<leftarrow> c2 y h; Some ((p, q), h) })"

lemma both_copier:
  assumes "deep_copier c1 v1 r1" and "deep_copier c2 v2 r2"
  shows "deep_copier (copy_both c1 c2) (\<lambda>h (x, y). do { a \<leftarrow> v1 h x; b \<leftarrow> v2 h y; Some (a, b) })
    (\<lambda>h (x, y). r1 h x \<union> r2 h y)"
  by (rule struct2_copier [OF assms, where f = fst and g = snd and u = "\<lambda>_ p q. (p, q)" and mk = "\<lambda>_ a b. (a, b)"])
    (auto simp: copy_both_def split: prod.splits)

lemma struct3_copier:
  assumes "deep_copier c1 v1 r1" and "deep_copier c2 v2 r2" and "deep_copier c3 v3 r3"
    and "\<And>x h. copy x h = do { (p, h) \<leftarrow> c1 (f1 x) h; (q, h) \<leftarrow> c2 (f2 x) h; (r, h) \<leftarrow> c3 (f3 x) h; Some (u x p q r, h) }"
    and "\<And>h x. view h x = do { a \<leftarrow> v1 h (f1 x); b \<leftarrow> v2 h (f2 x); c \<leftarrow> v3 h (f3 x); Some (mk x a b c) }"
    and "\<And>h x. reach h x = r1 h (f1 x) \<union> r2 h (f2 x) \<union> r3 h (f3 x)"
    and "\<And>x p q r. f1 (u x p q r) = p" "\<And>x p q r. f2 (u x p q r) = q" "\<And>x p q r. f3 (u x p q r) = r"
      "\<And>x p q r. mk (u x p q r) = mk x"
  shows "deep_copier copy view reach"
  by (rule struct2_copier [OF assms(1) both_copier [OF assms(2,3)], where f = f1 and g = "\<lambda>x. (f2 x, f3 x)"
        and u = "\<lambda>x p (q, r). u x p q r" and mk = "\<lambda>x a (b, c). mk x a b c"])
    (auto simp: assms copy_both_def split_def bind_assoc fun_eq_iff)

section \<open>Pointers\<close>

text \<open>
  \<^verbatim>\<open>DeepCopy\<close> of a pointer: nil stays nil; otherwise a new cell, into which \<^verbatim>\<open>*out = *in\<close> puts the old struct and
  \<^verbatim>\<open>DeepCopyInto\<close> then the copied one. \<open>get\<close> and \<open>mk\<close> say how a struct of this type is kept in a cell.
\<close>

definition copy_pointer ::
    "('c \<Rightarrow> 'a option) \<Rightarrow> ('a \<Rightarrow> 'c) \<Rightarrow> ('a \<Rightarrow> 'c heap \<Rightarrow> ('a \<times> 'c heap) option) \<Rightarrow>
     nat option \<Rightarrow> 'c heap \<Rightarrow> (nat option \<times> 'c heap) option" where
  "copy_pointer get mk into p h = (case p of
     None \<Rightarrow> Some (None, h)
   | Some a \<Rightarrow> do {
       x \<leftarrow> load get h a;
       let (out, h) = alloc (mk x) h;
       (y, h) \<leftarrow> into x h;
       Some (Some out, store out (mk y) h)
     })"

definition pointer_view :: "('c \<Rightarrow> 'a option) \<Rightarrow> ('c heap \<Rightarrow> 'a \<Rightarrow> 'v option) \<Rightarrow> 'c heap \<Rightarrow> nat option \<Rightarrow> 'v option option" where
  "pointer_view get view h p = (case p of
     None \<Rightarrow> Some None
   | Some a \<Rightarrow> do { x \<leftarrow> load get h a; v \<leftarrow> view h x; Some (Some v) })"

definition pointer_reach :: "('c \<Rightarrow> 'a option) \<Rightarrow> ('c heap \<Rightarrow> 'a \<Rightarrow> nat set) \<Rightarrow> 'c heap \<Rightarrow> nat option \<Rightarrow> nat set" where
  "pointer_reach get reach h p = (case p of
     None \<Rightarrow> {}
   | Some a \<Rightarrow> insert a (case load get h a of None \<Rightarrow> {} | Some x \<Rightarrow> reach h x))"

lemma pointer_copier:
  assumes get: "\<And>x. get (mk x) = Some x" and D: "deep_copier into view reach"
  shows "deep_copier (copy_pointer get mk into) (pointer_view get view) (pointer_reach get reach)"
proof (rule deep_copierI)
  fix h p v assume v: "pointer_view get view h p = Some v"
  show "copied (copy_pointer get mk into) (pointer_view get view) (pointer_reach get reach) h p v
    \<and> settled (pointer_view get view) (pointer_reach get reach) h p v"
  proof (cases p)
    case None
    then show ?thesis using v by (auto simp: copied_def settled_def copy_pointer_def pointer_view_def pointer_reach_def)
  next
    case (Some a)
    then obtain x u where x: "load get h a = Some x" and u: "view h x = Some u" and vu: "v = Some u"
      using v by (auto simp: pointer_view_def bind_eq_Some_conv)
    obtain y t where y: "into x (h @ [mk x]) = Some (y, (h @ [mk x]) @ t)" "view ((h @ [mk x]) @ t) y = Some u"
        "reach ((h @ [mk x]) @ t) y \<subseteq> {length (h @ [mk x])..<length ((h @ [mk x]) @ t)}"
      using deep_copier.copies [OF D deep_copier.view_append [OF D u]] by blast
    have "same_cells (reach ((h @ [mk x]) @ t) y) ((h @ [mk x]) @ t) (h @ mk y # t)"
      using y(3) by (auto simp: same_cells_def nth_append nth_Cons split: nat.split)
    then have "view (h @ mk y # t) y = Some u" "reach (h @ mk y # t) y \<subseteq> {Suc (length h)..<length (h @ mk y # t)}"
      using deep_copier.view_same [OF D y(2)] deep_copier.reach_same [OF D y(2)] y(3) by simp_all
    then have "copy_pointer get mk into p h = Some (Some (length h), h @ mk y # t)
        \<and> pointer_view get view (h @ mk y # t) (Some (length h)) = Some v
        \<and> pointer_reach get reach (h @ mk y # t) (Some (length h)) \<subseteq> {length h..<length (h @ mk y # t)}"
      using x y(1) vu by (auto simp: Some copy_pointer_def pointer_view_def pointer_reach_def alloc_def get)
    moreover have "pointer_view get view h' p = Some v \<and> pointer_reach get reach h' p = pointer_reach get reach h p"
      if "same_cells (pointer_reach get reach h p) h h'" for h'
    proof -
      have c: "same_cells (insert a (reach h x)) h h'" using that x by (simp add: Some pointer_reach_def)
      then have "same_cells (reach h x) h h'" by (simp add: same_cells_def)
      then show ?thesis
        using load_same [OF x c] deep_copier.view_same [OF D u] deep_copier.reach_same [OF D u] x vu
        by (simp add: Some pointer_view_def pointer_reach_def)
    qed
    moreover have "pointer_reach get reach h p \<subseteq> {..<length h}"
      using x load_bound [OF x] deep_copier.reach_dom [OF D u] by (auto simp: Some pointer_reach_def)
    ultimately show ?thesis unfolding copied_def settled_def by blast
  qed
qed

section \<open>Slices\<close>

text \<open>A slice is a window of an array; nil is \<open>None\<close>.\<close>

record slice =
  sl_array :: nat
  sl_offset :: nat
  sl_len :: nat
  sl_cap :: nat

definition window :: "('c \<Rightarrow> 'a list option) \<Rightarrow> 'c heap \<Rightarrow> slice \<Rightarrow> 'a list option" where
  "window get h s = do {
     xs \<leftarrow> load get h (sl_array s);
     if sl_offset s + sl_len s \<le> length xs then Some (take (sl_len s) (drop (sl_offset s) xs)) else None
   }"

text \<open>\<^verbatim>\<open>make([]T, n)\<close>, with all elements zero.\<close>

definition make_slice :: "('a list \<Rightarrow> 'c) \<Rightarrow> 'a \<Rightarrow> nat \<Rightarrow> 'c heap \<Rightarrow> slice \<times> 'c heap" where
  "make_slice mk zero n h = (let (a, h) = alloc (mk (replicate n zero)) h in (\<lparr>sl_array = a, sl_offset = 0, sl_len = n, sl_cap = n\<rparr>, h))"

text \<open>An assignment to an element.\<close>

definition set_elem :: "('c \<Rightarrow> 'a list option) \<Rightarrow> ('a list \<Rightarrow> 'c) \<Rightarrow> slice \<Rightarrow> nat \<Rightarrow> 'a \<Rightarrow> 'c heap \<Rightarrow> 'c heap option" where
  "set_elem get mk s i x h = do {
     xs \<leftarrow> load get h (sl_array s);
     Some (store (sl_array s) (mk (xs[sl_offset s + i := x])) h)
   }"

text \<open>The loop over the elements, from \<open>i\<close> on with \<open>n\<close> to go.\<close>

fun copy_elems ::
    "('c \<Rightarrow> 'a list option) \<Rightarrow> ('a list \<Rightarrow> 'c) \<Rightarrow> ('a \<Rightarrow> 'c heap \<Rightarrow> ('a \<times> 'c heap) option) \<Rightarrow>
     slice \<Rightarrow> slice \<Rightarrow> nat \<Rightarrow> nat \<Rightarrow> 'c heap \<Rightarrow> 'c heap option" where
  "copy_elems get mk into s out i 0 h = Some h"
| "copy_elems get mk into s out i (Suc n) h = do {
     xs \<leftarrow> window get h s;
     (y, h) \<leftarrow> into (xs ! i) h;
     h \<leftarrow> set_elem get mk out i y h;
     copy_elems get mk into s out (Suc i) n h
   }"

definition copy_slice ::
    "('c \<Rightarrow> 'a list option) \<Rightarrow> ('a list \<Rightarrow> 'c) \<Rightarrow> 'a \<Rightarrow> ('a \<Rightarrow> 'c heap \<Rightarrow> ('a \<times> 'c heap) option) \<Rightarrow>
     slice option \<Rightarrow> 'c heap \<Rightarrow> (slice option \<times> 'c heap) option" where
  "copy_slice get mk zero into p h = (case p of
     None \<Rightarrow> Some (None, h)
   | Some s \<Rightarrow> do {
       let (out, h) = make_slice mk zero (sl_len s) h;
       h \<leftarrow> copy_elems get mk into s out 0 (sl_len s) h;
       Some (Some out, h)
     })"

fun views :: "('a \<Rightarrow> 'v option) \<Rightarrow> 'a list \<Rightarrow> 'v list option" where
  "views f [] = Some []"
| "views f (x # xs) = do { v \<leftarrow> f x; vs \<leftarrow> views f xs; Some (v # vs) }"

lemma views_iff: "views f xs = Some vs \<longleftrightarrow> list_all2 (\<lambda>x v. f x = Some v) xs vs"
  by (induction xs arbitrary: vs) (auto simp: bind_eq_Some_conv list_all2_Cons1)

definition slice_view where
  "slice_view get view h p = (case p of
     None \<Rightarrow> Some None
   | Some s \<Rightarrow> do { xs \<leftarrow> window get h s; vs \<leftarrow> views (view h) xs; Some (Some vs) })"

definition slice_reach where
  "slice_reach get reach h p = (case p of
     None \<Rightarrow> {}
   | Some s \<Rightarrow> insert (sl_array s) (case window get h s of None \<Rightarrow> {} | Some xs \<Rightarrow> \<Union>x \<in> set xs. reach h x))"

text \<open>After \<open>i\<close> rounds the first \<open>i\<close> elements are copies.\<close>

definition half_copied where
  "half_copied mk view reach h n vs i h' \<longleftrightarrow> (\<exists>ys t. h' = h @ mk ys # t \<and> length ys = n \<and> i \<le> n
     \<and> (\<forall>j < i. view h' (ys ! j) = Some (vs ! j) \<and> reach h' (ys ! j) \<subseteq> {Suc (length h)..<length h'}))"

lemma window_old: "window get h s = Some xs \<Longrightarrow> window get (h @ t) s = Some xs"
  unfolding window_def bind_eq_Some_conv using load_old by metis

lemma copy_elems_copied:
  assumes get: "\<And>xs. get (mk xs) = Some xs" and D: "deep_copier into view reach"
    and w: "window get h s = Some xs" and vs: "list_all2 (\<lambda>x v. view h x = Some v) xs vs"
    and out: "sl_array out = length h" "sl_offset out = 0"
  shows "half_copied mk view reach h (length xs) vs i h' \<Longrightarrow> i + n = length xs \<Longrightarrow>
    \<exists>h''. copy_elems get mk into s out i n h' = Some h'' \<and> half_copied mk view reach h (length xs) vs (length xs) h''"
proof (induction n arbitrary: i h')
  case 0
  then show ?case by simp
next
  case (Suc n)
  then obtain ys t where h': "h' = h @ mk ys # t" and ys: "length ys = length xs" "i < length xs"
    and old: "\<And>j. j < i \<Longrightarrow> view h' (ys ! j) = Some (vs ! j) \<and> reach h' (ys ! j) \<subseteq> {Suc (length h)..<length h'}"
    unfolding half_copied_def by auto
  have x: "view h' (xs ! i) = Some (vs ! i)"
    using list_all2_nthD [OF vs ys(2)] unfolding h' by (rule deep_copier.view_append [OF D])
  obtain y t' where y: "into (xs ! i) h' = Some (y, h' @ t')" "view (h' @ t') y = Some (vs ! i)"
      "reach (h' @ t') y \<subseteq> {length h'..<length (h' @ t')}"
    using deep_copier.copies [OF D x] by blast
  let ?h = "h @ mk (ys[i := y]) # t @ t'"
  have set: "set_elem get mk out i y (h' @ t') = Some ?h" by (simp add: set_elem_def out h' get)
  have frame: "same_cells A (h' @ t') ?h" if "A \<subseteq> {Suc (length h)..<length (h' @ t')}" for A
    using that unfolding same_cells_def h' by (auto simp: nth_append nth_Cons split: nat.split)
  have new: "view ?h z = Some v \<and> reach ?h z \<subseteq> {Suc (length h)..<length ?h}"
    if "view (h' @ t') z = Some v" "reach (h' @ t') z \<subseteq> {Suc (length h)..<length (h' @ t')}" for z v
    using deep_copier.view_same [OF D that(1) frame [OF that(2)]] deep_copier.reach_same [OF D that(1) frame [OF that(2)]] that(2)
    by (simp add: h')
  have "view ?h (ys[i := y] ! j) = Some (vs ! j) \<and> reach ?h (ys[i := y] ! j) \<subseteq> {Suc (length h)..<length ?h}" if "j < Suc i" for j
  proof (cases "j = i")
    case True
    have "reach (h' @ t') y \<subseteq> {Suc (length h)..<length (h' @ t')}" using y(3) by (auto simp: h')
    from new [OF y(2) this] show ?thesis using True ys by simp
  next
    case False
    then have j: "j < i" using that by simp
    have "view (h' @ t') (ys ! j) = Some (vs ! j)" "reach (h' @ t') (ys ! j) = reach h' (ys ! j)"
      using old [OF j] deep_copier.view_append [OF D] deep_copier.reach_append [OF D] by blast+
    then have "view ?h (ys ! j) = Some (vs ! j) \<and> reach ?h (ys ! j) \<subseteq> {Suc (length h)..<length ?h}"
      by (intro new) (use old [OF j] in auto)
    then show ?thesis using False by simp
  qed
  then have "half_copied mk view reach h (length xs) vs (Suc i) ?h"
    unfolding half_copied_def using ys by (intro exI [of _ "ys[i := y]"] exI [of _ "t @ t'"]) auto
  from Suc.IH [OF this] Suc.prems(2) window_old [OF w, of "mk ys # t"] show ?case
    using y(1) set by (simp add: h')
qed

lemma slice_settled:
  assumes D: "deep_copier into view reach" and v: "slice_view get view h p = Some v"
  shows "settled (slice_view get view) (slice_reach get reach) h p v"
proof (cases p)
  case None
  then show ?thesis using v by (simp add: settled_def slice_view_def slice_reach_def)
next
  case (Some s)
  then obtain xs vs where w: "window get h s = Some xs" and vs: "list_all2 (\<lambda>x v. view h x = Some v) xs vs" and vu: "v = Some vs"
    using v by (auto simp: slice_view_def bind_eq_Some_conv views_iff)
  obtain as where as: "load get h (sl_array s) = Some as" using w by (auto simp: window_def bind_eq_Some_conv)
  have r: "slice_reach get reach h p = insert (sl_array s) (\<Union>x \<in> set xs. reach h x)" by (simp add: Some slice_reach_def w)
  have at: "\<exists>v. view h x = Some v" if "x \<in> set xs" for x
    using vs that by (auto simp: list_all2_conv_all_nth in_set_conv_nth)
  have "slice_reach get reach h p \<subseteq> {..<length h}"
    unfolding r using load_bound [OF as] deep_copier.reach_dom [OF D] at by blast
  moreover have "slice_view get view h' p = Some v \<and> slice_reach get reach h' p = slice_reach get reach h p"
    if "same_cells (slice_reach get reach h p) h h'" for h'
  proof -
    have c: "same_cells (insert (sl_array s) (\<Union>x \<in> set xs. reach h x)) h h'" using that by (simp add: r)
    then have cx: "same_cells (reach h x) h h'" if "x \<in> set xs" for x using that by (auto simp: same_cells_def)
    have "window get h' s = Some xs" using w load_same [OF as c] as by (simp add: window_def)
    moreover have "list_all2 (\<lambda>x v. view h' x = Some v) xs vs"
      by (rule list.rel_mono_strong [OF vs]) (rule deep_copier.view_same [OF D _ cx])
    moreover have "reach h' x = reach h x" if "x \<in> set xs" for x
      using at [OF that] cx [OF that] deep_copier.reach_same [OF D] by blast
    ultimately show ?thesis by (simp add: Some vu slice_view_def slice_reach_def w views_iff [THEN iffD2])
  qed
  ultimately show ?thesis by (simp add: settled_def)
qed

lemma slice_copier:
  assumes get: "\<And>xs. get (mk xs) = Some xs" and D: "deep_copier into view reach"
  shows "deep_copier (copy_slice get mk zero into) (slice_view get view) (slice_reach get reach)"
proof (rule deep_copierI)
  fix h p v assume v: "slice_view get view h p = Some v"
  have "copied (copy_slice get mk zero into) (slice_view get view) (slice_reach get reach) h p v"
  proof (cases p)
    case None
    then show ?thesis using v by (auto simp: copied_def copy_slice_def slice_view_def slice_reach_def)
  next
    case (Some s)
    then obtain xs vs where w: "window get h s = Some xs" and vs: "list_all2 (\<lambda>x v. view h x = Some v) xs vs" and vu: "v = Some vs"
      using v by (auto simp: slice_view_def bind_eq_Some_conv views_iff)
    have len: "length xs = sl_len s" "length vs = sl_len s"
      using w list_all2_lengthD [OF vs] by (auto simp: window_def bind_eq_Some_conv split: if_splits)
    let ?out = "\<lparr>sl_array = length h, sl_offset = 0, sl_len = sl_len s, sl_cap = sl_len s\<rparr>"
    have "half_copied mk view reach h (length xs) vs 0 (h @ [mk (replicate (sl_len s) zero)])"
      using len by (auto simp: half_copied_def)
    then obtain h'' where loop: "copy_elems get mk into s ?out 0 (sl_len s) (h @ [mk (replicate (sl_len s) zero)]) = Some h''"
      and half: "half_copied mk view reach h (length xs) vs (length xs) h''"
      using copy_elems_copied [OF get D w vs, of ?out 0] len by auto
    from half obtain ys t where h'': "h'' = h @ mk ys # t" "length ys = length xs"
      and ys: "\<And>j. j < length xs \<Longrightarrow> view h'' (ys ! j) = Some (vs ! j) \<and> reach h'' (ys ! j) \<subseteq> {Suc (length h)..<length h''}"
      by (auto simp: half_copied_def)
    have win: "window get h'' ?out = Some ys" using len by (simp add: window_def h'' get)
    have "list_all2 (\<lambda>x v. view h'' x = Some v) ys vs"
      using ys len h''(2) by (simp add: list_all2_conv_all_nth)
    then have "slice_view get view h'' (Some ?out) = Some v"
      by (simp add: slice_view_def win views_iff [THEN iffD2] vu)
    moreover have "slice_reach get reach h'' (Some ?out) \<subseteq> {length h..<length h''}"
    proof -
      have "reach h'' y \<subseteq> {Suc (length h)..<length h''}" if "y \<in> set ys" for y
        using that ys h''(2) by (auto simp only: in_set_conv_nth)
      moreover have "slice_reach get reach h'' (Some ?out) = insert (length h) (\<Union>y \<in> set ys. reach h'' y)"
        by (simp add: slice_reach_def win)
      ultimately show ?thesis using h''(1) by (simp add: UN_subset_iff subset_eq) (metis Suc_leD)
    qed
    moreover have "copy_slice get mk zero into p h = Some (Some ?out, h'')"
      using loop by (simp add: Some copy_slice_def make_slice_def alloc_def)
    ultimately show ?thesis unfolding copied_def h''(1) by blast
  qed
  then show "copied (copy_slice get mk zero into) (slice_view get view) (slice_reach get reach) h p v
    \<and> settled (slice_view get view) (slice_reach get reach) h p v"
    using slice_settled [OF D v] by blast
qed

section \<open>Maps\<close>

text \<open>A map is a pointer to its entries. The order of \<^verbatim>\<open>range\<close> over a map is open: \<open>order\<close> is any permutation.\<close>

definition range_order_ok :: "(('k \<times> 'v) list \<Rightarrow> ('k \<times> 'v) list) \<Rightarrow> bool" where
  "range_order_ok order \<longleftrightarrow> (\<forall>m. mset (order m) = mset m)"

fun set_entries ::
    "('c \<Rightarrow> ('k \<times> 'v) list option) \<Rightarrow> (('k \<times> 'v) list \<Rightarrow> 'c) \<Rightarrow> nat \<Rightarrow> ('k \<times> 'v) list \<Rightarrow> 'c heap \<Rightarrow> 'c heap option" where
  "set_entries get mk out [] h = Some h"
| "set_entries get mk out ((k, v) # es) h = do {
     m \<leftarrow> load get h out;
     set_entries get mk out es (store out (mk (AList.update k v m)) h)
   }"

definition copy_map ::
    "('c \<Rightarrow> ('k \<times> 'v) list option) \<Rightarrow> (('k \<times> 'v) list \<Rightarrow> 'c) \<Rightarrow> (('k \<times> 'v) list \<Rightarrow> ('k \<times> 'v) list) \<Rightarrow>
     nat option \<Rightarrow> 'c heap \<Rightarrow> (nat option \<times> 'c heap) option" where
  "copy_map get mk order p h = (case p of
     None \<Rightarrow> Some (None, h)
   | Some a \<Rightarrow> do {
       m \<leftarrow> load get h a;
       let (out, h) = alloc (mk []) h;
       h \<leftarrow> set_entries get mk out (order m) h;
       Some (Some out, h)
     })"

definition map_view :: "('c \<Rightarrow> ('k \<times> 'v) list option) \<Rightarrow> 'c heap \<Rightarrow> nat option \<Rightarrow> ('k \<rightharpoonup> 'v) option option" where
  "map_view get h p = (case p of
     None \<Rightarrow> Some None
   | Some a \<Rightarrow> do { m \<leftarrow> load get h a; if distinct (map fst m) then Some (Some (map_of m)) else None })"

definition map_reach :: "nat option \<Rightarrow> nat set" where
  "map_reach p = set_option p"

lemma set_entries_eq:
  assumes get: "\<And>xs. get (mk xs) = Some xs"
  shows "distinct (map fst m) \<Longrightarrow> \<exists>m'. set_entries get mk (length h) es (h @ [mk m]) = Some (h @ [mk m'])
    \<and> distinct (map fst m') \<and> map_of m' = fold (\<lambda>(k, v) f. f(k \<mapsto> v)) es (map_of m)"
proof (induction es arbitrary: m)
  case (Cons e es)
  then show ?case
    using Cons.IH [of "AList.update (fst e) (snd e) m"] by (cases e) (auto simp: get update_conv' distinct_update)
qed auto

lemma fold_updates:
  "distinct (map fst es) \<Longrightarrow> fold (\<lambda>(k, v) f. f(k \<mapsto> v)) es f = f ++ map_of es"
  by (induction es arbitrary: f) (auto simp: map_add_upd_left dom_map_of_conv_image_fst)

lemma map_copier:
  assumes get: "\<And>xs. get (mk xs) = Some xs" and order: "range_order_ok order"
  shows "deep_copier (copy_map get mk order) (map_view get) (\<lambda>_. map_reach)"
proof (rule deep_copierI)
  fix h p v assume v: "map_view get h p = Some v"
  show "copied (copy_map get mk order) (map_view get) (\<lambda>_. map_reach) h p v \<and> settled (map_view get) (\<lambda>_. map_reach) h p v"
  proof (cases p)
    case None
    then show ?thesis using v by (simp add: copied_def settled_def copy_map_def map_view_def map_reach_def)
  next
    case (Some a)
    then obtain m where m: "load get h a = Some m" and d: "distinct (map fst m)" and vm: "v = Some (map_of m)"
      using v by (auto simp: map_view_def bind_eq_Some_conv split: if_splits)
    have perm: "mset (order m) = mset m" using order by (simp add: range_order_ok_def)
    then have d': "distinct (map fst (order m))" using d by (metis mset_eq_imp_distinct_iff mset_map)
    then have "map_of (order m) = map_of m" using d perm by (metis map_of_inject_set mset_eq_setD)
    moreover obtain m' where m': "set_entries get mk (length h) (order m) (h @ [mk []]) = Some (h @ [mk m'])"
        "distinct (map fst m')" "map_of m' = fold (\<lambda>(k, v) f. f(k \<mapsto> v)) (order m) Map.empty"
      using set_entries_eq [where get = get and mk = mk, OF get, of "[]"] by auto
    ultimately have "map_of m' = map_of m" by (simp add: fold_updates [OF d'])
    then have "copied (copy_map get mk order) (map_view get) (\<lambda>_. map_reach) h p v"
      unfolding copied_def using m m' vm get by (auto simp: Some copy_map_def map_view_def map_reach_def alloc_def)
    moreover have "settled (map_view get) (\<lambda>_. map_reach) h p v"
      using load_bound [OF m] load_same [OF m, of "{}"] d vm by (simp add: settled_def Some map_view_def map_reach_def)
    ultimately show ?thesis by blast
  qed
qed

end
