(* ===== verification/DeepCopy.thy ===== *)
theory DeepCopy
  imports ApiTypes GoHeap
begin

text \<open>
  \<^verbatim>\<open>api/v1alpha1/zz_generated.deepcopy.go\<close> over an explicit heap: the structs of the API with their pointers, slices
  and maps as addresses, the functions \<^verbatim>\<open>DeepCopyInto\<close>, \<^verbatim>\<open>DeepCopy\<close> and \<^verbatim>\<open>DeepCopyObject\<close>, and for each type what value of
  \<open>ApiTypes\<close> a struct stands for. A \<^verbatim>\<open>DeepCopyInto\<close> takes \<^verbatim>\<open>*in\<close> to the struct that \<^verbatim>\<open>*out\<close> is in the end. The
  copies of metadata and of \<^verbatim>\<open>metav1.Time\<close> are those of the library.
\<close>

section \<open>Structs\<close>

record TypeMeta =
  tm_Kind :: string
  tm_APIVersion :: string

record go_BootArtifactSpec =
  gas_URL :: string
  gas_SHA256 :: "nat option"
  gas_SHA512 :: "nat option"

record go_BootArtifactStatus =
  gat_Phase :: BootArtifactPhase
  gat_Message :: string
  gat_FailureCount :: "32 word"
  gat_LastFailureTime :: "nat option"
  gat_LastChecked :: "nat option"

record 'm go_BootArtifact =
  gar_TypeMeta :: TypeMeta
  gar_ObjectMeta :: 'm
  gar_Spec :: go_BootArtifactSpec
  gar_Status :: go_BootArtifactStatus

record go_BootConfigSpec =
  gcs_Netboot :: "nat option"
  gcs_ISO :: "nat option"
  gcs_KernelArgs :: string

record 'm go_BootConfig =
  gcf_TypeMeta :: TypeMeta
  gcf_ObjectMeta :: 'm
  gcf_Spec :: go_BootConfigSpec
  gcf_Status :: BootConfigStatus

record 'm go_Machine =
  gmc_TypeMeta :: TypeMeta
  gmc_ObjectMeta :: 'm
  gmc_Spec :: MachineSpec

record go_ProvisionSpec =
  gps_MachineRef :: string
  gps_BootConfigRef :: string
  gps_ProvisionAutomationRef :: string
  gps_ConfigMaps :: "slice option"
  gps_Secrets :: "slice option"

record go_ProvisionStatus =
  gpt_Phase :: ProvisionPhase
  gpt_Message :: string
  gpt_LastUpdated :: "nat option"
  gpt_IP :: string

record 'm go_Provision =
  gpr_TypeMeta :: TypeMeta
  gpr_ObjectMeta :: 'm
  gpr_Spec :: go_ProvisionSpec
  gpr_Status :: go_ProvisionStatus

record go_ProvisionAutomationSpec =
  gpa_Files :: "nat option"

record 'm go_ProvisionAutomation =
  gau_TypeMeta :: TypeMeta
  gau_ObjectMeta :: 'm
  gau_Spec :: go_ProvisionAutomationSpec

text \<open>The five list types have the same fields; the array of the items says what they are.\<close>

record 'm go_List =
  gl_TypeMeta :: TypeMeta
  gl_ListMeta :: 'm
  gl_Items :: "slice option"

section \<open>Cells\<close>

text \<open>What a pointer of the program can lead to, \<open>LibC\<close> standing for the cells of the library.\<close>

datatype (plugins del: quickcheck_random quickcheck_exhaustive quickcheck_bounded_forall quickcheck_full_exhaustive quickcheck_narrowing) 'm cell =
    StringC string
  | TimeC MetaTime
  | StringsC "string list"
  | FilesC "(string \<times> string) list"
  | NetbootC BootConfigNetbootSpec
  | ISOC BootConfigISOSpec
  | ArtifactSpecC go_BootArtifactSpec
  | ArtifactStatusC go_BootArtifactStatus
  | ConfigSpecC go_BootConfigSpec
  | ConfigStatusC BootConfigStatus
  | MachineSpecC MachineSpec
  | ProvisionSpecC go_ProvisionSpec
  | ProvisionStatusC go_ProvisionStatus
  | AutomationSpecC go_ProvisionAutomationSpec
  | ArtifactC "'m go_BootArtifact"
  | ArtifactsC "'m go_BootArtifact list"
  | ArtifactListC "'m go_List"
  | ConfigC "'m go_BootConfig"
  | ConfigsC "'m go_BootConfig list"
  | ConfigListC "'m go_List"
  | MachineC "'m go_Machine"
  | MachinesC "'m go_Machine list"
  | MachineListC "'m go_List"
  | ProvisionC "'m go_Provision"
  | ProvisionsC "'m go_Provision list"
  | ProvisionListC "'m go_List"
  | AutomationC "'m go_ProvisionAutomation"
  | AutomationsC "'m go_ProvisionAutomation list"
  | AutomationListC "'m go_List"
  | LibC "'m"

definition string_of :: "'m cell \<Rightarrow> (string) option" where
  "string_of c = (case c of StringC x \<Rightarrow> Some x | _ \<Rightarrow> None)"

definition time_of :: "'m cell \<Rightarrow> (MetaTime) option" where
  "time_of c = (case c of TimeC x \<Rightarrow> Some x | _ \<Rightarrow> None)"

definition strings_of :: "'m cell \<Rightarrow> (string list) option" where
  "strings_of c = (case c of StringsC x \<Rightarrow> Some x | _ \<Rightarrow> None)"

definition files_of :: "'m cell \<Rightarrow> ((string \<times> string) list) option" where
  "files_of c = (case c of FilesC x \<Rightarrow> Some x | _ \<Rightarrow> None)"

definition netboot_of :: "'m cell \<Rightarrow> (BootConfigNetbootSpec) option" where
  "netboot_of c = (case c of NetbootC x \<Rightarrow> Some x | _ \<Rightarrow> None)"

definition iso_of :: "'m cell \<Rightarrow> (BootConfigISOSpec) option" where
  "iso_of c = (case c of ISOC x \<Rightarrow> Some x | _ \<Rightarrow> None)"

definition artifactSpec_of :: "'m cell \<Rightarrow> (go_BootArtifactSpec) option" where
  "artifactSpec_of c = (case c of ArtifactSpecC x \<Rightarrow> Some x | _ \<Rightarrow> None)"

definition artifactStatus_of :: "'m cell \<Rightarrow> (go_BootArtifactStatus) option" where
  "artifactStatus_of c = (case c of ArtifactStatusC x \<Rightarrow> Some x | _ \<Rightarrow> None)"

definition configSpec_of :: "'m cell \<Rightarrow> (go_BootConfigSpec) option" where
  "configSpec_of c = (case c of ConfigSpecC x \<Rightarrow> Some x | _ \<Rightarrow> None)"

definition configStatus_of :: "'m cell \<Rightarrow> (BootConfigStatus) option" where
  "configStatus_of c = (case c of ConfigStatusC x \<Rightarrow> Some x | _ \<Rightarrow> None)"

definition machineSpec_of :: "'m cell \<Rightarrow> (MachineSpec) option" where
  "machineSpec_of c = (case c of MachineSpecC x \<Rightarrow> Some x | _ \<Rightarrow> None)"

definition provisionSpec_of :: "'m cell \<Rightarrow> (go_ProvisionSpec) option" where
  "provisionSpec_of c = (case c of ProvisionSpecC x \<Rightarrow> Some x | _ \<Rightarrow> None)"

definition provisionStatus_of :: "'m cell \<Rightarrow> (go_ProvisionStatus) option" where
  "provisionStatus_of c = (case c of ProvisionStatusC x \<Rightarrow> Some x | _ \<Rightarrow> None)"

definition automationSpec_of :: "'m cell \<Rightarrow> (go_ProvisionAutomationSpec) option" where
  "automationSpec_of c = (case c of AutomationSpecC x \<Rightarrow> Some x | _ \<Rightarrow> None)"

definition artifact_of :: "'m cell \<Rightarrow> ('m go_BootArtifact) option" where
  "artifact_of c = (case c of ArtifactC x \<Rightarrow> Some x | _ \<Rightarrow> None)"

definition artifacts_of :: "'m cell \<Rightarrow> ('m go_BootArtifact list) option" where
  "artifacts_of c = (case c of ArtifactsC x \<Rightarrow> Some x | _ \<Rightarrow> None)"

definition artifactList_of :: "'m cell \<Rightarrow> ('m go_List) option" where
  "artifactList_of c = (case c of ArtifactListC x \<Rightarrow> Some x | _ \<Rightarrow> None)"

definition config_of :: "'m cell \<Rightarrow> ('m go_BootConfig) option" where
  "config_of c = (case c of ConfigC x \<Rightarrow> Some x | _ \<Rightarrow> None)"

definition configs_of :: "'m cell \<Rightarrow> ('m go_BootConfig list) option" where
  "configs_of c = (case c of ConfigsC x \<Rightarrow> Some x | _ \<Rightarrow> None)"

definition configList_of :: "'m cell \<Rightarrow> ('m go_List) option" where
  "configList_of c = (case c of ConfigListC x \<Rightarrow> Some x | _ \<Rightarrow> None)"

definition machine_of :: "'m cell \<Rightarrow> ('m go_Machine) option" where
  "machine_of c = (case c of MachineC x \<Rightarrow> Some x | _ \<Rightarrow> None)"

definition machines_of :: "'m cell \<Rightarrow> ('m go_Machine list) option" where
  "machines_of c = (case c of MachinesC x \<Rightarrow> Some x | _ \<Rightarrow> None)"

definition machineList_of :: "'m cell \<Rightarrow> ('m go_List) option" where
  "machineList_of c = (case c of MachineListC x \<Rightarrow> Some x | _ \<Rightarrow> None)"

definition provision_of :: "'m cell \<Rightarrow> ('m go_Provision) option" where
  "provision_of c = (case c of ProvisionC x \<Rightarrow> Some x | _ \<Rightarrow> None)"

definition provisions_of :: "'m cell \<Rightarrow> ('m go_Provision list) option" where
  "provisions_of c = (case c of ProvisionsC x \<Rightarrow> Some x | _ \<Rightarrow> None)"

definition provisionList_of :: "'m cell \<Rightarrow> ('m go_List) option" where
  "provisionList_of c = (case c of ProvisionListC x \<Rightarrow> Some x | _ \<Rightarrow> None)"

definition automation_of :: "'m cell \<Rightarrow> ('m go_ProvisionAutomation) option" where
  "automation_of c = (case c of AutomationC x \<Rightarrow> Some x | _ \<Rightarrow> None)"

definition automations_of :: "'m cell \<Rightarrow> ('m go_ProvisionAutomation list) option" where
  "automations_of c = (case c of AutomationsC x \<Rightarrow> Some x | _ \<Rightarrow> None)"

definition automationList_of :: "'m cell \<Rightarrow> ('m go_List) option" where
  "automationList_of c = (case c of AutomationListC x \<Rightarrow> Some x | _ \<Rightarrow> None)"

lemma of_cell [simp]:
  "string_of (StringC x0) = Some x0"
  "time_of (TimeC x1) = Some x1"
  "strings_of (StringsC x2) = Some x2"
  "files_of (FilesC x3) = Some x3"
  "netboot_of (NetbootC x4) = Some x4"
  "iso_of (ISOC x5) = Some x5"
  "artifactSpec_of (ArtifactSpecC x6) = Some x6"
  "artifactStatus_of (ArtifactStatusC x7) = Some x7"
  "configSpec_of (ConfigSpecC x8) = Some x8"
  "configStatus_of (ConfigStatusC x9) = Some x9"
  "machineSpec_of (MachineSpecC x10) = Some x10"
  "provisionSpec_of (ProvisionSpecC x11) = Some x11"
  "provisionStatus_of (ProvisionStatusC x12) = Some x12"
  "automationSpec_of (AutomationSpecC x13) = Some x13"
  "artifact_of (ArtifactC x14) = Some x14"
  "artifacts_of (ArtifactsC x15) = Some x15"
  "artifactList_of (ArtifactListC x16) = Some x16"
  "config_of (ConfigC x17) = Some x17"
  "configs_of (ConfigsC x18) = Some x18"
  "configList_of (ConfigListC x19) = Some x19"
  "machine_of (MachineC x20) = Some x20"
  "machines_of (MachinesC x21) = Some x21"
  "machineList_of (MachineListC x22) = Some x22"
  "provision_of (ProvisionC x23) = Some x23"
  "provisions_of (ProvisionsC x24) = Some x24"
  "provisionList_of (ProvisionListC x25) = Some x25"
  "automation_of (AutomationC x26) = Some x26"
  "automations_of (AutomationsC x27) = Some x27"
  "automationList_of (AutomationListC x28) = Some x28"
  by (simp_all add: string_of_def time_of_def strings_of_def files_of_def netboot_of_def iso_of_def artifactSpec_of_def artifactStatus_of_def configSpec_of_def configStatus_of_def machineSpec_of_def provisionSpec_of_def provisionStatus_of_def automationSpec_of_def artifact_of_def artifacts_of_def artifactList_of_def config_of_def configs_of_def configList_of_def machine_of_def machines_of_def machineList_of_def provision_of_def provisions_of_def provisionList_of_def automation_of_def automations_of_def automationList_of_def)

section \<open>The library\<close>

text \<open>What the generated code calls, and the order in which \<^verbatim>\<open>range\<close> goes through a map.\<close>

record 'm apimachinery =
  ObjectMeta_DeepCopyInto :: "'m \<Rightarrow> 'm cell heap \<Rightarrow> ('m \<times> 'm cell heap) option"
  ListMeta_DeepCopyInto :: "'m \<Rightarrow> 'm cell heap \<Rightarrow> ('m \<times> 'm cell heap) option"
  Time_DeepCopy :: "nat option \<Rightarrow> 'm cell heap \<Rightarrow> (nat option \<times> 'm cell heap) option"
  ObjectMeta_zero :: 'm
  map_order :: "(string \<times> string) list \<Rightarrow> (string \<times> string) list"

section \<open>Specs and statuses\<close>

text \<open>\<^verbatim>\<open>*out = new(T); **out = **in\<close>, for a struct or string without pointers.\<close>

definition copy_leaf :: "('c \<Rightarrow> 'a option) \<Rightarrow> ('a \<Rightarrow> 'c) \<Rightarrow> nat option \<Rightarrow> 'c heap \<Rightarrow> (nat option \<times> 'c heap) option" where
  "copy_leaf get mk = copy_pointer get mk (\<lambda>x h. Some (x, h))"

text \<open>\<^verbatim>\<open>make\<close> and the built-in \<^verbatim>\<open>copy\<close>, which assigns the elements one by one.\<close>

definition copy_strings :: "slice option \<Rightarrow> 'm cell heap \<Rightarrow> (slice option \<times> 'm cell heap) option" where
  "copy_strings = copy_slice strings_of StringsC [] (\<lambda>x h. Some (x, h))"

definition BootArtifactSpec_DeepCopyInto :: "go_BootArtifactSpec \<Rightarrow> 'm cell heap \<Rightarrow> (go_BootArtifactSpec \<times> 'm cell heap) option" where
  "BootArtifactSpec_DeepCopyInto x h = do {
     (p, h) \<leftarrow> copy_leaf string_of StringC (gas_SHA256 x) h;
     (q, h) \<leftarrow> copy_leaf string_of StringC (gas_SHA512 x) h;
     Some (x\<lparr>gas_SHA256 := p, gas_SHA512 := q\<rparr>, h)
   }"

definition BootArtifactSpec_DeepCopy :: "nat option \<Rightarrow> 'm cell heap \<Rightarrow> (nat option \<times> 'm cell heap) option" where
  "BootArtifactSpec_DeepCopy = copy_pointer artifactSpec_of ArtifactSpecC BootArtifactSpec_DeepCopyInto"

definition BootArtifactStatus_DeepCopyInto :: "'m apimachinery \<Rightarrow> go_BootArtifactStatus \<Rightarrow> 'm cell heap \<Rightarrow> (go_BootArtifactStatus \<times> 'm cell heap) option" where
  "BootArtifactStatus_DeepCopyInto lib x h = do {
     (p, h) \<leftarrow> Time_DeepCopy lib (gat_LastFailureTime x) h;
     (q, h) \<leftarrow> Time_DeepCopy lib (gat_LastChecked x) h;
     Some (x\<lparr>gat_LastFailureTime := p, gat_LastChecked := q\<rparr>, h)
   }"

definition BootArtifactStatus_DeepCopy :: "'m apimachinery \<Rightarrow> nat option \<Rightarrow> 'm cell heap \<Rightarrow> (nat option \<times> 'm cell heap) option" where
  "BootArtifactStatus_DeepCopy lib = copy_pointer artifactStatus_of ArtifactStatusC (BootArtifactStatus_DeepCopyInto lib)"

definition BootConfigISOSpec_DeepCopyInto :: "BootConfigISOSpec \<Rightarrow> 'm cell heap \<Rightarrow> (BootConfigISOSpec \<times> 'm cell heap) option" where
  "BootConfigISOSpec_DeepCopyInto x h = Some (x, h)"

definition BootConfigISOSpec_DeepCopy :: "nat option \<Rightarrow> 'm cell heap \<Rightarrow> (nat option \<times> 'm cell heap) option" where
  "BootConfigISOSpec_DeepCopy = copy_pointer iso_of ISOC BootConfigISOSpec_DeepCopyInto"

definition BootConfigNetbootSpec_DeepCopyInto :: "BootConfigNetbootSpec \<Rightarrow> 'm cell heap \<Rightarrow> (BootConfigNetbootSpec \<times> 'm cell heap) option" where
  "BootConfigNetbootSpec_DeepCopyInto x h = Some (x, h)"

definition BootConfigNetbootSpec_DeepCopy :: "nat option \<Rightarrow> 'm cell heap \<Rightarrow> (nat option \<times> 'm cell heap) option" where
  "BootConfigNetbootSpec_DeepCopy = copy_pointer netboot_of NetbootC BootConfigNetbootSpec_DeepCopyInto"

definition BootConfigSpec_DeepCopyInto :: "go_BootConfigSpec \<Rightarrow> 'm cell heap \<Rightarrow> (go_BootConfigSpec \<times> 'm cell heap) option" where
  "BootConfigSpec_DeepCopyInto x h = do {
     (p, h) \<leftarrow> copy_leaf netboot_of NetbootC (gcs_Netboot x) h;
     (q, h) \<leftarrow> copy_leaf iso_of ISOC (gcs_ISO x) h;
     Some (x\<lparr>gcs_Netboot := p, gcs_ISO := q\<rparr>, h)
   }"

definition BootConfigSpec_DeepCopy :: "nat option \<Rightarrow> 'm cell heap \<Rightarrow> (nat option \<times> 'm cell heap) option" where
  "BootConfigSpec_DeepCopy = copy_pointer configSpec_of ConfigSpecC BootConfigSpec_DeepCopyInto"

definition BootConfigStatus_DeepCopyInto :: "BootConfigStatus \<Rightarrow> 'm cell heap \<Rightarrow> (BootConfigStatus \<times> 'm cell heap) option" where
  "BootConfigStatus_DeepCopyInto x h = Some (x, h)"

definition BootConfigStatus_DeepCopy :: "nat option \<Rightarrow> 'm cell heap \<Rightarrow> (nat option \<times> 'm cell heap) option" where
  "BootConfigStatus_DeepCopy = copy_pointer configStatus_of ConfigStatusC BootConfigStatus_DeepCopyInto"

definition MachineSpec_DeepCopyInto :: "MachineSpec \<Rightarrow> 'm cell heap \<Rightarrow> (MachineSpec \<times> 'm cell heap) option" where
  "MachineSpec_DeepCopyInto x h = Some (x, h)"

definition MachineSpec_DeepCopy :: "nat option \<Rightarrow> 'm cell heap \<Rightarrow> (nat option \<times> 'm cell heap) option" where
  "MachineSpec_DeepCopy = copy_pointer machineSpec_of MachineSpecC MachineSpec_DeepCopyInto"

definition ProvisionSpec_DeepCopyInto :: "go_ProvisionSpec \<Rightarrow> 'm cell heap \<Rightarrow> (go_ProvisionSpec \<times> 'm cell heap) option" where
  "ProvisionSpec_DeepCopyInto x h = do {
     (p, h) \<leftarrow> copy_strings (gps_ConfigMaps x) h;
     (q, h) \<leftarrow> copy_strings (gps_Secrets x) h;
     Some (x\<lparr>gps_ConfigMaps := p, gps_Secrets := q\<rparr>, h)
   }"

definition ProvisionSpec_DeepCopy :: "nat option \<Rightarrow> 'm cell heap \<Rightarrow> (nat option \<times> 'm cell heap) option" where
  "ProvisionSpec_DeepCopy = copy_pointer provisionSpec_of ProvisionSpecC ProvisionSpec_DeepCopyInto"

definition ProvisionStatus_DeepCopyInto :: "'m apimachinery \<Rightarrow> go_ProvisionStatus \<Rightarrow> 'm cell heap \<Rightarrow> (go_ProvisionStatus \<times> 'm cell heap) option" where
  "ProvisionStatus_DeepCopyInto lib x h = do {
     (p, h) \<leftarrow> Time_DeepCopy lib (gpt_LastUpdated x) h;
     Some (x\<lparr>gpt_LastUpdated := p\<rparr>, h)
   }"

definition ProvisionStatus_DeepCopy :: "'m apimachinery \<Rightarrow> nat option \<Rightarrow> 'm cell heap \<Rightarrow> (nat option \<times> 'm cell heap) option" where
  "ProvisionStatus_DeepCopy lib = copy_pointer provisionStatus_of ProvisionStatusC (ProvisionStatus_DeepCopyInto lib)"

definition ProvisionAutomationSpec_DeepCopyInto :: "'m apimachinery \<Rightarrow> go_ProvisionAutomationSpec \<Rightarrow> 'm cell heap \<Rightarrow> (go_ProvisionAutomationSpec \<times> 'm cell heap) option" where
  "ProvisionAutomationSpec_DeepCopyInto lib x h = do {
     (p, h) \<leftarrow> copy_map files_of FilesC (map_order lib) (gpa_Files x) h;
     Some (x\<lparr>gpa_Files := p\<rparr>, h)
   }"

definition ProvisionAutomationSpec_DeepCopy :: "'m apimachinery \<Rightarrow> nat option \<Rightarrow> 'm cell heap \<Rightarrow> (nat option \<times> 'm cell heap) option" where
  "ProvisionAutomationSpec_DeepCopy lib = copy_pointer automationSpec_of AutomationSpecC (ProvisionAutomationSpec_DeepCopyInto lib)"

section \<open>Objects\<close>

definition BootArtifact_DeepCopyInto :: "'m apimachinery \<Rightarrow> 'm go_BootArtifact \<Rightarrow> 'm cell heap \<Rightarrow> ('m go_BootArtifact \<times> 'm cell heap) option" where
  "BootArtifact_DeepCopyInto lib x h = do {
     (p, h) \<leftarrow> ObjectMeta_DeepCopyInto lib (gar_ObjectMeta x) h;
     (q, h) \<leftarrow> BootArtifactSpec_DeepCopyInto (gar_Spec x) h;
     (r, h) \<leftarrow> BootArtifactStatus_DeepCopyInto lib (gar_Status x) h;
     Some (x\<lparr>gar_ObjectMeta := p, gar_Spec := q, gar_Status := r\<rparr>, h)
   }"

definition BootArtifact_DeepCopy :: "'m apimachinery \<Rightarrow> nat option \<Rightarrow> 'm cell heap \<Rightarrow> (nat option \<times> 'm cell heap) option" where
  "BootArtifact_DeepCopy lib = copy_pointer artifact_of ArtifactC (BootArtifact_DeepCopyInto lib)"

definition BootConfig_DeepCopyInto :: "'m apimachinery \<Rightarrow> 'm go_BootConfig \<Rightarrow> 'm cell heap \<Rightarrow> ('m go_BootConfig \<times> 'm cell heap) option" where
  "BootConfig_DeepCopyInto lib x h = do {
     (p, h) \<leftarrow> ObjectMeta_DeepCopyInto lib (gcf_ObjectMeta x) h;
     (q, h) \<leftarrow> BootConfigSpec_DeepCopyInto (gcf_Spec x) h;
     Some (x\<lparr>gcf_ObjectMeta := p, gcf_Spec := q\<rparr>, h)
   }"

definition BootConfig_DeepCopy :: "'m apimachinery \<Rightarrow> nat option \<Rightarrow> 'm cell heap \<Rightarrow> (nat option \<times> 'm cell heap) option" where
  "BootConfig_DeepCopy lib = copy_pointer config_of ConfigC (BootConfig_DeepCopyInto lib)"

definition Machine_DeepCopyInto :: "'m apimachinery \<Rightarrow> 'm go_Machine \<Rightarrow> 'm cell heap \<Rightarrow> ('m go_Machine \<times> 'm cell heap) option" where
  "Machine_DeepCopyInto lib x h = do {
     (p, h) \<leftarrow> ObjectMeta_DeepCopyInto lib (gmc_ObjectMeta x) h;
     Some (x\<lparr>gmc_ObjectMeta := p\<rparr>, h)
   }"

definition Machine_DeepCopy :: "'m apimachinery \<Rightarrow> nat option \<Rightarrow> 'm cell heap \<Rightarrow> (nat option \<times> 'm cell heap) option" where
  "Machine_DeepCopy lib = copy_pointer machine_of MachineC (Machine_DeepCopyInto lib)"

definition Provision_DeepCopyInto :: "'m apimachinery \<Rightarrow> 'm go_Provision \<Rightarrow> 'm cell heap \<Rightarrow> ('m go_Provision \<times> 'm cell heap) option" where
  "Provision_DeepCopyInto lib x h = do {
     (p, h) \<leftarrow> ObjectMeta_DeepCopyInto lib (gpr_ObjectMeta x) h;
     (q, h) \<leftarrow> ProvisionSpec_DeepCopyInto (gpr_Spec x) h;
     (r, h) \<leftarrow> ProvisionStatus_DeepCopyInto lib (gpr_Status x) h;
     Some (x\<lparr>gpr_ObjectMeta := p, gpr_Spec := q, gpr_Status := r\<rparr>, h)
   }"

definition Provision_DeepCopy :: "'m apimachinery \<Rightarrow> nat option \<Rightarrow> 'm cell heap \<Rightarrow> (nat option \<times> 'm cell heap) option" where
  "Provision_DeepCopy lib = copy_pointer provision_of ProvisionC (Provision_DeepCopyInto lib)"

definition ProvisionAutomation_DeepCopyInto :: "'m apimachinery \<Rightarrow> 'm go_ProvisionAutomation \<Rightarrow> 'm cell heap \<Rightarrow> ('m go_ProvisionAutomation \<times> 'm cell heap) option" where
  "ProvisionAutomation_DeepCopyInto lib x h = do {
     (p, h) \<leftarrow> ObjectMeta_DeepCopyInto lib (gau_ObjectMeta x) h;
     (q, h) \<leftarrow> ProvisionAutomationSpec_DeepCopyInto lib (gau_Spec x) h;
     Some (x\<lparr>gau_ObjectMeta := p, gau_Spec := q\<rparr>, h)
   }"

definition ProvisionAutomation_DeepCopy :: "'m apimachinery \<Rightarrow> nat option \<Rightarrow> 'm cell heap \<Rightarrow> (nat option \<times> 'm cell heap) option" where
  "ProvisionAutomation_DeepCopy lib = copy_pointer automation_of AutomationC (ProvisionAutomation_DeepCopyInto lib)"

section \<open>Lists\<close>

text \<open>The elements of a new array are zero.\<close>

definition zero_BootArtifact :: "'m apimachinery \<Rightarrow> 'm go_BootArtifact" where
  "zero_BootArtifact lib = \<lparr>gar_TypeMeta = \<lparr>tm_Kind = [], tm_APIVersion = []\<rparr>, gar_ObjectMeta = ObjectMeta_zero lib,
     gar_Spec = \<lparr>gas_URL = [], gas_SHA256 = None, gas_SHA512 = None\<rparr>,
     gar_Status = \<lparr>gat_Phase = BootArtifactPhaseUnset, gat_Message = [], gat_FailureCount = 0, gat_LastFailureTime = None, gat_LastChecked = None\<rparr>\<rparr>"

definition zero_BootConfig :: "'m apimachinery \<Rightarrow> 'm go_BootConfig" where
  "zero_BootConfig lib = \<lparr>gcf_TypeMeta = \<lparr>tm_Kind = [], tm_APIVersion = []\<rparr>, gcf_ObjectMeta = ObjectMeta_zero lib,
     gcf_Spec = \<lparr>gcs_Netboot = None, gcs_ISO = None, gcs_KernelArgs = []\<rparr>,
     gcf_Status = \<lparr>bc_Phase = BootConfigPhaseUnset, bc_Message = []\<rparr>\<rparr>"

definition zero_Machine :: "'m apimachinery \<Rightarrow> 'm go_Machine" where
  "zero_Machine lib = \<lparr>gmc_TypeMeta = \<lparr>tm_Kind = [], tm_APIVersion = []\<rparr>, gmc_ObjectMeta = ObjectMeta_zero lib,
     gmc_Spec = \<lparr>mach_MAC = []\<rparr>\<rparr>"

definition zero_Provision :: "'m apimachinery \<Rightarrow> 'm go_Provision" where
  "zero_Provision lib = \<lparr>gpr_TypeMeta = \<lparr>tm_Kind = [], tm_APIVersion = []\<rparr>, gpr_ObjectMeta = ObjectMeta_zero lib,
     gpr_Spec = \<lparr>gps_MachineRef = [], gps_BootConfigRef = [], gps_ProvisionAutomationRef = [], gps_ConfigMaps = None, gps_Secrets = None\<rparr>,
     gpr_Status = \<lparr>gpt_Phase = ProvisionPhaseUnset, gpt_Message = [], gpt_LastUpdated = None, gpt_IP = []\<rparr>\<rparr>"

definition zero_ProvisionAutomation :: "'m apimachinery \<Rightarrow> 'm go_ProvisionAutomation" where
  "zero_ProvisionAutomation lib = \<lparr>gau_TypeMeta = \<lparr>tm_Kind = [], tm_APIVersion = []\<rparr>, gau_ObjectMeta = ObjectMeta_zero lib,
     gau_Spec = \<lparr>gpa_Files = None\<rparr>\<rparr>"

definition BootArtifactList_DeepCopyInto :: "'m apimachinery \<Rightarrow> 'm go_List \<Rightarrow> 'm cell heap \<Rightarrow> ('m go_List \<times> 'm cell heap) option" where
  "BootArtifactList_DeepCopyInto lib x h = do {
     (p, h) \<leftarrow> ListMeta_DeepCopyInto lib (gl_ListMeta x) h;
     (q, h) \<leftarrow> copy_slice artifacts_of ArtifactsC (zero_BootArtifact lib) (BootArtifact_DeepCopyInto lib) (gl_Items x) h;
     Some (x\<lparr>gl_ListMeta := p, gl_Items := q\<rparr>, h)
   }"

definition BootArtifactList_DeepCopy :: "'m apimachinery \<Rightarrow> nat option \<Rightarrow> 'm cell heap \<Rightarrow> (nat option \<times> 'm cell heap) option" where
  "BootArtifactList_DeepCopy lib = copy_pointer artifactList_of ArtifactListC (BootArtifactList_DeepCopyInto lib)"

definition BootConfigList_DeepCopyInto :: "'m apimachinery \<Rightarrow> 'm go_List \<Rightarrow> 'm cell heap \<Rightarrow> ('m go_List \<times> 'm cell heap) option" where
  "BootConfigList_DeepCopyInto lib x h = do {
     (p, h) \<leftarrow> ListMeta_DeepCopyInto lib (gl_ListMeta x) h;
     (q, h) \<leftarrow> copy_slice configs_of ConfigsC (zero_BootConfig lib) (BootConfig_DeepCopyInto lib) (gl_Items x) h;
     Some (x\<lparr>gl_ListMeta := p, gl_Items := q\<rparr>, h)
   }"

definition BootConfigList_DeepCopy :: "'m apimachinery \<Rightarrow> nat option \<Rightarrow> 'm cell heap \<Rightarrow> (nat option \<times> 'm cell heap) option" where
  "BootConfigList_DeepCopy lib = copy_pointer configList_of ConfigListC (BootConfigList_DeepCopyInto lib)"

definition MachineList_DeepCopyInto :: "'m apimachinery \<Rightarrow> 'm go_List \<Rightarrow> 'm cell heap \<Rightarrow> ('m go_List \<times> 'm cell heap) option" where
  "MachineList_DeepCopyInto lib x h = do {
     (p, h) \<leftarrow> ListMeta_DeepCopyInto lib (gl_ListMeta x) h;
     (q, h) \<leftarrow> copy_slice machines_of MachinesC (zero_Machine lib) (Machine_DeepCopyInto lib) (gl_Items x) h;
     Some (x\<lparr>gl_ListMeta := p, gl_Items := q\<rparr>, h)
   }"

definition MachineList_DeepCopy :: "'m apimachinery \<Rightarrow> nat option \<Rightarrow> 'm cell heap \<Rightarrow> (nat option \<times> 'm cell heap) option" where
  "MachineList_DeepCopy lib = copy_pointer machineList_of MachineListC (MachineList_DeepCopyInto lib)"

definition ProvisionList_DeepCopyInto :: "'m apimachinery \<Rightarrow> 'm go_List \<Rightarrow> 'm cell heap \<Rightarrow> ('m go_List \<times> 'm cell heap) option" where
  "ProvisionList_DeepCopyInto lib x h = do {
     (p, h) \<leftarrow> ListMeta_DeepCopyInto lib (gl_ListMeta x) h;
     (q, h) \<leftarrow> copy_slice provisions_of ProvisionsC (zero_Provision lib) (Provision_DeepCopyInto lib) (gl_Items x) h;
     Some (x\<lparr>gl_ListMeta := p, gl_Items := q\<rparr>, h)
   }"

definition ProvisionList_DeepCopy :: "'m apimachinery \<Rightarrow> nat option \<Rightarrow> 'm cell heap \<Rightarrow> (nat option \<times> 'm cell heap) option" where
  "ProvisionList_DeepCopy lib = copy_pointer provisionList_of ProvisionListC (ProvisionList_DeepCopyInto lib)"

definition ProvisionAutomationList_DeepCopyInto :: "'m apimachinery \<Rightarrow> 'm go_List \<Rightarrow> 'm cell heap \<Rightarrow> ('m go_List \<times> 'm cell heap) option" where
  "ProvisionAutomationList_DeepCopyInto lib x h = do {
     (p, h) \<leftarrow> ListMeta_DeepCopyInto lib (gl_ListMeta x) h;
     (q, h) \<leftarrow> copy_slice automations_of AutomationsC (zero_ProvisionAutomation lib) (ProvisionAutomation_DeepCopyInto lib) (gl_Items x) h;
     Some (x\<lparr>gl_ListMeta := p, gl_Items := q\<rparr>, h)
   }"

definition ProvisionAutomationList_DeepCopy :: "'m apimachinery \<Rightarrow> nat option \<Rightarrow> 'm cell heap \<Rightarrow> (nat option \<times> 'm cell heap) option" where
  "ProvisionAutomationList_DeepCopy lib = copy_pointer automationList_of AutomationListC (ProvisionAutomationList_DeepCopyInto lib)"

section \<open>Runtime objects\<close>

text \<open>A value of the interface \<^verbatim>\<open>runtime.Object\<close> other than nil: a dynamic type and a pointer, which may be nil.\<close>

datatype Object =
    BootArtifactObject (pointer_of: "nat option")
  | BootArtifactListObject (pointer_of: "nat option")
  | BootConfigObject (pointer_of: "nat option")
  | BootConfigListObject (pointer_of: "nat option")
  | MachineObject (pointer_of: "nat option")
  | MachineListObject (pointer_of: "nat option")
  | ProvisionObject (pointer_of: "nat option")
  | ProvisionListObject (pointer_of: "nat option")
  | ProvisionAutomationObject (pointer_of: "nat option")
  | ProvisionAutomationListObject (pointer_of: "nat option")

text \<open>\<^verbatim>\<open>if c := in.DeepCopy(); c != nil { return c }; return nil\<close>: a nil pointer becomes the nil interface.\<close>

definition as_object :: "(nat option \<Rightarrow> Object) \<Rightarrow> (nat option \<times> 'm cell heap) option \<Rightarrow> (Object option \<times> 'm cell heap) option" where
  "as_object mk r = do { (c, h) \<leftarrow> r; Some (case c of None \<Rightarrow> None | Some _ \<Rightarrow> Some (mk c), h) }"

definition BootArtifact_DeepCopyObject :: "'m apimachinery \<Rightarrow> nat option \<Rightarrow> 'm cell heap \<Rightarrow> (Object option \<times> 'm cell heap) option" where
  "BootArtifact_DeepCopyObject lib p h = as_object BootArtifactObject (BootArtifact_DeepCopy lib p h)"

definition BootArtifactList_DeepCopyObject :: "'m apimachinery \<Rightarrow> nat option \<Rightarrow> 'm cell heap \<Rightarrow> (Object option \<times> 'm cell heap) option" where
  "BootArtifactList_DeepCopyObject lib p h = as_object BootArtifactListObject (BootArtifactList_DeepCopy lib p h)"

definition BootConfig_DeepCopyObject :: "'m apimachinery \<Rightarrow> nat option \<Rightarrow> 'm cell heap \<Rightarrow> (Object option \<times> 'm cell heap) option" where
  "BootConfig_DeepCopyObject lib p h = as_object BootConfigObject (BootConfig_DeepCopy lib p h)"

definition BootConfigList_DeepCopyObject :: "'m apimachinery \<Rightarrow> nat option \<Rightarrow> 'm cell heap \<Rightarrow> (Object option \<times> 'm cell heap) option" where
  "BootConfigList_DeepCopyObject lib p h = as_object BootConfigListObject (BootConfigList_DeepCopy lib p h)"

definition Machine_DeepCopyObject :: "'m apimachinery \<Rightarrow> nat option \<Rightarrow> 'm cell heap \<Rightarrow> (Object option \<times> 'm cell heap) option" where
  "Machine_DeepCopyObject lib p h = as_object MachineObject (Machine_DeepCopy lib p h)"

definition MachineList_DeepCopyObject :: "'m apimachinery \<Rightarrow> nat option \<Rightarrow> 'm cell heap \<Rightarrow> (Object option \<times> 'm cell heap) option" where
  "MachineList_DeepCopyObject lib p h = as_object MachineListObject (MachineList_DeepCopy lib p h)"

definition Provision_DeepCopyObject :: "'m apimachinery \<Rightarrow> nat option \<Rightarrow> 'm cell heap \<Rightarrow> (Object option \<times> 'm cell heap) option" where
  "Provision_DeepCopyObject lib p h = as_object ProvisionObject (Provision_DeepCopy lib p h)"

definition ProvisionList_DeepCopyObject :: "'m apimachinery \<Rightarrow> nat option \<Rightarrow> 'm cell heap \<Rightarrow> (Object option \<times> 'm cell heap) option" where
  "ProvisionList_DeepCopyObject lib p h = as_object ProvisionListObject (ProvisionList_DeepCopy lib p h)"

definition ProvisionAutomation_DeepCopyObject :: "'m apimachinery \<Rightarrow> nat option \<Rightarrow> 'm cell heap \<Rightarrow> (Object option \<times> 'm cell heap) option" where
  "ProvisionAutomation_DeepCopyObject lib p h = as_object ProvisionAutomationObject (ProvisionAutomation_DeepCopy lib p h)"

definition ProvisionAutomationList_DeepCopyObject :: "'m apimachinery \<Rightarrow> nat option \<Rightarrow> 'm cell heap \<Rightarrow> (Object option \<times> 'm cell heap) option" where
  "ProvisionAutomationList_DeepCopyObject lib p h = as_object ProvisionAutomationListObject (ProvisionAutomationList_DeepCopy lib p h)"

text \<open>The call of the method through the interface.\<close>

fun DeepCopyObject :: "'m apimachinery \<Rightarrow> Object \<Rightarrow> 'm cell heap \<Rightarrow> (Object option \<times> 'm cell heap) option" where
  "DeepCopyObject lib (BootArtifactObject p) h = BootArtifact_DeepCopyObject lib p h"
| "DeepCopyObject lib (BootArtifactListObject p) h = BootArtifactList_DeepCopyObject lib p h"
| "DeepCopyObject lib (BootConfigObject p) h = BootConfig_DeepCopyObject lib p h"
| "DeepCopyObject lib (BootConfigListObject p) h = BootConfigList_DeepCopyObject lib p h"
| "DeepCopyObject lib (MachineObject p) h = Machine_DeepCopyObject lib p h"
| "DeepCopyObject lib (MachineListObject p) h = MachineList_DeepCopyObject lib p h"
| "DeepCopyObject lib (ProvisionObject p) h = Provision_DeepCopyObject lib p h"
| "DeepCopyObject lib (ProvisionListObject p) h = ProvisionList_DeepCopyObject lib p h"
| "DeepCopyObject lib (ProvisionAutomationObject p) h = ProvisionAutomation_DeepCopyObject lib p h"
| "DeepCopyObject lib (ProvisionAutomationListObject p) h = ProvisionAutomationList_DeepCopyObject lib p h"

end
