(* ===== verification/DeepCopyProps.thy ===== *)
theory DeepCopyProps
  imports DeepCopy
begin

text \<open>
  What the structs of \<open>DeepCopy\<close> stand for, as values of \<open>ApiTypes\<close>, and that every generated copy keeps the contract
  \<open>deep_copier\<close>: interpretations for the types without parts of the library, and for the others lemmas from the contract of
  the library's copies.
\<close>

section \<open>What the library promises\<close>

text \<open>Which values the library's structs stand for, and which addresses they lead to.\<close>

record 'm meta_values =
  object_view :: "'m cell heap \<Rightarrow> 'm \<Rightarrow> ObjectMeta option"
  object_reach :: "'m cell heap \<Rightarrow> 'm \<Rightarrow> nat set"
  list_view :: "'m cell heap \<Rightarrow> 'm \<Rightarrow> nat option"
  list_reach :: "'m cell heap \<Rightarrow> 'm \<Rightarrow> nat set"

abbreviation "leaf_view get \<equiv> pointer_view get (\<lambda>_ x. Some x)"
abbreviation "leaf_reach get \<equiv> pointer_reach get (\<lambda>_ _. {})"

text \<open>The library's copies are deep copies, and \<^verbatim>\<open>range\<close> gives every entry of a map once.\<close>

definition lib_ok :: "'m apimachinery \<Rightarrow> 'm meta_values \<Rightarrow> bool" where
  "lib_ok lib M \<longleftrightarrow>
     deep_copier (ObjectMeta_DeepCopyInto lib) (object_view M) (object_reach M)
     \<and> deep_copier (ListMeta_DeepCopyInto lib) (list_view M) (list_reach M)
     \<and> deep_copier (Time_DeepCopy lib) (leaf_view time_of) (leaf_reach time_of)
     \<and> range_order_ok (map_order lib)"

lemma lib_okD:
  assumes "lib_ok lib M"
  shows "deep_copier (ObjectMeta_DeepCopyInto lib) (object_view M) (object_reach M)"
    and "deep_copier (ListMeta_DeepCopyInto lib) (list_view M) (list_reach M)"
    and "deep_copier (Time_DeepCopy lib) (leaf_view time_of) (leaf_reach time_of)"
    and "range_order_ok (map_order lib)"
  using assms by (simp_all add: lib_ok_def)

lemma leaf_copier: "(\<And>x. get (mk x) = Some x) \<Longrightarrow> deep_copier (copy_leaf get mk) (leaf_view get) (leaf_reach get)"
  unfolding copy_leaf_def by (rule pointer_copier [OF _ plain_copier])

abbreviation "strings_view \<equiv> slice_view strings_of (\<lambda>_ x. Some x)"
abbreviation "strings_reach \<equiv> slice_reach strings_of (\<lambda>_ _. {})"

interpretation strings_copy: deep_copier copy_strings strings_view strings_reach
  unfolding copy_strings_def by (rule slice_copier [OF _ plain_copier]) simp

section \<open>Specs and statuses\<close>

definition BootArtifactSpec_view :: "'m cell heap \<Rightarrow> go_BootArtifactSpec \<Rightarrow> BootArtifactSpec option" where
  "BootArtifactSpec_view h x = do {
     a \<leftarrow> leaf_view string_of h (gas_SHA256 x);
     b \<leftarrow> leaf_view string_of h (gas_SHA512 x);
     Some \<lparr>ba_URL = gas_URL x, ba_SHA256 = a, ba_SHA512 = b\<rparr>
   }"

definition BootArtifactSpec_reach :: "'m cell heap \<Rightarrow> go_BootArtifactSpec \<Rightarrow> nat set" where
  "BootArtifactSpec_reach h x = leaf_reach string_of h (gas_SHA256 x) \<union> leaf_reach string_of h (gas_SHA512 x)"

interpretation artifact_spec: deep_copier BootArtifactSpec_DeepCopyInto BootArtifactSpec_view BootArtifactSpec_reach
  by (rule struct2_copier [OF leaf_copier [of string_of StringC] leaf_copier [of string_of StringC], where
        f = gas_SHA256 and g = gas_SHA512 and u = "\<lambda>x p q. x\<lparr>gas_SHA256 := p, gas_SHA512 := q\<rparr>"
        and mk = "\<lambda>x a b. \<lparr>ba_URL = gas_URL x, ba_SHA256 = a, ba_SHA512 = b\<rparr>"])
    (simp_all add: BootArtifactSpec_DeepCopyInto_def BootArtifactSpec_view_def BootArtifactSpec_reach_def)

definition BootArtifactStatus_view :: "'m cell heap \<Rightarrow> go_BootArtifactStatus \<Rightarrow> BootArtifactStatus option" where
  "BootArtifactStatus_view h x = do {
     a \<leftarrow> leaf_view time_of h (gat_LastFailureTime x);
     b \<leftarrow> leaf_view time_of h (gat_LastChecked x);
     Some \<lparr>ba_Phase = gat_Phase x, ba_Message = gat_Message x, ba_FailureCount = gat_FailureCount x,
       ba_LastFailureTime = a, ba_LastChecked = b\<rparr>
   }"

definition BootArtifactStatus_reach :: "'m cell heap \<Rightarrow> go_BootArtifactStatus \<Rightarrow> nat set" where
  "BootArtifactStatus_reach h x = leaf_reach time_of h (gat_LastFailureTime x) \<union> leaf_reach time_of h (gat_LastChecked x)"

lemma artifact_status:
  assumes "lib_ok lib M"
  shows "deep_copier (BootArtifactStatus_DeepCopyInto lib) BootArtifactStatus_view BootArtifactStatus_reach"
  by (rule struct2_copier [OF lib_okD(3) [OF assms] lib_okD(3) [OF assms], where
        f = gat_LastFailureTime and g = gat_LastChecked and u = "\<lambda>x p q. x\<lparr>gat_LastFailureTime := p, gat_LastChecked := q\<rparr>"
        and mk = "\<lambda>x a b. \<lparr>ba_Phase = gat_Phase x, ba_Message = gat_Message x, ba_FailureCount = gat_FailureCount x,
          ba_LastFailureTime = a, ba_LastChecked = b\<rparr>"])
    (simp_all add: BootArtifactStatus_DeepCopyInto_def BootArtifactStatus_view_def BootArtifactStatus_reach_def)

interpretation iso_spec: deep_copier BootConfigISOSpec_DeepCopyInto "\<lambda>_ x. Some x" "\<lambda>_ _. {}"
  unfolding BootConfigISOSpec_DeepCopyInto_def by (rule plain_copier)

interpretation netboot_spec: deep_copier BootConfigNetbootSpec_DeepCopyInto "\<lambda>_ x. Some x" "\<lambda>_ _. {}"
  unfolding BootConfigNetbootSpec_DeepCopyInto_def by (rule plain_copier)

interpretation config_status: deep_copier BootConfigStatus_DeepCopyInto "\<lambda>_ x. Some x" "\<lambda>_ _. {}"
  unfolding BootConfigStatus_DeepCopyInto_def by (rule plain_copier)

interpretation machine_spec: deep_copier MachineSpec_DeepCopyInto "\<lambda>_ x. Some x" "\<lambda>_ _. {}"
  unfolding MachineSpec_DeepCopyInto_def by (rule plain_copier)

definition BootConfigSpec_view :: "'m cell heap \<Rightarrow> go_BootConfigSpec \<Rightarrow> BootConfigSpec option" where
  "BootConfigSpec_view h x = do {
     a \<leftarrow> leaf_view netboot_of h (gcs_Netboot x);
     b \<leftarrow> leaf_view iso_of h (gcs_ISO x);
     Some \<lparr>bc_Netboot = a, bc_ISO = b, bc_KernelArgs = gcs_KernelArgs x\<rparr>
   }"

definition BootConfigSpec_reach :: "'m cell heap \<Rightarrow> go_BootConfigSpec \<Rightarrow> nat set" where
  "BootConfigSpec_reach h x = leaf_reach netboot_of h (gcs_Netboot x) \<union> leaf_reach iso_of h (gcs_ISO x)"

interpretation config_spec: deep_copier BootConfigSpec_DeepCopyInto BootConfigSpec_view BootConfigSpec_reach
  by (rule struct2_copier [OF leaf_copier [of netboot_of NetbootC] leaf_copier [of iso_of ISOC], where
        f = gcs_Netboot and g = gcs_ISO and u = "\<lambda>x p q. x\<lparr>gcs_Netboot := p, gcs_ISO := q\<rparr>"
        and mk = "\<lambda>x a b. \<lparr>bc_Netboot = a, bc_ISO = b, bc_KernelArgs = gcs_KernelArgs x\<rparr>"])
    (simp_all add: BootConfigSpec_DeepCopyInto_def BootConfigSpec_view_def BootConfigSpec_reach_def)

text \<open>A nil slice stands for no elements, a nil map for no entries.\<close>

definition list_of :: "'a list option \<Rightarrow> 'a list" where
  "list_of p = (case p of None \<Rightarrow> [] | Some xs \<Rightarrow> xs)"

definition ProvisionSpec_view :: "'m cell heap \<Rightarrow> go_ProvisionSpec \<Rightarrow> ProvisionSpec option" where
  "ProvisionSpec_view h x = do {
     a \<leftarrow> strings_view h (gps_ConfigMaps x);
     b \<leftarrow> strings_view h (gps_Secrets x);
     Some \<lparr>pr_MachineRef = gps_MachineRef x, pr_BootConfigRef = gps_BootConfigRef x,
       pr_ProvisionAutomationRef = gps_ProvisionAutomationRef x, pr_ConfigMaps = list_of a, pr_Secrets = list_of b\<rparr>
   }"

definition ProvisionSpec_reach :: "'m cell heap \<Rightarrow> go_ProvisionSpec \<Rightarrow> nat set" where
  "ProvisionSpec_reach h x = strings_reach h (gps_ConfigMaps x) \<union> strings_reach h (gps_Secrets x)"

interpretation provision_spec: deep_copier ProvisionSpec_DeepCopyInto ProvisionSpec_view ProvisionSpec_reach
  by (rule struct2_copier [OF strings_copy.deep_copier_axioms strings_copy.deep_copier_axioms, where
        f = gps_ConfigMaps and g = gps_Secrets and u = "\<lambda>x p q. x\<lparr>gps_ConfigMaps := p, gps_Secrets := q\<rparr>"
        and mk = "\<lambda>x a b. \<lparr>pr_MachineRef = gps_MachineRef x, pr_BootConfigRef = gps_BootConfigRef x,
          pr_ProvisionAutomationRef = gps_ProvisionAutomationRef x, pr_ConfigMaps = list_of a, pr_Secrets = list_of b\<rparr>"])
    (simp_all add: ProvisionSpec_DeepCopyInto_def ProvisionSpec_view_def ProvisionSpec_reach_def)

definition ProvisionStatus_view :: "'m cell heap \<Rightarrow> go_ProvisionStatus \<Rightarrow> ProvisionStatus option" where
  "ProvisionStatus_view h x = do {
     a \<leftarrow> leaf_view time_of h (gpt_LastUpdated x);
     Some \<lparr>pr_Phase = gpt_Phase x, pr_Message = gpt_Message x, pr_LastUpdated = a, pr_IP = gpt_IP x\<rparr>
   }"

definition ProvisionStatus_reach :: "'m cell heap \<Rightarrow> go_ProvisionStatus \<Rightarrow> nat set" where
  "ProvisionStatus_reach h x = leaf_reach time_of h (gpt_LastUpdated x)"

lemma provision_status:
  assumes "lib_ok lib M"
  shows "deep_copier (ProvisionStatus_DeepCopyInto lib) ProvisionStatus_view ProvisionStatus_reach"
  by (rule struct1_copier [OF lib_okD(3) [OF assms], where f = gpt_LastUpdated and u = "\<lambda>x p. x\<lparr>gpt_LastUpdated := p\<rparr>"
        and mk = "\<lambda>x a. \<lparr>pr_Phase = gpt_Phase x, pr_Message = gpt_Message x, pr_LastUpdated = a, pr_IP = gpt_IP x\<rparr>"])
    (simp_all add: ProvisionStatus_DeepCopyInto_def ProvisionStatus_view_def ProvisionStatus_reach_def)

definition ProvisionAutomationSpec_view :: "'m cell heap \<Rightarrow> go_ProvisionAutomationSpec \<Rightarrow> ProvisionAutomationSpec option" where
  "ProvisionAutomationSpec_view h x = do {
     a \<leftarrow> map_view files_of h (gpa_Files x);
     Some \<lparr>pa_Files = (case a of None \<Rightarrow> Map.empty | Some m \<Rightarrow> m)\<rparr>
   }"

definition ProvisionAutomationSpec_reach :: "'m cell heap \<Rightarrow> go_ProvisionAutomationSpec \<Rightarrow> nat set" where
  "ProvisionAutomationSpec_reach h x = map_reach (gpa_Files x)"

lemma automation_spec:
  assumes "lib_ok lib M"
  shows "deep_copier (ProvisionAutomationSpec_DeepCopyInto lib) ProvisionAutomationSpec_view ProvisionAutomationSpec_reach"
  by (rule struct1_copier [OF map_copier [of files_of FilesC, OF _ lib_okD(4) [OF assms]], where f = gpa_Files
        and u = "\<lambda>x p. x\<lparr>gpa_Files := p\<rparr>" and mk = "\<lambda>x a. \<lparr>pa_Files = (case a of None \<Rightarrow> Map.empty | Some m \<Rightarrow> m)\<rparr>"])
    (simp_all add: ProvisionAutomationSpec_DeepCopyInto_def ProvisionAutomationSpec_view_def ProvisionAutomationSpec_reach_def)

section \<open>Objects\<close>

definition BootArtifact_view :: "'m meta_values \<Rightarrow> 'm cell heap \<Rightarrow> 'm go_BootArtifact \<Rightarrow> (TypeMeta \<times> BootArtifact) option" where
  "BootArtifact_view M h x = do {
     m \<leftarrow> object_view M h (gar_ObjectMeta x);
     s \<leftarrow> BootArtifactSpec_view h (gar_Spec x);
     t \<leftarrow> BootArtifactStatus_view h (gar_Status x);
     Some (gar_TypeMeta x, \<lparr>ba_meta = m, ba_Spec = s, ba_Status = t\<rparr>)
   }"

definition BootArtifact_reach :: "'m meta_values \<Rightarrow> 'm cell heap \<Rightarrow> 'm go_BootArtifact \<Rightarrow> nat set" where
  "BootArtifact_reach M h x = object_reach M h (gar_ObjectMeta x) \<union> BootArtifactSpec_reach h (gar_Spec x)
     \<union> BootArtifactStatus_reach h (gar_Status x)"

lemma artifact_copier:
  assumes "lib_ok lib M"
  shows "deep_copier (BootArtifact_DeepCopyInto lib) (BootArtifact_view M) (BootArtifact_reach M)"
  by (rule struct3_copier [OF lib_okD(1) [OF assms] artifact_spec.deep_copier_axioms artifact_status [OF assms], where
        ?f1.0 = gar_ObjectMeta and ?f2.0 = gar_Spec and ?f3.0 = gar_Status
        and u = "\<lambda>x p q r. x\<lparr>gar_ObjectMeta := p, gar_Spec := q, gar_Status := r\<rparr>"
        and mk = "\<lambda>x a b c. (gar_TypeMeta x, \<lparr>ba_meta = a, ba_Spec = b, ba_Status = c\<rparr>)"])
    (simp_all add: BootArtifact_DeepCopyInto_def BootArtifact_view_def BootArtifact_reach_def)

definition BootConfig_view :: "'m meta_values \<Rightarrow> 'm cell heap \<Rightarrow> 'm go_BootConfig \<Rightarrow> (TypeMeta \<times> BootConfig) option" where
  "BootConfig_view M h x = do {
     m \<leftarrow> object_view M h (gcf_ObjectMeta x);
     s \<leftarrow> BootConfigSpec_view h (gcf_Spec x);
     Some (gcf_TypeMeta x, \<lparr>bc_meta = m, bc_Spec = s, bc_Status = gcf_Status x\<rparr>)
   }"

definition BootConfig_reach :: "'m meta_values \<Rightarrow> 'm cell heap \<Rightarrow> 'm go_BootConfig \<Rightarrow> nat set" where
  "BootConfig_reach M h x = object_reach M h (gcf_ObjectMeta x) \<union> BootConfigSpec_reach h (gcf_Spec x)"

lemma config_copier:
  assumes "lib_ok lib M"
  shows "deep_copier (BootConfig_DeepCopyInto lib) (BootConfig_view M) (BootConfig_reach M)"
  by (rule struct2_copier [OF lib_okD(1) [OF assms] config_spec.deep_copier_axioms, where
        f = gcf_ObjectMeta and g = gcf_Spec and u = "\<lambda>x p q. x\<lparr>gcf_ObjectMeta := p, gcf_Spec := q\<rparr>"
        and mk = "\<lambda>x a b. (gcf_TypeMeta x, \<lparr>bc_meta = a, bc_Spec = b, bc_Status = gcf_Status x\<rparr>)"])
    (simp_all add: BootConfig_DeepCopyInto_def BootConfig_view_def BootConfig_reach_def)

definition Machine_view :: "'m meta_values \<Rightarrow> 'm cell heap \<Rightarrow> 'm go_Machine \<Rightarrow> (TypeMeta \<times> Machine) option" where
  "Machine_view M h x = do {
     m \<leftarrow> object_view M h (gmc_ObjectMeta x);
     Some (gmc_TypeMeta x, \<lparr>mach_meta = m, mach_Spec = gmc_Spec x\<rparr>)
   }"

definition Machine_reach :: "'m meta_values \<Rightarrow> 'm cell heap \<Rightarrow> 'm go_Machine \<Rightarrow> nat set" where
  "Machine_reach M h x = object_reach M h (gmc_ObjectMeta x)"

lemma machine_copier:
  assumes "lib_ok lib M"
  shows "deep_copier (Machine_DeepCopyInto lib) (Machine_view M) (Machine_reach M)"
  by (rule struct1_copier [OF lib_okD(1) [OF assms], where f = gmc_ObjectMeta and u = "\<lambda>x p. x\<lparr>gmc_ObjectMeta := p\<rparr>"
        and mk = "\<lambda>x a. (gmc_TypeMeta x, \<lparr>mach_meta = a, mach_Spec = gmc_Spec x\<rparr>)"])
    (simp_all add: Machine_DeepCopyInto_def Machine_view_def Machine_reach_def)

definition Provision_view :: "'m meta_values \<Rightarrow> 'm cell heap \<Rightarrow> 'm go_Provision \<Rightarrow> (TypeMeta \<times> Provision) option" where
  "Provision_view M h x = do {
     m \<leftarrow> object_view M h (gpr_ObjectMeta x);
     s \<leftarrow> ProvisionSpec_view h (gpr_Spec x);
     t \<leftarrow> ProvisionStatus_view h (gpr_Status x);
     Some (gpr_TypeMeta x, \<lparr>pr_meta = m, pr_Spec = s, pr_Status = t\<rparr>)
   }"

definition Provision_reach :: "'m meta_values \<Rightarrow> 'm cell heap \<Rightarrow> 'm go_Provision \<Rightarrow> nat set" where
  "Provision_reach M h x = object_reach M h (gpr_ObjectMeta x) \<union> ProvisionSpec_reach h (gpr_Spec x)
     \<union> ProvisionStatus_reach h (gpr_Status x)"

lemma provision_copier:
  assumes "lib_ok lib M"
  shows "deep_copier (Provision_DeepCopyInto lib) (Provision_view M) (Provision_reach M)"
  by (rule struct3_copier [OF lib_okD(1) [OF assms] provision_spec.deep_copier_axioms provision_status [OF assms], where
        ?f1.0 = gpr_ObjectMeta and ?f2.0 = gpr_Spec and ?f3.0 = gpr_Status
        and u = "\<lambda>x p q r. x\<lparr>gpr_ObjectMeta := p, gpr_Spec := q, gpr_Status := r\<rparr>"
        and mk = "\<lambda>x a b c. (gpr_TypeMeta x, \<lparr>pr_meta = a, pr_Spec = b, pr_Status = c\<rparr>)"])
    (simp_all add: Provision_DeepCopyInto_def Provision_view_def Provision_reach_def)

definition ProvisionAutomation_view ::
    "'m meta_values \<Rightarrow> 'm cell heap \<Rightarrow> 'm go_ProvisionAutomation \<Rightarrow> (TypeMeta \<times> ProvisionAutomation) option" where
  "ProvisionAutomation_view M h x = do {
     m \<leftarrow> object_view M h (gau_ObjectMeta x);
     s \<leftarrow> ProvisionAutomationSpec_view h (gau_Spec x);
     Some (gau_TypeMeta x, \<lparr>pa_meta = m, pa_Spec = s\<rparr>)
   }"

definition ProvisionAutomation_reach :: "'m meta_values \<Rightarrow> 'm cell heap \<Rightarrow> 'm go_ProvisionAutomation \<Rightarrow> nat set" where
  "ProvisionAutomation_reach M h x = object_reach M h (gau_ObjectMeta x) \<union> ProvisionAutomationSpec_reach h (gau_Spec x)"

lemma automation_copier:
  assumes "lib_ok lib M"
  shows "deep_copier (ProvisionAutomation_DeepCopyInto lib) (ProvisionAutomation_view M) (ProvisionAutomation_reach M)"
  by (rule struct2_copier [OF lib_okD(1) [OF assms] automation_spec [OF assms], where
        f = gau_ObjectMeta and g = gau_Spec and u = "\<lambda>x p q. x\<lparr>gau_ObjectMeta := p, gau_Spec := q\<rparr>"
        and mk = "\<lambda>x a b. (gau_TypeMeta x, \<lparr>pa_meta = a, pa_Spec = b\<rparr>)"])
    (simp_all add: ProvisionAutomation_DeepCopyInto_def ProvisionAutomation_view_def ProvisionAutomation_reach_def)

section \<open>Lists\<close>

text \<open>The items of a list are given by their array and their view; nil is told from no items.\<close>

definition List_view where
  "List_view M items h x = do {
     m \<leftarrow> list_view M h (gl_ListMeta x);
     xs \<leftarrow> items h (gl_Items x);
     Some (gl_TypeMeta x, m, xs)
   }"

definition List_reach where
  "List_reach M items h x = list_reach M h (gl_ListMeta x) \<union> items h (gl_Items x)"

lemma list_copier:
  assumes "lib_ok lib M" and "\<And>xs. get (mk xs) = Some xs" and "deep_copier into view reach"
    and "\<And>x h. copy x h = do { (p, h) \<leftarrow> ListMeta_DeepCopyInto lib (gl_ListMeta x) h;
        (q, h) \<leftarrow> copy_slice get mk zero into (gl_Items x) h; Some (x\<lparr>gl_ListMeta := p, gl_Items := q\<rparr>, h) }"
  shows "deep_copier copy (List_view M (slice_view get view)) (List_reach M (slice_reach get reach))"
  by (rule struct2_copier [OF lib_okD(2) [OF assms(1)] slice_copier [OF assms(2,3)], where
        f = gl_ListMeta and g = gl_Items and u = "\<lambda>x p q. x\<lparr>gl_ListMeta := p, gl_Items := q\<rparr>"
        and mk = "\<lambda>x a b. (gl_TypeMeta x, a, b)"])
    (simp_all add: assms(4) List_view_def List_reach_def)

section \<open>Runtime objects\<close>

text \<open>The value that an object stands for, by its type.\<close>

datatype api_value =
    BootArtifactV "TypeMeta \<times> BootArtifact"
  | BootArtifactListV "TypeMeta \<times> nat \<times> (TypeMeta \<times> BootArtifact) list option"
  | BootConfigV "TypeMeta \<times> BootConfig"
  | BootConfigListV "TypeMeta \<times> nat \<times> (TypeMeta \<times> BootConfig) list option"
  | MachineV "TypeMeta \<times> Machine"
  | MachineListV "TypeMeta \<times> nat \<times> (TypeMeta \<times> Machine) list option"
  | ProvisionV "TypeMeta \<times> Provision"
  | ProvisionListV "TypeMeta \<times> nat \<times> (TypeMeta \<times> Provision) list option"
  | ProvisionAutomationV "TypeMeta \<times> ProvisionAutomation"
  | ProvisionAutomationListV "TypeMeta \<times> nat \<times> (TypeMeta \<times> ProvisionAutomation) list option"

text \<open>For a nil pointer the outer option is \<open>Some None\<close>.\<close>

fun Object_view :: "'m meta_values \<Rightarrow> 'm cell heap \<Rightarrow> Object \<Rightarrow> api_value option option" where
  "Object_view M h (BootArtifactObject p) = map_option (map_option BootArtifactV) (pointer_view artifact_of (BootArtifact_view M) h p)"
| "Object_view M h (BootArtifactListObject p) = map_option (map_option BootArtifactListV) (pointer_view artifactList_of (List_view M (slice_view artifacts_of (BootArtifact_view M))) h p)"
| "Object_view M h (BootConfigObject p) = map_option (map_option BootConfigV) (pointer_view config_of (BootConfig_view M) h p)"
| "Object_view M h (BootConfigListObject p) = map_option (map_option BootConfigListV) (pointer_view configList_of (List_view M (slice_view configs_of (BootConfig_view M))) h p)"
| "Object_view M h (MachineObject p) = map_option (map_option MachineV) (pointer_view machine_of (Machine_view M) h p)"
| "Object_view M h (MachineListObject p) = map_option (map_option MachineListV) (pointer_view machineList_of (List_view M (slice_view machines_of (Machine_view M))) h p)"
| "Object_view M h (ProvisionObject p) = map_option (map_option ProvisionV) (pointer_view provision_of (Provision_view M) h p)"
| "Object_view M h (ProvisionListObject p) = map_option (map_option ProvisionListV) (pointer_view provisionList_of (List_view M (slice_view provisions_of (Provision_view M))) h p)"
| "Object_view M h (ProvisionAutomationObject p) = map_option (map_option ProvisionAutomationV) (pointer_view automation_of (ProvisionAutomation_view M) h p)"
| "Object_view M h (ProvisionAutomationListObject p) = map_option (map_option ProvisionAutomationListV) (pointer_view automationList_of (List_view M (slice_view automations_of (ProvisionAutomation_view M))) h p)"

fun Object_reach :: "'m meta_values \<Rightarrow> 'm cell heap \<Rightarrow> Object \<Rightarrow> nat set" where
  "Object_reach M h (BootArtifactObject p) = pointer_reach artifact_of (BootArtifact_reach M) h p"
| "Object_reach M h (BootArtifactListObject p) = pointer_reach artifactList_of (List_reach M (slice_reach artifacts_of (BootArtifact_reach M))) h p"
| "Object_reach M h (BootConfigObject p) = pointer_reach config_of (BootConfig_reach M) h p"
| "Object_reach M h (BootConfigListObject p) = pointer_reach configList_of (List_reach M (slice_reach configs_of (BootConfig_reach M))) h p"
| "Object_reach M h (MachineObject p) = pointer_reach machine_of (Machine_reach M) h p"
| "Object_reach M h (MachineListObject p) = pointer_reach machineList_of (List_reach M (slice_reach machines_of (Machine_reach M))) h p"
| "Object_reach M h (ProvisionObject p) = pointer_reach provision_of (Provision_reach M) h p"
| "Object_reach M h (ProvisionListObject p) = pointer_reach provisionList_of (List_reach M (slice_reach provisions_of (Provision_reach M))) h p"
| "Object_reach M h (ProvisionAutomationObject p) = pointer_reach automation_of (ProvisionAutomation_reach M) h p"
| "Object_reach M h (ProvisionAutomationListObject p) = pointer_reach automationList_of (List_reach M (slice_reach automations_of (ProvisionAutomation_reach M))) h p"
text \<open>The copy of an object as a function on objects; nil stays what it is.\<close>

definition copy_object :: "'m apimachinery \<Rightarrow> Object \<Rightarrow> 'm cell heap \<Rightarrow> (Object \<times> 'm cell heap) option" where
  "copy_object lib ob h = do { (c, h) \<leftarrow> DeepCopyObject lib ob h; Some (case c of None \<Rightarrow> ob | Some c \<Rightarrow> c, h) }"

lemma object_copier_at:
  assumes D: "deep_copier (copy_pointer get mk into) (pointer_view get view) (pointer_reach get reach)"
    and call: "\<And>p h. DeepCopyObject lib (K p) h = as_object K (copy_pointer get mk into p h)"
    and views: "\<And>h p. Object_view M h (K p) = map_option (map_option V) (pointer_view get view h p)"
    and reaches: "\<And>h p. Object_reach M h (K p) = pointer_reach get reach h p"
    and v: "Object_view M h (K p) = Some v"
  shows "copied (copy_object lib) (Object_view M) (Object_reach M) h (K p) v
    \<and> settled (Object_view M) (Object_reach M) h (K p) v"
proof -
  obtain u where u: "pointer_view get view h p = Some u" and v': "v = map_option V u" using v by (auto simp: views)
  obtain q t where q: "copy_pointer get mk into p h = Some (q, h @ t)" "pointer_view get view (h @ t) q = Some u"
      "pointer_reach get reach (h @ t) q \<subseteq> {length h..<length (h @ t)}"
    using deep_copier.copies [OF D u] by blast
  have "copy_object lib (K p) h = Some (case q of None \<Rightarrow> K p | Some _ \<Rightarrow> K q, h @ t)"
    using q(1) by (auto simp: copy_object_def call as_object_def split: option.split)
  moreover have "q = None \<longleftrightarrow> p = None"
    using q(1) by (auto simp: copy_pointer_def bind_eq_Some_conv alloc_def split: option.splits)
  ultimately have "copied (copy_object lib) (Object_view M) (Object_reach M) h (K p) v"
    unfolding copied_def using q(2,3) by (intro exI [of _ "K q"] exI [of _ t]) (auto simp: views reaches v' split: option.split)
  moreover have "settled (Object_view M) (Object_reach M) h (K p) v"
    using deep_copier.view_same [OF D u] deep_copier.reach_same [OF D u] deep_copier.reach_dom [OF D u]
    by (simp add: settled_def views reaches v')
  ultimately show ?thesis by blast
qed

lemma list_object_copier_at:
  assumes lib: "lib_ok lib M" and D: "deep_copier item view reach"
    and geti: "\<And>xs. geti (mki xs) = Some xs" and get: "\<And>x. get (mk x) = Some x"
    and into: "\<And>x h. into x h = do { (p, h) \<leftarrow> ListMeta_DeepCopyInto lib (gl_ListMeta x) h;
        (q, h) \<leftarrow> copy_slice geti mki zero item (gl_Items x) h; Some (x\<lparr>gl_ListMeta := p, gl_Items := q\<rparr>, h) }"
    and call: "\<And>p h. DeepCopyObject lib (K p) h = as_object K (copy_pointer get mk into p h)"
    and views: "\<And>h p. Object_view M h (K p) = map_option (map_option V) (pointer_view get (List_view M (slice_view geti view)) h p)"
    and reaches: "\<And>h p. Object_reach M h (K p) = pointer_reach get (List_reach M (slice_reach geti reach)) h p"
    and v: "Object_view M h (K p) = Some v"
  shows "copied (copy_object lib) (Object_view M) (Object_reach M) h (K p) v
    \<and> settled (Object_view M) (Object_reach M) h (K p) v"
  by (rule object_copier_at [OF pointer_copier [where get = get, OF get list_copier [OF lib geti D into]] call views reaches v])

lemma object_copier:
  assumes lib: "lib_ok lib M"
  shows "deep_copier (copy_object lib) (Object_view M) (Object_reach M)"
proof (rule deep_copierI)
  fix h ob v assume v: "Object_view M h ob = Some v"
  show "copied (copy_object lib) (Object_view M) (Object_reach M) h ob v
    \<and> settled (Object_view M) (Object_reach M) h ob v"
  proof (cases ob)
    case (BootArtifactObject p)
    with v show ?thesis
      by (hypsubst) (rule object_copier_at [OF pointer_copier [OF _ artifact_copier [OF lib], where get = artifact_of and mk = ArtifactC],
        where V = BootArtifactV], simp_all add: BootArtifact_DeepCopyObject_def BootArtifact_DeepCopy_def )
  next
    case (BootArtifactListObject p)
    with v show ?thesis
      by (hypsubst) (rule list_object_copier_at [OF lib artifact_copier [OF lib], where geti = artifacts_of and mki = ArtifactsC
        and get = artifactList_of and mk = ArtifactListC and V = BootArtifactListV], simp_all add: BootArtifactList_DeepCopyObject_def BootArtifactList_DeepCopy_def BootArtifactList_DeepCopyInto_def)
  next
    case (BootConfigObject p)
    with v show ?thesis
      by (hypsubst) (rule object_copier_at [OF pointer_copier [OF _ config_copier [OF lib], where get = config_of and mk = ConfigC],
        where V = BootConfigV], simp_all add: BootConfig_DeepCopyObject_def BootConfig_DeepCopy_def )
  next
    case (BootConfigListObject p)
    with v show ?thesis
      by (hypsubst) (rule list_object_copier_at [OF lib config_copier [OF lib], where geti = configs_of and mki = ConfigsC
        and get = configList_of and mk = ConfigListC and V = BootConfigListV], simp_all add: BootConfigList_DeepCopyObject_def BootConfigList_DeepCopy_def BootConfigList_DeepCopyInto_def)
  next
    case (MachineObject p)
    with v show ?thesis
      by (hypsubst) (rule object_copier_at [OF pointer_copier [OF _ machine_copier [OF lib], where get = machine_of and mk = MachineC],
        where V = MachineV], simp_all add: Machine_DeepCopyObject_def Machine_DeepCopy_def )
  next
    case (MachineListObject p)
    with v show ?thesis
      by (hypsubst) (rule list_object_copier_at [OF lib machine_copier [OF lib], where geti = machines_of and mki = MachinesC
        and get = machineList_of and mk = MachineListC and V = MachineListV], simp_all add: MachineList_DeepCopyObject_def MachineList_DeepCopy_def MachineList_DeepCopyInto_def)
  next
    case (ProvisionObject p)
    with v show ?thesis
      by (hypsubst) (rule object_copier_at [OF pointer_copier [OF _ provision_copier [OF lib], where get = provision_of and mk = ProvisionC],
        where V = ProvisionV], simp_all add: Provision_DeepCopyObject_def Provision_DeepCopy_def )
  next
    case (ProvisionListObject p)
    with v show ?thesis
      by (hypsubst) (rule list_object_copier_at [OF lib provision_copier [OF lib], where geti = provisions_of and mki = ProvisionsC
        and get = provisionList_of and mk = ProvisionListC and V = ProvisionListV], simp_all add: ProvisionList_DeepCopyObject_def ProvisionList_DeepCopy_def ProvisionList_DeepCopyInto_def)
  next
    case (ProvisionAutomationObject p)
    with v show ?thesis
      by (hypsubst) (rule object_copier_at [OF pointer_copier [OF _ automation_copier [OF lib], where get = automation_of and mk = AutomationC],
        where V = ProvisionAutomationV], simp_all add: ProvisionAutomation_DeepCopyObject_def ProvisionAutomation_DeepCopy_def )
  next
    case (ProvisionAutomationListObject p)
    with v show ?thesis
      by (hypsubst) (rule list_object_copier_at [OF lib automation_copier [OF lib], where geti = automations_of and mki = AutomationsC
        and get = automationList_of and mk = AutomationListC and V = ProvisionAutomationListV], simp_all add: ProvisionAutomationList_DeepCopyObject_def ProvisionAutomationList_DeepCopy_def ProvisionAutomationList_DeepCopyInto_def)
  qed
qed

section \<open>Properties\<close>

lemmas deep_copy_objects = BootArtifact_DeepCopyObject_def BootArtifact_DeepCopy_def
  BootArtifactList_DeepCopyObject_def BootArtifactList_DeepCopy_def
  BootConfig_DeepCopyObject_def BootConfig_DeepCopy_def
  BootConfigList_DeepCopyObject_def BootConfigList_DeepCopy_def
  Machine_DeepCopyObject_def Machine_DeepCopy_def
  MachineList_DeepCopyObject_def MachineList_DeepCopy_def
  Provision_DeepCopyObject_def Provision_DeepCopy_def
  ProvisionList_DeepCopyObject_def ProvisionList_DeepCopy_def
  ProvisionAutomation_DeepCopyObject_def ProvisionAutomation_DeepCopy_def
  ProvisionAutomationList_DeepCopyObject_def ProvisionAutomationList_DeepCopy_def

lemma DeepCopyObject_nil: "pointer_of ob = None \<Longrightarrow> DeepCopyObject lib ob h = Some (None, h)"
  by (cases ob) (simp_all add: deep_copy_objects as_object_def copy_pointer_def)

lemma DeepCopyObject_not_nil: "DeepCopyObject lib ob h = Some (None, h') \<Longrightarrow> pointer_of ob = None"
  by (cases ob) (auto simp: deep_copy_objects as_object_def copy_pointer_def bind_eq_Some_conv alloc_def split: option.splits)

text \<open>
  C23. A deep copy stands for what the original stands for, and leads to new memory only. \<^verbatim>\<open>DeepCopyObject\<close> of any object of
  the API never fails: a nil pointer becomes the nil interface; otherwise all memory that was there stays
  as it is, the copy has the type and the value of the original, down to its metadata and the items of a list, and every
  address it leads to was allocated by the copy.
\<close>

theorem DeepCopyObject_copies:
  assumes "lib_ok lib M" and "Object_view M h ob = Some v"
  shows "if pointer_of ob = None then DeepCopyObject lib ob h = Some (None, h)
    else \<exists>c t. DeepCopyObject lib ob h = Some (Some c, h @ t) \<and> Object_view M (h @ t) c = Some v
      \<and> Object_reach M (h @ t) c \<subseteq> {length h..<length (h @ t)}"
proof -
  obtain c t where c: "copy_object lib ob h = Some (c, h @ t)" "Object_view M (h @ t) c = Some v"
      "Object_reach M (h @ t) c \<subseteq> {length h..<length (h @ t)}"
    using deep_copier.copies [OF object_copier [OF assms(1)] assms(2)] by blast
  then obtain out where out: "DeepCopyObject lib ob h = Some (out, h @ t)" "c = (case out of None \<Rightarrow> ob | Some c \<Rightarrow> c)"
    by (auto simp: copy_object_def bind_eq_Some_conv)
  show ?thesis
  proof (cases "pointer_of ob")
    case None
    then show ?thesis by (simp add: DeepCopyObject_nil)
  next
    case (Some a)
    then have "out = Some c" using out DeepCopyObject_not_nil [of lib ob h "h @ t"] by (cases out) auto
    then show ?thesis using Some out(1) c(2,3) by auto
  qed
qed

text \<open>
  C24. A copy and its original do not influence each other. They share no address; whatever is written to the
  memory of the copy, or allocated later, the original stands for the same value, and as long as the memory of the copy is
  left alone the copy does, whatever becomes of the original.
\<close>

theorem copies_independent:
  assumes "lib_ok lib M" and "Object_view M h ob = Some v" and "DeepCopyObject lib ob h = Some (Some c, h')"
  shows "Object_reach M h' ob \<inter> Object_reach M h' c = {}
    \<and> (\<forall>h1. same_cells (- Object_reach M h' c \<inter> {..<length h'}) h' h1 \<longrightarrow> Object_view M h1 ob = Some v)
    \<and> (\<forall>h1. same_cells (Object_reach M h' c) h' h1 \<longrightarrow> Object_view M h1 c = Some v)"
proof -
  have c: "copy_object lib ob h = Some (c, h')" by (simp add: copy_object_def assms(3))
  note D = object_copier [OF assms(1)]
  show ?thesis
    using deep_copier.copy_apart [OF D assms(2) c] deep_copier.original_kept [OF D assms(2) c]
      deep_copier.copy_kept [OF D assms(2) c] by blast
qed

text \<open>
  The copies of the parts are deep too: for every spec and status type \<^verbatim>\<open>DeepCopy\<close> of a pointer keeps the contract of a deep
  copy, given that the library's copies of times do and that a map is ranged over completely.
\<close>

theorem parts_copied:
  assumes "lib_ok lib M"
  shows "deep_copier BootArtifactSpec_DeepCopy (pointer_view artifactSpec_of BootArtifactSpec_view) (pointer_reach artifactSpec_of BootArtifactSpec_reach)
    \<and> deep_copier (BootArtifactStatus_DeepCopy lib) (pointer_view artifactStatus_of BootArtifactStatus_view) (pointer_reach artifactStatus_of BootArtifactStatus_reach)
    \<and> deep_copier BootConfigSpec_DeepCopy (pointer_view configSpec_of BootConfigSpec_view) (pointer_reach configSpec_of BootConfigSpec_reach)
    \<and> deep_copier BootConfigISOSpec_DeepCopy (leaf_view iso_of) (leaf_reach iso_of)
    \<and> deep_copier BootConfigNetbootSpec_DeepCopy (leaf_view netboot_of) (leaf_reach netboot_of)
    \<and> deep_copier BootConfigStatus_DeepCopy (leaf_view configStatus_of) (leaf_reach configStatus_of)
    \<and> deep_copier MachineSpec_DeepCopy (leaf_view machineSpec_of) (leaf_reach machineSpec_of)
    \<and> deep_copier ProvisionSpec_DeepCopy (pointer_view provisionSpec_of ProvisionSpec_view) (pointer_reach provisionSpec_of ProvisionSpec_reach)
    \<and> deep_copier (ProvisionStatus_DeepCopy lib) (pointer_view provisionStatus_of ProvisionStatus_view) (pointer_reach provisionStatus_of ProvisionStatus_reach)
    \<and> deep_copier (ProvisionAutomationSpec_DeepCopy lib) (pointer_view automationSpec_of ProvisionAutomationSpec_view)
        (pointer_reach automationSpec_of ProvisionAutomationSpec_reach)"
  unfolding BootArtifactSpec_DeepCopy_def BootArtifactStatus_DeepCopy_def BootConfigSpec_DeepCopy_def BootConfigISOSpec_DeepCopy_def
    BootConfigNetbootSpec_DeepCopy_def BootConfigStatus_DeepCopy_def MachineSpec_DeepCopy_def ProvisionSpec_DeepCopy_def
    ProvisionStatus_DeepCopy_def ProvisionAutomationSpec_DeepCopy_def
  by (intro conjI pointer_copier of_cell artifact_spec.deep_copier_axioms artifact_status [OF assms] config_spec.deep_copier_axioms
      iso_spec.deep_copier_axioms netboot_spec.deep_copier_axioms config_status.deep_copier_axioms machine_spec.deep_copier_axioms
      provision_spec.deep_copier_axioms provision_status [OF assms] automation_spec [OF assms])

section \<open>A concrete heap\<close>

text \<open>A library whose metadata has no pointers, and a map that is ranged over from its end.\<close>

definition plain_lib :: "ObjectMeta apimachinery" where
  "plain_lib = \<lparr>ObjectMeta_DeepCopyInto = (\<lambda>x h. Some (x, h)), ListMeta_DeepCopyInto = (\<lambda>x h. Some (x, h)),
     Time_DeepCopy = copy_leaf time_of TimeC,
     ObjectMeta_zero = \<lparr>om_name = [], om_namespace = [], om_resourceVersion = 0\<rparr>, map_order = rev\<rparr>"

definition plain_meta :: "ObjectMeta meta_values" where
  "plain_meta = \<lparr>object_view = (\<lambda>_ x. Some x), object_reach = (\<lambda>_ _. {}),
     list_view = (\<lambda>_ x. Some (om_resourceVersion x)), list_reach = (\<lambda>_ _. {})\<rparr>"

lemma plain_lib_ok: "lib_ok plain_lib plain_meta"
  using plain_copier [of "\<lambda>x. x"] plain_copier [of om_resourceVersion] leaf_copier [of time_of TimeC]
  by (simp add: lib_ok_def plain_lib_def plain_meta_def range_order_ok_def)

text \<open>A provision whose two slices are windows of one array.\<close>

definition shared_spec :: go_ProvisionSpec where
  "shared_spec = \<lparr>gps_MachineRef = ''m'', gps_BootConfigRef = ''b'', gps_ProvisionAutomationRef = ''a'',
     gps_ConfigMaps = Some \<lparr>sl_array = 0, sl_offset = 0, sl_len = 1, sl_cap = 3\<rparr>,
     gps_Secrets = Some \<lparr>sl_array = 0, sl_offset = 1, sl_len = 2, sl_cap = 2\<rparr>\<rparr>"

definition shared_provision :: "ObjectMeta go_Provision" where
  "shared_provision = \<lparr>gpr_TypeMeta = \<lparr>tm_Kind = ''Provision'', tm_APIVersion = ''v1''\<rparr>,
     gpr_ObjectMeta = \<lparr>om_name = ''p'', om_namespace = ''n'', om_resourceVersion = 1\<rparr>, gpr_Spec = shared_spec,
     gpr_Status = \<lparr>gpt_Phase = ProvisionPhasePending, gpt_Message = [], gpt_LastUpdated = Some 1, gpt_IP = []\<rparr>\<rparr>"

definition shared_heap :: "ObjectMeta cell heap" where
  "shared_heap = [StringsC [''x'', ''y'', ''z''], TimeC 7, ProvisionC shared_provision]"

lemmas shared_defs = shared_heap_def shared_provision_def shared_spec_def plain_lib_def plain_meta_def load_def window_def
  pointer_view_def slice_view_def list_of_def Provision_view_def ProvisionSpec_view_def ProvisionStatus_view_def

lemma shared_view: "Object_view plain_meta shared_heap (ProvisionObject (Some 2)) = Some (Some (ProvisionV
    (\<lparr>tm_Kind = ''Provision'', tm_APIVersion = ''v1''\<rparr>,
     \<lparr>pr_meta = \<lparr>om_name = ''p'', om_namespace = ''n'', om_resourceVersion = 1\<rparr>,
      pr_Spec = \<lparr>pr_MachineRef = ''m'', pr_BootConfigRef = ''b'', pr_ProvisionAutomationRef = ''a'',
        pr_ConfigMaps = [''x''], pr_Secrets = [''y'', ''z'']\<rparr>,
      pr_Status = \<lparr>pr_Phase = ProvisionPhasePending, pr_Message = [], pr_LastUpdated = Some 7, pr_IP = []\<rparr>\<rparr>)))"
  by (simp add: shared_defs)

theorem DeepCopyObject_copies_witness:
  "\<exists>c t. DeepCopyObject plain_lib (ProvisionObject (Some 2)) shared_heap = Some (Some c, shared_heap @ t)
    \<and> Object_view plain_meta (shared_heap @ t) c = Object_view plain_meta shared_heap (ProvisionObject (Some 2))
    \<and> Object_reach plain_meta (shared_heap @ t) c \<subseteq> {3..<length (shared_heap @ t)}"
proof -
  have "length shared_heap = 3" by (simp add: shared_heap_def)
  then show ?thesis
    using DeepCopyObject_copies [OF plain_lib_ok shared_view] by (simp only: shared_view Object.sel option.simps if_False)
qed

text \<open>The copy, computed: the windows have become arrays of their own.\<close>

definition shared_copy :: "ObjectMeta cell heap" where
  "shared_copy = shared_heap @ [ProvisionC (shared_provision
     \<lparr>gpr_Spec := shared_spec\<lparr>gps_ConfigMaps := Some \<lparr>sl_array = 4, sl_offset = 0, sl_len = 1, sl_cap = 1\<rparr>,
        gps_Secrets := Some \<lparr>sl_array = 5, sl_offset = 0, sl_len = 2, sl_cap = 2\<rparr>\<rparr>,
      gpr_Status := \<lparr>gpt_Phase = ProvisionPhasePending, gpt_Message = [], gpt_LastUpdated = Some 6, gpt_IP = []\<rparr>\<rparr>),
     StringsC [''x''], StringsC [''y'', ''z''], TimeC 7]"

lemma shared_copy_run: "DeepCopyObject plain_lib (ProvisionObject (Some 2)) shared_heap = Some (Some (ProvisionObject (Some 3)), shared_copy)"
  by (simp add: shared_copy_def shared_defs deep_copy_objects as_object_def copy_pointer_def alloc_def store_def copy_leaf_def
      Provision_DeepCopyInto_def ProvisionSpec_DeepCopyInto_def ProvisionStatus_DeepCopyInto_def copy_strings_def copy_slice_def
      make_slice_def set_elem_def eval_nat_numeral)

theorem copies_independent_witness:
  "Object_view plain_meta (shared_copy[5 := StringsC [''y'', ''changed'']]) (ProvisionObject (Some 2))
    = Object_view plain_meta shared_heap (ProvisionObject (Some 2))"
proof -
  have "Object_reach plain_meta shared_copy (ProvisionObject (Some 3)) = {3, 4, 5, 6}" 
    by (auto simp: shared_copy_def shared_defs pointer_reach_def slice_reach_def Provision_reach_def ProvisionSpec_reach_def
        ProvisionStatus_reach_def eval_nat_numeral)
  then have "same_cells (- Object_reach plain_meta shared_copy (ProvisionObject (Some 3)) \<inter> {..<length shared_copy}) shared_copy
      (shared_copy[5 := StringsC [''y'', ''changed'']])"
    by (auto simp: same_cells_def nth_list_update)
  then show ?thesis
    using copies_independent [OF plain_lib_ok shared_view shared_copy_run] shared_view by simp
qed

theorem parts_copied_witness:
  "\<exists>y t. ProvisionAutomationSpec_DeepCopy plain_lib (Some 1) [FilesC [(''k'', ''v''), (''l'', ''w'')], AutomationSpecC \<lparr>gpa_Files = Some 0\<rparr>]
      = Some (y, [FilesC [(''k'', ''v''), (''l'', ''w'')], AutomationSpecC \<lparr>gpa_Files = Some 0\<rparr>] @ t)
    \<and> pointer_view automationSpec_of ProvisionAutomationSpec_view
        ([FilesC [(''k'', ''v''), (''l'', ''w'')], AutomationSpecC \<lparr>gpa_Files = Some 0\<rparr>] @ t) y
      = Some (Some \<lparr>pa_Files = [''k'' \<mapsto> ''v'', ''l'' \<mapsto> ''w'']\<rparr>)"
proof -
  let ?h = "[FilesC [(''k'', ''v''), (''l'', ''w'')], AutomationSpecC \<lparr>gpa_Files = Some 0\<rparr>] :: ObjectMeta cell heap"
  have v: "pointer_view automationSpec_of ProvisionAutomationSpec_view ?h (Some 1) = Some (Some \<lparr>pa_Files = [''k'' \<mapsto> ''v'', ''l'' \<mapsto> ''w'']\<rparr>)"
    by (auto simp: pointer_view_def ProvisionAutomationSpec_view_def map_view_def load_def fun_eq_iff)
  have D: "deep_copier (ProvisionAutomationSpec_DeepCopy plain_lib) (pointer_view automationSpec_of ProvisionAutomationSpec_view)
      (pointer_reach automationSpec_of ProvisionAutomationSpec_reach)"
    using parts_copied [OF plain_lib_ok] by (elim conjE)
  from deep_copier.copies [OF D, OF v] show ?thesis by blast
qed

end
