(* ===== verification/Recovery.thy ===== *)
theory Recovery
  imports ArtifactProps
begin

text \<open>
  Recovery of the artifact reconciler. Attempts may fail in any of their calls, meet a mirror that sends anything,
  and be killed at any moment; what is left on disk never stands in the way of the first attempt that nothing
  disturbs.
\<close>

section \<open>The slot of a file\<close>

text \<open>
  Room for the file, or the file in real directories; what is in the place of the temporary file does not
  matter, as long as it is a file.
\<close>

definition slot_ok :: "fsys \<Rightarrow> path \<Rightarrow> string \<Rightarrow> bool" where
  "slot_ok fs d f \<longleftrightarrow> art_slot fs d f
     \<and> (look fs (d @ [f]) = None \<or> plain_dir fs d \<and> (\<exists>c t m. look fs (d @ [f]) = Some (FileN c t m)))"

lemma slot_ok_start: "slot_ok fs d f \<Longrightarrow> plain fs d \<and> \<not> is_link fs (d @ [f @ ''.tmp''])"
  by (auto simp: slot_ok_def art_slot_def is_link_def intro: open_way_plain)

lemma slot_ok_inv:
  assumes "slot_ok fs0 d f" and inv: "art_inv good d f fs0 fs"
  shows "slot_ok fs d f"
proof -
  have ch: "q = d @ [f] \<or> q = d @ [f @ ''.tmp''] \<or> (below q d \<and> look fs0 q = None \<and> (\<exists>t. look fs q = Some (DirN t)))"
    if "look fs q \<noteq> look fs0 q" for q using inv that unfolding art_inv_def by blast
  have up: "look fs q = look fs0 q \<or> (look fs0 q = None \<and> (\<exists>t. look fs q = Some (DirN t)))" if "below q d" for q
    using ch [of q] that below_longer by blast
  have "open_way fs0 d" using assms(1) by (simp add: slot_ok_def art_slot_def)
  then have way: "open_way fs d" using up unfolding open_way_def by metis
  have dir: "plain_dir fs d" if "plain_dir fs0 d" using up that unfolding plain_dir_def by (metis option.distinct(1))
  have tmp: "look fs (d @ [f @ ''.tmp'']) = None \<or> (\<exists>c t m. look fs (d @ [f @ ''.tmp'']) = Some (FileN c t m))"
    using assms unfolding slot_ok_def art_slot_def art_inv_def by metis
  have fl: "look fs (d @ [f]) = None \<or> plain_dir fs d \<and> (\<exists>c t m. look fs (d @ [f]) = Some (FileN c t m))"
    using assms dir unfolding slot_ok_def art_inv_def by metis
  then have "\<forall>t. look fs (d @ [f]) \<noteq> Some (DirN t)" by auto
  with way tmp fl show ?thesis by (simp add: slot_ok_def art_slot_def)
qed

section \<open>Attempts that are cut short\<close>

text \<open>
  One attempt, after which the process lives on or has been killed at any moment of it. Only the file system
  stays: the next attempt finds some state of the server, as long as it still offers the artifact with this
  specification, a mirror that may behave differently, and another schedule of faults.
\<close>

definition offers :: "'s BootArtifactReconciler \<Rightarrow> string \<Rightarrow> string \<Rightarrow> BootArtifact \<Rightarrow> 's world \<Rightarrow> bool" where
  "offers r ns name a w \<longleftrightarrow> (\<exists>b s. Get_BootArtifact (bar_Client r) ns name (w_api w) = (Inr b, s)
     \<and> ba_Spec b = ba_Spec a \<and> same_key b a)"

inductive attempt :: "'s BootArtifactReconciler \<Rightarrow> string \<Rightarrow> string \<Rightarrow> BootArtifact \<Rightarrow> 's world \<Rightarrow> 's world \<Rightarrow> bool"
  for r ns name a where
  "run_state (BootArtifact_Reconcile (r\<lparr>bar_HTTPClient := mirror\<rparr>) ns name) w = (out, w1) \<Longrightarrow>
   w_trace w1 = tr @ w_trace w \<Longrightarrow> w_fs w' \<in> insert (w_fs w) (insert (w_fs w1) (set tr)) \<Longrightarrow> offers r ns name a w' \<Longrightarrow>
   attempt r ns name a w w'"

inductive_cases attemptE: "attempt r ns name a w w'"

lemma mirror_irrelevant [simp]:
  "filePath (r\<lparr>bar_HTTPClient := m\<rparr>) a = filePath r a" "art_dir (r\<lparr>bar_HTTPClient := m\<rparr>) n = art_dir r n"
  by (simp_all add: filePath_def art_dir_def)

abbreviation slot_of :: "'s BootArtifactReconciler \<Rightarrow> BootArtifact \<Rightarrow> 's world \<Rightarrow> bool" where
  "slot_of r a w \<equiv> slot_ok (w_fs w) (art_dir r (om_name (ba_meta a))) (FilenameFromURL (ba_URL (ba_Spec a)))"

lemma attempt_slot:
  assumes r: "rooted (bar_DataDir r)" and n: "safe_component (om_name (ba_meta a))"
    and at: "attempt r ns name a w w'" and "offers r ns name a w" and sl: "slot_of r a w"
  shows "offers r ns name a w' \<and> slot_of r a w'"
  using at
proof (cases rule: attempt.cases)
  case (1 mirror out w1 tr)
  let ?r = "r\<lparr>bar_HTTPClient := mirror\<rparr>"
  obtain b s where b: "Get_BootArtifact (bar_Client ?r) ns name (w_api w) = (Inr b, s)"
      "ba_Spec b = ba_Spec a" "om_name (ba_meta b) = om_name (ba_meta a)"
    using assms(4) by (auto simp: offers_def same_key_def)
  let ?d = "art_dir r (om_name (ba_meta a))" and ?f = "FilenameFromURL (ba_URL (ba_Spec a))"
  have P: "art_paths (filePath ?r b) ?d ?f" using filePath_paths [of ?r b] r n b by simp
  have "art_run ?r (filePath ?r b) (any_served ?r) ?d ?f w w1"
    using wpD [OF Reconcile_spec [OF b(1) P] 1(1)] slot_ok_start [OF sl] by blast
  then have "\<exists>tr. w_trace w1 = tr @ w_trace w \<and> (\<forall>fs \<in> set tr. art_inv (any_served ?r) ?d ?f (w_fs w) fs)"
    and fin: "art_inv (any_served ?r) ?d ?f (w_fs w) (w_fs w1)"
    unfolding run_inv_def by blast+
  then have "\<forall>fs \<in> set tr. art_inv (any_served ?r) ?d ?f (w_fs w) fs" using 1(2) by auto
  then have "slot_ok fs ?d ?f" if "fs \<in> insert (w_fs w) (insert (w_fs w1) (set tr))" for fs
    using that sl fin slot_ok_inv [OF sl] by blast
  then show ?thesis using 1(3,4) by simp
qed

lemma attempts_slot:
  assumes "rooted (bar_DataDir r)" and "safe_component (om_name (ba_meta a))" and "(attempt r ns name a)\<^sup>*\<^sup>* w w'"
    and "offers r ns name a w" and "slot_of r a w"
  shows "offers r ns name a w' \<and> slot_of r a w'"
  using assms(3-5)
proof (induction rule: rtranclp_induct)
  case (step w1 w2)
  then show ?case using attempt_slot [OF assms(1,2) step(2)] by blast
qed simp

section \<open>An undisturbed attempt\<close>

lemma verifyExisting_calm:
  assumes "calm w" and "names fp d f" and "plain_dir (w_fs w) d" and "look (w_fs w) (d @ [f]) = Some (FileN c t m)"
    and dig: "digest_ok r a c" and srv: "serving r a w"
  shows "wp (verifyExisting r a fp) (\<lambda>x w'. x = Inr True \<and> w_fs w' = w_fs w
    \<and> (ba_Phase (ba_Status a) = BootArtifactPhaseReady \<or> last_ready r a w')) w"
  unfolding verifyExisting_def
proof (rule wp_try [OF hashFile_calm [OF assms(1-4)]], goal_cases)
  case (2 h w1)
  then have w1: "calm w1" "serving r a w1" "w_fs w1 = w_fs w" "equal_fold h (expectedHash a)"
    using srv serving_quiet dig by (auto simp: quiet_def digest_ok_def serving_def)
  show ?case
    using w1(3,4) by (auto simp: Let_def wp_return intro!: wp_try [OF setReady_calm [OF w1(1,2)]])
qed simp

lemma Reconcile_verified:
  assumes get: "Get_BootArtifact (bar_Client r) ns name (w_api w) = (Inr a, s)"
    and N: "art_names (filePath r a) d f" and c: "calm w" and srv: "good_server (bar_Client r)"
    and fl: "plain_dir (w_fs w) d" "look (w_fs w) (d @ [f]) = Some (FileN c t m)" "digest_ok r a c"
  shows "wp (BootArtifact_Reconcile r ns name) (\<lambda>out w'. out = Result 0 \<and> w_fs w' = w_fs w
    \<and> (ba_Phase (ba_Status a) = BootArtifactPhaseReady \<or> last_ready r a w')) w"
proof -
  note nm = art_namesD(2) [OF N]
  let ?w = "w\<lparr>w_api := s\<rparr>"
  have "wp (os_Stat (filePath r a)) (\<lambda>x w'. x = Inr (FileN c t m) \<and> calm w' \<and> w_fs w' = w_fs w \<and> w_api w' = s) ?w"
    unfolding os_Stat_def
    by (rule wp_calm_read) (use c read_file_names(1) [OF nm fl(1,2)] in \<open>auto simp: calm_def quiet_def\<close>)
  then show ?thesis
    unfolding BootArtifact_Reconcile_def Let_def
  proof (intro wp_api_call_bind [where f = "Get_BootArtifact (bar_Client r) ns name", OF get], simp only: sum.case,
      rule wp_try, goal_cases)
    case (2 n w1)
    have "wp (verifyExisting r a (filePath r a)) (\<lambda>x w'. x = Inr True \<and> w_fs w' = w_fs w1
        \<and> (ba_Phase (ba_Status a) = BootArtifactPhaseReady \<or> last_ready r a w')) w1"
      by (rule verifyExisting_calm [OF _ nm _ _ fl(3)]) (use 2 fl serving_got [OF srv get] in auto)
    then show ?case by (rule wp_try) (use 2 in \<open>auto simp: wp_return\<close>)
  qed auto
qed

text \<open>
  C5. Downloads recover. Start with room for the file of an artifact. Any number of attempts follow: in each any
  call may fail, half done, the mirror may send anything, and the process may be killed at any moment, to be
  started again over what is on disk. As soon as one attempt meets no failing call and a mirror that sends a
  body with the declared digest, it ends with the empty result, the file has the declared digest, and the
  artifact was Ready already or Ready was the last status written. No residue of the earlier
  attempts, neither a temporary file cut short nor half of the directories, needs to be cleared away.
\<close>

theorem Reconcile_recovers:
  assumes "rooted (bar_DataDir r)" and "safe_component (om_name (ba_meta a))" and "CHR 0x00 \<notin> set (filePath r a)"
    and "good_server (bar_Client r)" and "offers r ns name a w" and "slot_of r a w"
    and "(attempt r ns name a)\<^sup>*\<^sup>* w w1"
    and "calm w1" and "reply_ok r (ba_URL (ba_Spec a)) body" and "digest_ok r a body"
    and "run_state (BootArtifact_Reconcile r ns name) w1 = (out, w2)"
  shows "out = Result 0 \<and> (\<exists>c. read_file (filePath r a) (w_fs w2) = Some c \<and> digest_ok r a c)
     \<and> (last_ready r a w2 \<or> (\<exists>b s. Get_BootArtifact (bar_Client r) ns name (w_api w1) = (Inr b, s)
          \<and> ba_Phase (ba_Status b) = BootArtifactPhaseReady))"
proof -
  let ?d = "art_dir r (om_name (ba_meta a))" and ?f = "FilenameFromURL (ba_URL (ba_Spec a))"
  have "offers r ns name a w1" and sl: "slot_of r a w1" using attempts_slot [OF assms(1,2,7,5,6)] by blast+
  then obtain b s where b: "Get_BootArtifact (bar_Client r) ns name (w_api w1) = (Inr b, s)"
      "ba_Spec b = ba_Spec a" "om_name (ba_meta b) = om_name (ba_meta a)" "same_key b a"
    by (auto simp: offers_def same_key_def)
  have fp: "filePath r b = filePath r a" using b(2,3) by (simp add: filePath_def)
  have N: "art_names (filePath r b) ?d ?f" using filePath_names [OF assms(1-3)] by (simp add: fp)
  have dig: "digest_ok r b c \<longleftrightarrow> digest_ok r a c" for c by (rule digest_ok_Spec [OF b(2)])
  note nm = art_namesD(2) [OF N, unfolded fp]
  have key: "last_ready r b w2 \<Longrightarrow> last_ready r a w2"
    using b(4) by (auto simp: last_ready_def same_key_def)
  show ?thesis
  proof (cases "\<exists>c t m. plain_dir (w_fs w1) ?d \<and> look (w_fs w1) (?d @ [?f]) = Some (FileN c t m) \<and> digest_ok r a c")
    case True
    then obtain c t m where c: "plain_dir (w_fs w1) ?d" "look (w_fs w1) (?d @ [?f]) = Some (FileN c t m)" "digest_ok r a c" by blast
    show ?thesis
      using wpD [OF Reconcile_verified [OF b(1) N assms(8,4) c(1,2) dig [THEN iffD2, OF c(3)]] assms(11)]
        read_file_names(4) [OF nm c(1)] c b key by auto
  next
    case False
    then have "look (w_fs w1) (?d @ [?f]) = None \<or> (\<exists>c t m. plain_dir (w_fs w1) ?d
        \<and> look (w_fs w1) (?d @ [?f]) = Some (FileN c t m) \<and> \<not> digest_ok r b c)"
      using sl dig by (auto simp: slot_ok_def)
    moreover have "reply_ok r (ba_URL (ba_Spec b)) body" "digest_ok r b body" using assms(9,10) b(2) dig by simp_all
    moreover have "art_slot (w_fs w1) ?d ?f" using sl by (simp add: slot_ok_def)
    ultimately have "out = Result 0" "stored ?d ?f body w2" "last_ready r b w2"
      using wpD [OF Reconcile_downloads [OF b(1) N assms(8,4)] assms(11)] by blast+
    then show ?thesis
      using read_file_names(4) [OF nm] assms(10) key unfolding stored_def by blast
  qed
qed

text \<open>The disk fills up in the middle of the download, and the process is killed.\<close>

definition broken_sched :: "os_event list" where
  "broken_sched = [Runs 2, Runs 1, Runs 0, Fails 1 ENOSPC 2]"

definition sample_start :: "BootArtifact world" where
  "sample_start = sample_world [] broken_sched (sample_artifact BootArtifactPhasePending)"

abbreviation "sample_rec \<equiv> sample_reconciler sample_reply"

definition broken_run :: "ctrl_out \<times> BootArtifact world" where
  "broken_run = run_state (BootArtifact_Reconcile sample_rec ''default'' ''vmlinuz'') sample_start"

text \<open>The kill leaves two bytes of the temporary file.\<close>

definition sample_again :: "BootArtifact world" where
  "sample_again = (snd broken_run)\<lparr>w_fs := hd (tl (w_trace (snd broken_run))), w_sched := []\<rparr>"

lemma broken_facts:
  "length (w_trace (snd broken_run)) = 6"
  "ba_Spec (w_api (snd broken_run)) = sample_spec" "om_name (ba_meta (w_api (snd broken_run))) = ''vmlinuz''"
  "om_namespace (ba_meta (w_api (snd broken_run))) = ''default''" "ba_Phase (ba_Status (w_api (snd broken_run))) = BootArtifactPhaseError"
  "look (w_fs sample_again) [''data'', ''artifacts'', ''vmlinuz'', ''kernel.tmp''] = Some (FileN ''ab'' 5 420)"
proof -
  have "(case broken_run of (x, w) \<Rightarrow> (length (w_trace w), ba_Spec (w_api w), ba_meta (w_api w), ba_Phase (ba_Status (w_api w)),
      look (hd (tl (w_trace w))) [''data'', ''artifacts'', ''vmlinuz'', ''kernel.tmp'']))
    = (6, sample_spec, ba_meta (sample_artifact BootArtifactPhasePending), BootArtifactPhaseError, Some (FileN ''ab'' 5 420))"
    by code_simp
  then show "length (w_trace (snd broken_run)) = 6"
      "ba_Spec (w_api (snd broken_run)) = sample_spec" "om_name (ba_meta (w_api (snd broken_run))) = ''vmlinuz''"
      "om_namespace (ba_meta (w_api (snd broken_run))) = ''default''" "ba_Phase (ba_Status (w_api (snd broken_run))) = BootArtifactPhaseError"
      "look (w_fs sample_again) [''data'', ''artifacts'', ''vmlinuz'', ''kernel.tmp''] = Some (FileN ''ab'' 5 420)"
    by (simp_all add: sample_again_def sample_artifact_def case_prod_unfold)
qed

lemma sample_artifact_simps:
  "ba_Spec (sample_artifact ph) = sample_spec" "om_namespace (ba_meta (sample_artifact ph)) = ''default''"
  by (simp_all add: sample_artifact_def)

lemma sample_offers: "offers sample_rec ''default'' ''vmlinuz'' (sample_artifact ph) w
  \<longleftrightarrow> ba_Spec (w_api w) = sample_spec \<and> om_name (ba_meta (w_api w)) = ''vmlinuz'' \<and> om_namespace (ba_meta (w_api w)) = ''default''"
proof -
  have "Get_BootArtifact (bar_Client sample_rec) ns n s = (Inr s, s)" for ns n s
    by (simp add: sample_reconciler_def sample_client_def)
  then show ?thesis by (auto simp: offers_def same_key_def sample_artifact_simps)
qed

lemma sample_attempt: "attempt sample_rec ''default'' ''vmlinuz'' (sample_artifact BootArtifactPhasePending) sample_start sample_again"
proof (rule attempt.intros)
  show "run_state (BootArtifact_Reconcile (sample_rec\<lparr>bar_HTTPClient := bar_HTTPClient sample_rec\<rparr>) ''default'' ''vmlinuz'') sample_start
      = (fst broken_run, snd broken_run)"
    by (simp add: broken_run_def)
  show "w_trace (snd broken_run) = w_trace (snd broken_run) @ w_trace sample_start"
    by (simp add: sample_start_def sample_world_def)
  have "hd (tl xs) \<in> set xs" if "length xs = 6" for xs :: "fsys list"
    using that by (cases xs; cases "tl xs") auto
  then show "w_fs sample_again \<in> insert (w_fs sample_start) (insert (w_fs (snd broken_run)) (set (w_trace (snd broken_run))))"
    using broken_facts(1) by (simp add: sample_again_def)
  show "offers sample_rec ''default'' ''vmlinuz'' (sample_artifact BootArtifactPhasePending) sample_again"
    using broken_facts(2-4) by (simp add: sample_offers sample_again_def)
qed

theorem Reconcile_recovers_witness:
  "let x = run_state (BootArtifact_Reconcile sample_rec ''default'' ''vmlinuz'') sample_again in
     fst x = Result 0 \<and> (\<exists>c. read_file ''/data/artifacts/vmlinuz/kernel'' (w_fs (snd x)) = Some c
       \<and> digest_ok sample_rec (sample_artifact BootArtifactPhasePending) c)
     \<and> last_ready sample_rec (sample_artifact BootArtifactPhasePending) (snd x)"
proof -
  let ?a = "sample_artifact BootArtifactPhasePending"
  have dig: "digest_ok sample_rec ?a ''abc''" by code_simp
  have "url_parse ''https://example.com/kernel'' = Inr ''/kernel''" by code_simp
  then have rep: "reply_ok sample_rec (ba_URL (ba_Spec ?a)) ''abc''"
    by (simp add: reply_ok_def sample_artifact_def sample_spec_def) (simp add: sample_reconciler_def)
  have st: "offers sample_rec ''default'' ''vmlinuz'' ?a sample_start"
    by (simp add: sample_offers) (simp add: sample_start_def sample_world_def sample_artifact_simps)
  have sl: "slot_of sample_rec ?a sample_start"
    unfolding sample_filename by (simp add: slot_ok_def sample_slot sample_empty sample_start_def sample_world_def)
  have "calm sample_again" by (simp add: sample_again_def calm_def)
  note cut = r_into_rtranclp [where r = "attempt sample_rec ''default'' ''vmlinuz'' ?a", OF sample_attempt]
  from Reconcile_recovers [OF sample_rooted _ _ sample_server st sl cut \<open>calm sample_again\<close> rep dig prod.collapse [symmetric]]
    broken_facts(5)
  show ?thesis
    by (simp add: Let_def sample_safe sample_filePath sample_again_def) (simp add: sample_reconciler_def sample_client_def)
qed

end
