(* ===== verification/Registration.thy ===== *)
theory Registration
  imports Prelude
begin

text \<open>
  \<^verbatim>\<open>groupversion_info.go\<close>, the \<^verbatim>\<open>init\<close> functions of \<^verbatim>\<open>api/v1alpha1\<close> and the schemes of the two programs: the
  registration of the API types under their group, version and kind. The types of \<^verbatim>\<open>client-go\<close> and what
  \<^verbatim>\<open>metav1.AddToGroupVersion\<close> adds to a group are parameters.
\<close>

section \<open>Schemes\<close>

datatype api_type =
    BootArtifactType | BootArtifactListType | BootConfigType | BootConfigListType | MachineType | MachineListType
  | ProvisionType | ProvisionListType | ProvisionAutomationType | ProvisionAutomationListType

text \<open>The name that reflection gives a type is its kind.\<close>

fun type_name :: "api_type \<Rightarrow> string" where
  "type_name BootArtifactType = ''BootArtifact''"
| "type_name BootArtifactListType = ''BootArtifactList''"
| "type_name BootConfigType = ''BootConfig''"
| "type_name BootConfigListType = ''BootConfigList''"
| "type_name MachineType = ''Machine''"
| "type_name MachineListType = ''MachineList''"
| "type_name ProvisionType = ''Provision''"
| "type_name ProvisionListType = ''ProvisionList''"
| "type_name ProvisionAutomationType = ''ProvisionAutomation''"
| "type_name ProvisionAutomationListType = ''ProvisionAutomationList''"

datatype 'l go_type = Own api_type | Lib 'l

type_synonym group_version = "string \<times> string"
type_synonym 'l scheme = "group_version \<times> string \<rightharpoonup> 'l go_type"

text \<open>\<^verbatim>\<open>AddKnownTypes\<close> panics on a kind that another type has already.\<close>

fun AddKnownTypes :: "group_version \<Rightarrow> api_type list \<Rightarrow> 'l scheme \<Rightarrow> string + 'l scheme" where
  "AddKnownTypes gv [] s = Inr s"
| "AddKnownTypes gv (t # ts) s =
     (case s (gv, type_name t) of
        Some old \<Rightarrow> if old \<noteq> Own t then Inl ''Double registration of different types''
          else AddKnownTypes gv ts s
      | None \<Rightarrow> AddKnownTypes gv ts (s((gv, type_name t) \<mapsto> Own t)))"

section \<open>The builder\<close>

record Builder =
  sb_GroupVersion :: group_version
  sb_registered :: "api_type list list"

definition GroupVersion :: group_version where
  "GroupVersion = (''isoboot.github.io'', ''v1alpha1'')"

definition SchemeBuilder :: Builder where
  "SchemeBuilder = \<lparr>sb_GroupVersion = GroupVersion, sb_registered = []\<rparr>"

definition Register :: "api_type list \<Rightarrow> Builder \<Rightarrow> Builder" where
  "Register ts b = b\<lparr>sb_registered := sb_registered b @ [ts]\<rparr>"

definition init_bootartifact :: "Builder \<Rightarrow> Builder" where
  "init_bootartifact = Register [BootArtifactType, BootArtifactListType]"

definition init_bootconfig :: "Builder \<Rightarrow> Builder" where
  "init_bootconfig = Register [BootConfigType, BootConfigListType]"

definition init_machine :: "Builder \<Rightarrow> Builder" where
  "init_machine = Register [MachineType, MachineListType]"

definition init_provision :: "Builder \<Rightarrow> Builder" where
  "init_provision = Register [ProvisionType, ProvisionListType]"

definition init_provisionautomation :: "Builder \<Rightarrow> Builder" where
  "init_provisionautomation = Register [ProvisionAutomationType, ProvisionAutomationListType]"

text \<open>The \<^verbatim>\<open>init\<close> functions run in the order of the file names.\<close>

definition api_builder :: Builder where
  "api_builder = init_provisionautomation (init_provision (init_machine (init_bootconfig (init_bootartifact SchemeBuilder))))"

fun add_registered :: "(group_version \<Rightarrow> 'l scheme \<Rightarrow> 'l scheme) \<Rightarrow> group_version \<Rightarrow> api_type list list \<Rightarrow> 'l scheme \<Rightarrow> string + 'l scheme" where
  "add_registered meta gv [] s = Inr s"
| "add_registered meta gv (ts # tss) s =
     (case AddKnownTypes gv ts s of Inl panic \<Rightarrow> Inl panic | Inr s' \<Rightarrow> add_registered meta gv tss (meta gv s'))"

definition AddToScheme :: "(group_version \<Rightarrow> 'l scheme \<Rightarrow> 'l scheme) \<Rightarrow> 'l scheme \<Rightarrow> string + 'l scheme" where
  "AddToScheme meta = add_registered meta (sb_GroupVersion api_builder) (sb_registered api_builder)"

section \<open>The schemes of the programs\<close>

text \<open>\<^verbatim>\<open>init\<close> of \<^verbatim>\<open>cmd/main.go\<close>; \<^verbatim>\<open>main\<close> of \<^verbatim>\<open>cmd/httpd/main.go\<close> does the same to a scheme of its own. \<^verbatim>\<open>Must\<close> panics on an error.\<close>

definition manager_scheme ::
  "('l scheme \<Rightarrow> string + 'l scheme) \<Rightarrow> (group_version \<Rightarrow> 'l scheme \<Rightarrow> 'l scheme) \<Rightarrow> string + 'l scheme" where
  "manager_scheme clientgo meta =
     (case clientgo Map.empty of Inl err \<Rightarrow> Inl err | Inr s \<Rightarrow> AddToScheme meta s)"

definition httpd_scheme ::
  "('l scheme \<Rightarrow> string + 'l scheme) \<Rightarrow> (group_version \<Rightarrow> 'l scheme \<Rightarrow> 'l scheme) \<Rightarrow> string + 'l scheme" where
  "httpd_scheme clientgo meta =
     (case clientgo Map.empty of Inl err \<Rightarrow> Inl err | Inr sch \<Rightarrow> AddToScheme meta sch)"

section \<open>Every type is known by its kind\<close>

lemma type_name_inj [simp]: "type_name a = type_name b \<longleftrightarrow> a = b"
  by (cases a; cases b) simp_all

text \<open>The library leaves the kinds of the program alone.\<close>

definition meta_apart :: "(group_version \<Rightarrow> 'l scheme \<Rightarrow> 'l scheme) \<Rightarrow> bool" where
  "meta_apart meta \<longleftrightarrow> (\<forall>gv s gv' t. meta gv s (gv', type_name t) = s (gv', type_name t))"

text \<open>What is known of the program's kinds, when nothing but the program registers them.\<close>

definition knows :: "group_version \<Rightarrow> api_type set \<Rightarrow> 'l scheme \<Rightarrow> bool" where
  "knows gv ts s \<longleftrightarrow> (\<forall>t. s (gv, type_name t) = (if t \<in> ts then Some (Own t) else None))"

lemma AddKnownTypes_knows: "knows gv k s \<Longrightarrow> \<exists>s'. AddKnownTypes gv ts s = Inr s' \<and> knows gv (k \<union> set ts) s'"
proof (induction ts arbitrary: s k)
  case (Cons t ts)
  have kn: "knows gv (insert t k) (s((gv, type_name t) \<mapsto> Own t))" using Cons.prems by (simp add: knows_def)
  show ?case
  proof (cases "t \<in> k")
    case True
    then have "s (gv, type_name t) = Some (Own t)" using Cons.prems by (simp add: knows_def)
    then show ?thesis using Cons.IH [OF Cons.prems] True by (simp add: insert_absorb)
  next
    case False
    then have "s (gv, type_name t) = None" using Cons.prems by (simp add: knows_def)
    then show ?thesis using Cons.IH [OF kn] by (simp del: fun_upd_apply)
  qed
qed simp

lemma add_registered_knows:
  assumes "meta_apart meta"
  shows "knows gv k s \<Longrightarrow> \<exists>s'. add_registered meta gv tss s = Inr s' \<and> knows gv (k \<union> set (concat tss)) s'"
proof (induction tss arbitrary: s k)
  case (Cons ts tss)
  obtain s1 where s1: "AddKnownTypes gv ts s = Inr s1" "knows gv (k \<union> set ts) s1"
    using AddKnownTypes_knows [OF Cons.prems] by blast
  moreover have "meta gv s1 (gv, type_name t) = s1 (gv, type_name t)" for t using assms unfolding meta_apart_def by blast
  ultimately have "knows gv (k \<union> set ts) (meta gv s1)" by (simp add: knows_def)
  from Cons.IH [OF this] show ?case using s1(1) by (simp add: Un_assoc)
qed simp

text \<open>
  The registration is complete: neither program panics on it, and every object and every list of the API that a
  client may send or receive has its type under its kind.
\<close>

theorem all_kinds_known:
  assumes "clientgo Map.empty = Inr s0" and "\<forall>k. s0 (GroupVersion, k) = None" and "meta_apart meta"
  shows "\<exists>s. manager_scheme clientgo meta = Inr s \<and> httpd_scheme clientgo meta = Inr s
     \<and> (\<forall>t. s (GroupVersion, type_name t) = Some (Own t))"
proof -
  have "knows GroupVersion {} s0" using assms(2) by (simp add: knows_def)
  moreover have b: "sb_GroupVersion api_builder = GroupVersion" "set (concat (sb_registered api_builder)) = UNIV"
    by (simp_all add: api_builder_def init_bootartifact_def init_bootconfig_def init_machine_def init_provision_def
        init_provisionautomation_def Register_def SchemeBuilder_def)
      (auto intro: api_type.exhaust)
  ultimately show ?thesis
    using add_registered_knows [OF assms(3), of GroupVersion "{}" s0 "sb_registered api_builder"] assms(1)
    by (simp add: manager_scheme_def httpd_scheme_def AddToScheme_def knows_def)
qed

theorem all_kinds_known_witness:
  "\<exists>s :: unit scheme. manager_scheme Inr (\<lambda>gv s. s((gv, ''WatchEvent'') \<mapsto> Lib ())) = Inr s
     \<and> s ((''isoboot.github.io'', ''v1alpha1''), ''ProvisionList'') = Some (Own ProvisionListType)"
proof -
  let ?meta = "\<lambda>gv s. s((gv, ''WatchEvent'') \<mapsto> Lib ())"
  have "type_name t \<noteq> ''WatchEvent''" for t by (cases t) simp_all
  then have "meta_apart ?meta" by (simp add: meta_apart_def)
  then have "\<exists>s :: unit scheme. manager_scheme Inr ?meta = Inr s \<and> httpd_scheme Inr ?meta = Inr s
     \<and> (\<forall>t. s (GroupVersion, type_name t) = Some (Own t))"
    by (intro all_kinds_known [where clientgo = Inr and ?s0.0 = Map.empty]) simp_all
  then obtain s :: "unit scheme" where s: "manager_scheme Inr ?meta = Inr s" "s (GroupVersion, type_name ProvisionListType) = Some (Own ProvisionListType)"
    by blast
  show ?thesis by (rule exI [of _ s]) (use s in \<open>simp add: GroupVersion_def\<close>)
qed

end
