(* ===== verification/TestSupport.thy ===== *)
theory TestSupport
  imports CalmRules DirRules
begin

text \<open>
  \<^verbatim>\<open>internal/envtestutil\<close>: where the tests find the binaries of the control plane. The working directory is the root of
  the model's file system.
\<close>

text \<open>\<^verbatim>\<open>os.ReadDir\<close> with what \<^verbatim>\<open>IsDir\<close> says of each entry: a link is not a directory.\<close>

definition fs_read_entries :: "string \<Rightarrow> fsys \<Rightarrow> errno + (string \<times> bool) list" where
  "fs_read_entries s fs =
     (case resolve True fs s of
        Inl e \<Rightarrow> Inl e
      | Inr p \<Rightarrow>
          (case fs_read_dir s fs of
             Inl e \<Rightarrow> Inl e
           | Inr cs \<Rightarrow> Inr (map (\<lambda>c. (c, case look fs (p @ [c]) of Some (DirN _) \<Rightarrow> True | _ \<Rightarrow> False)) cs)))"

definition GetFirstFoundBinaryDir :: "string \<Rightarrow> ('s, string) io" where
  "GetFirstFoundBinaryDir basePath =
     (let dir = Join [basePath, ''bin'', ''k8s''] in do {
        entries \<leftarrow> os_call (PathError ''open'' dir) read_only (\<lambda>t fs. (fs_read_entries dir fs, fs));
        State_Monad.return
          (case entries of
             Inl err \<Rightarrow> []
           | Inr es \<Rightarrow> (case find snd es of None \<Rightarrow> [] | Some entry \<Rightarrow> Join [dir, fst entry]))
      })"

text \<open>
  Whatever fails, the answer is empty or the first directory, in the order of names, among the entries of
  \<^verbatim>\<open>bin/k8s\<close>, and nothing on disk changes.
\<close>

lemma first_binary_dir:
  "wp (GetFirstFoundBinaryDir base) (\<lambda>x w'. w_fs w' = w_fs w \<and> (x = [] \<or>
     (\<exists>p c t. resolve True (w_fs w) (Join [base, ''bin'', ''k8s'']) = Inr p \<and> look (w_fs w) (p @ [c]) = Some (DirN t)
        \<and> x = Join [Join [base, ''bin'', ''k8s''], c]
        \<and> (\<forall>e u. look (w_fs w) (p @ [e]) = Some (DirN u) \<longrightarrow> c \<le> e)))) w"
proof -
  let ?dir = "Join [base, ''bin'', ''k8s'']" and ?fs = "w_fs w"
  have found: "\<exists>p c t. resolve True ?fs ?dir = Inr p \<and> look ?fs (p @ [c]) = Some (DirN t) \<and> entry = (c, True)
      \<and> (\<forall>e u. look ?fs (p @ [e]) = Some (DirN u) \<longrightarrow> c \<le> e)"
    if es: "fs_read_entries ?dir ?fs = Inr es" "find snd es = Some entry" for es entry
  proof -
    obtain p cs where p: "resolve True ?fs ?dir = Inr p" "cs = children p ?fs"
        "es = map (\<lambda>c. (c, case look ?fs (p @ [c]) of Some (DirN _) \<Rightarrow> True | _ \<Rightarrow> False)) cs"
      using es(1) by (auto simp: fs_read_entries_def fs_read_dir_def split: sum.splits option.splits node.splits)
    obtain k where k: "k < length cs" "entry = es ! k" "snd (es ! k)" "\<forall>j < k. \<not> snd (es ! j)"
      using es(2) p(3) by (auto simp: find_Some_iff)
    then obtain t where t: "look ?fs (p @ [cs ! k]) = Some (DirN t)"
      by (auto simp: p(3) split: option.splits node.splits)
    have "cs ! k \<le> e" if "look ?fs (p @ [e]) = Some (DirN u)" for e u
    proof -
      have "e \<in> set cs" using that by (simp add: p(2) set_children)
      then obtain j where j: "j < length cs" "cs ! j = e" by (auto simp: in_set_conv_nth)
      then have "\<not> j < k" using k(4) that by (auto simp: p(3))
      moreover have "sorted cs" by (simp add: p(2) children_def)
      ultimately show ?thesis using j k(1) by (metis not_less sorted_nth_mono)
    qed
    then show ?thesis using p k t by (intro exI [of _ p] exI [of _ "cs ! k"] exI [of _ t]) simp
  qed
  show ?thesis
    unfolding GetFirstFoundBinaryDir_def Let_def wp_bind wp_return
  proof (rule wp_os_call, goal_cases)
    case (1 x w')
    then have x: "x = fs_read_entries ?dir ?fs" "w_fs w' = ?fs" by auto
    show ?case
    proof (cases x)
      case (Inr es)
      show ?thesis
      proof (cases "find snd es")
        case (Some entry)
        obtain p c t where "resolve True ?fs ?dir = Inr p" "look ?fs (p @ [c]) = Some (DirN t)" "entry = (c, True)"
            "\<forall>e u. look ?fs (p @ [e]) = Some (DirN u) \<longrightarrow> c \<le> e"
          using found [OF x(1) [symmetric, unfolded Inr] Some] by blast
        then show ?thesis
          using x(2) Inr Some by (intro conjI disjI2 exI [of _ p] exI [of _ c] exI [of _ t]) simp_all
      qed (simp add: x(2) Inr)
    qed (simp add: x(2))
  qed (simp add: read_only_def)
qed

end
