(* ===== verification/Spec2Isabelle.thy ===== *)
theory Spec2Isabelle
  imports StatusShape MainProps Installation DeepCopyProps Recovery Registration TestSupport
begin

text \<open>
  isoboot: network installation of machines from a Kubernetes cluster. The program is two Go binaries
  over one set of custom resources (\<^verbatim>\<open>api/v1alpha1\<close>) and one data directory.

  \<^bold>\<open>The program.\<close> The controller manager (\<^verbatim>\<open>cmd/main.go\<close>, \<^verbatim>\<open>internal/controller\<close>) runs three reconcilers:
  \<^item> \<^verbatim>\<open>BootArtifact\<close>: downloads the file of an artifact to \<^verbatim>\<open>DataDir/artifacts/name/file\<close> and keeps it equal to
    its declared digest;
  \<^item> \<^verbatim>\<open>BootConfig\<close>: assembles \<^verbatim>\<open>DataDir/boot/name\<close> from ready artifacts, by symbolic links and concatenation
    (netboot) or by extraction from an ISO image;
  \<^item> \<^verbatim>\<open>Provision\<close>: gives a new provision the phase Pending.
  The HTTP server (\<^verbatim>\<open>cmd/httpd\<close>, \<^verbatim>\<open>internal/httpd\<close>) answers a booting machine with an iPXE script
  for its pending provision, renders automation files for the installer, and takes the
  installer's reports that move the phase on. The parts share no memory: they meet in the API server, whose
  updates are checked by resource version, and in the data directory, which nginx serves.

  \<^bold>\<open>The model.\<close> Strings are lists of bytes. A Go struct is a record, a phase type a datatype, \<^verbatim>\<open>int32\<close> a word of 32 bits,
  a pair of value and error a sum with the error on the left. Effectful code is a program of the state
  monad over \<open>world\<close> (\<open>World\<close>): file system, schedule, clock, random draws and the state of the API server.
  \<^item> \<open>Prelude\<close>: the weakest-precondition calculus and the hint collections.
  \<^item> \<open>GoText\<close>, \<open>GoPath\<close>, \<open>GoUrl\<close>, \<open>GoNet\<close>, \<open>RegexpLite\<close>: what the code uses of Go's \<^verbatim>\<open>strings\<close>, \<^verbatim>\<open>path/filepath\<close>,
    \<^verbatim>\<open>net/url\<close>, \<^verbatim>\<open>net\<close> and \<^verbatim>\<open>regexp\<close>; \<open>Urlutil\<close>: \<^verbatim>\<open>internal/urlutil\<close>.
  \<^item> \<open>ApiTypes\<close>: the resources and the validation rules of their markers.
  \<^item> \<open>FileSys\<close>, \<open>Syscalls\<close>: a POSIX file system with symbolic links, and the system calls on it; \<open>World\<close>: package \<^verbatim>\<open>os\<close>
    over them, where every call runs or fails by an arbitrary schedule, a failing call leaving part of its
    work. Two ghost fields keep every file system gone through and every status written.
  \<^item> \<open>ArtifactController\<close>, \<open>ConfigController\<close>, \<open>HttpdProvision\<close>: the reconcilers, function by function under the names of the source.
  \<^item> \<open>Indexers\<close>, \<open>HttpdProvision\<close>, \<open>HttpdBoot\<close>, \<open>HttpdAutomation\<close>, \<open>HttpdServer\<close>: the field indexes, the
    functions of \<^verbatim>\<open>internal/httpd\<close>, and the handlers and routes of \<^verbatim>\<open>cmd/httpd/main.go\<close>.
  \<^item> \<open>HttpWire\<close>: \<^verbatim>\<open>net/url.ParseQuery\<close> and the form of a request, from what is on the wire to what the handlers read.
  \<^item> \<open>Registration\<close>: \<^verbatim>\<open>groupversion_info.go\<close>, the \<^verbatim>\<open>init\<close> functions of the API and the schemes of both programs, with the
    theorem that every kind is registered; \<open>TestSupport\<close>: \<^verbatim>\<open>internal/envtestutil\<close>.
  \<^item> \<open>GoFlag\<close>: Go's \<^verbatim>\<open>flag\<close> package; \<open>Startup\<close>, \<open>ManagerMain\<close>: \<^verbatim>\<open>cmd/main.go\<close> and the \<^verbatim>\<open>SetupWithManager\<close> methods, from the command
    line to the start of the manager; \<open>HttpdMain\<close>: \<^verbatim>\<open>main\<close> of \<^verbatim>\<open>cmd/httpd/main.go\<close>, with the process as an inductive step relation
    over its threads, channels and signals.

  \<^item> \<open>GoHeap\<close>, \<open>DeepCopy\<close>: memory with pointers, slices and maps, and \<^verbatim>\<open>zz_generated.deepcopy.go\<close> over it. Everywhere else an object of the
    API is its value, which is sound because the cache hands out deep copies.

  \<^bold>\<open>Interfaces.\<close> The locale \<open>filename_source\<close> (\<open>Urlutil\<close>) is what the controllers need of a file name taken from a
  URL; \<open>dir_client\<close> (\<open>DirRules\<close>) is what code that works in one directory relies on and promises, interpreted for
  the three ways in which the config reconciler uses its directories (\<open>ConfigInv\<close>); \<open>field_index\<close> (\<open>Indexers\<close>) is the
  contract between the registered indexes and the lookups; \<open>os_blind\<close> (\<open>OsBlind\<close>) is an invariant that the operating system has no part
  in, interpreted for the statuses written (\<open>StatusShape\<close>) and for the objects of the server (\<open>ObjectStore\<close>); \<open>deep_copier\<close> (\<open>GoHeap\<close>) is what a deep copy promises, kept by every generated one (\<open>DeepCopyProps\<close>).

  \<^bold>\<open>The proofs.\<close>
  \<^item> \<open>WorldRules\<close>, \<open>CalmRules\<close>, \<open>DirRules\<close>: the rule of each call for all schedules, for schedules without faults, and
    for work inside one directory.
  \<^item> \<open>ArtifactCorrect\<close>, \<open>ArtifactRuns\<close>, \<open>ArtifactLive\<close>, \<open>ArtifactProps\<close>: under all faults a published file is old, absent or verified, Ready is only
    written over a verified file, and only the artifact's own directory changes; without faults one
    reconciliation reaches Ready, or backs off.
  \<^item> \<open>Recovery\<close>: attempts cut short by faults, bad mirrors and kills, as an inductive step relation between worlds; whatever they leave on
    disk, the first undisturbed attempt ends with the verified file.
  \<^item> \<open>ConfigCorrect\<close>, \<open>ConfigInv\<close>, \<open>ConfigRuns\<close>, \<open>ConfigProps\<close>: Ready is only written of an assembled boot directory, extraction and
    concatenation are atomic, only the boot directory changes, a deleted config leaves nothing.
  \<^item> \<open>LinkLive\<close>, \<open>ConcatLive\<close>, \<open>ConfigLive\<close>, \<open>ConfigProgress\<close>: without faults one reconciliation of a netboot config with ready artifacts
    assembles its directory and reports it, and the next one changes nothing.
  \<^item> \<open>IsoLive\<close>: the same for a config that names an ISO image: one reconciliation extracts the kernel and the initrd next to the link.
  \<^item> \<open>ObjectStore\<close>, \<open>ClusterServer\<close>: the contract of an API server that stores objects, what every operation of the reconcilers keeps of
    the stored objects, and a concrete server with resource versions that keeps the contract.
  \<^item> \<open>EndToEnd\<close>, \<open>EndToEndIso\<close>: the whole way, from stored objects and an empty data directory through both reconcilers to the
    boot directive and the bytes behind its paths, in netboot and in ISO mode.
  \<^item> \<open>ProvisionStore\<close>, \<open>Installation\<close>: a store that keeps provisions too, and the life of one installation: the three
    reconcilers, the script that the machine gets over HTTP, the reports of the installer, and no second installation.
  \<^item> \<open>DeepCopyProps\<close>: a deep copy stands for the same value and shares no memory with its original.
  \<^item> \<open>StatusShape\<close>: every status a reconciler writes is well-formed.
  \<^item> \<open>ProvisionPhases\<close>, \<open>ProvisionProps\<close>: reads and updates of many requests interleaved as an inductive step relation over an abstract server with
    optimistic concurrency; it refines the abstract life of a provision, the phase only moves
    forward, of two reports one wins.
  \<^item> \<open>HttpdProps\<close>: the answers of the three endpoints in terms of what the cluster holds and of what they did; the
    lookup by MAC address equals its specification.
  \<^item> \<open>BootChain\<close>: the paths in a boot directive lead, through the links of the config reconciler, to files with the
    declared digests.
  \<^item> \<open>MainProps\<close>: the command line is read back as written, nothing starts before its preparations, the servers are
    secured by default, and the HTTP server's process ends with the right code, except for an error that it misses.

  \<^bold>\<open>Bounds.\<close> Resolving a path follows at most 40 links, as Linux does, and then fails with \<^verbatim>\<open>ELOOP\<close>; the recursion of
  \<open>walk\<close> is on this number and the path. \<open>create_temp\<close> tries 10000 names, as \<^verbatim>\<open>os.CreateTemp\<close> does. Nothing else is bounded:
  all definitions are total functions, so every theorem is about runs that return.

  \<^bold>\<open>Parameters and hypotheses.\<close> The API server (\<open>Client\<close>) is a record of operations over an opaque state; what it
  promises is stated where it is needed: \<open>good_server\<close> (what it holds, it updates and serves) and \<open>reply_ok\<close> for the download, \<open>object_store\<close>
  and \<open>provision_store\<close> for the whole way, \<open>renders\<close> (the templates of the arguments do not fail), \<open>lists_by_index\<close> for the lists
  of the cache, \<open>versioned\<close> for conditional updates, \<open>sync_sound\<close> and \<open>sync_waits\<close> for the wait for the caches. \<open>lib_ok\<close>
  says that the library's copies of metadata and times are deep copies, and that \<^verbatim>\<open>range\<close> visits every entry of a map once. The HTTP client, SHA-256 and SHA-512, \<^verbatim>\<open>go-diskfs\<close> and \<^verbatim>\<open>text/template\<close> are
  functions given to the definitions. Progress of the config reconciler takes \<open>config_server\<close> (a status update is accepted), \<open>all_ready\<close>,
  \<open>boot_room\<close> (nothing but directories on the way) and \<open>sources_ok\<close> (the sources of a concatenation are on disk). In ISO mode it takes \<open>image_ok\<close> (the image holds both files,
  within the limit on extracted files) and \<open>iso_room\<close> (room in the boot directory, and an image that is called neither
  \<^verbatim>\<open>vmlinuz\<close> nor \<^verbatim>\<open>initrd\<close>, whose link would take the place of an extracted file). Names of objects are single path components, which the API server enforces.

  \<^bold>\<open>Not modelled.\<close> Logging and events other than the one of a mismatch; what controller-runtime does with its
  options and registrations (work queues, leader election, the sync of a cache), which is a parameter where the code depends
  on it; the request line, the headers and multipart bodies of an HTTP request, which are taken as parsed (queries and
  forms are parsed in the model), and the
  redirects of \<^verbatim>\<open>http.ServeMux\<close> for unclean paths; cancellation by context; two processes on the same data
  directory. The end-to-end test helpers of \<^verbatim>\<open>test/utils\<close> only run other programs. \<^verbatim>\<open>%q\<close> copies bytes above 127. The mtime of a file is the clock of its last write.
\<close>

end
